(* ===== verification/Prelude.thy ===== *)
theory Prelude
  imports Main "HOL-Library.Word" "HOL-Library.Signed_Division"
begin

text \<open>
  Shared vocabulary of the development: the exceptions of the C++ code as a datatype, the
  result type and its sequencing combinators, the conversions between C++ integer types
  that the code relies on, and the list lemmas used by several components.

  Every operation of the program that can throw returns \<open>err + 'a\<close>: \<open>Inl\<close> is the
  exception, \<open>Inr\<close> the value (with the updated state). Reading or writing outside an
  array and dereferencing a null pointer are undefined in C++; they are the error
  \<open>UndefinedBehaviour\<close>, so a theorem that an operation returns \<open>Inr\<close> also says
  that it stays inside its arrays. A loop that never ends is the error \<open>Diverges\<close>.
\<close>

unbundle bit_operations_syntax


section \<open>Exceptions and results\<close>

datatype constraint_violation =
    UNIQUE_CONSTRAINT_INSERT_NULL_VALUE
  | UNIQUE_CONSTRAINT_INSERT_DUPLICATE_VALUE
  | UNIQUE_CONSTRAINT_DROP_NOT_NULL

datatype err =
    LengthError
  | OutOfRange
  | InvalidArgument
  | RuntimeError
  | DomainError
  | ConstraintViolationError constraint_violation
  | BadAnyCast
  | BadAlloc
  | InvalidOperandsException
  | NullMaskOperationInvalidOperandException
  | TableNotFoundFromException
  | ColumnNotFoundException
  | ColumnAmbiguityException
  | AliasRedefinitionException
  | UndefinedBehaviour
  | Diverges

type_synonym 'a result = "err + 'a"

fun bindR :: "'a result \<Rightarrow> ('a \<Rightarrow> 'b result) \<Rightarrow> 'b result" where
  "bindR (Inl e) f = Inl e"
| "bindR (Inr x) f = f x"

fun mapR :: "('a \<Rightarrow> 'b) \<Rightarrow> 'a result \<Rightarrow> 'b result" where
  "mapR f (Inl e) = Inl e"
| "mapR f (Inr x) = Inr (f x)"

fun traverseR :: "('a \<Rightarrow> 'b result) \<Rightarrow> 'a list \<Rightarrow> 'b list result" where
  "traverseR f [] = Inr []"
| "traverseR f (x # xs) = bindR (f x) (\<lambda>y. mapR (Cons y) (traverseR f xs))"

lemma traverse_map: "\<forall>x\<in>set xs. f (g x) = Inr x \<Longrightarrow> traverseR f (map g xs) = Inr xs"
  by (induction xs) simp_all

fun foldR :: "('a \<Rightarrow> 's \<Rightarrow> 's result) \<Rightarrow> 'a list \<Rightarrow> 's \<Rightarrow> 's result" where
  "foldR f [] s = Inr s"
| "foldR f (x # xs) s = bindR (f x s) (foldR f xs)"

lemma bindR_Inr_iff [simp]:
  "bindR r f = Inr y \<longleftrightarrow> (\<exists>x. r = Inr x \<and> f x = Inr y)"
  by (cases r) auto

lemma bindR_Inl_iff:
  "bindR r f = Inl e \<longleftrightarrow> r = Inl e \<or> (\<exists>x. r = Inr x \<and> f x = Inl e)"
  by (cases r) auto

lemma mapR_Inr_iff [simp]: "mapR f r = Inr y \<longleftrightarrow> (\<exists>x. r = Inr x \<and> y = f x)"
  by (cases r) auto

lemma foldR_append: "foldR f (xs @ ys) s = bindR (foldR f xs s) (foldR f ys)"
proof (induction xs arbitrary: s)
  case Nil
  then show ?case by simp
next
  case (Cons x xs)
  show ?case by (cases "f x s") (simp_all add: Cons.IH)
qed

lemma foldR_invariant:
  assumes "foldR f xs s = Inr t" and "I s"
    and "\<And>x s s'. x \<in> set xs \<Longrightarrow> I s \<Longrightarrow> f x s = Inr s' \<Longrightarrow> I s'"
  shows "I t"
  using assms
proof (induction xs arbitrary: s)
  case Nil
  then show ?case by simp
next
  case (Cons x xs)
  from Cons.prems(1) obtain s1 where s1: "f x s = Inr s1" and rest: "foldR f xs s1 = Inr t"
    by auto
  from Cons.prems(2,3) s1 have "I s1" by auto
  with rest Cons.prems(3) show ?case by (auto intro: Cons.IH)
qed

section \<open>C++ integers\<close>

type_synonym int8 = "8 word"
type_synonym int32 = "32 word"
type_synonym int64 = "64 word"
type_synonym nullmask = "64 word"

definition UINT32_MAX :: "32 word" where
  "UINT32_MAX = - 1"

text \<open>Conversion of an integer to a 32-bit signed value, as an implicit cast to \<open>int\<close> does.\<close>

definition to_int32 :: "int \<Rightarrow> int" where
  "to_int32 i = sint (word_of_int i :: int32)"

lemma to_int32_id: "- (2 ^ 31) \<le> i \<Longrightarrow> i < 2 ^ 31 \<Longrightarrow> to_int32 i = i"
  by (simp add: to_int32_def sint_sbintrunc' signed_take_bit_int_eq_self)

text \<open>The same to \<open>int64_t\<close> or \<open>ptrdiff_t\<close>.\<close>

definition to_int64 :: "int \<Rightarrow> int" where
  "to_int64 i = sint (word_of_int i :: int64)"

lemma to_int64_id: "- (2 ^ 63) \<le> i \<Longrightarrow> i < 2 ^ 63 \<Longrightarrow> to_int64 i = i"
  by (simp add: to_int64_def sint_sbintrunc' signed_take_bit_int_eq_self)

section \<open>Lists\<close>

lemma nth_append_drop [simp]: "i < length xs \<Longrightarrow> take i xs @ xs ! i # drop (Suc i) xs = xs"
  by (rule id_take_nth_drop [symmetric])

lemma take_Suc_list_update: "i < length xs \<Longrightarrow> take (Suc i) (xs[i := x]) = take i xs @ [x]"
  by (simp add: take_Suc_conv_app_nth)

text \<open>\<open>std::copy\<close> of a vector over an array from a position.\<close>

definition copy_at :: "'a list \<Rightarrow> nat \<Rightarrow> 'a list \<Rightarrow> 'a list" where
  "copy_at src pos dst = take pos dst @ src @ drop (pos + length src) dst"

lemma length_copy_at [simp]:
  "pos + length src \<le> length dst \<Longrightarrow> length (copy_at src pos dst) = length dst"
  by (simp add: copy_at_def)

lemma take_copy_at [simp]:
  "pos + length src \<le> length dst \<Longrightarrow> take (pos + length src) (copy_at src pos dst) = take pos dst @ src"
  by (simp add: copy_at_def)

lemma nth_copy_at:
  assumes "pos + length src \<le> length dst" and "i < length dst"
  shows "copy_at src pos dst ! i =
    (if i < pos then dst ! i else if i < pos + length src then src ! (i - pos) else dst ! i)"
  using assms by (auto simp: copy_at_def nth_append)

end
