(* ===== verification/Floats.thy ===== *)
theory Floats
  imports Prelude "HOL-Library.Log_Nat"
begin

text \<open>
  The floating-point arithmetic of the language. A C++ \<open>float\<close> is a 32-bit word and a
  \<open>double\<close> a 64-bit word holding the IEEE 754 binary encoding; every operation is computed
  exactly and rounded to nearest, ties to even. All results that are not a number are the
  quiet NaN of positive sign.

  A format is given by its precision \<open>p\<close> (with the hidden bit) and the width \<open>eb\<close> of
  its exponent field. The functions work on the encoding as a natural number.
\<close>

section \<open>Encodings\<close>

datatype fval = FNaN | FInf bool | FFin bool nat int

text \<open>\<open>FFin s m e\<close> is the number \<open>m * 2 powr e\<close>, negated when \<open>s\<close>.\<close>

definition f_emin :: "nat \<Rightarrow> nat \<Rightarrow> int" where
  "f_emin p eb = 2 - 2 ^ (eb - 1)"

definition f_inf :: "nat \<Rightarrow> nat \<Rightarrow> nat" where
  "f_inf p eb = (2 ^ eb - 1) * 2 ^ (p - 1)"

definition f_sign :: "nat \<Rightarrow> nat \<Rightarrow> bool \<Rightarrow> nat" where
  "f_sign p eb s = (if s then 2 ^ (p - 1 + eb) else 0)"

definition f_decode :: "nat \<Rightarrow> nat \<Rightarrow> nat \<Rightarrow> fval" where
  "f_decode p eb n =
    (let s = n \<ge> 2 ^ (p - 1 + eb); mag = n mod 2 ^ (p - 1 + eb);
         e = mag div 2 ^ (p - 1); f = mag mod 2 ^ (p - 1); q = f_emin p eb - (int p - 1)
     in if mag > f_inf p eb then FNaN
        else if mag = f_inf p eb then FInf s
        else if e = 0 then FFin s f q
        else FFin s (f + 2 ^ (p - 1)) (q + int e - 1))"

text \<open>The binary exponent of a positive fraction: \<open>2 powr e \<le> n / d < 2 powr (e + 1)\<close>.\<close>

definition f_scale :: "nat \<Rightarrow> nat \<Rightarrow> int \<Rightarrow> nat \<times> nat" where
  "f_scale n d q = (if q \<ge> 0 then (n, d * 2 ^ nat q) else (n * 2 ^ nat (- q), d))"

definition f_exponent :: "nat \<Rightarrow> nat \<Rightarrow> int" where
  "f_exponent n d =
    (let k = int (floorlog 2 n) - int (floorlog 2 d); (a, b) = f_scale n d k
     in if a \<ge> b then k else k - 1)"

text \<open>Round the fraction \<open>n / d\<close> to the nearest encoding, ties to even.\<close>

definition f_round :: "nat \<Rightarrow> nat \<Rightarrow> bool \<Rightarrow> nat \<Rightarrow> nat \<Rightarrow> nat" where
  "f_round p eb s n d =
    f_sign p eb s +
    (if n = 0 then 0
     else let e = max (f_exponent n d) (f_emin p eb); (a, b) = f_scale n d (e - (int p - 1));
              m = a div b; r = a mod b;
              m' = (if 2 * r > b \<or> (2 * r = b \<and> odd m) then m + 1 else m)
          in min (f_inf p eb) (nat (e - f_emin p eb) * 2 ^ (p - 1) + m'))"

definition f_nan :: "nat \<Rightarrow> nat \<Rightarrow> nat" where
  "f_nan p eb = f_inf p eb + 2 ^ (p - 2)"

fun f_encode :: "nat \<Rightarrow> nat \<Rightarrow> fval \<Rightarrow> nat" where
  "f_encode p eb FNaN = f_nan p eb"
| "f_encode p eb (FInf s) = f_sign p eb s + f_inf p eb"
| "f_encode p eb (FFin s m e) = (let (a, b) = f_scale m 1 (- e) in f_round p eb s a b)"

section \<open>Arithmetic\<close>

definition f_signed :: "bool \<Rightarrow> nat \<Rightarrow> int" where
  "f_signed s m = (if s then - int m else int m)"

fun fv_add :: "fval \<Rightarrow> fval \<Rightarrow> fval" where
  "fv_add FNaN y = FNaN"
| "fv_add x FNaN = FNaN"
| "fv_add (FInf s) (FInf t) = (if s = t then FInf s else FNaN)"
| "fv_add (FInf s) (FFin t m e) = FInf s"
| "fv_add (FFin s m e) (FInf t) = FInf t"
| "fv_add (FFin s m e) (FFin t k g) =
    (let q = min e g;
         v = f_signed s m * 2 ^ nat (e - q) + f_signed t k * 2 ^ nat (g - q)
     in if v = 0 then FFin (s \<and> t) 0 q else FFin (v < 0) (nat \<bar>v\<bar>) q)"

fun fv_neg :: "fval \<Rightarrow> fval" where
  "fv_neg FNaN = FNaN"
| "fv_neg (FInf s) = FInf (\<not> s)"
| "fv_neg (FFin s m e) = FFin (\<not> s) m e"

fun fv_mul :: "fval \<Rightarrow> fval \<Rightarrow> fval" where
  "fv_mul FNaN y = FNaN"
| "fv_mul x FNaN = FNaN"
| "fv_mul (FInf s) (FInf t) = FInf (s \<noteq> t)"
| "fv_mul (FInf s) (FFin t m e) = (if m = 0 then FNaN else FInf (s \<noteq> t))"
| "fv_mul (FFin s m e) (FInf t) = (if m = 0 then FNaN else FInf (s \<noteq> t))"
| "fv_mul (FFin s m e) (FFin t k g) = FFin (s \<noteq> t) (m * k) (e + g)"

fun f_div_enc :: "nat \<Rightarrow> nat \<Rightarrow> fval \<Rightarrow> fval \<Rightarrow> nat" where
  "f_div_enc p eb FNaN y = f_nan p eb"
| "f_div_enc p eb x FNaN = f_nan p eb"
| "f_div_enc p eb (FInf s) (FInf t) = f_nan p eb"
| "f_div_enc p eb (FInf s) (FFin t m e) = f_sign p eb (s \<noteq> t) + f_inf p eb"
| "f_div_enc p eb (FFin s m e) (FInf t) = f_sign p eb (s \<noteq> t)"
| "f_div_enc p eb (FFin s m e) (FFin t k g) =
    (if k = 0 then (if m = 0 then f_nan p eb else f_sign p eb (s \<noteq> t) + f_inf p eb)
     else let (a, b) = f_scale m k (g - e) in f_round p eb (s \<noteq> t) a b)"

fun fv_of_int :: "int \<Rightarrow> fval" where
  "fv_of_int i = FFin (i < 0) (nat \<bar>i\<bar>) 0"

text \<open>Comparison: the encodings of numbers are ordered by sign and magnitude.\<close>

definition f_key :: "nat \<Rightarrow> nat \<Rightarrow> nat \<Rightarrow> int" where
  "f_key p eb n = f_signed (n \<ge> 2 ^ (p - 1 + eb)) (n mod 2 ^ (p - 1 + eb))"

definition f_isnan :: "nat \<Rightarrow> nat \<Rightarrow> nat \<Rightarrow> bool" where
  "f_isnan p eb n \<longleftrightarrow> n mod 2 ^ (p - 1 + eb) > f_inf p eb"

definition f_less :: "nat \<Rightarrow> nat \<Rightarrow> nat \<Rightarrow> nat \<Rightarrow> bool" where
  "f_less p eb m n \<longleftrightarrow> \<not> f_isnan p eb m \<and> \<not> f_isnan p eb n \<and> f_key p eb m < f_key p eb n"

section \<open>float and double\<close>

type_synonym f32 = "32 word"
type_synonym f64 = "64 word"

definition f32_dec :: "f32 \<Rightarrow> fval" where "f32_dec x = f_decode 24 8 (unat x)"
definition f32_enc :: "fval \<Rightarrow> f32" where "f32_enc v = of_nat (f_encode 24 8 v)"
definition f64_dec :: "f64 \<Rightarrow> fval" where "f64_dec x = f_decode 53 11 (unat x)"
definition f64_enc :: "fval \<Rightarrow> f64" where "f64_enc v = of_nat (f_encode 53 11 v)"

definition f32_add :: "f32 \<Rightarrow> f32 \<Rightarrow> f32" where
  "f32_add x y = f32_enc (fv_add (f32_dec x) (f32_dec y))"
definition f32_mul :: "f32 \<Rightarrow> f32 \<Rightarrow> f32" where
  "f32_mul x y = f32_enc (fv_mul (f32_dec x) (f32_dec y))"
definition f32_div :: "f32 \<Rightarrow> f32 \<Rightarrow> f32" where
  "f32_div x y = of_nat (f_div_enc 24 8 (f32_dec x) (f32_dec y))"
definition f32_of_int :: "int \<Rightarrow> f32" where
  "f32_of_int i = f32_enc (fv_of_int i)"
definition f32_less :: "f32 \<Rightarrow> f32 \<Rightarrow> bool" where
  "f32_less x y = f_less 24 8 (unat x) (unat y)"
definition f32_isnan :: "f32 \<Rightarrow> bool" where
  "f32_isnan x = f_isnan 24 8 (unat x)"
definition f32_max :: f32 where "f32_max = 0x7F7FFFFF"
definition f32_lowest :: f32 where "f32_lowest = 0xFF7FFFFF"
definition f32_nan :: f32 where "f32_nan = 0x7FC00000"

definition f64_add :: "f64 \<Rightarrow> f64 \<Rightarrow> f64" where
  "f64_add x y = f64_enc (fv_add (f64_dec x) (f64_dec y))"
definition f64_mul :: "f64 \<Rightarrow> f64 \<Rightarrow> f64" where
  "f64_mul x y = f64_enc (fv_mul (f64_dec x) (f64_dec y))"
definition f64_div :: "f64 \<Rightarrow> f64 \<Rightarrow> f64" where
  "f64_div x y = of_nat (f_div_enc 53 11 (f64_dec x) (f64_dec y))"
definition f64_of_int :: "int \<Rightarrow> f64" where
  "f64_of_int i = f64_enc (fv_of_int i)"
definition f64_less :: "f64 \<Rightarrow> f64 \<Rightarrow> bool" where
  "f64_less x y = f_less 53 11 (unat x) (unat y)"
definition f64_isnan :: "f64 \<Rightarrow> bool" where
  "f64_isnan x = f_isnan 53 11 (unat x)"
definition f64_max :: f64 where "f64_max = 0x7FEFFFFFFFFFFFFF"
definition f64_lowest :: f64 where "f64_lowest = 0xFFEFFFFFFFFFFFFF"
definition f64_nan :: f64 where "f64_nan = 0x7FF8000000000000"

definition f64_of_f32 :: "f32 \<Rightarrow> f64" where "f64_of_f32 x = f64_enc (f32_dec x)"
definition f32_of_f64 :: "f64 \<Rightarrow> f32" where "f32_of_f64 x = f32_enc (f64_dec x)"

section \<open>Order\<close>

lemma f_less_irrefl: "\<not> f_less p eb n n"
  by (simp add: f_less_def)

lemma f_less_trans: "f_less p eb l m \<Longrightarrow> f_less p eb m n \<Longrightarrow> f_less p eb l n"
  by (auto simp: f_less_def)

lemma f_less_negtrans:
  "f_less p eb l n \<Longrightarrow> \<not> f_isnan p eb m \<Longrightarrow> f_less p eb l m \<or> f_less p eb m n"
  by (auto simp: f_less_def)

end
