(* ===== verification/DataTypes.thy ===== *)
theory DataTypes
  imports Prelude
begin

text \<open>
  Column data types and constraint kinds: the enumerations of \<open>DataType.h\<close> and
  \<open>ConstraintType.h\<close>, their textual names and the conversions between them
  (\<open>DataType.cpp\<close>, \<open>ConstraintType.cpp\<close>).
\<close>

section \<open>Data types\<close>

datatype DataType =
    CONST_ERROR
  | CONST_INT | CONST_LONG | CONST_FLOAT | CONST_DOUBLE
  | CONST_POINT | CONST_POLYGON | CONST_STRING | CONST_INT8_T
  | COLUMN_INT | COLUMN_LONG | COLUMN_FLOAT | COLUMN_DOUBLE
  | COLUMN_POINT | COLUMN_POLYGON | COLUMN_STRING | COLUMN_INT8_T
  | DATA_TYPE_SIZE

datatype PayloadType = PAYLOAD_DEFAULT | PAYLOAD_DATE

text \<open>The integer value of each enumerator, and the enumerator of an integer value.\<close>

definition DataType_enum :: "(DataType \<times> int) list" where
  "DataType_enum =
    [(CONST_ERROR, - 1),
     (CONST_INT, 0), (CONST_LONG, 1), (CONST_FLOAT, 2), (CONST_DOUBLE, 3),
     (CONST_POINT, 4), (CONST_POLYGON, 5), (CONST_STRING, 6), (CONST_INT8_T, 7),
     (COLUMN_INT, 8), (COLUMN_LONG, 9), (COLUMN_FLOAT, 10), (COLUMN_DOUBLE, 11),
     (COLUMN_POINT, 12), (COLUMN_POLYGON, 13), (COLUMN_STRING, 14), (COLUMN_INT8_T, 15),
     (DATA_TYPE_SIZE, 16)]"

definition DataType_value :: "DataType \<Rightarrow> int" where
  "DataType_value t = (case map_of DataType_enum t of Some i \<Rightarrow> i | None \<Rightarrow> 0)"

definition DataType_of_value :: "int \<Rightarrow> DataType option" where
  "DataType_of_value i = map_option fst (find (\<lambda>p. snd p = i) DataType_enum)"

lemma DataType_of_value_value [simp]: "DataType_of_value (DataType_value t) = Some t"
  by (cases t) (simp_all add: DataType_of_value_def DataType_value_def DataType_enum_def)

lemma DataType_value_inject [simp]: "DataType_value s = DataType_value t \<longleftrightarrow> s = t"
  by (metis DataType_of_value_value option.inject)

text \<open>The code compares enumerators by their integer value.\<close>

instantiation DataType :: linorder
begin

definition less_eq_DataType :: "DataType \<Rightarrow> DataType \<Rightarrow> bool" where
  "less_eq_DataType s t \<longleftrightarrow> DataType_value s \<le> DataType_value t"

definition less_DataType :: "DataType \<Rightarrow> DataType \<Rightarrow> bool" where
  "less_DataType s t \<longleftrightarrow> DataType_value s < DataType_value t"

instance
  by standard (auto simp: less_eq_DataType_def less_DataType_def)

end

definition numOfDataTypes :: int where
  "numOfDataTypes = DataType_value DATA_TYPE_SIZE sdiv 2"

definition GetDataTypeSize :: "DataType \<Rightarrow> nat" where
  "GetDataTypeSize t =
    (case t of
       COLUMN_INT \<Rightarrow> 4 | CONST_INT \<Rightarrow> 4
     | COLUMN_LONG \<Rightarrow> 8 | CONST_LONG \<Rightarrow> 8
     | COLUMN_DOUBLE \<Rightarrow> 8 | CONST_DOUBLE \<Rightarrow> 8
     | COLUMN_FLOAT \<Rightarrow> 4 | CONST_FLOAT \<Rightarrow> 4
     | _ \<Rightarrow> 1)"

text \<open>\<open>toupper\<close> of the C locale: only ASCII lower-case letters change.\<close>

definition toupper :: "char \<Rightarrow> char" where
  "toupper c = (let n = (of_char c :: nat) in if 97 \<le> n \<and> n \<le> 122 then char_of (n - 32) else c)"

definition GetColumnDataTypeFromString :: "string \<Rightarrow> DataType" where
  "GetColumnDataTypeFromString dataType =
    (let type = map toupper dataType in
     if type = ''INT'' \<or> type = ''INTEGER'' \<or> type = ''INT32'' then COLUMN_INT
     else if type = ''LONG'' \<or> type = ''INT64'' \<or> type = ''DATE'' \<or> type = ''DATETIME'' then COLUMN_LONG
     else if type = ''FLOAT'' then COLUMN_FLOAT
     else if type = ''DOUBLE'' then COLUMN_DOUBLE
     else if type = ''GEO_POINT'' then COLUMN_POINT
     else if type = ''GEO_POLYGON'' then COLUMN_POLYGON
     else if type = ''STRING'' then COLUMN_STRING
     else if type = ''BOOLEAN'' \<or> type = ''BOOL'' \<or> type = ''INT8'' then COLUMN_INT8_T
     else CONST_ERROR)"

definition GetPayloadTypeFromString :: "string \<Rightarrow> PayloadType" where
  "GetPayloadTypeFromString dataType =
    (let type = map toupper dataType in
     if type = ''DATE'' \<or> type = ''DATETIME'' then PAYLOAD_DATE else PAYLOAD_DEFAULT)"

definition GetStringFromColumnDataType :: "DataType \<Rightarrow> string" where
  "GetStringFromColumnDataType t =
    (case t of
       COLUMN_INT \<Rightarrow> ''INT''
     | COLUMN_LONG \<Rightarrow> ''LONG''
     | COLUMN_FLOAT \<Rightarrow> ''FLOAT''
     | COLUMN_DOUBLE \<Rightarrow> ''DOUBLE''
     | COLUMN_POINT \<Rightarrow> ''POINT''
     | COLUMN_POLYGON \<Rightarrow> ''POLYGON''
     | COLUMN_STRING \<Rightarrow> ''STRING''
     | COLUMN_INT8_T \<Rightarrow> ''BOOL''
     | _ \<Rightarrow> '''')"

text \<open>
  \<open>GetConstDataType\<close> subtracts the number of types from a column type. The cast back to
  the enumeration of a value that is none of its enumerators is \<open>None\<close>.
\<close>

definition GetConstDataType :: "DataType \<Rightarrow> DataType option" where
  "GetConstDataType type =
    (if DataType_value type \<ge> numOfDataTypes
     then DataType_of_value (DataType_value type - numOfDataTypes) else Some type)"

definition is_column_type :: "DataType \<Rightarrow> bool" where
  "is_column_type t \<longleftrightarrow> COLUMN_INT \<le> t \<and> t \<le> COLUMN_INT8_T"

lemma is_column_type_cases:
  "is_column_type t \<longleftrightarrow>
    t \<in> {COLUMN_INT, COLUMN_LONG, COLUMN_FLOAT, COLUMN_DOUBLE,
          COLUMN_POINT, COLUMN_POLYGON, COLUMN_STRING, COLUMN_INT8_T}"
  by (cases t)
    (simp_all add: is_column_type_def less_eq_DataType_def DataType_value_def DataType_enum_def)

section \<open>Constraints\<close>

datatype ConstraintType =
    CONSTRAINT_NONE | CONSTRAINT_INDEX | CONSTRAINT_NOT_NULL | CONSTRAINT_UNIQUE

definition GetConstraintType :: "string \<Rightarrow> ConstraintType" where
  "GetConstraintType constraintTypeName =
    (case map_of
        [(''INDEX'', CONSTRAINT_INDEX), (''NOTNULL'', CONSTRAINT_NOT_NULL),
         (''UNIQUE'', CONSTRAINT_UNIQUE)] (map toupper constraintTypeName) of
       None \<Rightarrow> CONSTRAINT_NONE | Some t \<Rightarrow> t)"

definition GetConstraintTypeSuffix :: "ConstraintType \<Rightarrow> string result" where
  "GetConstraintTypeSuffix constraintType =
    (case map_of
        [(CONSTRAINT_NONE, ''''), (CONSTRAINT_INDEX, ''_IC''),
         (CONSTRAINT_NOT_NULL, ''_NC''), (CONSTRAINT_UNIQUE, ''_UC'')] constraintType of
       None \<Rightarrow> Inl OutOfRange | Some s \<Rightarrow> Inr s)"

definition GetConstraintTypeName :: "ConstraintType \<Rightarrow> string result" where
  "GetConstraintTypeName constraintType =
    (case map_of
        [(CONSTRAINT_INDEX, ''INDEX''), (CONSTRAINT_NOT_NULL, ''NOT NULL''),
         (CONSTRAINT_UNIQUE, ''UNIQUE'')] constraintType of
       None \<Rightarrow> Inl OutOfRange | Some s \<Rightarrow> Inr s)"

section \<open>Properties\<close>

lemma toupper_idem [simp]: "toupper (toupper c) = toupper c"
proof (cases "97 \<le> (of_char c :: nat) \<and> (of_char c :: nat) \<le> 122")
  case True
  have "(of_char (char_of ((of_char c :: nat) - 32) :: char) :: nat) = of_char c - 32"
    using True by (auto simp: of_char_of intro!: mod_less)
  with True show ?thesis by (auto simp: toupper_def Let_def)
next
  case False
  then show ?thesis by (auto simp: toupper_def Let_def)
qed

lemma map_toupper_idem [simp]: "map toupper (map toupper s) = map toupper s"
  by simp

text \<open>Case does not matter when a type or a constraint name is read.\<close>

lemma GetColumnDataTypeFromString_upper:
  "GetColumnDataTypeFromString (map toupper s) = GetColumnDataTypeFromString s"
  by (simp add: GetColumnDataTypeFromString_def del: map_map)

text \<open>
  A type name that is read is a column type or the error value, and exactly the
  date names carry the date payload on top of a 64-bit column.
\<close>

lemma GetPayload_date_is_long:
  "GetPayloadTypeFromString s = PAYLOAD_DATE \<Longrightarrow> GetColumnDataTypeFromString s = COLUMN_LONG"
  by (auto simp: GetPayloadTypeFromString_def GetColumnDataTypeFromString_def Let_def split: if_splits)

text \<open>
  Printing the name of a column type and reading it back gives the type again, except
  for the two geometric types: they are printed \<open>POINT\<close> and \<open>POLYGON\<close>, but only
  \<open>GEO_POINT\<close> and \<open>GEO_POLYGON\<close> are read, so their printed names are rejected.
\<close>

theorem DataType_name_roundtrip:
  "GetColumnDataTypeFromString (GetStringFromColumnDataType t) =
    (if is_column_type t \<and> t \<noteq> COLUMN_POINT \<and> t \<noteq> COLUMN_POLYGON then t else CONST_ERROR)"
  by (induction t) code_simp+

text \<open>
  Every column type has a constant counterpart of the same storage size, and two
  different column types have different counterparts.
\<close>

theorem GetConstDataType_column:
  assumes "is_column_type t"
  shows "\<exists>c. GetConstDataType t = Some c \<and> \<not> is_column_type c \<and> c \<noteq> CONST_ERROR \<and>
    GetDataTypeSize c = GetDataTypeSize t \<and> GetConstDataType c = Some c \<and>
    (\<forall>t'. is_column_type t' \<and> GetConstDataType t' = Some c \<longrightarrow> t' = t)"
proof -
  have inj: "t' = t" if "is_column_type t'" "GetConstDataType t' = GetConstDataType t" for t'
    using assms that unfolding is_column_type_cases GetConstDataType_def numOfDataTypes_def
    by (auto simp: DataType_of_value_def DataType_value_def DataType_enum_def)
  have "\<exists>c. GetConstDataType t = Some c \<and> \<not> is_column_type c \<and> c \<noteq> CONST_ERROR \<and>
    GetDataTypeSize c = GetDataTypeSize t \<and> GetConstDataType c = Some c"
    using assms unfolding is_column_type_cases GetConstDataType_def numOfDataTypes_def
    by (auto simp: DataType_of_value_def DataType_value_def DataType_enum_def GetDataTypeSize_def)
  with inj show ?thesis by auto
qed

theorem GetConstDataType_column_witness:
  "is_column_type COLUMN_STRING \<and> GetConstDataType COLUMN_STRING = Some CONST_STRING \<and>
   (\<exists>c. GetConstDataType COLUMN_STRING = Some c \<and> GetDataTypeSize c = GetDataTypeSize COLUMN_STRING)"
proof -
  have h: "is_column_type COLUMN_STRING" by (simp add: is_column_type_cases)
  have e: "GetConstDataType COLUMN_STRING = Some CONST_STRING" by code_simp
  show ?thesis using h e GetConstDataType_column [OF h] by auto
qed

end
