(* ===== verification/Elements.thy ===== *)
theory Elements
  imports Floats DataTypes "HOL-Library.List_Lexorder" "HOL-Library.Char_ord"
begin

text \<open>
  The element types \<open>T\<close> of \<open>BlockBase<T>\<close> and \<open>ColumnBase<T>\<close>. The templates use of
  \<open>T\<close> its limits, its default value, its order, its addition and its conversions to
  \<open>float\<close>; these form the record \<open>elem\<close>, with one value of it per instantiation of the
  templates. \<open>kind\<close> says which specialisation of the block statistics the type has.

  \<open>sum_ += data\<close> on a signed type wraps around here, as it does on the supported targets.
  \<open>uninit_v\<close> is the content of a cell of a fresh array: it is indeterminate for the
  number types, so it is a parameter of their records and every theorem holds for all its
  values.
\<close>

datatype stat_kind = NumStats | ByteStats | StringStats | GeoStats

record 'a elem =
  kind :: stat_kind
  col_type :: DataType
  lowest_v :: 'a
  max_v :: 'a
  zero_v :: 'a
  uninit_v :: 'a
  null_v :: 'a
  geo_v :: 'a
  less_v :: "'a \<Rightarrow> 'a \<Rightarrow> bool"
  add_v :: "'a \<Rightarrow> 'a \<Rightarrow> 'a"
  to_float :: "'a \<Rightarrow> f32"
  div_count :: "'a \<Rightarrow> nat \<Rightarrow> f32"
  acc_float :: "f32 \<Rightarrow> 'a \<Rightarrow> f32"

type_synonym Point = "f32 \<times> f32"
type_synonym ComplexPolygon = "(f32 \<times> f32) list list"

definition sless :: "'w::len word \<Rightarrow> 'w word \<Rightarrow> bool" where
  "sless x y \<longleftrightarrow> sint x < sint y"

definition int_elem :: "stat_kind \<Rightarrow> DataType \<Rightarrow> 'w::len word \<Rightarrow> 'w word elem" where
  "int_elem k t u =
    \<lparr>kind = k, col_type = t,
     lowest_v = push_bit (LENGTH('w) - 1) 1, max_v = push_bit (LENGTH('w) - 1) 1 - 1,
     zero_v = 0, uninit_v = u, null_v = push_bit (LENGTH('w) - 1) 1, geo_v = 0,
     less_v = sless, add_v = (+),
     to_float = (\<lambda>x. f32_of_int (sint x)),
     div_count = (\<lambda>s n. f32_div (f32_of_int (sint s)) (f32_of_int (int n))),
     acc_float = (\<lambda>a x. f32_add a (f32_of_int (sint x)))\<rparr>"

definition elem_int32 :: "int32 \<Rightarrow> int32 elem" where
  "elem_int32 u = int_elem NumStats COLUMN_INT u"

definition elem_int64 :: "int64 \<Rightarrow> int64 elem" where
  "elem_int64 u = int_elem NumStats COLUMN_LONG u"

definition elem_int8 :: "int8 \<Rightarrow> int8 elem" where
  "elem_int8 u = int_elem ByteStats COLUMN_INT8_T u"

definition elem_float :: "f32 \<Rightarrow> f32 elem" where
  "elem_float u =
    \<lparr>kind = NumStats, col_type = COLUMN_FLOAT, lowest_v = f32_lowest, max_v = f32_max,
     zero_v = 0, uninit_v = u, null_v = f32_nan, geo_v = 0, less_v = f32_less, add_v = f32_add,
     to_float = (\<lambda>x. x), div_count = (\<lambda>s n. f32_div s (f32_of_int (int n))),
     acc_float = f32_add\<rparr>"

definition elem_double :: "f64 \<Rightarrow> f64 elem" where
  "elem_double u =
    \<lparr>kind = NumStats, col_type = COLUMN_DOUBLE, lowest_v = f64_lowest, max_v = f64_max,
     zero_v = 0, uninit_v = u, null_v = f64_nan, geo_v = 0, less_v = f64_less, add_v = f64_add,
     to_float = f32_of_f64,
     div_count = (\<lambda>s n. f32_of_f64 (f64_div s (f64_of_f32 (f32_of_int (int n))))),
     acc_float = (\<lambda>a x. f32_of_f64 (f64_add (f64_of_f32 a) x))\<rparr>"

text \<open>
  \<open>std::numeric_limits\<close> of a type it is not specialised for returns \<open>T()\<close>. Strings have
  no sum and no average. The order of \<open>std::string\<close> is the lexicographic one on bytes.
\<close>

definition elem_string :: "string elem" where
  "elem_string =
    \<lparr>kind = StringStats, col_type = COLUMN_STRING, lowest_v = '''', max_v = '''',
     zero_v = '''', uninit_v = '''', null_v = '' '', geo_v = '''', less_v = (<), add_v = (@),
     to_float = (\<lambda>_. 0), div_count = (\<lambda>_ _. 0), acc_float = (\<lambda>a _. a)\<rparr>"

text \<open>
  The statistics of geometric blocks are constants, so their order and sum are never used.
  \<open>geo_v\<close> is the value the constants have: the point at the origin and the default
  polygon.
\<close>

definition elem_Point :: "Point elem" where
  "elem_Point =
    \<lparr>kind = GeoStats, col_type = COLUMN_POINT, lowest_v = (0, 0), max_v = (0, 0),
     zero_v = (0, 0), uninit_v = (0, 0), null_v = (0, 0), geo_v = (0, 0), less_v = (\<lambda>_ _. False),
     add_v = (\<lambda>x _. x), to_float = (\<lambda>_. 0), div_count = (\<lambda>_ _. 0), acc_float = (\<lambda>a _. a)\<rparr>"

definition POLYGON_DEFAULT :: ComplexPolygon where
  "POLYGON_DEFAULT = [[(0, 0), (f32_of_int 1, f32_of_int 1), (f32_of_int 2, f32_of_int 2), (0, 0)]]"

definition elem_Polygon :: "ComplexPolygon elem" where
  "elem_Polygon =
    \<lparr>kind = GeoStats, col_type = COLUMN_POLYGON, lowest_v = [], max_v = [],
     zero_v = [], uninit_v = [], null_v = POLYGON_DEFAULT, geo_v = POLYGON_DEFAULT,
     less_v = (\<lambda>_ _. False), add_v = (\<lambda>x _. x), to_float = (\<lambda>_. 0),
     div_count = (\<lambda>_ _. 0), acc_float = (\<lambda>a _. a)\<rparr>"

lemmas elem_defs = elem_int32_def elem_int64_def elem_int8_def int_elem_def elem_float_def
  elem_double_def elem_string_def elem_Point_def elem_Polygon_def

section \<open>The contract of an element order\<close>

text \<open>
  All the block statistics need of \<open>operator<\<close> is that it is a strict partial order. This
  holds of every instantiation, of the floating-point ones with NaN included.
\<close>

definition between :: "('a \<Rightarrow> 'a \<Rightarrow> bool) \<Rightarrow> 'a \<Rightarrow> 'a \<Rightarrow> 'a \<Rightarrow> bool" where
  "between lt lo hi x \<longleftrightarrow> \<not> lt x lo \<and> \<not> lt hi x"

locale elem_order =
  fixes lt :: "'a \<Rightarrow> 'a \<Rightarrow> bool"
  assumes less_irrefl: "\<not> lt x x"
    and less_trans: "lt x y \<Longrightarrow> lt y z \<Longrightarrow> lt x z"
begin

lemma between_widen:
  "between lt lo hi x \<Longrightarrow> between lt (if lt d lo then d else lo) (if lt hi d then d else hi) x"
  using less_trans by (auto simp: between_def)

lemma between_new: "between lt (if lt d lo then d else lo) (if lt hi d then d else hi) d"
  by (simp add: between_def less_irrefl)

lemma between_self: "between lt d d d"
  by (simp add: between_def less_irrefl)

end

interpretation int32_order: elem_order "less_v (elem_int32 u)"
  by unfold_locales (auto simp: elem_defs sless_def)

interpretation int64_order: elem_order "less_v (elem_int64 u)"
  by unfold_locales (auto simp: elem_defs sless_def)

interpretation int8_order: elem_order "less_v (elem_int8 u)"
  by unfold_locales (auto simp: elem_defs sless_def)

interpretation float_order: elem_order "less_v (elem_float u)"
  by unfold_locales
    (auto simp: elem_defs f32_less_def f_less_irrefl intro: f_less_trans)

interpretation double_order: elem_order "less_v (elem_double u)"
  by unfold_locales
    (auto simp: elem_defs f64_less_def f_less_irrefl intro: f_less_trans)

interpretation string_order: elem_order "less_v elem_string"
  by unfold_locales (auto simp: elem_defs)

interpretation Point_order: elem_order "less_v elem_Point"
  by unfold_locales (auto simp: elem_defs)

interpretation Polygon_order: elem_order "less_v elem_Polygon"
  by unfold_locales (auto simp: elem_defs)

end
