(* ===== verification/NullMask.thy ===== *)
theory NullMask
  imports Prelude
begin

text \<open>
  The null bit masks of a block: an array of 64-bit words in which bit \<open>i mod 64\<close> of word
  \<open>i div 64\<close> says that row \<open>i\<close> is null (\<open>NullValues.cu\<close>). The abstraction
  \<open>mask_bit\<close> reads a mask as a predicate on row indices; the lemmas say what every
  operation does to that predicate.
\<close>

section \<open>Operations\<close>

definition GetBitMaskIdx :: "nat \<Rightarrow> nat" where
  "GetBitMaskIdx idx = idx div 64"

definition GetShiftMaskIdx :: "nat \<Rightarrow> nat" where
  "GetShiftMaskIdx idx = idx mod 64"

definition GetNullBitMaskSize :: "nat \<Rightarrow> nat" where
  "GetNullBitMaskSize sz = (sz + 64 - 1) div 64"

definition GetNullBitMaskSizeInBytes :: "nat \<Rightarrow> nat" where
  "GetNullBitMaskSizeInBytes sz = GetNullBitMaskSize sz * 8"

definition SetBitInBitMask2 :: "nullmask list \<Rightarrow> nat \<Rightarrow> nat \<Rightarrow> nullmask \<Rightarrow> nullmask list" where
  "SetBitInBitMask2 bitMask bitMaskIdx shiftMaskIdx newBit =
    (if newBit \<noteq> 0
     then bitMask[bitMaskIdx := (bitMask ! bitMaskIdx) OR push_bit shiftMaskIdx 1]
     else bitMask[bitMaskIdx := (bitMask ! bitMaskIdx) AND NOT (push_bit shiftMaskIdx 1)])"

definition SetBitInBitMask :: "nullmask list \<Rightarrow> nat \<Rightarrow> nullmask \<Rightarrow> nullmask list" where
  "SetBitInBitMask bitMask index newBit =
    SetBitInBitMask2 bitMask (GetBitMaskIdx index) (GetShiftMaskIdx index) newBit"

definition GetConcreteBitFromBitmask2 :: "nullmask list \<Rightarrow> nat \<Rightarrow> nat \<Rightarrow> nullmask" where
  "GetConcreteBitFromBitmask2 bitMask bitMaskIdx shiftMaskIdx =
    drop_bit shiftMaskIdx (bitMask ! bitMaskIdx) AND 1"

definition GetConcreteBitFromBitmask :: "nullmask list \<Rightarrow> nat \<Rightarrow> nullmask" where
  "GetConcreteBitFromBitmask bitMask index =
    GetConcreteBitFromBitmask2 bitMask (GetBitMaskIdx index) (GetShiftMaskIdx index)"

text \<open>
  \<open>GetPartOfBitmaskByte\<close> shifts a 64-bit one by \<open>shiftMaskIdx + 1\<close>. A shift by the full
  width is undefined in C++.
\<close>

definition GetPartOfBitmaskByte :: "nullmask list \<Rightarrow> nat \<Rightarrow> nat \<Rightarrow> nullmask result" where
  "GetPartOfBitmaskByte bitMask shiftMaskIdx bitMaskIdx =
    (if shiftMaskIdx + 1 \<ge> 64 then Inl UndefinedBehaviour
     else Inr ((push_bit (shiftMaskIdx + 1) 1 - 1) AND bitMask ! bitMaskIdx))"

section \<open>Reading a mask\<close>

definition mask_bit :: "nullmask list \<Rightarrow> nat \<Rightarrow> bool" where
  "mask_bit m i \<longleftrightarrow> i div 64 < length m \<and> bit (m ! (i div 64)) (i mod 64)"

lemma mask_bit_less: "mask_bit m i \<Longrightarrow> i < 64 * length m"
  by (auto simp: mask_bit_def)

lemma GetNullBitMaskSize_bound: "i < n \<Longrightarrow> i div 64 < GetNullBitMaskSize n"
  by (simp add: GetNullBitMaskSize_def)

lemma GetNullBitMaskSize_le: "n \<le> 64 * GetNullBitMaskSize n"
  by (simp add: GetNullBitMaskSize_def)

lemma GetNullBitMaskSize_mono: "m \<le> n \<Longrightarrow> GetNullBitMaskSize m \<le> GetNullBitMaskSize n"
  by (simp add: GetNullBitMaskSize_def div_le_mono)

lemma GetConcreteBit_eq:
  "i div 64 < length m \<Longrightarrow> GetConcreteBitFromBitmask m i = of_bool (mask_bit m i)"
  by (simp add: GetConcreteBitFromBitmask_def GetConcreteBitFromBitmask2_def mask_bit_def
      GetBitMaskIdx_def GetShiftMaskIdx_def and_one_eq mod_2_eq_odd bit_iff_odd_drop_bit)

lemma GetConcreteBit_nonzero [simp]:
  "i div 64 < length m \<Longrightarrow> GetConcreteBitFromBitmask m i \<noteq> 0 \<longleftrightarrow> mask_bit m i"
  by (simp add: GetConcreteBit_eq)

lemma length_SetBitInBitMask2 [simp]: "length (SetBitInBitMask2 m w s b) = length m"
  by (simp add: SetBitInBitMask2_def)

lemma length_SetBitInBitMask [simp]: "length (SetBitInBitMask m i b) = length m"
  by (simp add: SetBitInBitMask_def)

lemma bit_single: "s < 64 \<Longrightarrow> bit (2 ^ s :: nullmask) j \<longleftrightarrow> j = s"
  by (auto simp: bit_exp_iff possible_bit_word)

lemma mask_bit_SetBit2:
  assumes "w < length m" and "s < 64"
  shows "mask_bit (SetBitInBitMask2 m w s b) i =
    (if i = 64 * w + s then b \<noteq> 0 else mask_bit m i)"
proof (cases "i div 64 = w")
  case True
  have eq: "i = 64 * w + s \<longleftrightarrow> i mod 64 = s"
    using True div_mult_mod_eq [of i 64] by linarith
  show ?thesis
    unfolding eq using True assms
    by (simp add: mask_bit_def SetBitInBitMask2_def bit_or_iff bit_and_iff bit_not_iff bit_single)
next
  case False
  have "i \<noteq> 64 * w + s" using False assms(2) by auto
  with False show ?thesis by (simp add: mask_bit_def SetBitInBitMask2_def)
qed

lemma mask_bit_SetBit:
  assumes "i div 64 < length m"
  shows "mask_bit (SetBitInBitMask m i b) j = (if j = i then b \<noteq> 0 else mask_bit m j)"
proof -
  have "64 * (i div 64) + i mod 64 = i" by simp
  with assms show ?thesis
    using mask_bit_SetBit2 [of "i div 64" m "i mod 64" b j]
    by (simp add: SetBitInBitMask_def GetBitMaskIdx_def GetShiftMaskIdx_def)
qed

lemma mask_bit_zeros [simp]: "\<not> mask_bit (replicate n 0) i"
  by (simp add: mask_bit_def)

section \<open>Masks as functions\<close>

text \<open>
  Two masks of the same length with the same bits are the same words, so \<open>mask_bit\<close> loses
  nothing.
\<close>

lemma mask_eqI:
  assumes "length m = length m'" and "\<And>i. mask_bit m i = mask_bit m' i"
  shows "m = m'"
proof (rule nth_equalityI)
  fix w assume w: "w < length m"
  show "m ! w = m' ! w"
  proof (rule bit_word_eqI)
    fix j assume j: "j < LENGTH(64)"
    have "mask_bit m (64 * w + j) = mask_bit m' (64 * w + j)" by (rule assms(2))
    with w j assms(1) show "bit (m ! w) j = bit (m' ! w) j"
      by (simp add: mask_bit_def)
  qed
qed (rule assms(1))

text \<open>
  Writing a bit of a null mask and reading the masks back: the written row has the written
  value, every other row is unchanged, and the array keeps its length.
\<close>

theorem SetBitInBitMask_GetConcreteBit:
  assumes "i < n" and "j < n" and "GetNullBitMaskSize n \<le> length m"
  shows "GetConcreteBitFromBitmask (SetBitInBitMask m i b) j =
      (if j = i then of_bool (b \<noteq> 0) else GetConcreteBitFromBitmask m j) \<and>
    length (SetBitInBitMask m i b) = length m"
proof -
  have i: "i div 64 < length m" and j: "j div 64 < length m"
    using GetNullBitMaskSize_bound [OF assms(1)] GetNullBitMaskSize_bound [OF assms(2)] assms(3)
    by simp_all
  then show ?thesis by (simp add: GetConcreteBit_eq mask_bit_SetBit)
qed

theorem SetBitInBitMask_GetConcreteBit_witness:
  "GetConcreteBitFromBitmask (SetBitInBitMask [0, 5] 66 0) 66 = 0 \<and>
   GetConcreteBitFromBitmask (SetBitInBitMask [0, 5] 66 0) 64 = GetConcreteBitFromBitmask [0, 5] 64"
proof -
  have s: "GetNullBitMaskSize 70 \<le> length [0, 5 :: nullmask]"
    by (simp add: GetNullBitMaskSize_def)
  show ?thesis
    using SetBitInBitMask_GetConcreteBit [OF _ _ s, of 66 66 0]
      SetBitInBitMask_GetConcreteBit [OF _ _ s, of 66 64 0] by simp
qed

end
