(* ===== verification/Block.thy ===== *)
theory Block
  imports Elements NullMask
begin

text \<open>
  A block of a column (\<open>BlockBase.h\<close>, \<open>BlockBase.cpp\<close>): an array of \<open>capacity_\<close> cells of
  which the first \<open>b_size\<close> hold rows, a null mask when the block is nullable, and the
  statistics (minimum, maximum, average, sum) the query planner filters blocks by.

  The record has the fields of the class; \<open>bitMask_\<close> is \<open>None\<close> for the null pointer.
  Pinning host memory for the GPU only shows in the two registration flags.
\<close>

record 'a block =
  b_min :: 'a
  b_max :: 'a
  b_avg :: f32
  b_sum :: 'a
  b_groupId :: int
  b_size :: nat
  b_countOfNotNullValues :: nat
  b_capacity :: nat
  b_data :: "'a list"
  b_bitMask :: "nullmask list option"
  b_isCompressed :: bool
  b_isNullable :: bool
  b_wasRegistered :: bool
  b_isNullMaskRegistered :: bool
  b_saveNecessary :: bool
  b_index :: "32 word"

section \<open>Statistics\<close>

text \<open>The specialisations for \<open>int32_t\<close>, \<open>int64_t\<close>, \<open>float\<close>, \<open>double\<close> and \<open>int8_t\<close>.\<close>

definition updateBlockStatistics_num :: "'a elem \<Rightarrow> 'a \<Rightarrow> bool \<Rightarrow> 'a block \<Rightarrow> 'a block" where
  "updateBlockStatistics_num E data isNullValue b =
    (if b_isCompressed b then b
     else if isNullValue then b\<lparr>b_size := b_size b + 1\<rparr>
     else if b_size b = 0 then
       b\<lparr>b_size := b_size b + 1, b_countOfNotNullValues := b_countOfNotNullValues b + 1,
         b_min := data, b_max := data, b_avg := to_float E data, b_sum := data\<rparr>
     else
       (let n = b_countOfNotNullValues b + 1; s = add_v E (b_sum b) data in
        b\<lparr>b_size := b_size b + 1, b_countOfNotNullValues := n,
          b_min := (if less_v E data (b_min b) then data else b_min b),
          b_max := (if less_v E (b_max b) data then data else b_max b),
          b_sum := s, b_avg := div_count E s n\<rparr>))"

text \<open>The specialisation for \<open>std::string\<close>: no sum and no average.\<close>

definition updateBlockStatistics_string :: "'a elem \<Rightarrow> 'a \<Rightarrow> bool \<Rightarrow> 'a block \<Rightarrow> 'a block" where
  "updateBlockStatistics_string E data isNullValue b =
    (if b_isCompressed b then b
     else if isNullValue then b\<lparr>b_size := b_size b + 1\<rparr>
     else if b_size b = 0 then
       b\<lparr>b_size := b_size b + 1, b_countOfNotNullValues := b_countOfNotNullValues b + 1,
         b_min := data, b_max := data, b_avg := 0, b_sum := zero_v E\<rparr>
     else
       b\<lparr>b_size := b_size b + 1, b_countOfNotNullValues := b_countOfNotNullValues b + 1,
         b_min := (if less_v E data (b_min b) then data else b_min b),
         b_max := (if less_v E (b_max b) data then data else b_max b)\<rparr>)"

text \<open>The specialisations for points and polygons: constants.\<close>

definition updateBlockStatistics_geo :: "'a elem \<Rightarrow> 'a \<Rightarrow> bool \<Rightarrow> 'a block \<Rightarrow> 'a block" where
  "updateBlockStatistics_geo E data isNullValue b =
    (let b' = (if b_size b = 0
       then b\<lparr>b_min := geo_v E, b_max := geo_v E, b_avg := 0, b_sum := geo_v E\<rparr> else b)
     in b'\<lparr>b_size := b_size b' + 1\<rparr>)"

definition updateBlockStatistics :: "'a elem \<Rightarrow> 'a \<Rightarrow> bool \<Rightarrow> 'a block \<Rightarrow> 'a block" where
  "updateBlockStatistics E data isNullValue b =
    (case kind E of
       NumStats \<Rightarrow> updateBlockStatistics_num E data isNullValue b
     | ByteStats \<Rightarrow> updateBlockStatistics_num E data isNullValue b
     | StringStats \<Rightarrow> updateBlockStatistics_string E data isNullValue b
     | GeoStats \<Rightarrow> updateBlockStatistics_geo E data isNullValue b)"

text \<open>Row \<open>i\<close> of a block as its mask says it; a null mask pointer reads as no null rows.\<close>

definition is_null :: "'a block \<Rightarrow> nat \<Rightarrow> bool" where
  "is_null b i = (case b_bitMask b of None \<Rightarrow> False | Some m \<Rightarrow> mask_bit m i)"

text \<open>
  The rows behind the old ones are taken into the statistics. The sum is \<open>T\<close> in the source; for integers it is kept as the
  two's complement value here, although an overflow is undefined: no result on rows, nulls, minimum or maximum depends on it.
\<close>

definition update_rows :: "'a elem \<Rightarrow> nat \<Rightarrow> nat \<Rightarrow> 'a block \<Rightarrow> 'a block" where
  "update_rows E n old b =
    fold (\<lambda>i. updateBlockStatistics E (b_data b ! (i + old)) False) [0..<n] b"

text \<open>One step of the loop that recomputes the statistics of a nullable block.\<close>

definition recompute_step :: "'a elem \<Rightarrow> nat \<Rightarrow> 'a block \<Rightarrow> 'a block" where
  "recompute_step E i b =
    (if is_null b i then b
     else let d = b_data b ! i in
       b\<lparr>b_countOfNotNullValues := b_countOfNotNullValues b + 1,
         b_min := (if less_v E d (b_min b) then d else b_min b),
         b_max := (if less_v E (b_max b) d then d else b_max b),
         b_sum := add_v E (b_sum b) d,
         b_avg := acc_float E (b_avg b) d\<rparr>)"

definition setBlockStatistics_num :: "'a elem \<Rightarrow> nat \<Rightarrow> nat \<Rightarrow> 'a block \<Rightarrow> 'a block" where
  "setBlockStatistics_num E insertedDataSize oldDataSize b =
    (if b_isCompressed b then b
     else if \<not> b_isNullable b then update_rows E insertedDataSize oldDataSize b
     else
       (let b0 = b\<lparr>b_size := b_size b + insertedDataSize, b_min := max_v E, b_max := lowest_v E,
                   b_avg := 0, b_sum := zero_v E, b_countOfNotNullValues := 0\<rparr>;
            b1 = fold (recompute_step E) [0..<b_size b0] b0
        in b1\<lparr>b_avg := f32_div (b_avg b1) (f32_of_int (int (b_countOfNotNullValues b1)))\<rparr>))"

definition setBlockStatistics_byte :: "'a elem \<Rightarrow> nat \<Rightarrow> nat \<Rightarrow> 'a block \<Rightarrow> 'a block" where
  "setBlockStatistics_byte E insertedDataSize oldDataSize b =
    (if b_isCompressed b then b else update_rows E insertedDataSize oldDataSize b)"

definition setBlockStatistics :: "'a elem \<Rightarrow> nat \<Rightarrow> nat \<Rightarrow> 'a block \<Rightarrow> 'a block" where
  "setBlockStatistics E insertedDataSize oldDataSize b =
    (case kind E of
       NumStats \<Rightarrow> setBlockStatistics_num E insertedDataSize oldDataSize b
     | ByteStats \<Rightarrow> setBlockStatistics_byte E insertedDataSize oldDataSize b
     | StringStats \<Rightarrow> update_rows E insertedDataSize oldDataSize b
     | GeoStats \<Rightarrow> update_rows E insertedDataSize oldDataSize b)"

text \<open>
  The loop over a nullable block reads its null mask up to the new size; this is defined
  when the mask is there and long enough.
\<close>

definition stats_defined :: "'a elem \<Rightarrow> nat \<Rightarrow> 'a block \<Rightarrow> bool" where
  "stats_defined E insertedDataSize b =
    (kind E = NumStats \<and> \<not> b_isCompressed b \<and> b_isNullable b \<longrightarrow>
     (case b_bitMask b of
        None \<Rightarrow> b_size b + insertedDataSize = 0
      | Some m \<Rightarrow> GetNullBitMaskSize (b_size b + insertedDataSize) \<le> length m))"

text \<open>The overload that takes the statistics of a block read from disk.\<close>

definition setBlockStatistics_loaded :: "'a \<Rightarrow> 'a \<Rightarrow> f32 \<Rightarrow> 'a \<Rightarrow> nat \<Rightarrow> 'a block \<Rightarrow> 'a block" where
  "setBlockStatistics_loaded mn mx avg sm dataSize b =
    b\<lparr>b_min := mn, b_max := mx, b_avg := avg, b_sum := sm, b_size := b_size b + dataSize\<rparr>"

section \<open>Construction\<close>

definition new_mask :: "nat \<Rightarrow> nullmask list" where
  "new_mask cap = replicate (GetNullBitMaskSize cap) 0"

definition raw_block :: "'a elem \<Rightarrow> nat \<Rightarrow> 'a list \<Rightarrow> bool \<Rightarrow> bool \<Rightarrow> bool \<Rightarrow> 32 word \<Rightarrow> 'a block" where
  "raw_block E cap dat isCompressed isNullable saveNecessary index =
    \<lparr>b_min = lowest_v E, b_max = max_v E, b_avg = 0, b_sum = zero_v E, b_groupId = - 1,
     b_size = 0, b_countOfNotNullValues = 0, b_capacity = cap, b_data = dat,
     b_bitMask = (if isNullable then Some (new_mask cap) else None),
     b_isCompressed = isCompressed, b_isNullable = isNullable, b_wasRegistered = True,
     b_isNullMaskRegistered = isNullable, b_saveNecessary = saveNecessary, b_index = index\<rparr>"

text \<open>
  The three constructors. \<open>blockSize\<close> is \<open>column_.GetBlockSize()\<close>; the second takes over
  an array of \<open>allocationSize\<close> cells.
\<close>

definition BlockBase_data ::
  "'a elem \<Rightarrow> nat \<Rightarrow> 'a list \<Rightarrow> bool \<Rightarrow> bool \<Rightarrow> bool \<Rightarrow> bool \<Rightarrow> 32 word \<Rightarrow> 'a block result" where
  "BlockBase_data E blockSize data isCompressed isNullable countBlockStatistics saveNecessary index =
    (let cap = (if isCompressed then length data else blockSize) in
     if blockSize < length data then Inl LengthError
     else
       (let b = raw_block E cap (copy_at data 0 (replicate cap (uninit_v E)))
                  isCompressed isNullable saveNecessary index
        in Inr (if countBlockStatistics then setBlockStatistics E (length data) 0 b else b)))"

definition BlockBase_ptr ::
  "'a elem \<Rightarrow> nat \<Rightarrow> 'a list \<Rightarrow> nat \<Rightarrow> nat \<Rightarrow> bool \<Rightarrow> bool \<Rightarrow> bool \<Rightarrow> bool \<Rightarrow> 32 word \<Rightarrow> 'a block result"
where
  "BlockBase_ptr E blockSize data dataSize allocationSize isCompressed isNullable
      countBlockStatistics saveNecessary index =
    (if allocationSize \<noteq> blockSize then Inl LengthError
     else
       (let cap = (if isCompressed then dataSize else blockSize) in
        if blockSize < dataSize then Inl LengthError
        else
          (let b = raw_block E cap data isCompressed isNullable saveNecessary index
           in Inr (if countBlockStatistics then setBlockStatistics E dataSize 0 b else b))))"

definition BlockBase_empty :: "'a elem \<Rightarrow> nat \<Rightarrow> bool \<Rightarrow> bool \<Rightarrow> 32 word \<Rightarrow> 'a block" where
  "BlockBase_empty E blockSize isNullable saveNecessary index =
    raw_block E blockSize (replicate blockSize (uninit_v E)) False isNullable saveNecessary index"

section \<open>Flags, space and masks\<close>

definition SetIsNullable_block :: "bool \<Rightarrow> 'a block \<Rightarrow> 'a block" where
  "SetIsNullable_block isNullable b =
    (if b_isNullable b = isNullable then b
     else if isNullable then
       b\<lparr>b_bitMask := Some (new_mask (b_capacity b)), b_isNullMaskRegistered := True, b_isNullable := True\<rparr>
     else b\<lparr>b_isNullMaskRegistered := False, b_bitMask := None, b_isNullable := False\<rparr>)"

definition EmptyBlockSpace :: "'a block \<Rightarrow> int" where
  "EmptyBlockSpace b = to_int32 (int (b_capacity b) - int (b_size b))"

definition IsFull :: "'a block \<Rightarrow> bool" where
  "IsFull b = (if b_isCompressed b then True else EmptyBlockSpace b = 0)"

definition GetNullBitmaskSize_block :: "'a block \<Rightarrow> nat" where
  "GetNullBitmaskSize_block b = GetNullBitMaskSize (b_size b)"

text \<open>Comparing the \<open>int\<close> of \<open>EmptyBlockSpace\<close> with a \<open>size_t\<close> converts it to unsigned.\<close>

definition space_u64 :: "'a block \<Rightarrow> int" where
  "space_u64 b = EmptyBlockSpace b mod 2 ^ 64"

definition space_less :: "'a block \<Rightarrow> nat \<Rightarrow> bool" where
  "space_less b n = (space_u64 b < int n)"

definition SetNullBitmask_vec :: "'a elem \<Rightarrow> nullmask list \<Rightarrow> 'a block \<Rightarrow> 'a block result" where
  "SetNullBitmask_vec E nullMask b =
    (if b_isNullable b then
       (case b_bitMask b of
          None \<Rightarrow> Inl UndefinedBehaviour
        | Some m \<Rightarrow>
            if length m < length nullMask then Inl UndefinedBehaviour
            else if \<not> stats_defined E 0 b then Inl UndefinedBehaviour
            else Inr (setBlockStatistics E 0 0 (b\<lparr>b_bitMask := Some (copy_at nullMask 0 m)\<rparr>)))
     else Inr b)"

definition SetNullBitmask_ptr :: "'a elem \<Rightarrow> nullmask list option \<Rightarrow> 'a block \<Rightarrow> 'a block result" where
  "SetNullBitmask_ptr E nullMask b =
    (if b_isNullable b then
       (let b1 = (if b_bitMask b \<noteq> None then b\<lparr>b_isNullMaskRegistered := False\<rparr> else b);
            b2 = b1\<lparr>b_bitMask := nullMask\<rparr>;
            b3 = (if nullMask \<noteq> None then b2\<lparr>b_isNullMaskRegistered := True\<rparr> else b2)
        in if stats_defined E 0 b3 then Inr (setBlockStatistics E 0 0 b3) else Inl UndefinedBehaviour)
     else Inr b)"

section \<open>Insertion\<close>

definition InsertData_block :: "'a elem \<Rightarrow> 'a list \<Rightarrow> bool \<Rightarrow> 'a block \<Rightarrow> 'a block result" where
  "InsertData_block E data saveNecessary b =
    (if space_less b (length data) then Inl LengthError
     else if length (b_data b) < b_size b + length data \<or> \<not> stats_defined E (length data) b
     then Inl UndefinedBehaviour
     else
       Inr ((setBlockStatistics E (length data) (b_size b)
               (b\<lparr>b_data := copy_at data (b_size b) (b_data b)\<rparr>))\<lparr>b_saveNecessary := saveNecessary\<rparr>))"

definition InsertDataInterval ::
  "'a elem \<Rightarrow> 'a list \<Rightarrow> nat \<Rightarrow> nat \<Rightarrow> bool \<Rightarrow> 'a block \<Rightarrow> 'a block result" where
  "InsertDataInterval E newData offset len saveNecessary b =
    (if space_less b len then Inl LengthError
     else if length newData < offset + len \<or> length (b_data b) < b_size b + len \<or>
       \<not> stats_defined E len b then Inl UndefinedBehaviour
     else
       Inr ((setBlockStatistics E len (b_size b)
               (b\<lparr>b_data := copy_at (take len (drop offset newData)) (b_size b) (b_data b)\<rparr>))
             \<lparr>b_saveNecessary := saveNecessary\<rparr>))"

text \<open>
  Making room for a row in the null mask: from bit \<open>i\<close> on, the word of the row moves up by
  one bit, then every later word does, with the bit that falls out carried over.
\<close>

function shift_in_word :: "nullmask list \<Rightarrow> nat \<Rightarrow> nat \<Rightarrow> nullmask \<Rightarrow> nullmask list \<times> nullmask" where
  "shift_in_word m w i lst =
    (if i < 64 then
       (let tmp = GetConcreteBitFromBitmask2 m w i in
        if lst \<noteq> tmp then shift_in_word (SetBitInBitMask2 m w i lst) w (Suc i) tmp
        else shift_in_word m w (Suc i) lst)
     else (m, lst))"
  by pat_completeness auto
termination
  by (relation "measure (\<lambda>(m, w, i, lst). 64 - i)") auto

function shift_words :: "nullmask list \<Rightarrow> nat \<Rightarrow> nat \<Rightarrow> nullmask \<Rightarrow> nullmask list" where
  "shift_words m i cap lst =
    (if i < cap then
       (let tmp = GetConcreteBitFromBitmask2 m i 63;
            m1 = m[i := push_bit 1 (m ! i)];
            m2 = SetBitInBitMask2 m1 i 0 lst
        in shift_words m2 (Suc i) cap tmp)
     else m)"
  by pat_completeness auto
termination
  by (relation "measure (\<lambda>(m, i, cap, lst). cap - i)") auto

declare shift_in_word.simps [simp del] shift_words.simps [simp del]

definition shift_mask :: "nullmask list \<Rightarrow> nat \<Rightarrow> nat \<Rightarrow> nullmask \<Rightarrow> nullmask list" where
  "shift_mask m index cap isNullValue =
    (let w = GetBitMaskIdx index;
         (m1, lst) = shift_in_word m w (GetShiftMaskIdx index) (if isNullValue \<noteq> 0 then 1 else 0)
     in shift_words m1 (w + 1) (GetNullBitMaskSize cap) lst)"

definition InsertDataOnSpecificPosition_block ::
  "'a elem \<Rightarrow> nat \<Rightarrow> 'a \<Rightarrow> nullmask \<Rightarrow> bool \<Rightarrow> 'a block \<Rightarrow> 'a block result" where
  "InsertDataOnSpecificPosition_block E index data isNullValue saveNecessary b =
    (if EmptyBlockSpace b = 0 then Inl LengthError
     else if index \<ge> length (b_data b) then Inl UndefinedBehaviour
     else
       bindR
         (if index < b_size b then
            let b1 = b\<lparr>b_data := copy_at (drop index (take (b_size b) (b_data b))) (index + 1) (b_data b)\<rparr> in
            if b_isNullable b then
              (case b_bitMask b of
                 None \<Rightarrow> Inl UndefinedBehaviour
               | Some m \<Rightarrow>
                   if length m < GetNullBitMaskSize (b_capacity b) then Inl UndefinedBehaviour
                   else Inr (b1\<lparr>b_bitMask := Some (shift_mask m index (b_capacity b) isNullValue)\<rparr>))
            else Inr b1
          else if isNullValue \<noteq> 0 then
            (case b_bitMask b of
               None \<Rightarrow> Inl UndefinedBehaviour
             | Some m \<Rightarrow>
                 if length m \<le> GetBitMaskIdx index then Inl UndefinedBehaviour
                 else Inr (b\<lparr>b_bitMask := Some (SetBitInBitMask m index isNullValue)\<rparr>))
          else Inr b)
         (\<lambda>b1. Inr ((updateBlockStatistics E data (isNullValue \<noteq> 0)
                      (b1\<lparr>b_data := (b_data b1)[index := data]\<rparr>))\<lparr>b_saveNecessary := saveNecessary\<rparr>)))"

section \<open>Compression\<close>

text \<open>
  \<open>Compression::Compress\<close> and \<open>Decompress\<close> run on the GPU and are parameters: they return the
  converted data when they succeed.
\<close>

definition CompressData ::
  "(DataType \<Rightarrow> 'a list \<Rightarrow> 'a \<Rightarrow> 'a \<Rightarrow> 'a list option) \<Rightarrow> 'a elem \<Rightarrow> 'a block \<Rightarrow> 'a block" where
  "CompressData compress E b =
    (if b_isCompressed b then b
     else
       (case compress (col_type E) (take (b_size b) (b_data b)) (b_min b) (b_max b) of
          None \<Rightarrow> b
        | Some d \<Rightarrow> b\<lparr>b_capacity := length d, b_size := length d, b_data := d, b_isCompressed := True\<rparr>))"

definition DecompressData ::
  "(DataType \<Rightarrow> 'a list \<Rightarrow> 'a \<Rightarrow> 'a \<Rightarrow> 'a list option) \<Rightarrow> 'a elem \<Rightarrow> nat \<Rightarrow> 'a block \<Rightarrow> 'a block result"
where
  "DecompressData decompress E blockSize b =
    (if \<not> b_isCompressed b then Inr b
     else
       (case decompress (col_type E) (take (b_size b) (b_data b)) (b_min b) (b_max b) of
          None \<Rightarrow> Inr b
        | Some d \<Rightarrow>
            if blockSize < length d then Inl UndefinedBehaviour
            else Inr (b\<lparr>b_capacity := blockSize, b_size := blockSize,
                     b_data := copy_at d 0 (replicate blockSize (uninit_v E)), b_isCompressed := False\<rparr>)))"

section \<open>Frames\<close>

text \<open>The statistics never touch the data, the mask, the capacity or the flags.\<close>

lemma update_frame [simp]:
  "b_data (updateBlockStatistics E d n b) = b_data b"
  "b_bitMask (updateBlockStatistics E d n b) = b_bitMask b"
  "b_capacity (updateBlockStatistics E d n b) = b_capacity b"
  "b_isCompressed (updateBlockStatistics E d n b) = b_isCompressed b"
  "b_isNullable (updateBlockStatistics E d n b) = b_isNullable b"
  "b_saveNecessary (updateBlockStatistics E d n b) = b_saveNecessary b"
  "b_index (updateBlockStatistics E d n b) = b_index b"
  by (auto simp: updateBlockStatistics_def updateBlockStatistics_num_def
      updateBlockStatistics_string_def updateBlockStatistics_geo_def Let_def split: stat_kind.splits)

lemma update_size [simp]:
  "\<not> b_isCompressed b \<Longrightarrow> b_size (updateBlockStatistics E d n b) = Suc (b_size b)"
  by (auto simp: updateBlockStatistics_def updateBlockStatistics_num_def
      updateBlockStatistics_string_def updateBlockStatistics_geo_def Let_def split: stat_kind.splits)

lemma is_null_update [simp]: "is_null (updateBlockStatistics E d n b) = is_null b"
  by (simp add: is_null_def fun_eq_iff)

lemma recompute_frame [simp]:
  "b_data (recompute_step E i b) = b_data b"
  "b_bitMask (recompute_step E i b) = b_bitMask b"
  "b_capacity (recompute_step E i b) = b_capacity b"
  "b_isCompressed (recompute_step E i b) = b_isCompressed b"
  "b_isNullable (recompute_step E i b) = b_isNullable b"
  "b_saveNecessary (recompute_step E i b) = b_saveNecessary b"
  "b_index (recompute_step E i b) = b_index b"
  "b_size (recompute_step E i b) = b_size b"
  by (simp_all add: recompute_step_def Let_def)

lemma fold_recompute_frame [simp]:
  "b_data (fold (recompute_step E) xs b) = b_data b"
  "b_bitMask (fold (recompute_step E) xs b) = b_bitMask b"
  "b_capacity (fold (recompute_step E) xs b) = b_capacity b"
  "b_isCompressed (fold (recompute_step E) xs b) = b_isCompressed b"
  "b_isNullable (fold (recompute_step E) xs b) = b_isNullable b"
  "b_saveNecessary (fold (recompute_step E) xs b) = b_saveNecessary b"
  "b_index (fold (recompute_step E) xs b) = b_index b"
  "b_size (fold (recompute_step E) xs b) = b_size b"
  by (induction xs arbitrary: b) simp_all

lemma fold_update_frame [simp]:
  "b_data (fold (\<lambda>i. updateBlockStatistics E (f i) False) xs b) = b_data b"
  "b_bitMask (fold (\<lambda>i. updateBlockStatistics E (f i) False) xs b) = b_bitMask b"
  "b_capacity (fold (\<lambda>i. updateBlockStatistics E (f i) False) xs b) = b_capacity b"
  "b_isCompressed (fold (\<lambda>i. updateBlockStatistics E (f i) False) xs b) = b_isCompressed b"
  "b_isNullable (fold (\<lambda>i. updateBlockStatistics E (f i) False) xs b) = b_isNullable b"
  "b_saveNecessary (fold (\<lambda>i. updateBlockStatistics E (f i) False) xs b) = b_saveNecessary b"
  "b_index (fold (\<lambda>i. updateBlockStatistics E (f i) False) xs b) = b_index b"
  by (induction xs arbitrary: b) simp_all

lemma fold_update_size [simp]:
  "\<not> b_isCompressed b \<Longrightarrow>
    b_size (fold (\<lambda>i. updateBlockStatistics E (f i) False) xs b) = b_size b + length xs"
  by (induction xs arbitrary: b) simp_all

lemma set_frame [simp]:
  "b_data (setBlockStatistics E n k b) = b_data b"
  "b_bitMask (setBlockStatistics E n k b) = b_bitMask b"
  "b_capacity (setBlockStatistics E n k b) = b_capacity b"
  "b_isCompressed (setBlockStatistics E n k b) = b_isCompressed b"
  "b_isNullable (setBlockStatistics E n k b) = b_isNullable b"
  "b_saveNecessary (setBlockStatistics E n k b) = b_saveNecessary b"
  "b_index (setBlockStatistics E n k b) = b_index b"
  by (auto simp: setBlockStatistics_def setBlockStatistics_num_def setBlockStatistics_byte_def
      update_rows_def Let_def split: stat_kind.splits)

lemma set_size [simp]:
  "\<not> b_isCompressed b \<Longrightarrow> b_size (setBlockStatistics E n k b) = b_size b + n"
  by (auto simp: setBlockStatistics_def setBlockStatistics_num_def setBlockStatistics_byte_def
      update_rows_def Let_def split: stat_kind.splits)

end
