(* ===== verification/Block_Correct.thy ===== *)
theory Block_Correct
  imports Block
begin

text \<open>
  What the operations of a block do to its rows. \<open>rows\<close> abstracts a block to the list of its
  rows, a null row being \<open>None\<close>; \<open>block_ok\<close> is the invariant of an uncompressed block and
  \<open>stats_sound\<close> says that the minimum and maximum bound every row that is not null, which is
  what the planner relies on when it skips a block.
\<close>

section \<open>Rows and invariant\<close>

definition rows :: "'a block \<Rightarrow> 'a option list" where
  "rows b = map (\<lambda>i. if is_null b i then None else Some (b_data b ! i)) [0..<b_size b]"

definition block_ok :: "'a block \<Rightarrow> bool" where
  "block_ok b \<longleftrightarrow>
    \<not> b_isCompressed b \<and> length (b_data b) = b_capacity b \<and> b_size b \<le> b_capacity b \<and>
    b_capacity b < 2 ^ 31 \<and>
    (case b_bitMask b of
       None \<Rightarrow> \<not> b_isNullable b
     | Some m \<Rightarrow> b_isNullable b \<and> length m = GetNullBitMaskSize (b_capacity b))"

text \<open>No bit is set beyond the last row.\<close>

definition mask_clean :: "'a block \<Rightarrow> bool" where
  "mask_clean b \<longleftrightarrow> (\<forall>i. b_size b \<le> i \<longrightarrow> \<not> is_null b i)"

definition stats_sound :: "'a elem \<Rightarrow> 'a block \<Rightarrow> bool" where
  "stats_sound E b \<longleftrightarrow> (\<forall>x. Some x \<in> set (rows b) \<longrightarrow> between (less_v E) (b_min b) (b_max b) x)"

lemma length_rows [simp]: "length (rows b) = b_size b"
  by (simp add: rows_def)

lemma nth_rows: "i < b_size b \<Longrightarrow> rows b ! i = (if is_null b i then None else Some (b_data b ! i))"
  by (simp add: rows_def)

lemma EmptyBlockSpace_ok:
  "block_ok b \<Longrightarrow> EmptyBlockSpace b = int (b_capacity b - b_size b)"
  by (auto simp: block_ok_def EmptyBlockSpace_def to_int32_id of_nat_diff)

lemma space_u64_ok: "block_ok b \<Longrightarrow> space_u64 b = int (b_capacity b - b_size b)"
  by (simp add: space_u64_def EmptyBlockSpace_ok block_ok_def)

lemma space_less_ok: "block_ok b \<Longrightarrow> space_less b n \<longleftrightarrow> b_capacity b - b_size b < n"
  by (simp add: space_less_def space_u64_ok)

lemma IsFull_ok: "block_ok b \<Longrightarrow> IsFull b \<longleftrightarrow> b_size b = b_capacity b"
  by (auto simp: IsFull_def EmptyBlockSpace_ok) (auto simp: block_ok_def)

lemma stats_defined_ok: "block_ok b \<Longrightarrow> b_size b + n \<le> b_capacity b \<Longrightarrow> stats_defined E n b"
  by (auto simp: block_ok_def stats_defined_def intro: GetNullBitMaskSize_mono split: option.splits)

lemma block_ok_setStats:
  "block_ok b \<Longrightarrow> b_size b + n \<le> b_capacity b \<Longrightarrow> block_ok (setBlockStatistics E n k b)"
  by (auto simp: block_ok_def split: option.splits)

lemma block_ok_update:
  "block_ok b \<Longrightarrow> b_size b < b_capacity b \<Longrightarrow> block_ok (updateBlockStatistics E d n b)"
  by (auto simp: block_ok_def split: option.splits)

lemma block_ok_data:
  "block_ok b \<Longrightarrow> length d = b_capacity b \<Longrightarrow> block_ok (b\<lparr>b_data := d\<rparr>)"
  by (auto simp: block_ok_def split: option.splits)

lemma block_ok_mask:
  "block_ok b \<Longrightarrow> b_isNullable b \<Longrightarrow> length m = GetNullBitMaskSize (b_capacity b) \<Longrightarrow>
    block_ok (b\<lparr>b_bitMask := Some m\<rparr>)"
  by (auto simp: block_ok_def split: option.splits)

lemma saveNecessary_irrelevant [simp]:
  "block_ok (b\<lparr>b_saveNecessary := v\<rparr>) = block_ok b"
  "rows (b\<lparr>b_saveNecessary := v\<rparr>) = rows b"
  "mask_clean (b\<lparr>b_saveNecessary := v\<rparr>) = mask_clean b"
  "stats_sound E (b\<lparr>b_saveNecessary := v\<rparr>) = stats_sound E b"
  by (simp_all add: block_ok_def rows_def mask_clean_def stats_sound_def is_null_def
      split: option.splits)

lemma is_null_set [simp]: "is_null (setBlockStatistics E n k b) = is_null b"
  by (simp add: is_null_def fun_eq_iff)

lemma is_null_data [simp]: "is_null (b\<lparr>b_data := d\<rparr>) = is_null b"
  by (simp add: is_null_def fun_eq_iff)

lemma rows_setStats:
  assumes "\<not> b_isCompressed b"
  shows "rows (setBlockStatistics E n k b) =
    rows b @ map (\<lambda>i. if is_null b i then None else Some (b_data b ! i)) [b_size b..<b_size b + n]"
  using assms by (simp add: rows_def upt_add_eq_append [of 0 "b_size b" n])

section \<open>Statistics bound the rows\<close>

definition bounds_all :: "'a elem \<Rightarrow> 'a set \<Rightarrow> 'a block \<Rightarrow> bool" where
  "bounds_all E V b \<longleftrightarrow> (\<forall>x\<in>V. between (less_v E) (b_min b) (b_max b) x)"

lemma bounds_all_mono: "bounds_all E V b \<Longrightarrow> W \<subseteq> V \<Longrightarrow> bounds_all E W b"
  by (auto simp: bounds_all_def)

locale block_elem = elem_order "less_v E" for E :: "'a elem" +
  assumes geo_less: "kind E = GeoStats \<Longrightarrow> \<not> less_v E x y"
begin

lemma geo_between: "kind E = GeoStats \<Longrightarrow> between (less_v E) lo hi x"
  by (simp add: between_def geo_less)

lemma update_bounds:
  assumes "\<not> b_isCompressed b" and "bounds_all E V b" and "b_size b = 0 \<Longrightarrow> V = {}"
  shows "bounds_all E (if n then V else insert d V) (updateBlockStatistics E d n b)"
proof -
  have num: "bounds_all E (if n then V else insert d V) (updateBlockStatistics_num E d n b)"
    using assms between_widen between_new between_self
    by (auto simp: bounds_all_def updateBlockStatistics_num_def Let_def)
  have str: "bounds_all E (if n then V else insert d V) (updateBlockStatistics_string E d n b)"
    using assms between_widen between_new between_self
    by (auto simp: bounds_all_def updateBlockStatistics_string_def Let_def)
  show ?thesis
    using num str geo_between
    by (cases "kind E") (simp_all add: updateBlockStatistics_def bounds_all_def)
qed

lemma fold_update_bounds:
  assumes "\<not> b_isCompressed b" and "bounds_all E V b" and "b_size b = 0 \<Longrightarrow> V = {}"
  shows "bounds_all E (V \<union> f ` set xs) (fold (\<lambda>i. updateBlockStatistics E (f i) False) xs b)"
  using assms
proof (induction xs arbitrary: V b)
  case Nil
  then show ?case by simp
next
  case (Cons x xs)
  have "bounds_all E (insert (f x) V) (updateBlockStatistics E (f x) False b)"
    using update_bounds [OF Cons.prems, of False] by simp
  moreover have "\<not> b_isCompressed (updateBlockStatistics E (f x) False b)"
    and "b_size (updateBlockStatistics E (f x) False b) \<noteq> 0"
    using Cons.prems(1) by simp_all
  ultimately have "bounds_all E (insert (f x) V \<union> f ` set xs)
    (fold (\<lambda>i. updateBlockStatistics E (f i) False) xs (updateBlockStatistics E (f x) False b))"
    by (intro Cons.IH) auto
  then show ?case by simp
qed

lemma recompute_bounds:
  "bounds_all E (V \<union> {b_data b ! i | i. i \<in> set xs \<and> \<not> is_null b i})
     (fold (recompute_step E) xs b)" if "bounds_all E V b"
  using that
proof (induction xs arbitrary: V b)
  case Nil
  then show ?case by simp
next
  case (Cons k xs)
  let ?b = "recompute_step E k b"
  let ?V = "if is_null b k then V else insert (b_data b ! k) V"
  have nul: "is_null ?b = is_null b" by (simp add: is_null_def fun_eq_iff)
  have "bounds_all E ?V ?b"
    using Cons.prems between_widen between_new
    by (auto simp: bounds_all_def recompute_step_def Let_def)
  then have "bounds_all E (?V \<union> {b_data ?b ! i | i. i \<in> set xs \<and> \<not> is_null ?b i})
      (fold (recompute_step E) xs ?b)"
    by (rule Cons.IH)
  then show ?case unfolding nul by (auto simp: bounds_all_def)
qed

lemma set_bounds:
  assumes "\<not> b_isCompressed b" and "bounds_all E V b" and "b_size b = 0 \<Longrightarrow> V = {}"
    and "V \<subseteq> {b_data b ! i | i. i < b_size b \<and> \<not> is_null b i}"
  shows "bounds_all E
    (V \<union> {b_data b ! i | i. b_size b \<le> i \<and> i < b_size b + n \<and> \<not> is_null b i})
    (setBlockStatistics E n (b_size b) b)"
proof -
  let ?N = "{b_data b ! i | i. b_size b \<le> i \<and> i < b_size b + n \<and> \<not> is_null b i}"
  have sub: "?N \<subseteq> (\<lambda>i. b_data b ! (i + b_size b)) ` set [0..<n]"
  proof
    fix x assume "x \<in> ?N"
    then obtain i where "x = b_data b ! i" "b_size b \<le> i" "i < b_size b + n" by auto
    then show "x \<in> (\<lambda>i. b_data b ! (i + b_size b)) ` set [0..<n]"
      by (auto intro!: image_eqI [of _ _ "i - b_size b"])
  qed
  have upd: "bounds_all E (V \<union> ?N) (update_rows E n (b_size b) b)"
    using fold_update_bounds [OF assms(1-3), of "\<lambda>i. b_data b ! (i + b_size b)" "[0..<n]"] sub
    by (auto simp: update_rows_def bounds_all_def)
  have num: "bounds_all E (V \<union> ?N) (setBlockStatistics_num E n (b_size b) b)"
  proof (cases "b_isNullable b")
    case False
    with upd assms(1) show ?thesis by (simp add: setBlockStatistics_num_def)
  next
    case True
    let ?b0 = "b\<lparr>b_size := b_size b + n, b_min := max_v E, b_max := lowest_v E,
      b_avg := 0, b_sum := zero_v E, b_countOfNotNullValues := 0\<rparr>"
    have "bounds_all E ({} \<union> {b_data ?b0 ! i | i. i \<in> set [0..<b_size ?b0] \<and> \<not> is_null ?b0 i})
        (fold (recompute_step E) [0..<b_size ?b0] ?b0)"
      by (rule recompute_bounds) (simp add: bounds_all_def)
    moreover have "is_null ?b0 = is_null b" by (simp add: is_null_def fun_eq_iff)
    ultimately have "bounds_all E {b_data b ! i | i. i < b_size b + n \<and> \<not> is_null b i}
        (fold (recompute_step E) [0..<b_size ?b0] ?b0)"
      by simp
    moreover have "V \<union> ?N \<subseteq> {b_data b ! i | i. i < b_size b + n \<and> \<not> is_null b i}"
      using assms(4) by fastforce
    ultimately have "bounds_all E (V \<union> ?N) (fold (recompute_step E) [0..<b_size ?b0] ?b0)"
      by (rule bounds_all_mono)
    then show ?thesis
      using True assms(1) by (simp add: setBlockStatistics_num_def bounds_all_def Let_def)
  qed
  show ?thesis
    using num upd assms(1)
    by (cases "kind E") (simp_all add: setBlockStatistics_def setBlockStatistics_byte_def)
qed

end

interpretation int32_block: block_elem "elem_int32 u"
  by unfold_locales (simp add: elem_defs)
interpretation int64_block: block_elem "elem_int64 u"
  by unfold_locales (simp add: elem_defs)
interpretation int8_block: block_elem "elem_int8 u"
  by unfold_locales (simp add: elem_defs)
interpretation float_block: block_elem "elem_float u"
  by unfold_locales (simp add: elem_defs)
interpretation double_block: block_elem "elem_double u"
  by unfold_locales (simp add: elem_defs)
interpretation string_block: block_elem elem_string
  by unfold_locales (simp add: elem_defs)
interpretation Point_block: block_elem elem_Point
  by unfold_locales (simp add: elem_defs)
interpretation Polygon_block: block_elem elem_Polygon
  by unfold_locales (simp add: elem_defs)

section \<open>Appending\<close>

definition live :: "'a block \<Rightarrow> 'a set" where
  "live b = {b_data b ! i | i. i < b_size b \<and> \<not> is_null b i}"

lemma Some_in_rows: "Some x \<in> set (rows b) \<longleftrightarrow> x \<in> live b"
  by (auto simp: rows_def live_def image_iff)

lemma stats_sound_live: "stats_sound E b \<longleftrightarrow> bounds_all E (live b) b"
  by (auto simp: stats_sound_def bounds_all_def Some_in_rows)

lemma live_setStats:
  assumes "\<not> b_isCompressed b"
  shows "live (setBlockStatistics E n k b) =
    live b \<union> {b_data b ! i | i. b_size b \<le> i \<and> i < b_size b + n \<and> \<not> is_null b i}"
proof -
  have "i < b_size b + n \<longleftrightarrow> i < b_size b \<or> b_size b \<le> i \<and> i < b_size b + n" for i
    by auto
  with assms show ?thesis unfolding live_def by simp blast
qed

lemma InsertData_block_eq:
  assumes "block_ok b" and "length data \<le> b_capacity b - b_size b"
  shows "InsertData_block E data sv b =
    Inr ((setBlockStatistics E (length data) (b_size b)
      (b\<lparr>b_data := copy_at data (b_size b) (b_data b)\<rparr>))\<lparr>b_saveNecessary := sv\<rparr>)"
  using assms stats_defined_ok [OF assms(1), of "length data" E]
  by (auto simp: InsertData_block_def space_less_ok) (auto simp: block_ok_def)

lemma InsertData_block_full:
  assumes "block_ok b" and "b_capacity b - b_size b < length data"
  shows "InsertData_block E data sv b = Inl LengthError"
  using assms by (simp add: InsertData_block_def space_less_ok)

lemma InsertData_block_frame:
  assumes "block_ok b" and "InsertData_block E data sv b = Inr b'"
  shows "b_capacity b' = b_capacity b" "b_isNullable b' = b_isNullable b"
    "b_size b' = b_size b + length data" "is_null b' = is_null b" "b_bitMask b' = b_bitMask b"
    "b_saveNecessary b' = sv" "b_index b' = b_index b" "length data \<le> b_capacity b - b_size b"
proof -
  have fits: "length data \<le> b_capacity b - b_size b"
    using assms InsertData_block_full [OF assms(1), of data E sv] by (cases "b_capacity b - b_size b < length data") auto
  then show "b_capacity b' = b_capacity b" "b_isNullable b' = b_isNullable b"
    "b_size b' = b_size b + length data" "is_null b' = is_null b" "b_bitMask b' = b_bitMask b"
    "b_saveNecessary b' = sv" "b_index b' = b_index b" "length data \<le> b_capacity b - b_size b"
    using assms InsertData_block_eq [OF assms(1), of data E sv]
    by (auto simp: is_null_def fun_eq_iff block_ok_def)
qed

lemma InsertData_block_ok:
  assumes "block_ok b" and "InsertData_block E data sv b = Inr b'"
  shows "block_ok b'"
proof -
  have fits: "b_size b + length data \<le> b_capacity b"
    using InsertData_block_frame(8) [OF assms] assms(1) by (auto simp: block_ok_def)
  have "block_ok (b\<lparr>b_data := copy_at data (b_size b) (b_data b)\<rparr>)"
    using assms(1) fits by (intro block_ok_data) (auto simp: block_ok_def)
  then have "block_ok (setBlockStatistics E (length data) (b_size b)
      (b\<lparr>b_data := copy_at data (b_size b) (b_data b)\<rparr>))"
    using fits by (intro block_ok_setStats) auto
  with assms InsertData_block_eq [OF assms(1), of data E sv] fits show ?thesis by auto
qed

lemma InsertData_block_rows:
  assumes "block_ok b" and "InsertData_block E data sv b = Inr b'"
  shows "rows b' = rows b @
    map (\<lambda>i. if is_null b (b_size b + i) then None else Some (data ! i)) [0..<length data]"
proof (rule nth_equalityI)
  show "length (rows b') = length (rows b @
    map (\<lambda>i. if is_null b (b_size b + i) then None else Some (data ! i)) [0..<length data])"
    using InsertData_block_frame(3) [OF assms] by simp
next
  fix i assume "i < length (rows b')"
  then have i: "i < b_size b + length data"
    using InsertData_block_frame(3) [OF assms] by simp
  have fits: "b_size b + length data \<le> length (b_data b)" "length data \<le> b_capacity b - b_size b"
    using InsertData_block_frame(8) [OF assms] assms(1) by (auto simp: block_ok_def)
  have "b_data b' = copy_at data (b_size b) (b_data b)"
    using assms InsertData_block_eq [OF assms(1) fits(2), of E sv] by auto
  then have "b_data b' ! i = (if i < b_size b then b_data b ! i else data ! (i - b_size b))"
    using i fits(1) by (simp add: nth_copy_at)
  then show "rows b' ! i = (rows b @
    map (\<lambda>i. if is_null b (b_size b + i) then None else Some (data ! i)) [0..<length data]) ! i"
    using i InsertData_block_frame(3,4) [OF assms] by (auto simp: nth_rows nth_append)
qed

lemma InsertData_block_rows_clean:
  assumes "block_ok b" and "InsertData_block E data sv b = Inr b'" and "mask_clean b"
  shows "rows b' = rows b @ map Some data" and "mask_clean b'"
proof -
  have "map (\<lambda>i. if is_null b (b_size b + i) then None else Some (data ! i)) [0..<length data] = map Some data"
    using assms(3) by (intro nth_equalityI) (simp_all add: mask_clean_def)
  then show "rows b' = rows b @ map Some data"
    using InsertData_block_rows [OF assms(1,2)] by simp
  show "mask_clean b'"
    using assms(3) InsertData_block_frame(3,4) [OF assms(1,2)] by (simp add: mask_clean_def)
qed

context block_elem
begin

lemma InsertData_block_sound:
  assumes "block_ok b" and "InsertData_block E data sv b = Inr b'" and "stats_sound E b"
  shows "stats_sound E b'"
proof -
  let ?b = "b\<lparr>b_data := copy_at data (b_size b) (b_data b)\<rparr>"
  have fits: "b_size b + length data \<le> length (b_data b)" "length data \<le> b_capacity b - b_size b"
    using InsertData_block_frame(8) [OF assms(1,2)] assms(1) by (auto simp: block_ok_def)
  have b': "b' = (setBlockStatistics E (length data) (b_size b) ?b)\<lparr>b_saveNecessary := sv\<rparr>"
    using assms(2) InsertData_block_eq [OF assms(1) fits(2), of E sv] by simp
  have same: "copy_at data (b_size b) (b_data b) ! i = b_data b ! i" if "i < b_size b" for i
    using that fits(1) by (simp add: nth_copy_at)
  have live: "live ?b = live b"
    unfolding live_def by (auto simp: same) (metis same)
  have "bounds_all E (live b) ?b"
    using assms(3) by (simp add: stats_sound_live bounds_all_def)
  moreover have "b_size ?b = 0 \<Longrightarrow> live b = {}" by (simp add: live_def)
  ultimately have "bounds_all E (live b \<union> {b_data ?b ! i | i. b_size ?b \<le> i \<and>
      i < b_size ?b + length data \<and> \<not> is_null ?b i}) (setBlockStatistics E (length data) (b_size ?b) ?b)"
    using assms(1) live by (intro set_bounds) (auto simp: block_ok_def live_def)
  moreover have "live (setBlockStatistics E (length data) (b_size b) ?b) =
      live b \<union> {b_data ?b ! i | i. b_size ?b \<le> i \<and> i < b_size ?b + length data \<and> \<not> is_null ?b i}"
    using assms(1) live_setStats [of ?b E "length data" "b_size b"]
    unfolding live by (simp add: block_ok_def)
  ultimately have "stats_sound E (setBlockStatistics E (length data) (b_size b) ?b)"
    by (simp add: stats_sound_live)
  then show ?thesis by (simp add: b')
qed

end

section \<open>Fresh blocks\<close>

lemma raw_block_ok:
  assumes "length d = cap" and "cap < 2 ^ 31"
  shows "block_ok (raw_block E cap d False nul sv ix)" and "mask_clean (raw_block E cap d False nul sv ix)"
    and "b_size (raw_block E cap d False nul sv ix) = 0"
    and "is_null (raw_block E cap d False nul sv ix) = (\<lambda>_. False)"
  using assms
  by (auto simp: block_ok_def raw_block_def mask_clean_def is_null_def new_mask_def fun_eq_iff)

lemma BlockBase_empty_ok:
  assumes "bs < 2 ^ 31"
  shows "block_ok (BlockBase_empty E bs nul sv ix)" and "mask_clean (BlockBase_empty E bs nul sv ix)"
    and "rows (BlockBase_empty E bs nul sv ix) = []" and "stats_sound E (BlockBase_empty E bs nul sv ix)"
    and "b_capacity (BlockBase_empty E bs nul sv ix) = bs"
    and "b_isNullable (BlockBase_empty E bs nul sv ix) = nul"
  using raw_block_ok [of "replicate bs (uninit_v E)" bs] assms
  by (auto simp: BlockBase_empty_def rows_def stats_sound_def raw_block_def)

text \<open>
  A block built from data is an empty block into which the data are inserted, so its facts
  follow from those of the insertion.
\<close>

lemma BlockBase_data_insert:
  assumes "length data \<le> bs" and "bs < 2 ^ 31"
  shows "BlockBase_data E bs data False nul True sv ix =
    InsertData_block E data sv (BlockBase_empty E bs nul sv ix)"
proof -
  let ?e = "BlockBase_empty E bs nul sv ix"
  have ok: "block_ok ?e" and cap: "b_capacity ?e = bs" and sz: "b_size ?e = 0"
    using BlockBase_empty_ok [OF assms(2), of E nul sv ix]
    by (simp_all add: BlockBase_empty_def raw_block_def)
  have "InsertData_block E data sv ?e =
      Inr ((setBlockStatistics E (length data) 0
        (?e\<lparr>b_data := copy_at data 0 (b_data ?e)\<rparr>))\<lparr>b_saveNecessary := sv\<rparr>)"
    using InsertData_block_eq [OF ok, of data E sv] cap sz assms(1) by simp
  moreover have "b\<lparr>b_saveNecessary := sv\<rparr> = b" if "b_saveNecessary b = sv" for b :: "'a block"
    using that by (cases b) simp
  moreover have "?e\<lparr>b_data := copy_at data 0 (b_data ?e)\<rparr> =
      raw_block E bs (copy_at data 0 (replicate bs (uninit_v E))) False nul sv ix"
    by (simp add: BlockBase_empty_def raw_block_def)
  ultimately show ?thesis
    using assms(1) by (simp add: BlockBase_data_def raw_block_def)
qed

lemma BlockBase_data_too_long:
  "bs < length data \<Longrightarrow> BlockBase_data E bs data cp nul cnt sv ix = Inl LengthError"
  by (simp add: BlockBase_data_def)

context block_elem
begin

lemma BlockBase_data_ok:
  assumes "length data \<le> bs" and "bs < 2 ^ 31"
  obtains b where "BlockBase_data E bs data False nul True sv ix = Inr b"
    and "block_ok b" and "mask_clean b" and "stats_sound E b" and "rows b = map Some data"
    and "b_capacity b = bs" and "b_isNullable b = nul" and "b_size b = length data"
proof -
  let ?e = "BlockBase_empty E bs nul sv ix"
  note e = BlockBase_empty_ok [OF assms(2), of E nul sv ix]
  have sz: "b_size ?e = 0" by (simp add: BlockBase_empty_def raw_block_def)
  obtain b where b: "InsertData_block E data sv ?e = Inr b"
    using InsertData_block_eq [OF e(1), of data E sv] e(5) sz assms(1) by auto
  show ?thesis
  proof (rule that)
    show "BlockBase_data E bs data False nul True sv ix = Inr b"
      using b BlockBase_data_insert [OF assms, of E nul sv ix] by simp
    show "rows b = map Some data"
      using InsertData_block_rows_clean(1) [OF e(1) b e(2)] e(3) by simp
    show "mask_clean b" by (rule InsertData_block_rows_clean(2) [OF e(1) b e(2)])
    show "block_ok b" by (rule InsertData_block_ok [OF e(1) b])
    show "stats_sound E b" by (rule InsertData_block_sound [OF e(1) b e(4)])
  qed (use InsertData_block_frame [OF e(1) b] e(5,6) sz in simp_all)
qed

end

section \<open>A concrete block\<close>

text \<open>A nullable block of four cells that holds two rows; the theorems are applied to it.\<close>

definition sample_block :: "int32 block" where
  "sample_block = projr (BlockBase_data (elem_int32 0) 4 [7, 3] False True True True 0)"

lemma sample_block:
  "block_ok sample_block" "mask_clean sample_block" "stats_sound (elem_int32 0) sample_block"
  "rows sample_block = [Some 7, Some 3]" "b_capacity sample_block = 4" "b_isNullable sample_block"
  "b_size sample_block = 2"
proof -
  obtain b where "BlockBase_data (elem_int32 0) 4 [7, 3] False True True True 0 = Inr b"
    and "block_ok b" "mask_clean b" "stats_sound (elem_int32 0) b"
    "rows b = map Some [7, 3]" "b_capacity b = 4" "b_isNullable b = True" "b_size b = length [7, 3 :: int32]"
    by (rule int32_block.BlockBase_data_ok [of "[7, 3]" 4 0 True True 0]) simp_all
  then show "block_ok sample_block" "mask_clean sample_block" "stats_sound (elem_int32 0) sample_block"
    "rows sample_block = [Some 7, Some 3]" "b_capacity sample_block = 4" "b_isNullable sample_block"
    "b_size sample_block = 2"
    by (simp_all add: sample_block_def)
qed

end
