(* ===== verification/Block_Stats.thy ===== *)
theory Block_Stats
  imports Block_Correct
begin

text \<open>
  The specialisations of the block statistics per element type (\<open>BlockBase.cpp\<close>), and the
  exactness of the statistics of integer blocks: they are the minimum, the maximum, the
  count and the wrapped sum of the rows.
\<close>

section \<open>The specialisations\<close>

definition updateBlockStatistics_int32 :: "int32 \<Rightarrow> int32 \<Rightarrow> bool \<Rightarrow> int32 block \<Rightarrow> int32 block" where
  "updateBlockStatistics_int32 u = updateBlockStatistics_num (elem_int32 u)"

definition updateBlockStatistics_int64 :: "int64 \<Rightarrow> int64 \<Rightarrow> bool \<Rightarrow> int64 block \<Rightarrow> int64 block" where
  "updateBlockStatistics_int64 u = updateBlockStatistics_num (elem_int64 u)"

definition updateBlockStatistics_float :: "f32 \<Rightarrow> f32 \<Rightarrow> bool \<Rightarrow> f32 block \<Rightarrow> f32 block" where
  "updateBlockStatistics_float u = updateBlockStatistics_num (elem_float u)"

definition updateBlockStatistics_double :: "f64 \<Rightarrow> f64 \<Rightarrow> bool \<Rightarrow> f64 block \<Rightarrow> f64 block" where
  "updateBlockStatistics_double u = updateBlockStatistics_num (elem_double u)"

definition updateBlockStatistics_Point :: "Point \<Rightarrow> bool \<Rightarrow> Point block \<Rightarrow> Point block" where
  "updateBlockStatistics_Point = updateBlockStatistics_geo elem_Point"

definition updateBlockStatistics_Polygon ::
  "ComplexPolygon \<Rightarrow> bool \<Rightarrow> ComplexPolygon block \<Rightarrow> ComplexPolygon block" where
  "updateBlockStatistics_Polygon = updateBlockStatistics_geo elem_Polygon"

definition updateBlockStatistics_str :: "string \<Rightarrow> bool \<Rightarrow> string block \<Rightarrow> string block" where
  "updateBlockStatistics_str = updateBlockStatistics_string elem_string"

definition updateBlockStatistics_int8 :: "int8 \<Rightarrow> int8 \<Rightarrow> bool \<Rightarrow> int8 block \<Rightarrow> int8 block" where
  "updateBlockStatistics_int8 u = updateBlockStatistics_num (elem_int8 u)"

definition setBlockStatistics_int32 :: "int32 \<Rightarrow> nat \<Rightarrow> nat \<Rightarrow> int32 block \<Rightarrow> int32 block" where
  "setBlockStatistics_int32 u = setBlockStatistics_num (elem_int32 u)"

definition setBlockStatistics_int64 :: "int64 \<Rightarrow> nat \<Rightarrow> nat \<Rightarrow> int64 block \<Rightarrow> int64 block" where
  "setBlockStatistics_int64 u = setBlockStatistics_num (elem_int64 u)"

definition setBlockStatistics_float :: "f32 \<Rightarrow> nat \<Rightarrow> nat \<Rightarrow> f32 block \<Rightarrow> f32 block" where
  "setBlockStatistics_float u = setBlockStatistics_num (elem_float u)"

definition setBlockStatistics_double :: "f64 \<Rightarrow> nat \<Rightarrow> nat \<Rightarrow> f64 block \<Rightarrow> f64 block" where
  "setBlockStatistics_double u = setBlockStatistics_num (elem_double u)"

definition setBlockStatistics_Point :: "nat \<Rightarrow> nat \<Rightarrow> Point block \<Rightarrow> Point block" where
  "setBlockStatistics_Point = update_rows elem_Point"

definition setBlockStatistics_Polygon :: "nat \<Rightarrow> nat \<Rightarrow> ComplexPolygon block \<Rightarrow> ComplexPolygon block" where
  "setBlockStatistics_Polygon = update_rows elem_Polygon"

definition setBlockStatistics_str :: "nat \<Rightarrow> nat \<Rightarrow> string block \<Rightarrow> string block" where
  "setBlockStatistics_str = update_rows elem_string"

definition setBlockStatistics_int8 :: "int8 \<Rightarrow> nat \<Rightarrow> nat \<Rightarrow> int8 block \<Rightarrow> int8 block" where
  "setBlockStatistics_int8 u = setBlockStatistics_byte (elem_int8 u)"

text \<open>The dispatch on the kind of an element type selects its specialisation.\<close>

lemma updateBlockStatistics_specialised:
  "updateBlockStatistics (elem_int32 u) = updateBlockStatistics_int32 u"
  "updateBlockStatistics (elem_int64 v) = updateBlockStatistics_int64 v"
  "updateBlockStatistics (elem_float x) = updateBlockStatistics_float x"
  "updateBlockStatistics (elem_double y) = updateBlockStatistics_double y"
  "updateBlockStatistics elem_Point = updateBlockStatistics_Point"
  "updateBlockStatistics elem_Polygon = updateBlockStatistics_Polygon"
  "updateBlockStatistics elem_string = updateBlockStatistics_str"
  "updateBlockStatistics (elem_int8 z) = updateBlockStatistics_int8 z"
  by (simp_all add: fun_eq_iff updateBlockStatistics_def updateBlockStatistics_int32_def
      updateBlockStatistics_int64_def updateBlockStatistics_float_def updateBlockStatistics_double_def
      updateBlockStatistics_Point_def updateBlockStatistics_Polygon_def updateBlockStatistics_str_def
      updateBlockStatistics_int8_def)
    (simp_all add: elem_defs)

lemma setBlockStatistics_specialised:
  "setBlockStatistics (elem_int32 u) = setBlockStatistics_int32 u"
  "setBlockStatistics (elem_int64 v) = setBlockStatistics_int64 v"
  "setBlockStatistics (elem_float x) = setBlockStatistics_float x"
  "setBlockStatistics (elem_double y) = setBlockStatistics_double y"
  "setBlockStatistics elem_Point = setBlockStatistics_Point"
  "setBlockStatistics elem_Polygon = setBlockStatistics_Polygon"
  "setBlockStatistics elem_string = setBlockStatistics_str"
  "setBlockStatistics (elem_int8 z) = setBlockStatistics_int8 z"
  by (simp_all add: fun_eq_iff setBlockStatistics_def setBlockStatistics_int32_def
      setBlockStatistics_int64_def setBlockStatistics_float_def setBlockStatistics_double_def
      setBlockStatistics_Point_def setBlockStatistics_Polygon_def setBlockStatistics_str_def
      setBlockStatistics_int8_def)
    (simp_all add: elem_defs)

section \<open>Exact statistics of integer blocks\<close>

definition exact_stats :: "'w::len word list \<Rightarrow> 'w word block \<Rightarrow> bool" where
  "exact_stats xs b \<longleftrightarrow>
    sint (b_min b) = Min (sint ` set xs) \<and> sint (b_max b) = Max (sint ` set xs) \<and>
    b_sum b = sum_list xs \<and> b_countOfNotNullValues b = length xs"

lemma int_elem_sel [simp]:
  "less_v (int_elem k t u) = sless" "add_v (int_elem k t u) = (+)" "zero_v (int_elem k t u) = 0"
  "kind (int_elem k t u) = k"
  by (simp_all add: int_elem_def)

lemma signed_take_bit_exp: "signed_take_bit n (2 ^ n :: int) = - (2 ^ n)"
  by (simp add: signed_take_bit_eq_take_bit_shift mult_2 [symmetric] take_bit_eq_mod)

lemma sint_limits:
  fixes z :: "'w::len word"
  defines "z \<equiv> push_bit (LENGTH('w) - 1) 1"
  shows "sint z = - (2 ^ (LENGTH('w) - 1))" and "sint (z - 1) = 2 ^ (LENGTH('w) - 1) - 1"
proof -
  let ?n = "LENGTH('w) - 1"
  have z: "z = word_of_int (2 ^ ?n)" by (simp add: z_def)
  show "sint z = - (2 ^ ?n)"
    unfolding z sint_sbintrunc' by (rule signed_take_bit_exp)
  have z1: "z - 1 = word_of_int (2 ^ ?n - 1)" by (simp add: z)
  show "sint (z - 1) = 2 ^ ?n - 1"
    unfolding z1 sint_sbintrunc' by (rule signed_take_bit_int_eq_self) simp_all
qed

lemma word_limits:
  fixes x :: "'w::len word"
  shows "\<not> sless x (lowest_v (int_elem k t u))" and "\<not> sless (max_v (int_elem k t u)) x"
  using sint_greater_eq [of x] sint_less [of x] sint_limits [where 'w = 'w]
  by (simp_all add: sless_def int_elem_def)

text \<open>One more value, on a block with values and on the reset block of the recomputation.\<close>

lemma exact_snoc:
  assumes "exact_stats xs b" and "xs \<noteq> []"
    and "b_min b' = (if sless d (b_min b) then d else b_min b)"
    and "b_max b' = (if sless (b_max b) d then d else b_max b)"
    and "b_sum b' = b_sum b + d" and "b_countOfNotNullValues b' = b_countOfNotNullValues b + 1"
  shows "exact_stats (xs @ [d]) b'"
proof -
  have "sint (b_min b') = min (sint d) (sint (b_min b))" and "sint (b_max b') = max (sint d) (sint (b_max b))"
    using assms(3,4) by (simp_all add: sless_def)
  moreover have "Min (sint ` set (xs @ [d])) = min (sint d) (Min (sint ` set xs))"
    and "Max (sint ` set (xs @ [d])) = max (sint d) (Max (sint ` set xs))"
    using assms(2) by simp_all
  ultimately show ?thesis using assms(1,5,6) by (simp only: exact_stats_def) simp
qed

lemma exact_single:
  assumes "b_min b = d" and "b_max b = d" and "b_sum b = d" and "b_countOfNotNullValues b = 1"
  shows "exact_stats [d] b"
  using assms by (simp add: exact_stats_def)

definition int_kind :: "stat_kind \<Rightarrow> bool" where
  "int_kind k \<longleftrightarrow> k = NumStats \<or> k = ByteStats"

lemma update_int:
  assumes "int_kind k"
  shows "updateBlockStatistics (int_elem k t u) = updateBlockStatistics_num (int_elem k t u)"
  using assms by (auto simp: fun_eq_iff updateBlockStatistics_def int_kind_def int_elem_def)

lemma update_exact:
  assumes "int_kind k" and "\<not> b_isCompressed b" and "b_size b \<noteq> 0" and "exact_stats xs b" and "xs \<noteq> []"
  shows "exact_stats (xs @ [d]) (updateBlockStatistics (int_elem k t u) d False b)"
  by (rule exact_snoc [OF assms(4,5)])
    (simp_all add: update_int [OF assms(1)] updateBlockStatistics_num_def Let_def assms(2,3))

lemma recompute_exact:
  assumes "\<not> is_null b i" and "exact_stats xs b" and "xs \<noteq> []"
  shows "exact_stats (xs @ [b_data b ! i]) (recompute_step (int_elem k t u) i b)"
  by (rule exact_snoc [OF assms(2,3)]) (simp_all add: recompute_step_def Let_def assms(1))

lemma fold_update_exact:
  assumes "int_kind k" and "\<not> b_isCompressed b" and "b_size b = 0" and "b_countOfNotNullValues b = 0"
    and "0 < n"
  shows "exact_stats (map f [0..<n]) (fold (\<lambda>i. updateBlockStatistics (int_elem k t u) (f i) False) [0..<n] b)"
  using assms(5)
proof (induction n rule: nat_induct_non_zero)
  case 1
  show ?case using assms(1-4)
    by (auto simp: update_int updateBlockStatistics_num_def intro!: exact_single)
next
  case (Suc n)
  let ?b = "fold (\<lambda>i. updateBlockStatistics (int_elem k t u) (f i) False) [0..<n] b"
  have "exact_stats (map f [0..<n] @ [f n]) (updateBlockStatistics (int_elem k t u) (f n) False ?b)"
    by (rule update_exact [OF assms(1) _ _ Suc.IH]) (use assms(2,3) Suc.hyps in simp_all)
  then show ?case by simp
qed

lemma fold_recompute_exact:
  assumes "b_min b = max_v (int_elem k t u)" and "b_max b = lowest_v (int_elem k t u)"
    and "b_sum b = 0" and "b_countOfNotNullValues b = 0" and "is_null b = (\<lambda>_. False)" and "0 < n"
  shows "exact_stats (map (\<lambda>i. b_data b ! i) [0..<n]) (fold (recompute_step (int_elem k t u)) [0..<n] b)"
  using assms(6)
proof (induction n rule: nat_induct_non_zero)
  case 1
  let ?d = "b_data b ! 0"
  have "\<not> sless ?d (b_min b) \<Longrightarrow> sint (b_min b) = sint ?d" and "\<not> sless (b_max b) ?d \<Longrightarrow> sint (b_max b) = sint ?d"
    using word_limits [where k = k and t = t and u = u] assms(1,2) by (auto simp: sless_def not_less intro: order_antisym)
  then show ?case using assms(3,4,5)
    by (auto simp: recompute_step_def Let_def exact_stats_def)
next
  case (Suc n)
  let ?b = "fold (recompute_step (int_elem k t u)) [0..<n] b"
  have nul: "\<not> is_null ?b n" using assms(5) by (simp add: is_null_def fun_eq_iff)
  have "exact_stats (map (\<lambda>i. b_data b ! i) [0..<n] @ [b_data ?b ! n]) (recompute_step (int_elem k t u) n ?b)"
    by (rule recompute_exact [OF nul Suc.IH]) (use Suc.hyps in simp)
  then show ?case by simp
qed

lemma BlockBase_data_exact:
  fixes data :: "'w::len word list"
  assumes "int_kind k" and "data \<noteq> []" and "length data \<le> bs"
  shows "\<exists>b. BlockBase_data (int_elem k t u) bs data False nul True sv ix = Inr b \<and> exact_stats data b"
proof -
  let ?E = "int_elem k t u"
  let ?r = "raw_block ?E bs (copy_at data 0 (replicate bs (uninit_v ?E))) False nul sv ix"
  let ?n = "length data"
  have n: "0 < ?n" using assms(2) by simp
  have dat: "map (\<lambda>i. b_data ?r ! i) [0..<?n] = data"
    using assms(3) by (intro nth_equalityI) (simp_all add: raw_block_def nth_copy_at)
  have upd: "exact_stats data (update_rows ?E ?n 0 ?r)"
    using fold_update_exact [OF assms(1), of ?r ?n "\<lambda>i. b_data ?r ! i" t u] n dat
    by (simp add: update_rows_def) (simp add: raw_block_def)
  let ?q = "?r\<lparr>b_size := b_size ?r + ?n, b_min := max_v ?E, b_max := lowest_v ?E,
    b_avg := 0, b_sum := zero_v ?E, b_countOfNotNullValues := 0\<rparr>"
  have "is_null ?q = (\<lambda>_. False)"
    by (simp add: is_null_def raw_block_def new_mask_def fun_eq_iff)
  then have rec: "exact_stats data (fold (recompute_step ?E) [0..<?n] ?q)"
    using fold_recompute_exact [of ?q k t u ?n] n dat by simp
  have "exact_stats data (setBlockStatistics ?E ?n 0 ?r)"
  proof (cases "k = NumStats \<and> nul")
    case True
    have "exact_stats data (b\<lparr>b_avg := v\<rparr>) = exact_stats data b" for b :: "'w word block" and v
      by (simp add: exact_stats_def)
    note avg = this
    have sz: "b_size ?r = 0" "b_isNullable ?r = nul" "\<not> b_isCompressed ?r" by (simp_all add: raw_block_def)
    have "setBlockStatistics ?E ?n 0 ?r = setBlockStatistics_num ?E ?n 0 ?r"
      using True by (simp add: setBlockStatistics_def)
    moreover have "exact_stats data (setBlockStatistics_num ?E ?n 0 ?r)"
      unfolding setBlockStatistics_num_def Let_def
      using True rec sz by (simp add: avg)
    ultimately show ?thesis by (simp only:)
  next
    case False
    with upd assms(1) show ?thesis
      by (auto simp: setBlockStatistics_def setBlockStatistics_num_def setBlockStatistics_byte_def
          int_kind_def raw_block_def)
  qed
  then show ?thesis using assms(3) by (simp add: BlockBase_data_def Let_def)
qed

text \<open>
  The statistics of a new 32-bit integer block are exact: minimum and maximum are those of
  the data as signed numbers, the count is the number of rows and the sum is the sum modulo
  \<open>2 ^ 32\<close>, for nullable and for other blocks.
\<close>

theorem BlockBase_int32_statistics:
  assumes "data \<noteq> []" and "length data \<le> bs"
  shows "\<exists>b. BlockBase_data (elem_int32 u) bs data False nul True sv ix = Inr b \<and>
    sint (b_min b) = Min (sint ` set data) \<and> sint (b_max b) = Max (sint ` set data) \<and>
    uint (b_sum b) = (\<Sum>x\<leftarrow>data. uint x) mod 2 ^ 32 \<and> b_countOfNotNullValues b = length data"
proof -
  have "uint (sum_list data) = (\<Sum>x\<leftarrow>data. uint x) mod 2 ^ 32" for data :: "int32 list"
    by (induction data) (simp_all add: uint_word_ariths mod_simps)
  with BlockBase_data_exact [OF _ assms, of NumStats COLUMN_INT u nul sv ix] show ?thesis
    by (auto simp: int_kind_def exact_stats_def elem_int32_def)
qed

theorem BlockBase_int32_statistics_witness:
  "\<exists>b. BlockBase_data (elem_int32 0) 4 [3, - 2, 5] False True True True 0 = Inr b \<and>
    sint (b_min b) = - 2 \<and> sint (b_max b) = 5 \<and> uint (b_sum b) = 6"
  using BlockBase_int32_statistics [of "[3, - 2, 5]" 4 0 True True 0] by auto

end
