(* ===== verification/Block_Position.thy ===== *)
theory Block_Position
  imports Block_Correct
begin

text \<open>
  Inserting a row in the middle of a block. The word-by-word shift of the null mask is shown
  to insert one bit into the mask read as a sequence of bits; with it the whole operation
  inserts one row into the sequence of rows.
\<close>

section \<open>Shifting the null mask\<close>

lemma GetConcreteBit2_eq:
  "w < length m \<Longrightarrow> i < 64 \<Longrightarrow> GetConcreteBitFromBitmask2 m w i = of_bool (mask_bit m (64 * w + i))"
  using GetConcreteBit_eq [of "64 * w + i" m]
  by (simp add: GetConcreteBitFromBitmask_def GetBitMaskIdx_def GetShiftMaskIdx_def)

lemma SetBit2_same:
  assumes "w < length m" and "i < 64"
  shows "SetBitInBitMask2 m w i (of_bool (mask_bit m (64 * w + i))) = m"
  by (rule mask_eqI) (auto simp: mask_bit_SetBit2 assms)

lemma shift_in_word_spec:
  assumes "w < length m" and "i \<le> 64" and "lst = of_bool c"
  shows "\<exists>m' c'. shift_in_word m w i lst = (m', of_bool c') \<and> length m' = length m \<and>
    c' = (if i < 64 then mask_bit m (64 * w + 63) else c) \<and>
    (\<forall>j. mask_bit m' j =
      (if j < 64 * w + i \<or> 64 * (w + 1) \<le> j then mask_bit m j
       else if j = 64 * w + i then c else mask_bit m (j - 1)))"
  using assms
proof (induction m w i lst arbitrary: c rule: shift_in_word.induct)
  case (1 m w i lst)
  show ?case
  proof (cases "i < 64")
    case False
    then show ?thesis using "1.prems" by (subst shift_in_word.simps) auto
  next
    case True
    let ?t = "mask_bit m (64 * w + i)"
    let ?m = "SetBitInBitMask2 m w i lst"
    have tmp: "GetConcreteBitFromBitmask2 m w i = of_bool ?t"
      using "1.prems" True by (simp add: GetConcreteBit2_eq)
    have eq: "shift_in_word m w i lst = shift_in_word ?m w (Suc i) (of_bool ?t)"
    proof (cases "lst = of_bool ?t")
      case True
      then show ?thesis
        using "1.prems" \<open>i < 64\<close> SetBit2_same [of w m i] tmp
        by (subst shift_in_word.simps) (simp add: Let_def)
    next
      case False
      then show ?thesis
        using \<open>i < 64\<close> tmp by (subst shift_in_word.simps) (simp add: Let_def)
    qed
    have bits: "mask_bit ?m j = (if j = 64 * w + i then c else mask_bit m j)" for j
      using "1.prems" True by (simp add: mask_bit_SetBit2)
    have "\<exists>m' c'. shift_in_word ?m w (Suc i) (of_bool ?t) = (m', of_bool c') \<and> length m' = length ?m \<and>
      c' = (if Suc i < 64 then mask_bit ?m (64 * w + 63) else ?t) \<and>
      (\<forall>j. mask_bit m' j =
        (if j < 64 * w + Suc i \<or> 64 * (w + 1) \<le> j then mask_bit ?m j
         else if j = 64 * w + Suc i then ?t else mask_bit ?m (j - 1)))"
    proof (cases "lst = of_bool ?t")
      case same: True
      have "?m = m" using "1.prems" True same SetBit2_same [of w m i] by simp
      then show ?thesis
        using "1.IH"(2) [OF True refl _ _ _ same] "1.prems" True same tmp by auto
    next
      case False
      then show ?thesis
        using "1.IH"(1) [OF True refl _ _ _ tmp] "1.prems" True tmp by auto
    qed
    then obtain m' c' where r: "shift_in_word ?m w (Suc i) (of_bool ?t) = (m', of_bool c')"
      and len: "length m' = length m"
      and c': "c' = (if Suc i < 64 then mask_bit ?m (64 * w + 63) else ?t)"
      and b: "\<And>j. mask_bit m' j =
        (if j < 64 * w + Suc i \<or> 64 * (w + 1) \<le> j then mask_bit ?m j
         else if j = 64 * w + Suc i then ?t else mask_bit ?m (j - 1))"
      by auto
    have last63: "c' = mask_bit m (64 * w + 63)"
    proof (cases "Suc i < 64")
      case False
      with True have "i = 63" by simp
      then show ?thesis using c' by simp
    qed (simp add: c' bits)
    have "mask_bit m' j =
      (if j < 64 * w + i \<or> 64 * (w + 1) \<le> j then mask_bit m j
       else if j = 64 * w + i then c else mask_bit m (j - 1))" for j
      using b [of j] bits True by auto
    then show ?thesis using eq r len last63 True by auto
  qed
qed

lemma push_bit_word_bit:
  "j < 64 \<Longrightarrow> bit (push_bit 1 (x :: nullmask)) j \<longleftrightarrow> 0 < j \<and> bit x (j - 1)"
  by (cases j) (simp_all add: bit_double_iff mult.commute [of x])

lemma shift_words_spec:
  assumes "i \<le> cap" and "cap \<le> length m" and "lst = of_bool c"
  shows "length (shift_words m i cap lst) = length m \<and>
    (\<forall>j. mask_bit (shift_words m i cap lst) j =
      (if j < 64 * i \<or> 64 * cap \<le> j then mask_bit m j
       else if j = 64 * i then c else mask_bit m (j - 1)))"
  using assms
proof (induction m i cap lst arbitrary: c rule: shift_words.induct)
  case (1 m i cap lst)
  show ?case
  proof (cases "i < cap")
    case False
    with "1.prems" show ?thesis by (subst (1 2) shift_words.simps) auto
  next
    case True
    define t where "t = mask_bit m (64 * i + 63)"
    define m1 where "m1 = m[i := push_bit 1 (m ! i)]"
    define m2 where "m2 = SetBitInBitMask2 m1 i 0 lst"
    define S where "S = shift_words m2 (Suc i) cap (of_bool t)"
    have tmp: "GetConcreteBitFromBitmask2 m i 63 = of_bool t"
      using "1.prems" True by (simp add: GetConcreteBit2_eq t_def)
    have eq: "shift_words m i cap lst = S"
      using True tmp by (subst shift_words.simps) (simp only: Let_def S_def m2_def m1_def if_True)
    have bits1: "mask_bit m1 j = (0 < j mod 64 \<and> mask_bit m (j - 1))" if j: "j div 64 = i" for j
    proof -
      have "0 < j mod 64 \<Longrightarrow> (j - 1) div 64 = i \<and> (j - 1) mod 64 = j mod 64 - 1"
        using j by (cases j) (auto simp: div_Suc mod_Suc split: if_splits)
      then show ?thesis
        using j \<open>i < cap\<close> "1.prems"(2) push_bit_word_bit [of "j mod 64" "m ! i"]
        by (auto simp: mask_bit_def m1_def)
    qed
    have bits1': "mask_bit m1 j = mask_bit m j" if "j div 64 \<noteq> i" for j
      using that by (simp add: mask_bit_def m1_def)
    have len: "length m1 = length m" "length m2 = length m"
      by (simp_all add: m1_def m2_def)
    have bits2: "mask_bit m2 j = (if j = 64 * i then c
        else if j div 64 = i then mask_bit m (j - 1) else mask_bit m j)" for j
    proof -
      have "j div 64 = i \<Longrightarrow> j \<noteq> 64 * i \<Longrightarrow> 0 < j mod 64"
        using div_mult_mod_eq [of j 64] by (cases "j mod 64") auto
      then show ?thesis
        using True "1.prems" bits1 [of j] bits1' [of j] mask_bit_SetBit2 [of i m1 0 lst j] len
        by (auto simp: m2_def)
    qed
    have IH: "length S = length m2 \<and> (\<forall>j. mask_bit S j =
        (if j < 64 * Suc i \<or> 64 * cap \<le> j then mask_bit m2 j
         else if j = 64 * Suc i then t else mask_bit m2 (j - 1)))"
      unfolding S_def m2_def m1_def
      using "1.IH" [OF True refl refl refl _ _ tmp] "1.prems" True tmp by simp
    have "mask_bit S j = (if j < 64 * i \<or> 64 * cap \<le> j then mask_bit m j
       else if j = 64 * i then c else mask_bit m (j - 1))" for j
    proof -
      have B: "mask_bit S j = (if j < 64 * Suc i \<or> 64 * cap \<le> j then mask_bit m2 j
         else if j = 64 * Suc i then t else mask_bit m2 (j - 1))"
        using IH by blast
      have icap: "64 * Suc i \<le> 64 * cap" using True by simp
      consider "j < 64 * i" | "64 * i \<le> j" "j < 64 * Suc i" | "j = 64 * Suc i"
        | "64 * Suc i < j" by linarith
      then show ?thesis
      proof cases
        case 1
        then have "j div 64 \<noteq> i" "j \<noteq> 64 * i" by auto
        with 1 B bits2 [of j] show ?thesis by auto
      next
        case 2
        then have "j div 64 = i" "\<not> 64 * cap \<le> j" using icap by (auto simp: div_nat_eqI)
        with 2 B bits2 [of j] show ?thesis by auto
      next
        case 3
        then have "j - 1 = 64 * i + 63" "j div 64 \<noteq> i" "j \<noteq> 64 * i" by auto
        with 3 B bits2 [of j] icap show ?thesis by (simp add: t_def add.commute)
      next
        case 4
        then have "(j - 1) div 64 \<noteq> i" "j - 1 \<noteq> 64 * i" "j div 64 \<noteq> i" "j \<noteq> 64 * i" by auto
        with 4 B bits2 [of j] bits2 [of "j - 1"] show ?thesis by auto
      qed
    qed
    with eq IH len show ?thesis by simp
  qed
qed

lemma shift_mask_spec:
  assumes "length m = GetNullBitMaskSize cap" and "index < cap"
  shows "length (shift_mask m index cap n) = length m"
    and "j < 64 * length m \<Longrightarrow> mask_bit (shift_mask m index cap n) j =
      (if j < index then mask_bit m j else if j = index then n \<noteq> 0 else mask_bit m (j - 1))"
proof -
  let ?w = "index div 64" and ?s = "index mod 64"
  have w: "?w < length m" using assms by (simp add: GetNullBitMaskSize_bound)
  have idx: "64 * ?w + ?s = index" by simp
  have s: "?s < 64" by simp
  have spec: "\<exists>m1 c. shift_in_word m ?w ?s (of_bool (n \<noteq> 0)) = (m1, of_bool c) \<and>
    length m1 = length m \<and> c = mask_bit m (64 * ?w + 63) \<and>
    (\<forall>j. mask_bit m1 j = (if j < index \<or> 64 * (?w + 1) \<le> j then mask_bit m j
       else if j = index then n \<noteq> 0 else mask_bit m (j - 1)))"
    using shift_in_word_spec [OF w, of ?s "of_bool (n \<noteq> 0)" "n \<noteq> 0"] s unfolding idx by auto
  then obtain m1 c where r: "shift_in_word m ?w ?s (of_bool (n \<noteq> 0)) = (m1, of_bool c)"
    and len1: "length m1 = length m" and c: "c = mask_bit m (64 * ?w + 63)"
    and b1: "\<And>j. mask_bit m1 j = (if j < index \<or> 64 * (?w + 1) \<le> j then mask_bit m j
       else if j = index then n \<noteq> 0 else mask_bit m (j - 1))"
    by blast
  have eq: "shift_mask m index cap n = shift_words m1 (?w + 1) (length m) (of_bool c)"
    using r assms(1) by (simp add: shift_mask_def GetBitMaskIdx_def GetShiftMaskIdx_def of_bool_def)
  note b2 = shift_words_spec [of "?w + 1" "length m" m1 "of_bool c" c]
  show "length (shift_mask m index cap n) = length m"
    using b2 w len1 eq by simp
  show "mask_bit (shift_mask m index cap n) j =
      (if j < index then mask_bit m j else if j = index then n \<noteq> 0 else mask_bit m (j - 1))"
    if j: "j < 64 * length m"
  proof -
    have lt: "index < 64 * (?w + 1)" using idx by simp
    have B: "mask_bit (shift_words m1 (?w + 1) (length m) (of_bool c)) j =
      (if j < 64 * (?w + 1) \<or> 64 * length m \<le> j then mask_bit m1 j
       else if j = 64 * (?w + 1) then c else mask_bit m1 (j - 1))"
      using b2 w len1 by simp
    consider "j < 64 * (?w + 1)" | "j = 64 * (?w + 1)" | "64 * (?w + 1) < j" by linarith
    then show ?thesis
    proof cases
      case 1
      then show ?thesis using B b1 [of j] eq by auto
    next
      case 2
      then have "j - 1 = 64 * ?w + 63" by simp
      with 2 B eq j c lt show ?thesis by (auto simp: add.commute)
    next
      case 3
      then have "64 * (?w + 1) \<le> j - 1" by simp
      with 3 B b1 [of "j - 1"] eq j lt show ?thesis by auto
    qed
  qed
qed

section \<open>Inserting a row at a position\<close>

definition insert_at :: "nat \<Rightarrow> 'a \<Rightarrow> 'a list \<Rightarrow> 'a list" where
  "insert_at i x xs = take i xs @ x # drop i xs"

lemma length_insert_at [simp]: "i \<le> length xs \<Longrightarrow> length (insert_at i x xs) = Suc (length xs)"
  by (simp add: insert_at_def)

lemma nth_insert_at:
  assumes "i \<le> length xs" and "j \<le> length xs"
  shows "insert_at i x xs ! j = (if j < i then xs ! j else if j = i then x else xs ! (j - 1))"
  using assms by (cases "j < i"; cases "j = i") (auto simp: insert_at_def nth_append nth_Cons')

lemma set_insert_at: "set (insert_at i x xs) = insert x (set xs)"
proof -
  have "set xs = set (take i xs) \<union> set (drop i xs)"
    by (metis append_take_drop_id set_append)
  then show ?thesis by (auto simp: insert_at_def)
qed

text \<open>The array after the rows from the position on have moved up and the row is written.\<close>

lemma moved_data:
  assumes "index < n" and "n < length d" and "j \<le> n"
  shows "(copy_at (drop index (take n d)) (index + 1) d)[index := x] ! j =
    (if j < index then d ! j else if j = index then x else d ! (j - 1))"
  using assms by (auto simp: nth_list_update nth_copy_at min_def)

text \<open>What one insertion does to a block, before the statistics are updated.\<close>

definition placed :: "'a elem \<Rightarrow> nat \<Rightarrow> 'a \<Rightarrow> nullmask \<Rightarrow> 'a block \<Rightarrow> 'a block" where
  "placed E index data n b =
    b\<lparr>b_data := (if index < b_size b
         then (copy_at (drop index (take (b_size b) (b_data b))) (index + 1) (b_data b))[index := data]
         else (b_data b)[index := data]),
      b_bitMask := (case b_bitMask b of None \<Rightarrow> None
         | Some m \<Rightarrow> Some (if index < b_size b then shift_mask m index (b_capacity b) n
                    else if n \<noteq> 0 then SetBitInBitMask m index n else m))\<rparr>"

lemma InsertPosition_eq:
  assumes "block_ok b" and "b_size b < b_capacity b" and "index \<le> b_size b"
    and "n \<noteq> 0 \<Longrightarrow> b_isNullable b"
  shows "InsertDataOnSpecificPosition_block E index data n sv b =
    Inr ((updateBlockStatistics E data (n \<noteq> 0) (placed E index data n b))\<lparr>b_saveNecessary := sv\<rparr>)"
proof -
  have space: "EmptyBlockSpace b \<noteq> 0" and bound: "index < length (b_data b)"
    using assms by (auto simp: EmptyBlockSpace_ok) (auto simp: block_ok_def)
  show ?thesis
  proof (cases "b_bitMask b")
    case None
    with assms(1) have nn: "\<not> b_isNullable b" by (simp add: block_ok_def)
    with assms(4) have "n = 0" by auto
    have rec: "b\<lparr>b_data := d, b_bitMask := None\<rparr> = b\<lparr>b_data := d\<rparr>" for d
      using None by (cases b) simp
    show ?thesis using \<open>n = 0\<close> space bound nn None
      by (simp add: InsertDataOnSpecificPosition_block_def placed_def Let_def rec)
  next
    case (Some m)
    with assms(1) have nn: "b_isNullable b" and len: "length m = GetNullBitMaskSize (b_capacity b)"
      by (simp_all add: block_ok_def)
    have ix: "GetBitMaskIdx index < length m"
      using assms(2,3) len by (simp add: GetBitMaskIdx_def GetNullBitMaskSize_bound)
    have same: "b\<lparr>b_data := d, b_bitMask := Some m\<rparr> = b\<lparr>b_data := d\<rparr>" for d
      using Some by (cases b) simp
    have swap: "b\<lparr>b_bitMask := k, b_data := d\<rparr> = b\<lparr>b_data := d, b_bitMask := k\<rparr>" for k d
      by (cases b) simp
    show ?thesis using ix space bound nn Some len
      by (simp add: InsertDataOnSpecificPosition_block_def placed_def Let_def swap same)
  qed
qed

lemma placed_is_null:
  assumes "block_ok b" and "b_size b < b_capacity b" and "index \<le> b_size b"
    and "n \<noteq> 0 \<Longrightarrow> b_isNullable b" and "mask_clean b"
  shows "is_null (placed E index data n b) j =
    (if j < index then is_null b j else if j = index then n \<noteq> 0 else is_null b (j - 1))"
proof (cases "b_bitMask b")
  case None
  with assms(1,4) have "n = 0" by (auto simp: block_ok_def)
  with None show ?thesis by (simp add: placed_def is_null_def)
next
  case (Some m)
  with assms(1) have len: "length m = GetNullBitMaskSize (b_capacity b)" by (simp add: block_ok_def)
  have cap: "b_capacity b \<le> 64 * length m" using len GetNullBitMaskSize_le [of "b_capacity b"] by simp
  have idx: "index div 64 < length m" using assms(2,3) len by (simp add: GetNullBitMaskSize_bound)
  have clean: "mask_bit m i \<Longrightarrow> i < b_size b" for i
    using assms(5) Some by (auto simp: mask_clean_def is_null_def not_le)
  show ?thesis
  proof (cases "index < b_size b")
    case True
    then have ix: "index < b_capacity b" using assms(2) by simp
    have "mask_bit (shift_mask m index (b_capacity b) n) j =
      (if j < index then mask_bit m j else if j = index then n \<noteq> 0 else mask_bit m (j - 1))"
    proof (cases "j < 64 * length m")
      case True
      then show ?thesis using shift_mask_spec(2) [OF len ix] by simp
    next
      case False
      have "\<not> mask_bit (shift_mask m index (b_capacity b) n) j"
        using False mask_bit_less [of "shift_mask m index (b_capacity b) n" j]
          shift_mask_spec(1) [OF len ix, of n] by auto
      then show ?thesis using False clean [of "j - 1"] cap ix assms(2) by auto
    qed
    with True Some show ?thesis by (simp add: placed_def is_null_def)
  next
    case False
    then have ix: "index = b_size b" using assms(3) by simp
    have cl: "mask_bit m i = (i < index \<and> mask_bit m i)" for i
      using clean [of i] ix by auto
    have z: "\<not> mask_bit m i" if "index \<le> i" for i using that clean [of i] ix by auto
    show ?thesis using False Some idx z
      by (simp add: placed_def is_null_def mask_bit_SetBit)
  qed
qed

lemma placed_rows:
  assumes "block_ok b" and "b_size b < b_capacity b" and "index \<le> b_size b"
    and "n \<noteq> 0 \<Longrightarrow> b_isNullable b" and "mask_clean b"
  shows "rows (updateBlockStatistics E data (n \<noteq> 0) (placed E index data n b)) =
    insert_at index (if n \<noteq> 0 then None else Some data) (rows b)" (is "rows ?b' = ?rhs")
proof -
  have nc: "\<not> b_isCompressed (placed E index data n b)"
    using assms(1) by (simp add: block_ok_def placed_def)
  then have sz: "b_size ?b' = Suc (b_size b)" by (simp add: placed_def)
  show ?thesis
  proof (rule nth_equalityI)
    show "length (rows ?b') = length ?rhs" using sz assms(3) by simp
  next
    fix j assume "j < length (rows ?b')"
    then have j: "j \<le> b_size b" using sz by simp
    have dat: "b_data ?b' ! j = (if j < index then b_data b ! j
        else if j = index then data else b_data b ! (j - 1))"
    proof (cases "index < b_size b")
      case True
      then show ?thesis using j assms(1,2) moved_data [of index "b_size b" "b_data b" j data]
        by (simp add: placed_def block_ok_def)
    next
      case False
      then show ?thesis using j assms(1,2,3) by (auto simp: placed_def block_ok_def)
    qed
    have nul: "is_null ?b' j = (if j < index then is_null b j
        else if j = index then n \<noteq> 0 else is_null b (j - 1))"
      using placed_is_null [OF assms(1-5), where n = n and E = E and data = data and j = j] j by simp
    show "rows ?b' ! j = ?rhs ! j"
      using j sz dat nul assms(3) by (auto simp: nth_rows nth_insert_at)
  qed
qed

lemma placed_ok:
  assumes "block_ok b" and "b_size b < b_capacity b" and "index \<le> b_size b"
  shows "block_ok (placed E index data n b)"
  using assms shift_mask_spec(1) [of _ "b_capacity b" index n]
  by (auto simp: block_ok_def placed_def split: option.splits)

lemma placed_clean:
  assumes "block_ok b" and "b_size b < b_capacity b" and "index \<le> b_size b"
    and "n \<noteq> 0 \<Longrightarrow> b_isNullable b" and "mask_clean b"
  shows "mask_clean (updateBlockStatistics E data (n \<noteq> 0) (placed E index data n b))"
proof -
  have "\<not> b_isCompressed (placed E index data n b)"
    using assms(1) by (simp add: block_ok_def placed_def)
  moreover have "b_size (placed E index data n b) = b_size b" by (simp add: placed_def)
  ultimately show ?thesis
    using placed_is_null [OF assms, where n = n and E = E and data = data] assms(3,5) by (auto simp: mask_clean_def)
qed

lemma InsertPosition_full:
  assumes "block_ok b" and "b_size b = b_capacity b"
  shows "InsertDataOnSpecificPosition_block E index data n sv b = Inl LengthError"
  using assms by (simp add: InsertDataOnSpecificPosition_block_def EmptyBlockSpace_ok)

context block_elem
begin

lemma placed_sound:
  assumes "block_ok b" and "b_size b < b_capacity b" and "index \<le> b_size b"
    and "n \<noteq> 0 \<Longrightarrow> b_isNullable b" and "mask_clean b" and "stats_sound E b"
  shows "stats_sound E (updateBlockStatistics E data (n \<noteq> 0) (placed E index data n b))"
proof -
  have "live (updateBlockStatistics E data (n \<noteq> 0) (placed E index data n b)) =
      (if n \<noteq> 0 then live b else insert data (live b))"
    using placed_rows [OF assms(1-5), where n = n and E = E and data = data]
    by (auto simp: Some_in_rows [symmetric] set_insert_at)
  moreover have "bounds_all E (if n \<noteq> 0 then live b else insert data (live b))
      (updateBlockStatistics E data (n \<noteq> 0) (placed E index data n b))"
    using assms(1,6)
    by (intro update_bounds) (auto simp: stats_sound_live bounds_all_def placed_def block_ok_def live_def)
  ultimately show ?thesis by (simp add: stats_sound_live)
qed

end

text \<open>The block operation against its specification on rows.\<close>

lemma InsertPosition_spec:
  assumes "block_ok b" and "b_size b < b_capacity b" and "index \<le> b_size b"
    and "n \<noteq> 0 \<Longrightarrow> b_isNullable b" and "mask_clean b"
  obtains b' where "InsertDataOnSpecificPosition_block E index data n sv b = Inr b'"
    and "block_ok b'" and "mask_clean b'"
    and "rows b' = insert_at index (if n \<noteq> 0 then None else Some data) (rows b)"
    and "b_capacity b' = b_capacity b" and "b_isNullable b' = b_isNullable b"
    and "block_elem E \<Longrightarrow> stats_sound E b \<Longrightarrow> stats_sound E b'"
proof
  let ?u = "updateBlockStatistics E data (n \<noteq> 0) (placed E index data n b)"
  let ?b = "?u\<lparr>b_saveNecessary := sv\<rparr>"
  show "InsertDataOnSpecificPosition_block E index data n sv b = Inr ?b"
    by (rule InsertPosition_eq [OF assms(1-4)])
  show "block_ok ?b"
    using placed_ok [OF assms(1-3), of E data n] assms(2)
    by (simp add: block_ok_update placed_def)
  show "mask_clean ?b" using placed_clean [OF assms, where n = n and E = E and data = data] by simp
  show "rows ?b = insert_at index (if n \<noteq> 0 then None else Some data) (rows b)"
    using placed_rows [OF assms, where n = n and E = E and data = data] by simp
  show "stats_sound E ?b" if "block_elem E" and "stats_sound E b"
    using block_elem.placed_sound [OF that(1) assms that(2), where n = n and data = data] by simp
qed (simp_all add: placed_def)

section \<open>The contract of a block\<close>

text \<open>
  C28. Appending data to a block refines appending to the list of its rows: when the data
  fit, the operation returns a block with the new rows after the old ones, none of them
  null, and the invariant, the clean mask and the soundness of the statistics are kept;
  when they do not fit, it raises the length error.
\<close>

theorem InsertData_block_refines:
  assumes "block_elem E" and "block_ok b" and "mask_clean b" and "stats_sound E b"
  shows "if length data \<le> b_capacity b - b_size b
    then \<exists>b'. InsertData_block E data sv b = Inr b' \<and> rows b' = rows b @ map Some data \<and>
      block_ok b' \<and> mask_clean b' \<and> stats_sound E b' \<and> b_saveNecessary b' = sv
    else InsertData_block E data sv b = Inl LengthError"
proof (cases "length data \<le> b_capacity b - b_size b")
  case True
  obtain b' where b': "InsertData_block E data sv b = Inr b'"
    using InsertData_block_eq [OF assms(2) True, of E sv] by auto
  show ?thesis
    using True b' InsertData_block_rows_clean [OF assms(2) b' assms(3)] InsertData_block_ok [OF assms(2) b']
      block_elem.InsertData_block_sound [OF assms(1,2) b' assms(4)] InsertData_block_frame(6) [OF assms(2) b']
    by simp
qed (use assms(2) in \<open>simp add: InsertData_block_full\<close>)

theorem InsertData_block_refines_witness:
  "\<exists>b'. InsertData_block (elem_int32 0) [5, 6] True sample_block = Inr b' \<and>
    rows b' = [Some 7, Some 3, Some 5, Some 6] \<and> stats_sound (elem_int32 0) b'"
  using InsertData_block_refines [OF int32_block.block_elem_axioms sample_block(1-3), of "[5, 6]" True]
  by (auto simp: sample_block)

text \<open>
  C27. Inserting one row at a position refines insertion into the list of rows: every row from
  the position on moves up by one, with its null bit, also across the 64-bit words of the
  mask; the new row is null exactly when it is said to be; a full block raises the length
  error.
\<close>

theorem InsertDataOnSpecificPosition_block_refines:
  assumes "block_elem E" and "block_ok b" and "mask_clean b" and "stats_sound E b"
    and "index \<le> b_size b" and "b_isNullable b \<or> n = 0"
  shows "if b_size b < b_capacity b
    then \<exists>b'. InsertDataOnSpecificPosition_block E index data n sv b = Inr b' \<and>
      rows b' = insert_at index (if n \<noteq> 0 then None else Some data) (rows b) \<and>
      block_ok b' \<and> mask_clean b' \<and> stats_sound E b'
    else InsertDataOnSpecificPosition_block E index data n sv b = Inl LengthError"
proof (cases "b_size b < b_capacity b")
  case True
  have nul: "n \<noteq> 0 \<Longrightarrow> b_isNullable b" using assms(6) by auto
  show ?thesis
    using True InsertPosition_spec [OF assms(2) True assms(5) nul assms(3), where E = E and data = data and sv = sv]
      assms(1,4) by (metis (no_types, lifting))
next
  case False
  then show ?thesis using assms(2) by (auto simp: block_ok_def intro!: InsertPosition_full)
qed

theorem InsertDataOnSpecificPosition_block_refines_witness:
  "\<exists>b'. InsertDataOnSpecificPosition_block (elem_int32 0) 1 9 1 True sample_block = Inr b' \<and>
    rows b' = [Some 7, None, Some 3]"
  using InsertDataOnSpecificPosition_block_refines
    [OF int32_block.block_elem_axioms sample_block(1-3), of 1 1 9 True]
  by (auto simp: sample_block insert_at_def)

end
