(* ===== verification/Column.thy ===== *)
theory Column
  imports Block_Position
begin

text \<open>
  A column (\<open>ColumnBase.h\<close>, \<open>ColumnBase.cpp\<close>): blocks grouped by the id of their index
  group, the running row count, the set of values kept for the UNIQUE constraint, and the
  constraint flags.

  \<open>std::map\<close> iterates in key order, so \<open>c_blocks\<close> is an association list sorted by group
  id. \<open>operator[]\<close> of a missing key inserts an empty vector.
\<close>

section \<open>Ordered maps\<close>

fun omap_get :: "int \<Rightarrow> (int \<times> 'v list) list \<Rightarrow> 'v list" where
  "omap_get k [] = []"
| "omap_get k ((j, v) # xs) = (if j = k then v else omap_get k xs)"

fun omap_set :: "int \<Rightarrow> 'v list \<Rightarrow> (int \<times> 'v list) list \<Rightarrow> (int \<times> 'v list) list" where
  "omap_set k v [] = [(k, v)]"
| "omap_set k v ((j, w) # xs) =
    (if k < j then (k, v) # (j, w) # xs
     else if k = j then (k, v) # xs else (j, w) # omap_set k v xs)"

lemma omap_get_set: "omap_get k (omap_set j v xs) = (if k = j then v else omap_get k xs)"
  by (induction xs) auto

lemma omap_set_set: "omap_set k v (omap_set k w xs) = omap_set k v xs"
  by (induction k w xs rule: omap_set.induct) auto

lemma keys_omap_set: "set (map fst (omap_set k v xs)) = insert k (set (map fst xs))"
  by (induction k v xs rule: omap_set.induct) (simp_all add: insert_commute)

lemma sorted_omap_set:
  "sorted_wrt (<) (map fst xs) \<Longrightarrow> sorted_wrt (<) (map fst (omap_set k v xs))"
proof (induction xs)
  case Nil
  then show ?case by simp
next
  case (Cons x xs)
  obtain j w where x: "x = (j, w)" by (cases x)
  have "set (map fst (omap_set k v xs)) = insert k (set (map fst xs))" by (rule keys_omap_set)
  with Cons x show ?case by (auto simp del: set_map)
qed

section \<open>State\<close>

record 'a column =
  c_name :: string
  c_size :: int
  c_blockSize :: nat
  c_fileAddressPath :: string
  c_fileDataPath :: string
  c_fileFragmentPath :: string
  c_encoding :: string
  c_blocks :: "(int \<times> 'a block list) list"
  c_uniqueHashmap :: "'a list"
  c_defaultValue :: 'a
  c_min :: 'a
  c_max :: 'a
  c_avg :: f32
  c_sum :: 'a
  c_initAvg :: f32
  c_initAvgIsSet :: bool
  c_isNullable :: bool
  c_isUnique :: bool

definition GetBlocksList :: "'a column \<Rightarrow> 'a block list" where
  "GetBlocksList c = concat (map snd (c_blocks c))"

definition GetBlockCount :: "'a column \<Rightarrow> nat" where
  "GetBlockCount c = sum_list (map (\<lambda>g. length (snd g)) (c_blocks c))"

definition GetNumberOfPersistedBlocks :: "'a column \<Rightarrow> nat" where
  "GetNumberOfPersistedBlocks c =
    sum_list (map (\<lambda>g. length (filter (\<lambda>b. b_index b \<noteq> UINT32_MAX) (snd g))) (c_blocks c))"

definition blocks_at :: "int \<Rightarrow> 'a column \<Rightarrow> 'a block list" where
  "blocks_at g c = omap_get g (c_blocks c)"

definition set_blocks_at :: "int \<Rightarrow> 'a block list \<Rightarrow> 'a column \<Rightarrow> 'a column" where
  "set_blocks_at g bs c = c\<lparr>c_blocks := omap_set g bs (c_blocks c)\<rparr>"

text \<open>
  The edition's row limit: \<open>None\<close> when the limits are compiled out, as \<open>CheckRowsLimit\<close> of
  \<open>Context.cu\<close> has it.
\<close>

definition CheckRowsLimit :: "int option \<Rightarrow> int \<Rightarrow> unit result" where
  "CheckRowsLimit limit rowsCount =
    (case limit of None \<Rightarrow> Inr () | Some l \<Rightarrow> if rowsCount \<ge> l then Inl RuntimeError else Inr ())"

section \<open>The unique value set\<close>

text \<open>
  An \<open>unordered_set\<close> is a list of pairwise different values; \<open>same\<close> is the equality the set
  uses (hash and \<open>equal_to\<close> of the element type).
\<close>

definition IsDuplicate_in :: "('a \<Rightarrow> 'a \<Rightarrow> bool) \<Rightarrow> 'a list \<Rightarrow> 'a \<Rightarrow> bool" where
  "IsDuplicate_in same h value = list_ex (same value) h"

definition hashmap_insert :: "('a \<Rightarrow> 'a \<Rightarrow> bool) \<Rightarrow> 'a \<Rightarrow> 'a list \<Rightarrow> 'a list" where
  "hashmap_insert same x h = (if IsDuplicate_in same h x then h else h @ [x])"

definition IsDuplicate :: "('a \<Rightarrow> 'a \<Rightarrow> bool) \<Rightarrow> 'a \<Rightarrow> 'a column \<Rightarrow> bool" where
  "IsDuplicate same value c = IsDuplicate_in same (c_uniqueHashmap c) value"

definition InsertIntoHashmap :: "('a \<Rightarrow> 'a \<Rightarrow> bool) \<Rightarrow> 'a \<Rightarrow> 'a column \<Rightarrow> 'a column" where
  "InsertIntoHashmap same value c =
    c\<lparr>c_uniqueHashmap := hashmap_insert same value (c_uniqueHashmap c)\<rparr>"

definition InsertIntoHashmap_vec :: "('a \<Rightarrow> 'a \<Rightarrow> bool) \<Rightarrow> 'a list \<Rightarrow> 'a column \<Rightarrow> 'a column" where
  "InsertIntoHashmap_vec same values c =
    c\<lparr>c_uniqueHashmap := fold (hashmap_insert same) values (c_uniqueHashmap c)\<rparr>"

section \<open>Constraint flags\<close>

definition map_blocks :: "('a block \<Rightarrow> 'a block) \<Rightarrow> 'a column \<Rightarrow> 'a column" where
  "map_blocks f c = c\<lparr>c_blocks := map (\<lambda>(g, bs). (g, map f bs)) (c_blocks c)\<rparr>"

definition SetIsNullableInBlocks :: "bool \<Rightarrow> 'a column \<Rightarrow> 'a column" where
  "SetIsNullableInBlocks isNullable c = map_blocks (SetIsNullable_block isNullable) c"

text \<open>
  The search for a null value reads the mask of every row; the flag says that reading it is
  defined, i.e. that no block with rows lacks its mask.
\<close>

definition SetIsNullable :: "bool \<Rightarrow> 'a column \<Rightarrow> 'a column result" where
  "SetIsNullable isNullable c =
    (if c_isNullable c = isNullable then Inr c
     else if isNullable then
       (if c_isUnique c then Inl (ConstraintViolationError UNIQUE_CONSTRAINT_DROP_NOT_NULL)
        else Inr (SetIsNullableInBlocks isNullable (c\<lparr>c_isNullable := True\<rparr>)))
     else if list_ex (\<lambda>b. b_bitMask b = None \<and> b_size b > 0) (GetBlocksList c)
     then Inl UndefinedBehaviour
     else if list_ex (\<lambda>b. list_ex (is_null b) [0..<b_size b]) (GetBlocksList c)
     then Inl (ConstraintViolationError UNIQUE_CONSTRAINT_INSERT_NULL_VALUE)
     else Inr (SetIsNullableInBlocks isNullable (c\<lparr>c_isNullable := False\<rparr>)))"

text \<open>Collect the values into the set until one is already there.\<close>

fun collect_unique :: "('a \<Rightarrow> 'a \<Rightarrow> bool) \<Rightarrow> 'a list \<Rightarrow> 'a list \<Rightarrow> 'a list option" where
  "collect_unique same [] h = Some h"
| "collect_unique same (x # xs) h =
    (if IsDuplicate_in same h x then None else collect_unique same xs (h @ [x]))"

definition column_values :: "'a column \<Rightarrow> 'a list" where
  "column_values c = concat (map (\<lambda>b. take (b_size b) (b_data b)) (GetBlocksList c))"

text \<open>
  \<open>SetIsUnique\<close> clears the set before its checks. The exception of a nullable column leaves
  the cleared column behind, so the state after an exception is returned with it.
\<close>

definition SetIsUnique :: "('a \<Rightarrow> 'a \<Rightarrow> bool) \<Rightarrow> bool \<Rightarrow> 'a column \<Rightarrow> err option \<times> 'a column" where
  "SetIsUnique same isUnique c =
    (if c_isUnique c = isUnique then (None, c)
     else
       (let c0 = c\<lparr>c_uniqueHashmap := []\<rparr> in
        if isUnique then
          (if c_isNullable c
           then (Some (ConstraintViolationError UNIQUE_CONSTRAINT_INSERT_NULL_VALUE), c0)
           else
             (case collect_unique same (column_values c) [] of
                Some h \<Rightarrow> (None, c0\<lparr>c_uniqueHashmap := h, c_isUnique := True\<rparr>)
              | None \<Rightarrow> (Some (ConstraintViolationError UNIQUE_CONSTRAINT_INSERT_DUPLICATE_VALUE), c0)))
        else (None, c0\<lparr>c_isUnique := False\<rparr>)))"

definition ColumnBase_new ::
  "('a \<Rightarrow> 'a \<Rightarrow> bool) \<Rightarrow> 'a elem \<Rightarrow> string \<Rightarrow> nat \<Rightarrow> bool \<Rightarrow> bool \<Rightarrow> 'a column result" where
  "ColumnBase_new same E name blockSize isNullable isUnique =
    (let c = \<lparr>c_name = name, c_size = 0, c_blockSize = blockSize, c_fileAddressPath = '''',
          c_fileDataPath = '''', c_fileFragmentPath = '''', c_encoding = '''',
          c_blocks = [(- 1, [])], c_uniqueHashmap = [], c_defaultValue = zero_v E,
          c_min = lowest_v E, c_max = max_v E, c_avg = 0, c_sum = zero_v E, c_initAvg = 0,
          c_initAvgIsSet = False, c_isNullable = False, c_isUnique = False\<rparr>
     in bindR (SetIsNullable isNullable c)
          (\<lambda>c1. case SetIsUnique same isUnique c1 of
             (Some e, _) \<Rightarrow> Inl e | (None, c2) \<Rightarrow> Inr c2))"

section \<open>Adding blocks and rows\<close>

definition AddBlock_empty :: "'a elem \<Rightarrow> int \<Rightarrow> bool \<Rightarrow> 32 word \<Rightarrow> 'a column \<Rightarrow> 'a column" where
  "AddBlock_empty E groupId saveNecessary index c =
    set_blocks_at groupId
      (blocks_at groupId c @ [BlockBase_empty E (c_blockSize c) (c_isNullable c) saveNecessary index]) c"

type_synonym 'a compressor = "DataType \<Rightarrow> 'a list \<Rightarrow> 'a \<Rightarrow> 'a \<Rightarrow> 'a list option"

definition compress_if :: "bool \<Rightarrow> 'a compressor \<Rightarrow> 'a elem \<Rightarrow> 'a block \<Rightarrow> 'a block" where
  "compress_if cond cmpr E b = (if cond \<and> IsFull b then CompressData cmpr E b else b)"

definition AddBlock_data ::
  "'a compressor \<Rightarrow> 'a elem \<Rightarrow> 'a list \<Rightarrow> int \<Rightarrow> bool \<Rightarrow> bool \<Rightarrow> bool \<Rightarrow> bool \<Rightarrow> 32 word \<Rightarrow> 'a column \<Rightarrow>
   'a column result" where
  "AddBlock_data cmpr E data groupId compress isCompressed countBlockStatistics saveNecessary index c =
    mapR (\<lambda>b. (set_blocks_at groupId
                 (blocks_at groupId c @ [compress_if (\<not> isCompressed \<and> compress) cmpr E b]) c)
               \<lparr>c_size := c_size c + int (length data)\<rparr>)
      (BlockBase_data E (c_blockSize c) data isCompressed (c_isNullable c)
         countBlockStatistics saveNecessary index)"

definition AddBlock_ptr ::
  "'a compressor \<Rightarrow> 'a elem \<Rightarrow> 'a list \<Rightarrow> nat \<Rightarrow> nat \<Rightarrow> int \<Rightarrow> bool \<Rightarrow> bool \<Rightarrow> bool \<Rightarrow> bool \<Rightarrow> 32 word \<Rightarrow>
   'a column \<Rightarrow> 'a column result" where
  "AddBlock_ptr cmpr E data dataSize allocationSize groupId compress isCompressed
      countBlockStatistics saveNecessary index c =
    mapR (\<lambda>b. (set_blocks_at groupId
                 (blocks_at groupId c @ [compress_if (\<not> isCompressed \<and> compress) cmpr E b]) c)
               \<lparr>c_size := c_size c + int dataSize\<rparr>)
      (BlockBase_ptr E (c_blockSize c) data dataSize allocationSize isCompressed (c_isNullable c)
         countBlockStatistics saveNecessary index)"

definition UpdateSize :: "'a column \<Rightarrow> 'a column" where
  "UpdateSize c = c\<lparr>c_size := int (sum_list (map b_size (GetBlocksList c)))\<rparr>"

text \<open>The last block of a group, replaced.\<close>

definition set_last :: "int \<Rightarrow> 'a block \<Rightarrow> 'a column \<Rightarrow> 'a column" where
  "set_last g b c = set_blocks_at g (butlast (blocks_at g c) @ [b]) c"

text \<open>
  The loop that cuts the remaining data into blocks. Note what \<open>InsertData\<close> passes to
  \<open>AddBlock\<close>: its \<open>saveNecessary\<close> arrives as \<open>countBlockStatistics\<close>, its \<open>index\<close> as
  \<open>saveNecessary\<close>, and the block keeps the default index. A block size of zero would make
  the loop run forever; the counter \<open>startIdx\<close> is an \<open>int32_t\<close> whose overflow is undefined.
\<close>

function add_chunks ::
  "'a compressor \<Rightarrow> 'a elem \<Rightarrow> nat \<Rightarrow> 'a list \<Rightarrow> int \<Rightarrow> bool \<Rightarrow> bool \<Rightarrow> 32 word \<Rightarrow> 'a column \<Rightarrow> 'a column result"
where
  "add_chunks cmpr E startIdx data groupId compress saveNecessary index c =
    (if data = [] then Inr c
     else if c_blockSize c = 0 then Inl Diverges
     else
       (let toCopy = (if length data < c_blockSize c then length data else c_blockSize c) in
        case AddBlock_data cmpr E (take toCopy data) groupId compress False saveNecessary
               (index \<noteq> 0) UINT32_MAX c of
          Inl e \<Rightarrow> Inl e
        | Inr c' \<Rightarrow>
            if 2 ^ 31 \<le> startIdx + toCopy then Inl UndefinedBehaviour
            else add_chunks cmpr E (startIdx + toCopy) (drop toCopy data) groupId compress saveNecessary index c'))"
  by pat_completeness auto
termination
  by (relation "measure (\<lambda>(cmpr, E, startIdx, data, groupId, compress, saveNecessary, index, c). length data)") auto

declare add_chunks.simps [simp del]

definition InsertData ::
  "int option \<Rightarrow> 'a compressor \<Rightarrow> 'a elem \<Rightarrow> 'a list \<Rightarrow> int \<Rightarrow> bool \<Rightarrow> bool \<Rightarrow> 32 word \<Rightarrow>
   'a column \<Rightarrow> 'a column result" where
  "InsertData limit cmpr E columnData groupId compress saveNecessary index c0 =
    bindR (CheckRowsLimit limit (c_size c0 + int (length columnData) - 1)) (\<lambda>_.
     let c = set_blocks_at groupId (blocks_at groupId c0) c0; bs = blocks_at groupId c in
     if bs \<noteq> [] \<and> \<not> IsFull (last bs) then
       (if int (length columnData) \<le> space_u64 (last bs) then
          mapR (\<lambda>b. set_last groupId (compress_if compress cmpr E b)
                      (c\<lparr>c_size := c_size c + int (length columnData)\<rparr>))
            (InsertData_block E columnData True (last bs))
        else
          (let emptySpace = nat (EmptyBlockSpace (last bs)) in
           bindR (InsertData_block E (take emptySpace columnData) True (last bs)) (\<lambda>b.
             add_chunks cmpr E emptySpace (drop emptySpace columnData) groupId compress saveNecessary index
               (set_last groupId (compress_if compress cmpr E b)
                 (c\<lparr>c_size := c_size c + int emptySpace\<rparr>)))))
     else add_chunks cmpr E 0 columnData groupId compress saveNecessary index c)"

text \<open>
  Copying null bits from the mask of the inserted data to the mask of a block, row by row.
  Only set bits are written; reading past the given mask, or writing when the block has no
  mask, is undefined.
\<close>

definition copy_null_bit ::
  "nullmask list \<Rightarrow> nat \<Rightarrow> nat \<Rightarrow> nat \<Rightarrow> nullmask list option \<Rightarrow> nullmask list option result" where
  "copy_null_bit nullMask maskIdx start k maskPtr =
    (if length nullMask \<le> (maskIdx + k) div 64 then Inl UndefinedBehaviour
     else if GetConcreteBitFromBitmask nullMask (maskIdx + k) \<noteq> 0 then
       (case maskPtr of
          None \<Rightarrow> Inl UndefinedBehaviour
        | Some m \<Rightarrow>
            if length m \<le> (start + k) div 64 then Inl UndefinedBehaviour
            else Inr (Some (SetBitInBitMask m (start + k) 1)))
     else Inr maskPtr)"

definition copy_null_bits ::
  "nullmask list \<Rightarrow> nat \<Rightarrow> nat \<Rightarrow> nat \<Rightarrow> 'a block \<Rightarrow> 'a block result" where
  "copy_null_bits nullMask maskIdx start n b =
    mapR (\<lambda>m. b\<lparr>b_bitMask := m\<rparr>) (foldR (copy_null_bit nullMask maskIdx start) [0..<n] (b_bitMask b))"

text \<open>The counters \<open>startIdx\<close> and \<open>maskIdx\<close> have the same value in this loop.\<close>

function add_chunks_mask ::
  "'a compressor \<Rightarrow> 'a elem \<Rightarrow> 'a list \<Rightarrow> nullmask list \<Rightarrow> nat \<Rightarrow> int \<Rightarrow> bool \<Rightarrow> bool \<Rightarrow> 32 word \<Rightarrow>
   'a column \<Rightarrow> 'a column result"
where
  "add_chunks_mask cmpr E data nullMask maskIdx groupId compress saveNecessary index c =
    (if data = [] then Inr c
     else if c_blockSize c = 0 then Inl Diverges
     else
       (let toCopy = (if length data < c_blockSize c then length data else c_blockSize c) in
        case AddBlock_data cmpr E (take toCopy data) groupId compress False saveNecessary
               (index \<noteq> 0) UINT32_MAX c of
          Inl e \<Rightarrow> Inl e
        | Inr c' \<Rightarrow>
            if 2 ^ 31 \<le> maskIdx + toCopy then Inl UndefinedBehaviour else
            (case copy_null_bits nullMask maskIdx 0 toCopy (last (blocks_at groupId c')) of
               Inl e \<Rightarrow> Inl e
             | Inr b \<Rightarrow>
                 add_chunks_mask cmpr E (drop toCopy data) nullMask (maskIdx + toCopy) groupId
                   compress saveNecessary index (set_last groupId b c'))))"
  by pat_completeness auto
termination
  by (relation "measure (\<lambda>(cmpr, E, data, nullMask, maskIdx, groupId, compress, saveNecessary, index, c).
    length data)") auto

declare add_chunks_mask.simps [simp del]

definition InsertData_mask ::
  "int option \<Rightarrow> 'a compressor \<Rightarrow> 'a elem \<Rightarrow> 'a list \<Rightarrow> nullmask list \<Rightarrow> int \<Rightarrow> bool \<Rightarrow> bool \<Rightarrow>
   32 word \<Rightarrow> 'a column \<Rightarrow> 'a column result" where
  "InsertData_mask limit cmpr E columnData nullMask groupId compress saveNecessary index c0 =
    bindR (CheckRowsLimit limit (c_size c0 + int (length columnData) - 1)) (\<lambda>_.
     let c = set_blocks_at groupId (blocks_at groupId c0) c0; bs = blocks_at groupId c in
     if bs \<noteq> [] \<and> \<not> IsFull (last bs) then
       (if int (length columnData) \<le> space_u64 (last bs) then
          bindR (copy_null_bits nullMask 0 (b_size (last bs)) (length columnData) (last bs)) (\<lambda>b1.
          mapR (\<lambda>b. set_last groupId (compress_if compress cmpr E b)
                      (c\<lparr>c_size := c_size c + int (length columnData)\<rparr>))
            (InsertData_block E columnData True b1))
        else
          (let emptySpace = nat (EmptyBlockSpace (last bs)); start = b_size (last bs) in
           bindR (InsertData_block E (take emptySpace columnData) True (last bs)) (\<lambda>b1.
           bindR (copy_null_bits nullMask 0 start (b_capacity b1 - start) b1) (\<lambda>b.
             add_chunks_mask cmpr E (drop emptySpace columnData) nullMask (b_capacity b1 - start)
               groupId compress saveNecessary index
               (set_last groupId (compress_if compress cmpr E b)
                 (c\<lparr>c_size := c_size c + int emptySpace\<rparr>))))))
     else add_chunks_mask cmpr E columnData nullMask 0 groupId compress saveNecessary index c)"

definition InsertNullData ::
  "int option \<Rightarrow> 'a compressor \<Rightarrow> 'a elem \<Rightarrow> nat \<Rightarrow> 'a column \<Rightarrow> 'a column result" where
  "InsertNullData limit cmpr E len c =
    InsertData_mask limit cmpr E (replicate len (null_v E)) (replicate len (- 1))
      (- 1) False True UINT32_MAX c"

section \<open>Splitting a block\<close>

text \<open>The second half of the mask of a split block, word \<open>i\<close>.\<close>

definition split_tail_word :: "nullmask list \<Rightarrow> nat \<Rightarrow> nat \<Rightarrow> nat \<Rightarrow> nat \<Rightarrow> nullmask result" where
  "split_tail_word m w s cap i =
    (if s + 1 \<ge> 64 then Inl UndefinedBehaviour
     else
       (let tmp = drop_bit (s + 1) (m ! i) in
        if w + 1 < cap then mapR (\<lambda>p. tmp OR p) (GetPartOfBitmaskByte m s (w + 1)) else Inr tmp))"

definition split_masks ::
  "nullmask list \<Rightarrow> nat \<Rightarrow> nat \<Rightarrow> nullmask list \<Rightarrow> nullmask list \<Rightarrow> (nullmask list \<times> nullmask list) result"
where
  "split_masks m sz capacity m1 m2 =
    (let half = (sz - 1) div 2; w = GetBitMaskIdx half; s = GetShiftMaskIdx half;
         cap = GetNullBitMaskSize capacity in
     bindR (GetPartOfBitmaskByte m s w) (\<lambda>p.
     bindR (foldR (\<lambda>i acc. mapR (\<lambda>t. acc[i - w := t]) (split_tail_word m w s cap i)) [w..<cap] m2)
       (\<lambda>m2'. Inr ((copy_at (take w m) 0 m1)[w := p], m2'))))"

definition BlockSplit :: "'a elem \<Rightarrow> nat \<Rightarrow> 'a column \<Rightarrow> 'a column result" where
  "BlockSplit E blockIdx c =
    (if length (blocks_at (- 1) c) \<le> blockIdx then Inl UndefinedBehaviour
     else
       (let block = blocks_at (- 1) c ! blockIdx; n = b_size block; data = take n (b_data block) in
        bindR (BlockBase_data E (c_blockSize c) (take (n div 2) data) (b_isCompressed block)
                 (b_isNullable block) True True UINT32_MAX) (\<lambda>block1.
        bindR (BlockBase_data E (c_blockSize c) (drop (n div 2) data) (b_isCompressed block)
                 (b_isNullable block) True True UINT32_MAX) (\<lambda>block2.
        bindR
          (if c_isNullable c then
             (case (b_bitMask block, b_bitMask block1, b_bitMask block2) of
                (Some m, Some m1, Some m2) \<Rightarrow>
                  mapR (\<lambda>(x, y). (block1\<lparr>b_bitMask := Some x\<rparr>, block2\<lparr>b_bitMask := Some y\<rparr>))
                    (split_masks m n (b_capacity block) m1 m2)
              | _ \<Rightarrow> Inl UndefinedBehaviour)
           else Inr (block1, block2))
          (\<lambda>(x, y). Inr (set_blocks_at (- 1)
             (take blockIdx (blocks_at (- 1) c) @ [x, y] @ drop (Suc blockIdx) (blocks_at (- 1) c)) c))))))"

text \<open>
  Inserting one row at a position of a block. The fresh block for an empty group and the
  split always go to group \<open>-1\<close>: for any other group the split does not find the block.
\<close>

definition InsertDataOnSpecificPosition ::
  "int option \<Rightarrow> 'a elem \<Rightarrow> nat \<Rightarrow> nat \<Rightarrow> 'a \<Rightarrow> int \<Rightarrow> nullmask \<Rightarrow> 'a column \<Rightarrow> 'a column result" where
  "InsertDataOnSpecificPosition limit E indexBlock indexInBlock columnData groupId isNullValue c0 =
    bindR (CheckRowsLimit limit (c_size c0)) (\<lambda>_.
     let c1 = set_blocks_at groupId (blocks_at groupId c0) (c0\<lparr>c_size := c_size c0 + 1\<rparr>);
         c = (if blocks_at groupId c1 = [] then AddBlock_empty E (- 1) True UINT32_MAX c1 else c1)
     in if length (blocks_at groupId c) \<le> indexBlock then Inl UndefinedBehaviour
        else
          bindR (InsertDataOnSpecificPosition_block E indexInBlock columnData isNullValue True
                   (blocks_at groupId c ! indexBlock)) (\<lambda>b.
           let c' = set_blocks_at groupId ((blocks_at groupId c)[indexBlock := b]) c in
           if IsFull b
           then (if groupId = - 1 then BlockSplit E indexBlock c' else Inl UndefinedBehaviour)
           else Inr c'))"

definition InsertDataOnSpecificPositionResizing ::
  "int option \<Rightarrow> 'a elem \<Rightarrow> nat \<Rightarrow> nat \<Rightarrow> 'a \<Rightarrow> int \<Rightarrow> bool \<Rightarrow> 'a column \<Rightarrow> 'a column result" where
  "InsertDataOnSpecificPositionResizing limit E indexBlock indexInBlock columnData groupId isNullValue c0 =
    bindR (CheckRowsLimit limit (c_size c0)) (\<lambda>_.
     if length (blocks_at groupId c0) \<le> indexBlock then Inl UndefinedBehaviour
     else
       mapR (\<lambda>b. set_blocks_at groupId ((blocks_at groupId c0)[indexBlock := b])
                   (c0\<lparr>c_size := c_size c0 + 1\<rparr>))
         (InsertDataOnSpecificPosition_block E indexInBlock columnData (of_bool isNullValue) True
            (blocks_at groupId c0 ! indexBlock)))"

end
