(* ===== verification/Column_Correct.thy ===== *)
theory Column_Correct
  imports Column
begin

text \<open>
  What the insertions of a column do to its rows. The invariant \<open>col_ok\<close> says that every
  block is well-formed, has the block size of the column as capacity and sound statistics,
  and that the row count of the column is the sum over its blocks.
\<close>

section \<open>Groups\<close>

lemma blocks_at_set [simp]: "blocks_at g (set_blocks_at h bs c) = (if g = h then bs else blocks_at g c)"
  by (simp add: blocks_at_def set_blocks_at_def omap_get_set)

lemma set_blocks_at_frame [simp]:
  "c_size (set_blocks_at h bs c) = c_size c" "c_blockSize (set_blocks_at h bs c) = c_blockSize c"
  "c_isNullable (set_blocks_at h bs c) = c_isNullable c" "c_isUnique (set_blocks_at h bs c) = c_isUnique c"
  "c_name (set_blocks_at h bs c) = c_name c" "c_uniqueHashmap (set_blocks_at h bs c) = c_uniqueHashmap c"
  by (simp_all add: set_blocks_at_def)

lemma group_size_update [simp]: "blocks_at g (c\<lparr>c_size := n\<rparr>) = blocks_at g c"
  by (simp add: blocks_at_def)

lemma set_last_group [simp]:
  "blocks_at g (set_last h b c) = (if g = h then butlast (blocks_at h c) @ [b] else blocks_at g c)"
  by (simp add: set_last_def)

definition blocks_of :: "(int \<times> 'a list) list \<Rightarrow> 'a list" where
  "blocks_of xs = concat (map snd xs)"

lemma blocks_of_set:
  "set (blocks_of (omap_set k v xs)) \<subseteq> set v \<union> set (blocks_of xs)"
  by (induction k v xs rule: omap_set.induct) (auto simp: blocks_of_def)

lemma omap_get_subset: "set (omap_get k xs) \<subseteq> set (blocks_of xs)"
  by (induction k xs rule: omap_get.induct) (auto simp: blocks_of_def)

lemma omap_get_absent: "k \<notin> set (map fst xs) \<Longrightarrow> omap_get k xs = []"
  by (induction k xs rule: omap_get.induct) auto

lemma blocks_of_sum:
  fixes f :: "'a \<Rightarrow> nat"
  assumes "sorted_wrt (<) (map fst xs)"
  shows "sum_list (map f (blocks_of (omap_set k v xs))) + sum_list (map f (omap_get k xs)) =
    sum_list (map f (blocks_of xs)) + sum_list (map f v)"
  using assms
proof (induction k v xs rule: omap_set.induct)
  case (1 k v)
  then show ?case by (simp add: blocks_of_def)
next
  case (2 k v j w xs)
  consider "k < j" | "k = j" | "j < k" by linarith
  then show ?case
  proof cases
    case 1
    have "omap_get k xs = []"
      using 1 2 by (intro omap_get_absent) (auto simp del: set_map)
    then show ?thesis using 1 by (simp add: blocks_of_def)
  next
    case 3
    then show ?thesis using 2 by (simp add: blocks_of_def)
  qed (simp add: blocks_of_def)
qed

section \<open>Invariant\<close>

definition col_block_ok :: "'a elem \<Rightarrow> 'a column \<Rightarrow> 'a block \<Rightarrow> bool" where
  "col_block_ok E c b \<longleftrightarrow>
    block_ok b \<and> mask_clean b \<and> stats_sound E b \<and>
    b_capacity b = c_blockSize c \<and> b_isNullable b = c_isNullable c"

definition col_ok :: "'a elem \<Rightarrow> 'a column \<Rightarrow> bool" where
  "col_ok E c \<longleftrightarrow>
    0 < c_blockSize c \<and> c_blockSize c < 2 ^ 31 \<and> sorted_wrt (<) (map fst (c_blocks c)) \<and>
    (\<forall>b\<in>set (GetBlocksList c). col_block_ok E c b) \<and>
    c_size c = int (sum_list (map b_size (GetBlocksList c)))"

definition group_rows :: "int \<Rightarrow> 'a column \<Rightarrow> 'a option list" where
  "group_rows g c = concat (map rows (blocks_at g c))"

text \<open>Everything but the blocks and the row count.\<close>

definition col_frame :: "'a column \<Rightarrow> 'a column" where
  "col_frame c = c\<lparr>c_blocks := [], c_size := 0\<rparr>"

lemma col_frame_eqD:
  assumes "col_frame c' = col_frame c"
  shows "c_blockSize c' = c_blockSize c" "c_isNullable c' = c_isNullable c"
    "c_isUnique c' = c_isUnique c" "c_uniqueHashmap c' = c_uniqueHashmap c" "c_name c' = c_name c"
  using assms by (cases c; cases c'; simp add: col_frame_def)+

lemma col_frame_set_blocks_at [simp]:
  "col_frame (set_blocks_at g bs c) = col_frame c" "col_frame (c\<lparr>c_size := n\<rparr>) = col_frame c"
  "col_frame (set_last g b c) = col_frame c"
  by (simp_all add: col_frame_def set_blocks_at_def set_last_def)

lemma GetBlocksList_blocks_of: "GetBlocksList c = blocks_of (c_blocks c)"
  by (simp add: GetBlocksList_def blocks_of_def)

lemma group_in_list: "b \<in> set (blocks_at g c) \<Longrightarrow> b \<in> set (GetBlocksList c)"
  using omap_get_subset [of g "c_blocks c"] by (auto simp: blocks_at_def GetBlocksList_blocks_of)

lemma col_ok_block: "col_ok E c \<Longrightarrow> b \<in> set (blocks_at g c) \<Longrightarrow> col_block_ok E c b"
  using group_in_list by (auto simp: col_ok_def)

lemma col_ok_last: "col_ok E c \<Longrightarrow> blocks_at g c \<noteq> [] \<Longrightarrow> col_block_ok E c (last (blocks_at g c))"
  by (rule col_ok_block [where g = g]) simp_all

lemma col_block_ok_frame:
  "col_frame c' = col_frame c \<Longrightarrow> col_block_ok E c' = col_block_ok E c"
  using col_frame_eqD [of c' c] by (simp add: col_block_ok_def fun_eq_iff)

text \<open>Replacing the blocks of one group by well-formed ones keeps the invariant.\<close>

lemma col_ok_set_blocks_at:
  assumes "col_ok E c" and "\<And>b. b \<in> set bs \<Longrightarrow> col_block_ok E c b"
    and "n = c_size c + int (sum_list (map b_size bs)) - int (sum_list (map b_size (blocks_at g c)))"
  shows "col_ok E ((set_blocks_at g bs c)\<lparr>c_size := n\<rparr>)"
proof -
  let ?c = "(set_blocks_at g bs c)\<lparr>c_size := n\<rparr>"
  have frame: "col_block_ok E ?c = col_block_ok E c"
    by (rule col_block_ok_frame) simp
  have blocks: "set (GetBlocksList ?c) \<subseteq> set bs \<union> set (GetBlocksList c)"
    using blocks_of_set by (simp add: GetBlocksList_blocks_of set_blocks_at_def)
  have "sum_list (map b_size (GetBlocksList ?c)) + sum_list (map b_size (blocks_at g c)) =
      sum_list (map b_size (GetBlocksList c)) + sum_list (map b_size bs)"
    using assms(1) blocks_of_sum [of "c_blocks c" b_size g bs]
    by (simp add: GetBlocksList_blocks_of set_blocks_at_def blocks_at_def col_ok_def)
  then have "n = int (sum_list (map b_size (GetBlocksList ?c)))"
    using assms(1,3) by (simp add: col_ok_def)
  moreover have "sorted_wrt (<) (map fst (c_blocks ?c))"
    using assms(1) by (simp add: set_blocks_at_def col_ok_def sorted_omap_set del: map_map)
  ultimately show ?thesis
    using assms(1,2) blocks frame by (auto simp: col_ok_def)
qed

section \<open>Fresh blocks\<close>

context block_elem
begin

lemma AddBlock_data_ok:
  assumes "col_ok E c" and "length data \<le> c_blockSize c"
  obtains c' b where "AddBlock_data cmpr E data g False False True sv ix c = Inr c'"
    and "col_ok E c'" and "col_frame c' = col_frame c" and "blocks_at g c' = blocks_at g c @ [b]"
    and "rows b = map Some data" and "b_size b = length data"
    and "\<And>h. h \<noteq> g \<Longrightarrow> blocks_at h c' = blocks_at h c" and "c_size c' = c_size c + int (length data)"
proof -
  have bs: "c_blockSize c < 2 ^ 31" using assms(1) by (simp add: col_ok_def)
  obtain b where b: "BlockBase_data E (c_blockSize c) data False (c_isNullable c) True sv ix = Inr b"
    and props: "block_ok b" "mask_clean b" "stats_sound E b" "b_capacity b = c_blockSize c"
      "b_isNullable b = c_isNullable c"
    and rws: "rows b = map Some data" and sz: "b_size b = length data"
    using BlockBase_data_ok [OF assms(2) bs, of "c_isNullable c" sv ix] by metis
  let ?c = "(set_blocks_at g (blocks_at g c @ [b]) c)\<lparr>c_size := c_size c + int (length data)\<rparr>"
  have "AddBlock_data cmpr E data g False False True sv ix c = Inr ?c"
    by (simp add: AddBlock_data_def b compress_if_def)
  moreover have "col_block_ok E c b" using props by (simp add: col_block_ok_def)
  then have "col_ok E ?c"
    using assms(1) sz by (intro col_ok_set_blocks_at) (auto intro: col_ok_block)
  ultimately show ?thesis using rws sz by (intro that [of ?c b]) auto
qed

end

section \<open>Inserting rows\<close>

text \<open>
  What every insertion promises: the group gets the new rows after its old ones, the other
  groups and everything but blocks and row count are as before, and the invariant holds.
\<close>

definition appended :: "'a elem \<Rightarrow> int \<Rightarrow> 'a option list \<Rightarrow> 'a column \<Rightarrow> 'a column \<Rightarrow> bool" where
  "appended E g new c c' \<longleftrightarrow>
    col_ok E c' \<and> col_frame c' = col_frame c \<and> group_rows g c' = group_rows g c @ new \<and>
    (\<forall>h. h \<noteq> g \<longrightarrow> blocks_at h c' = blocks_at h c) \<and> c_size c' = c_size c + int (length new)"

lemma appended_refl: "col_ok E c \<Longrightarrow> appended E g [] c c"
  by (simp add: appended_def)

lemma appended_trans: "appended E g xs c d \<Longrightarrow> appended E g ys d e \<Longrightarrow> appended E g (xs @ ys) c e"
  by (auto simp: appended_def)

lemma appendedD:
  assumes "appended E g new c c'"
  shows "col_ok E c'" "c_blockSize c' = c_blockSize c" "c_isNullable c' = c_isNullable c"
  using assms by (auto simp: appended_def dest: col_frame_eqD)

lemma col_size_same: "c\<lparr>c_size := c_size c\<rparr> = c"
  by (cases c) simp

lemma touch_group:
  assumes "col_ok E c"
  shows "appended E g [] c (set_blocks_at g (blocks_at g c) c)"
proof -
  let ?c = "set_blocks_at g (blocks_at g c) c"
  have same: "?c\<lparr>c_size := c_size c\<rparr> = ?c"
    using col_size_same [of ?c] by (simp only: set_blocks_at_frame)
  have "col_ok E (?c\<lparr>c_size := c_size c\<rparr>)"
    using assms by (intro col_ok_set_blocks_at) (auto intro: col_ok_block)
  then have "col_ok E ?c" unfolding same .
  then show ?thesis by (simp add: appended_def group_rows_def)
qed

lemma size_rows: "length (group_rows g c) = sum_list (map b_size (blocks_at g c))"
  by (simp add: group_rows_def length_concat comp_def)

text \<open>Replacing the last block by one with more rows.\<close>

lemma appended_last:
  assumes "col_ok E c" and "blocks_at g c \<noteq> []" and "col_block_ok E c b"
    and "rows b = rows (last (blocks_at g c)) @ new"
  shows "appended E g new c (set_last g b (c\<lparr>c_size := c_size c + int (length new)\<rparr>))"
proof -
  let ?c = "set_last g b (c\<lparr>c_size := c_size c + int (length new)\<rparr>)"
  obtain bs where bs: "blocks_at g c = bs @ [last (blocks_at g c)]"
    using assms(2) by (metis append_butlast_last_id)
  have sz: "b_size b = b_size (last (blocks_at g c)) + length new"
    using arg_cong [OF assms(4), of length] by simp
  have eq: "?c = (set_blocks_at g (butlast (blocks_at g c) @ [b]) c)\<lparr>c_size := c_size c + int (length new)\<rparr>"
    by (simp add: set_last_def set_blocks_at_def)
  have "sum_list (map b_size (blocks_at g c)) = sum_list (map b_size bs) + b_size (last (blocks_at g c))"
    by (subst bs) simp
  moreover have "butlast (blocks_at g c) = bs" by (subst bs) simp
  moreover have "\<And>b'. b' \<in> set bs \<Longrightarrow> col_block_ok E c b'"
    using assms(1) bs by (metis Un_iff col_ok_block set_append)
  ultimately have "col_ok E ?c"
    unfolding eq using assms(1,3) sz by (intro col_ok_set_blocks_at) auto
  moreover have "group_rows g ?c = group_rows g c @ new"
    using assms(4) \<open>butlast (blocks_at g c) = bs\<close>
    by (simp add: group_rows_def) (subst bs, simp)
  ultimately show ?thesis
    by (simp add: appended_def) (simp add: set_last_def)
qed

context block_elem
begin

lemma AddBlock_data_appended:
  assumes "col_ok E c" and "length data \<le> c_blockSize c"
  obtains c' b where "AddBlock_data cmpr E data g False False True sv ix c = Inr c'"
    and "appended E g (map Some data) c c'" and "blocks_at g c' = blocks_at g c @ [b]"
    and "rows b = map Some data"
proof -
  obtain c' b where r: "AddBlock_data cmpr E data g False False True sv ix c = Inr c'"
    and props: "col_ok E c'" "col_frame c' = col_frame c" "blocks_at g c' = blocks_at g c @ [b]"
      "rows b = map Some data" "\<And>h. h \<noteq> g \<Longrightarrow> blocks_at h c' = blocks_at h c"
      "c_size c' = c_size c + int (length data)"
    using AddBlock_data_ok [OF assms, of cmpr g sv ix] by metis
  from props have "appended E g (map Some data) c c'"
    by (simp add: appended_def group_rows_def)
  with r props(3,4) that show ?thesis by blast
qed

lemma add_chunks_appended:
  assumes "col_ok E c" and "st + length data < 2 ^ 31"
  shows "\<exists>c'. add_chunks cmpr E st data g False True ix c = Inr c' \<and> appended E g (map Some data) c c'"
  using assms
proof (induction "length data" arbitrary: st data c rule: less_induct)
  case less
  show ?case
  proof (cases "data = []")
    case True
    then show ?thesis using less.prems by (subst add_chunks.simps) (simp add: appended_refl)
  next
    case False
    let ?n = "if length data < c_blockSize c then length data else c_blockSize c"
    have bs: "c_blockSize c \<noteq> 0" using less.prems by (simp add: col_ok_def)
    have len: "length (take ?n data) \<le> c_blockSize c" by simp
    obtain c1 b where r: "AddBlock_data cmpr E (take ?n data) g False False True (ix \<noteq> 0) UINT32_MAX c = Inr c1"
      and a: "appended E g (map Some (take ?n data)) c c1"
      using AddBlock_data_appended [OF less.prems(1) len, of cmpr g "ix \<noteq> 0" UINT32_MAX] by metis
    have "length (drop ?n data) < length data" using False bs by auto
    moreover have st: "st + ?n + length (drop ?n data) < 2 ^ 31" using less.prems(2) by auto
    ultimately obtain c'
      where c': "add_chunks cmpr E (st + ?n) (drop ?n data) g False True ix c1 = Inr c'"
        and a': "appended E g (map Some (drop ?n data)) c1 c'"
      using less.hyps [OF _ appendedD(1) [OF a]] by blast
    have "map Some (take ?n data) @ map Some (drop ?n data) = map Some data"
      by (metis append_take_drop_id map_append)
    with appended_trans [OF a a'] have "appended E g (map Some data) c c'" by simp
    moreover have "add_chunks cmpr E st data g False True ix c = Inr c'"
      using False bs r c' st by (subst add_chunks.simps) (simp add: Let_def)
    ultimately show ?thesis by blast
  qed
qed

lemma InsertData_last_block:
  assumes "col_ok E c" and "blocks_at g c \<noteq> []"
    and "length data \<le> b_capacity (last (blocks_at g c)) - b_size (last (blocks_at g c))"
  obtains b where "InsertData_block E data True (last (blocks_at g c)) = Inr b"
    and "appended E g (map Some data) c (set_last g b (c\<lparr>c_size := c_size c + int (length data)\<rparr>))"
proof -
  let ?l = "last (blocks_at g c)"
  have l: "col_block_ok E c ?l" using assms(1,2) by (rule col_ok_last)
  then have ok: "block_ok ?l" "mask_clean ?l" "stats_sound E ?l" by (simp_all add: col_block_ok_def)
  obtain b where b: "InsertData_block E data True ?l = Inr b"
    using InsertData_block_eq [OF ok(1) assms(3), of E True] by auto
  have "col_block_ok E c b"
    using l InsertData_block_frame(1,2) [OF ok(1) b] InsertData_block_ok [OF ok(1) b]
      InsertData_block_rows_clean(2) [OF ok(1) b ok(2)] InsertData_block_sound [OF ok(1) b ok(3)]
    by (simp add: col_block_ok_def)
  then have "appended E g (map Some data) c
      (set_last g b (c\<lparr>c_size := c_size c + int (length (map Some data))\<rparr>))"
    by (intro appended_last [OF assms(1,2)] InsertData_block_rows_clean(1) [OF ok(1) b ok(2)])
  then show ?thesis using b that by simp
qed

lemma InsertData_appended:
  assumes "col_ok E c" and "CheckRowsLimit limit (c_size c + int (length data) - 1) = Inr ()" and "length data < 2 ^ 31"
  shows "\<exists>c'. InsertData limit cmpr E data g False True ix c = Inr c' \<and>
    appended E g (map Some data) c c'"
proof -
  let ?c = "set_blocks_at g (blocks_at g c) c"
  let ?l = "last (blocks_at g c)"
  have t: "appended E g [] c ?c" by (rule touch_group [OF assms(1)])
  have ok: "col_ok E ?c" by (rule appendedD(1) [OF t])
  have lift: "appended E g (map Some data) c c'" if "appended E g (map Some data) ?c c'" for c'
    using appended_trans [OF t that] by simp
  show ?thesis
  proof (cases "blocks_at g c \<noteq> [] \<and> \<not> IsFull ?l")
    case False
    with add_chunks_appended [OF ok, of 0 data cmpr g ix] lift assms(2,3) show ?thesis
      by (auto simp: InsertData_def Let_def)
  next
    case True
    have bok: "block_ok ?l" using True col_ok_last [OF assms(1), of g] by (simp add: col_block_ok_def)
    let ?e = "b_capacity ?l - b_size ?l"
    show ?thesis
    proof (cases "length data \<le> ?e")
      case fits: True
      obtain b where b: "InsertData_block E data True ?l = Inr b"
        and a: "appended E g (map Some data) ?c (set_last g b (?c\<lparr>c_size := c_size ?c + int (length data)\<rparr>))"
        using InsertData_last_block [OF ok, of g data] True fits by auto
      have "InsertData limit cmpr E data g False True ix c =
          Inr (set_last g b (?c\<lparr>c_size := c_size ?c + int (length data)\<rparr>))"
        using True fits b assms(2)
        by (simp add: InsertData_def Let_def space_u64_ok [OF bok] compress_if_def)
      with lift [OF a] show ?thesis by blast
    next
      case False
      have len: "length (take ?e data) = ?e" using False by simp
      obtain b where b: "InsertData_block E (take ?e data) True ?l = Inr b"
        and a: "appended E g (map Some (take ?e data)) ?c (set_last g b (?c\<lparr>c_size := c_size ?c + int ?e\<rparr>))"
        using InsertData_last_block [OF ok, of g "take ?e data"] True len by auto
      have st: "?e + length (drop ?e data) < 2 ^ 31" using assms(3) False by simp
      obtain c' where c': "add_chunks cmpr E ?e (drop ?e data) g False True ix
            (set_last g b (?c\<lparr>c_size := c_size ?c + int ?e\<rparr>)) = Inr c'"
        and a': "appended E g (map Some (drop ?e data)) (set_last g b (?c\<lparr>c_size := c_size ?c + int ?e\<rparr>)) c'"
        using add_chunks_appended [OF appendedD(1) [OF a] st] by blast
      have "map Some (take ?e data) @ map Some (drop ?e data) = map Some data"
        by (metis append_take_drop_id map_append)
      with appended_trans [OF a a'] have "appended E g (map Some data) ?c c'" by simp
      moreover have "InsertData limit cmpr E data g False True ix c = Inr c'"
        using True False b c' assms(2)
        by (simp add: InsertData_def Let_def space_u64_ok [OF bok] EmptyBlockSpace_ok [OF bok] compress_if_def)
      ultimately show ?thesis using lift by blast
    qed
  qed
qed

end

end
