(* ===== verification/Column_Mask.thy ===== *)
theory Column_Mask
  imports Column_Correct
begin

text \<open>
  Inserting rows together with their null mask. The bits of the given mask are copied row by
  row to the blocks the rows went to, across block boundaries.
\<close>

section \<open>Copying null bits\<close>

definition nulled :: "nullmask list \<Rightarrow> nat \<Rightarrow> 'a list \<Rightarrow> 'a option list" where
  "nulled nm k data = map (\<lambda>i. if mask_bit nm (k + i) then None else Some (data ! i)) [0..<length data]"

lemma length_nulled [simp]: "length (nulled nm k data) = length data"
  by (simp add: nulled_def)

lemma nth_nulled [simp]:
  "i < length data \<Longrightarrow> nulled nm k data ! i = (if mask_bit nm (k + i) then None else Some (data ! i))"
  by (simp add: nulled_def)

lemma nulled_split:
  assumes "n \<le> length data"
  shows "nulled nm k (take n data) @ nulled nm (k + n) (drop n data) = nulled nm k data"
  by (rule nth_equalityI) (use assms in \<open>auto simp: nth_append\<close>)

text \<open>The mask that results from copying \<open>n\<close> bits.\<close>

lemma foldR_copy_null_bit:
  assumes "k + n \<le> 64 * length nm" and "start + n \<le> 64 * length m"
  shows "\<exists>m'. foldR (copy_null_bit nm k start) [0..<n] (Some m) = Inr (Some m') \<and>
    length m' = length m \<and>
    (\<forall>j. mask_bit m' j = (mask_bit m j \<or> start \<le> j \<and> j < start + n \<and> mask_bit nm (k + (j - start))))"
  using assms
proof (induction n)
  case 0
  then show ?case by auto
next
  case (Suc n)
  then obtain m1 where r: "foldR (copy_null_bit nm k start) [0..<n] (Some m) = Inr (Some m1)"
    and len: "length m1 = length m"
    and b: "\<And>j. mask_bit m1 j = (mask_bit m j \<or> start \<le> j \<and> j < start + n \<and> mask_bit nm (k + (j - start)))"
    by auto
  have idx: "(k + n) div 64 < length nm" "(start + n) div 64 < length m1"
    using Suc.prems len by auto
  have step: "copy_null_bit nm k start n (Some m1) =
      Inr (Some (if mask_bit nm (k + n) then SetBitInBitMask m1 (start + n) 1 else m1))"
    using idx by (simp add: copy_null_bit_def GetConcreteBit_eq)
  have "mask_bit (if mask_bit nm (k + n) then SetBitInBitMask m1 (start + n) 1 else m1) j =
      (mask_bit m j \<or> start \<le> j \<and> j < start + Suc n \<and> mask_bit nm (k + (j - start)))" for j
    using idx b by (auto simp: mask_bit_SetBit less_Suc_eq)
  with r step len show ?case by (simp add: foldR_append)
qed

lemma foldR_copy_none:
  assumes "k + n \<le> 64 * length nm" and "\<And>i. i < n \<Longrightarrow> \<not> mask_bit nm (k + i)"
  shows "foldR (copy_null_bit nm k start) [0..<n] x = Inr x"
  using assms
proof (induction n)
  case 0
  then show ?case by simp
next
  case (Suc n)
  have "(k + n) div 64 < length nm" using Suc.prems(1) by auto
  with Suc show ?case by (simp add: foldR_append copy_null_bit_def GetConcreteBit_eq)
qed

text \<open>Rows that carry a null are only given to a nullable column.\<close>

definition nulls_allowed :: "bool \<Rightarrow> nullmask list \<Rightarrow> nat \<Rightarrow> nat \<Rightarrow> bool" where
  "nulls_allowed nul nm k n \<longleftrightarrow> nul \<or> (\<forall>i<n. \<not> mask_bit nm (k + i))"

lemma copy_null_bits_spec:
  assumes "block_ok b" and "k + n \<le> 64 * length nm" and "start + n \<le> b_capacity b"
    and "nulls_allowed (b_isNullable b) nm k n"
  obtains b' where "copy_null_bits nm k start n b = Inr b'" and "block_ok b'"
    and "is_null b' = (\<lambda>j. is_null b j \<or> start \<le> j \<and> j < start + n \<and> mask_bit nm (k + (j - start)))"
    and "b' = b\<lparr>b_bitMask := b_bitMask b'\<rparr>"
proof (cases "b_bitMask b")
  case None
  with assms(1) have "\<not> b_isNullable b" by (simp add: block_ok_def)
  with assms(4) have no: "\<And>i. i < n \<Longrightarrow> \<not> mask_bit nm (k + i)" by (simp add: nulls_allowed_def)
  have same: "b\<lparr>b_bitMask := b_bitMask b\<rparr> = b" by (cases b) simp
  have nn: "\<not> mask_bit nm (k + (j - start))" if "start \<le> j" "j < start + n" for j
    using no [of "j - start"] that by auto
  have "copy_null_bits nm k start n b = Inr b"
    using foldR_copy_none [OF assms(2) no, of start "b_bitMask b"] same by (simp add: copy_null_bits_def)
  then show ?thesis using assms(1) nn same by (intro that [of b]) (auto simp: fun_eq_iff)
next
  case (Some m)
  with assms(1) have nul: "b_isNullable b" and len: "length m = GetNullBitMaskSize (b_capacity b)"
    by (simp_all add: block_ok_def)
  have fit: "start + n \<le> 64 * length m"
    using assms(3) len GetNullBitMaskSize_le [of "b_capacity b"] by simp
  obtain m' where r: "foldR (copy_null_bit nm k start) [0..<n] (Some m) = Inr (Some m')"
    and len': "length m' = length m"
    and b: "\<And>j. mask_bit m' j = (mask_bit m j \<or> start \<le> j \<and> j < start + n \<and> mask_bit nm (k + (j - start)))"
    using foldR_copy_null_bit [OF assms(2) fit] by blast
  show ?thesis
  proof (rule that [of "b\<lparr>b_bitMask := Some m'\<rparr>"])
    show "copy_null_bits nm k start n b = Inr (b\<lparr>b_bitMask := Some m'\<rparr>)"
      using r Some by (simp add: copy_null_bits_def)
    show "block_ok (b\<lparr>b_bitMask := Some m'\<rparr>)"
      using block_ok_mask [OF assms(1) nul] len len' by simp
  qed (use Some b in \<open>auto simp: is_null_def fun_eq_iff\<close>)
qed

section \<open>Nulling rows of a block\<close>

text \<open>Copying bits over rows that are there: the statistics stay sound, the rows get nulls.\<close>

lemma nulled_block:
  assumes "col_block_ok E c b" and "rows b = old @ map Some data" and "length old = start"
    and "k + length data \<le> 64 * length nm"
    and "nulls_allowed (c_isNullable c) nm k (length data)"
  obtains b' where "copy_null_bits nm k start (length data) b = Inr b'"
    and "col_block_ok E c b'" and "rows b' = old @ nulled nm k data"
proof -
  have ok: "block_ok b" and nul: "b_isNullable b = c_isNullable c"
    using assms(1) by (simp_all add: col_block_ok_def)
  have sz: "b_size b = start + length data"
    using arg_cong [OF assms(2), of length] assms(3) by simp
  have cap: "start + length data \<le> b_capacity b" using ok sz by (simp add: block_ok_def)
  have al: "nulls_allowed (b_isNullable b) nm k (length data)" using assms(5) nul by simp
  obtain b' where r: "copy_null_bits nm k start (length data) b = Inr b'" and ok': "block_ok b'"
    and n': "is_null b' = (\<lambda>j. is_null b j \<or> start \<le> j \<and> j < start + length data \<and> mask_bit nm (k + (j - start)))"
    and fr: "b' = b\<lparr>b_bitMask := b_bitMask b'\<rparr>"
    by (rule copy_null_bits_spec [OF ok assms(4) cap al])
  note n = fun_cong [OF n']
  have fields: "b_size b' = b_size b" "b_data b' = b_data b" "b_min b' = b_min b" "b_max b' = b_max b"
    "b_capacity b' = b_capacity b" "b_isNullable b' = b_isNullable b"
    by (subst fr, simp)+
  have "rows b' = old @ nulled nm k data"
  proof (rule nth_equalityI)
    show "length (rows b') = length (old @ nulled nm k data)" using sz assms(3) fields by simp
  next
    fix i assume "i < length (rows b')"
    then have i: "i < b_size b" using fields by simp
    have "rows b ! i = (old @ map Some data) ! i" using assms(2) by simp
    then show "rows b' ! i = (old @ nulled nm k data) ! i"
      using i n [of i] sz assms(3) fields by (auto simp: nth_rows nth_append split: if_splits)
  qed
  moreover have "mask_clean b'"
    using assms(1) n fields sz by (auto simp: mask_clean_def col_block_ok_def)
  moreover have "stats_sound E b'"
  proof -
    have "live b' \<subseteq> live b" using n fields by (auto simp: live_def)
    then show ?thesis
      using assms(1) fields by (auto simp: stats_sound_live bounds_all_def col_block_ok_def)
  qed
  ultimately show ?thesis using that r ok' assms(1) fields by (simp add: col_block_ok_def)
qed

lemma nulls_allowed_take:
  "nulls_allowed nul nm k n \<Longrightarrow> m \<le> n \<Longrightarrow> nulls_allowed nul nm k m"
  by (auto simp: nulls_allowed_def)

lemma nulls_allowed_drop:
  "nulls_allowed nul nm k (m + n) \<Longrightarrow> nulls_allowed nul nm (k + m) n"
  by (auto simp: nulls_allowed_def add.assoc)

text \<open>Replacing the last rows of a group: the appended rows change, everything else stays.\<close>

lemma appended_replace:
  assumes "appended E g xs c c'" and "blocks_at g c' \<noteq> []"
    and "rows (last (blocks_at g c')) = old @ xs" and "rows b = old @ ys" and "length ys = length xs"
    and "col_block_ok E c' b"
  shows "appended E g ys c (set_last g b c')"
proof -
  let ?l = "last (blocks_at g c')"
  have ok': "col_ok E c'" by (rule appendedD(1) [OF assms(1)])
  obtain bs where bs: "blocks_at g c' = bs @ [?l]" using assms(2) by (metis append_butlast_last_id)
  have butl: "butlast (blocks_at g c') = bs" by (subst bs) simp
  have sz: "b_size b = b_size ?l"
    using arg_cong [OF assms(3), of length] arg_cong [OF assms(4), of length] assms(5) by simp
  have eq: "(set_blocks_at g (bs @ [b]) c')\<lparr>c_size := c_size c'\<rparr> = set_last g b c'"
    using col_size_same [of "set_last g b c'"] butl by (simp add: set_last_def)
  have "sum_list (map b_size (blocks_at g c')) = sum_list (map b_size bs) + b_size ?l"
    by (subst bs) simp
  moreover have "\<And>b'. b' \<in> set bs \<Longrightarrow> col_block_ok E c' b'"
    using ok' bs by (metis Un_iff col_ok_block set_append)
  ultimately have "col_ok E ((set_blocks_at g (bs @ [b]) c')\<lparr>c_size := c_size c'\<rparr>)"
    using ok' assms(6) sz by (intro col_ok_set_blocks_at) auto
  then have okn: "col_ok E (set_last g b c')" unfolding eq .
  have "group_rows g c' = concat (map rows bs) @ old @ xs"
    using assms(3) by (simp add: group_rows_def) (subst bs, simp)
  then have "group_rows g c @ xs = (concat (map rows bs) @ old) @ xs"
    using assms(1) by (simp add: appended_def)
  then have pre: "concat (map rows bs) @ old = group_rows g c" by simp
  have "group_rows g (set_last g b c') = concat (map rows bs) @ old @ ys"
    using assms(4) butl by (simp add: group_rows_def)
  then have "group_rows g (set_last g b c') = group_rows g c @ ys"
    using pre by simp
  then show ?thesis
    using assms(1,5) okn by (simp add: appended_def) (simp add: set_last_def)
qed

lemma appended_nulled:
  assumes "appended E g (map Some data) c c'" and "blocks_at g c' \<noteq> []"
    and "rows (last (blocks_at g c')) = old @ map Some data" and "length old = start"
    and "k + length data \<le> 64 * length nm" and "nulls_allowed (c_isNullable c) nm k (length data)"
  obtains b where "copy_null_bits nm k start (length data) (last (blocks_at g c')) = Inr b"
    and "appended E g (nulled nm k data) c (set_last g b c')"
proof -
  have l: "col_block_ok E c' (last (blocks_at g c'))"
    by (rule col_ok_last [OF appendedD(1) [OF assms(1)] assms(2)])
  have nul: "nulls_allowed (c_isNullable c') nm k (length data)"
    using assms(6) appendedD(3) [OF assms(1)] by simp
  obtain b where b: "copy_null_bits nm k start (length data) (last (blocks_at g c')) = Inr b"
    and ok: "col_block_ok E c' b" and rws: "rows b = old @ nulled nm k data"
    using nulled_block [OF l assms(3,4,5) nul] by metis
  have "appended E g (nulled nm k data) c (set_last g b c')"
    by (rule appended_replace [OF assms(1-3) rws _ ok]) simp
  with b that show ?thesis by blast
qed

section \<open>Inserting rows with nulls\<close>

context block_elem
begin

lemma add_chunks_mask_appended:
  assumes "col_ok E c" and "k + length data \<le> 64 * length nm"
    and "nulls_allowed (c_isNullable c) nm k (length data)" and "k + length data < 2 ^ 31"
  shows "\<exists>c'. add_chunks_mask cmpr E data nm k g False True ix c = Inr c' \<and>
    appended E g (nulled nm k data) c c'"
  using assms
proof (induction "length data" arbitrary: data c k rule: less_induct)
  case less
  show ?case
  proof (cases "data = []")
    case True
    then show ?thesis using less.prems
      by (subst add_chunks_mask.simps) (simp add: appended_refl nulled_def)
  next
    case False
    define n where "n = (if length data < c_blockSize c then length data else c_blockSize c)"
    have bs: "c_blockSize c \<noteq> 0" using less.prems by (simp add: col_ok_def)
    have n: "n \<le> length data" "0 < n" "length (take n data) \<le> c_blockSize c" "length (take n data) = n"
      using False bs by (auto simp: n_def)
    obtain c1 b1 where r: "AddBlock_data cmpr E (take n data) g False False True (ix \<noteq> 0) UINT32_MAX c = Inr c1"
      and a: "appended E g (map Some (take n data)) c c1"
      and grp: "blocks_at g c1 = blocks_at g c @ [b1]" and rws: "rows b1 = map Some (take n data)"
      by (rule AddBlock_data_appended [OF less.prems(1) n(3)])
    have nul: "nulls_allowed (c_isNullable c) nm k (length (take n data))"
      using less.prems(3) n by (auto intro: nulls_allowed_take)
    have ne: "blocks_at g c1 \<noteq> []" and r0: "rows (last (blocks_at g c1)) = [] @ map Some (take n data)"
      using grp rws by simp_all
    have fit: "k + length (take n data) \<le> 64 * length nm" using less.prems(2) n(1) by simp
    obtain b where b: "copy_null_bits nm k 0 (length (take n data)) (last (blocks_at g c1)) = Inr b"
      and a1: "appended E g (nulled nm k (take n data)) c (set_last g b c1)"
      by (rule appended_nulled [OF a ne r0 _ fit nul]) simp_all
    let ?c = "set_last g b c1"
    have ok: "col_ok E ?c" and fr: "c_isNullable ?c = c_isNullable c"
      using appendedD [OF a1] by simp_all
    have len: "length (drop n data) < length data" using n by simp
    have dn: "length data = n + length (drop n data)" using n(1) by simp
    have nul2: "nulls_allowed (c_isNullable ?c) nm (k + n) (length (drop n data))"
      unfolding fr by (rule nulls_allowed_drop) (use less.prems(3) n(1) in simp)
    have fit2: "k + n + length (drop n data) \<le> 64 * length nm" using less.prems(2) dn by linarith
    have lt: "k + n + length (drop n data) < 2 ^ 31" using less.prems(4) dn by linarith
    obtain c' where c': "add_chunks_mask cmpr E (drop n data) nm (k + n) g False True ix ?c = Inr c'"
      and a2: "appended E g (nulled nm (k + n) (drop n data)) ?c c'"
      using less.hyps [OF len ok fit2 nul2 lt] by blast
    have "appended E g (nulled nm k data) c c'"
      using appended_trans [OF a1 a2] nulled_split [OF n(1), of nm k] by simp
    moreover have "add_chunks_mask cmpr E data nm k g False True ix c = Inr c'"
      using False bs r b [unfolded n(4)] c' lt
      by (subst add_chunks_mask.simps) (simp add: Let_def n_def [symmetric])
    ultimately show ?thesis by blast
  qed
qed

text \<open>
  When everything fits into the last block the bits are copied first: the insertion then
  finds them beyond the old rows.
\<close>

lemma InsertData_last_mask:
  assumes "col_ok E c" and "blocks_at g c \<noteq> []" and "l = last (blocks_at g c)"
    and "length data \<le> b_capacity l - b_size l"
    and "length data \<le> 64 * length nm" and "nulls_allowed (c_isNullable c) nm 0 (length data)"
  obtains b1 b where "copy_null_bits nm 0 (b_size l) (length data) l = Inr b1"
    and "InsertData_block E data True b1 = Inr b"
    and "appended E g (nulled nm 0 data) c (set_last g b (c\<lparr>c_size := c_size c + int (length data)\<rparr>))"
proof -
  have l: "col_block_ok E c l" using col_ok_last [OF assms(1,2)] assms(3) by simp
  then have ok: "block_ok l" and cl: "mask_clean l" and snd: "stats_sound E l"
    and lf: "b_capacity l = c_blockSize c" "b_isNullable l = c_isNullable c"
    by (simp_all add: col_block_ok_def)
  have cap: "b_size l + length data \<le> b_capacity l" using assms(4) ok by (auto simp: block_ok_def)
  have al: "nulls_allowed (b_isNullable l) nm 0 (length data)" using assms(6) lf by simp
  have len0: "0 + length data \<le> 64 * length nm" using assms(5) by simp
  obtain b1 where b1: "copy_null_bits nm 0 (b_size l) (length data) l = Inr b1" and ok1: "block_ok b1"
    and n1': "is_null b1 = (\<lambda>j. is_null l j \<or> b_size l \<le> j \<and> j < b_size l + length data \<and>
        mask_bit nm (0 + (j - b_size l)))"
    and fr: "b1 = l\<lparr>b_bitMask := b_bitMask b1\<rparr>"
    by (rule copy_null_bits_spec [OF ok len0 cap al])
  note n1 = fun_cong [OF n1']
  have fields: "b_size b1 = b_size l" "b_data b1 = b_data l" "b_min b1 = b_min l" "b_max b1 = b_max l"
    "b_capacity b1 = b_capacity l" "b_isNullable b1 = b_isNullable l"
    by (subst fr, simp)+
  have rows1: "rows b1 = rows l"
    using n1 fields by (intro nth_equalityI) (auto simp: nth_rows)
  obtain b where b: "InsertData_block E data True b1 = Inr b"
    using InsertData_block_eq [OF ok1, of data E True] assms(4) fields by auto
  note fb = InsertData_block_frame [OF ok1 b]
  have "map (\<lambda>i. if is_null b1 (b_size b1 + i) then None else Some (data ! i)) [0..<length data] =
      nulled nm 0 data"
    using cl n1 fields by (intro nth_equalityI) (auto simp: mask_clean_def)
  then have rws: "rows b = rows l @ nulled nm 0 data"
    using InsertData_block_rows [OF ok1 b] rows1 by simp
  have "mask_clean b" using cl n1 fb(3,4) fields by (auto simp: mask_clean_def)
  moreover have "stats_sound E b1" using snd rows1 fields by (simp add: stats_sound_def)
  then have "stats_sound E b" by (rule InsertData_block_sound [OF ok1 b])
  ultimately have "col_block_ok E c b"
    using InsertData_block_ok [OF ok1 b] fb(1,2) fields lf by (simp add: col_block_ok_def)
  then have "appended E g (nulled nm 0 data) c
      (set_last g b (c\<lparr>c_size := c_size c + int (length (nulled nm 0 data))\<rparr>))"
    using rws assms(3) by (intro appended_last [OF assms(1,2)]) simp_all
  then show ?thesis using that [OF b1 b] by simp
qed

lemma InsertData_mask_appended:
  assumes "col_ok E c" and "CheckRowsLimit limit (c_size c + int (length data) - 1) = Inr ()"
    and "length data \<le> 64 * length nm" and "nulls_allowed (c_isNullable c) nm 0 (length data)" and "length data < 2 ^ 31"
  shows "\<exists>c'. InsertData_mask limit cmpr E data nm g False True ix c = Inr c' \<and>
    appended E g (nulled nm 0 data) c c'"
proof -
  let ?c = "set_blocks_at g (blocks_at g c) c"
  let ?l = "last (blocks_at g c)"
  have t: "appended E g [] c ?c" by (rule touch_group [OF assms(1)])
  have ok: "col_ok E ?c" and nul: "nulls_allowed (c_isNullable ?c) nm 0 (length data)"
    using appendedD [OF t] assms(4) by simp_all
  have lift: "appended E g (nulled nm 0 data) c c'" if "appended E g (nulled nm 0 data) ?c c'" for c'
    using appended_trans [OF t that] by simp
  show ?thesis
  proof (cases "blocks_at g c \<noteq> [] \<and> \<not> IsFull ?l")
    case False
    have fit: "0 + length data \<le> 64 * length nm" and lt: "0 + length data < 2 ^ 31" using assms(3,5) by simp_all
    obtain c' where c': "add_chunks_mask cmpr E data nm 0 g False True ix ?c = Inr c'"
      and a: "appended E g (nulled nm 0 data) ?c c'"
      using add_chunks_mask_appended [OF ok fit nul lt] by blast
    have "InsertData_mask limit cmpr E data nm g False True ix c = Inr c'"
      using False c' assms(2) by (auto simp: InsertData_mask_def Let_def)
    with lift [OF a] show ?thesis by blast
  next
    case True
    have bok: "block_ok ?l" using True col_ok_last [OF assms(1), of g] by (simp add: col_block_ok_def)
    define e where "e = b_capacity ?l - b_size ?l"
    show ?thesis
    proof (cases "length data \<le> e")
      case fits: True
      have ne: "blocks_at g ?c \<noteq> []" and
        fits': "length data \<le> b_capacity (last (blocks_at g ?c)) - b_size (last (blocks_at g ?c))"
        using True fits by (simp_all add: e_def)
      obtain b1 b where b1: "copy_null_bits nm 0 (b_size ?l) (length data) ?l = Inr b1"
        and b: "InsertData_block E data True b1 = Inr b"
        and a: "appended E g (nulled nm 0 data) ?c (set_last g b (?c\<lparr>c_size := c_size ?c + int (length data)\<rparr>))"
        by (rule InsertData_last_mask [OF ok ne refl fits' assms(3) nul]) simp
      have "InsertData_mask limit cmpr E data nm g False True ix c =
          Inr (set_last g b (?c\<lparr>c_size := c_size ?c + int (length data)\<rparr>))"
        using True fits b1 b assms(2)
        by (simp add: InsertData_mask_def Let_def space_u64_ok [OF bok] compress_if_def e_def)
      with lift [OF a] show ?thesis by blast
    next
      case False
      have len: "length (take e data) = e" and le: "e \<le> length data" using False by auto
      have dn: "length data = e + length (drop e data)" using le by simp
      obtain b1 where b1: "InsertData_block E (take e data) True ?l = Inr b1"
        and a1: "appended E g (map Some (take e data)) ?c (set_last g b1 (?c\<lparr>c_size := c_size ?c + int e\<rparr>))"
        using InsertData_last_block [OF ok, of g "take e data"] True len by (auto simp: e_def)
      let ?d = "set_last g b1 (?c\<lparr>c_size := c_size ?c + int e\<rparr>)"
      have cl: "mask_clean ?l" using True col_ok_last [OF assms(1), of g] by (simp add: col_block_ok_def)
      have r1: "rows b1 = rows ?l @ map Some (take e data)" and cap1: "b_capacity b1 = b_capacity ?l"
        using InsertData_block_rows_clean(1) [OF bok b1 cl] InsertData_block_frame(1) [OF bok b1] by simp_all
      have nul1: "nulls_allowed (c_isNullable ?c) nm 0 (length (take e data))"
        using nul le by (auto intro: nulls_allowed_take)
      have last1: "last (blocks_at g ?d) = b1" and ne1: "blocks_at g ?d \<noteq> []" by simp_all
      have r1': "rows (last (blocks_at g ?d)) = rows ?l @ map Some (take e data)"
        unfolding last1 by (rule r1)
      have fit1: "0 + length (take e data) \<le> 64 * length nm" using assms(3) le by simp
      obtain b where b: "copy_null_bits nm 0 (b_size ?l) (length (take e data)) (last (blocks_at g ?d)) = Inr b"
        and a2: "appended E g (nulled nm 0 (take e data)) ?c (set_last g b ?d)"
        by (rule appended_nulled [OF a1 ne1 r1' _ fit1 nul1]) simp_all
      have d: "set_last g b ?d = set_last g b (?c\<lparr>c_size := c_size ?c + int e\<rparr>)"
        by (simp add: set_last_def set_blocks_at_def blocks_at_def omap_get_set omap_set_set)
      have nul2: "nulls_allowed (c_isNullable (set_last g b ?d)) nm (0 + e) (length (drop e data))"
        unfolding appendedD(3) [OF a2] by (rule nulls_allowed_drop) (use nul le in simp)
      have fit2: "e + length (drop e data) \<le> 64 * length nm" and lt2: "e + length (drop e data) < 2 ^ 31"
        using assms(3,5) dn by linarith+
      obtain c' where c': "add_chunks_mask cmpr E (drop e data) nm e g False True ix (set_last g b ?d) = Inr c'"
        and a3: "appended E g (nulled nm e (drop e data)) (set_last g b ?d) c'"
        using add_chunks_mask_appended [OF appendedD(1) [OF a2] fit2 nul2 [unfolded add_0] lt2] by blast
      have "appended E g (nulled nm 0 data) ?c c'"
        using appended_trans [OF a2 a3] nulled_split [OF le, of nm 0] by simp
      moreover have "InsertData_mask limit cmpr E data nm g False True ix c = Inr c'"
        using True False b1 b [unfolded last1 len] c' [unfolded d] assms(2) cap1
        by (simp add: InsertData_mask_def Let_def space_u64_ok [OF bok] EmptyBlockSpace_ok [OF bok]
            compress_if_def e_def [symmetric])
      ultimately show ?thesis using lift by blast
    qed
  qed
qed

end

section \<open>A new column\<close>

lemma ColumnBase_new_eq:
  assumes "nul \<longrightarrow> \<not> unq"
  obtains c where "ColumnBase_new same E name bs nul unq = Inr c"
    and "c_blocks c = [(- 1, [])]" and "c_size c = 0" and "c_blockSize c = bs"
    and "c_isNullable c = nul" and "c_isUnique c = unq" and "c_uniqueHashmap c = []"
  using assms
  by (cases nul; cases unq)
    (auto simp: ColumnBase_new_def SetIsNullable_def SetIsUnique_def SetIsNullableInBlocks_def
      map_blocks_def column_values_def GetBlocksList_def)

text \<open>
  A new column has no rows, satisfies the invariant and has the flags it was asked for;
  asking for a column that is both nullable and unique raises the constraint violation.
\<close>

theorem ColumnBase_new_correct:
  assumes "0 < bs" and "bs < 2 ^ 31"
  shows "if nul \<and> unq
    then ColumnBase_new same E name bs nul unq =
      Inl (ConstraintViolationError UNIQUE_CONSTRAINT_INSERT_NULL_VALUE)
    else \<exists>c. ColumnBase_new same E name bs nul unq = Inr c \<and> col_ok E c \<and>
      c_size c = 0 \<and> (\<forall>g. group_rows g c = []) \<and> c_isNullable c = nul \<and> c_isUnique c = unq"
proof (cases "nul \<and> unq")
  case True
  then show ?thesis
    by (simp add: ColumnBase_new_def SetIsNullable_def SetIsUnique_def SetIsNullableInBlocks_def map_blocks_def)
next
  case False
  then have "nul \<longrightarrow> \<not> unq" by simp
  then obtain c where c: "ColumnBase_new same E name bs nul unq = Inr c"
    and f: "c_blocks c = [(- 1, [])]" "c_size c = 0" "c_blockSize c = bs" "c_isNullable c = nul" "c_isUnique c = unq"
    by (rule ColumnBase_new_eq [where same = same and E = E and name = name and bs = bs]) auto
  then have "col_ok E c" using assms by (simp add: col_ok_def GetBlocksList_def)
  moreover have "group_rows g c = []" for g by (simp add: group_rows_def blocks_at_def f)
  ultimately show ?thesis using False c f by auto
qed

theorem ColumnBase_new_correct_witness:
  "\<exists>c. ColumnBase_new (=) (elem_int32 0) ''colA'' 4 True False = Inr c \<and> col_ok (elem_int32 0) c \<and>
    group_rows (- 1) c = []"
  using ColumnBase_new_correct [of 4 True False "(=)" "elem_int32 0" "''colA''"] by auto

definition sample_column :: "int32 column" where
  "sample_column = projr (ColumnBase_new (=) (elem_int32 0) ''colA'' 2 True False)"

lemma sample_column:
  "col_ok (elem_int32 0) sample_column" "group_rows g sample_column = []"
  "c_size sample_column = 0" "c_isNullable sample_column"
proof -
  obtain c where "ColumnBase_new (=) (elem_int32 0) ''colA'' 2 True False = Inr c"
    and "c_blocks c = [(- 1, [])]" "c_size c = 0" "c_blockSize c = 2" "c_isNullable c = True"
    by (rule ColumnBase_new_eq [of True False "(=)" "elem_int32 0" "''colA''" 2]) simp_all
  then show "col_ok (elem_int32 0) sample_column" "group_rows g sample_column = []"
    "c_size sample_column = 0" "c_isNullable sample_column"
    by (simp_all add: sample_column_def col_ok_def GetBlocksList_def group_rows_def blocks_at_def)
qed

section \<open>The contract of insertion\<close>

text \<open>
  C26. Inserting rows into a column appends them to their group: the rows fill the last block
  and go on in new blocks of the block size of the column, in order; the other groups, the
  flags and the invariant (statistics that bound the rows of every block included) are
  kept; over the row limit nothing is inserted and the error is raised. The counters of the
  insertion are of type \<open>int32_t\<close>: fewer than \<open>2 ^ 31\<close> rows are inserted at once.
\<close>

theorem InsertData_refines:
  assumes "block_elem E" and "col_ok E c" and "length data < 2 ^ 31"
  shows "case CheckRowsLimit limit (c_size c + int (length data) - 1) of
      Inl e \<Rightarrow> InsertData limit cmpr E data g False True ix c = Inl e
    | Inr _ \<Rightarrow> \<exists>c'. InsertData limit cmpr E data g False True ix c = Inr c' \<and>
        appended E g (map Some data) c c'"
  using block_elem.InsertData_appended [OF assms(1,2) _ assms(3), of limit cmpr g ix]
  by (auto simp: InsertData_def split: sum.split)

theorem InsertData_refines_witness:
  "\<exists>c'. InsertData None (\<lambda>_ _ _ _. None) (elem_int32 0) [5, 1, 4] (- 1) False True 0 sample_column = Inr c' \<and>
    group_rows (- 1) c' = [Some 5, Some 1, Some 4]"
  using InsertData_refines [OF int32_block.block_elem_axioms sample_column(1),
      where limit = None and data = "[5, 1, 4]" and cmpr = "\<lambda>_ _ _ _. None" and g = "- 1" and ix = 0]
  by (auto simp: CheckRowsLimit_def appended_def sample_column)

text \<open>
  C25. Inserting rows with a null mask appends the rows with exactly the rows null whose bit is
  set in the mask, also where the rows cross block boundaries and the bits cross words, for
  fewer than \<open>2 ^ 31\<close> rows at once.
\<close>

theorem InsertData_mask_refines:
  assumes "block_elem E" and "col_ok E c" and "length data \<le> 64 * length nm"
    and "c_isNullable c \<or> (\<forall>i<length data. \<not> mask_bit nm i)" and "length data < 2 ^ 31"
  shows "case CheckRowsLimit limit (c_size c + int (length data) - 1) of
      Inl e \<Rightarrow> InsertData_mask limit cmpr E data nm g False True ix c = Inl e
    | Inr _ \<Rightarrow> \<exists>c'. InsertData_mask limit cmpr E data nm g False True ix c = Inr c' \<and>
        appended E g (nulled nm 0 data) c c'"
  using block_elem.InsertData_mask_appended [OF assms(1,2) _ assms(3) _ assms(5), of limit cmpr g ix] assms(4)
  by (auto simp: InsertData_mask_def nulls_allowed_def split: sum.split)

theorem InsertData_mask_refines_witness:
  "\<exists>c'. InsertData_mask None (\<lambda>_ _ _ _. None) (elem_int32 0) [5, 1, 4] [5] (- 1) False True 0 sample_column =
      Inr c' \<and> group_rows (- 1) c' = [None, Some 1, None]"
proof -
  have n: "nulled [5] 0 [5, 1, 4 :: int32] = [None, Some 1, None]"
    by (simp add: nulled_def mask_bit_def upt_rec bit_word_iff_drop_bit_and)
  show ?thesis
    using InsertData_mask_refines [OF int32_block.block_elem_axioms sample_column(1),
        where limit = None and data = "[5, 1, 4]" and nm = "[5]" and cmpr = "\<lambda>_ _ _ _. None" and g = "- 1" and ix = 0]
    by (auto simp: CheckRowsLimit_def appended_def sample_column n)
qed

text \<open>
  Inserting null rows into a nullable column appends that many null rows to the default
  group.
\<close>

theorem InsertNullData_refines:
  assumes "block_elem E" and "col_ok E c" and "c_isNullable c"
    and "CheckRowsLimit limit (c_size c + int n - 1) = Inr ()" and "n < 2 ^ 31"
  shows "\<exists>c'. InsertNullData limit cmpr E n c = Inr c' \<and> appended E (- 1) (replicate n None) c c'"
proof -
  have "nulled (replicate n (- 1)) 0 (replicate n (null_v E)) = replicate n None"
    by (rule nth_equalityI) (auto simp: mask_bit_def div_le_dividend intro: le_less_trans)
  then show ?thesis
    using block_elem.InsertData_mask_appended [OF assms(1,2), of limit "replicate n (null_v E)"
        "replicate n (- 1)" cmpr "- 1" UINT32_MAX] assms(3-5)
    by (simp add: InsertNullData_def nulls_allowed_def)
qed

theorem InsertNullData_refines_witness:
  "\<exists>c'. InsertNullData None (\<lambda>_ _ _ _. None) (elem_int32 0) 3 sample_column = Inr c' \<and>
    group_rows (- 1) c' = [None, None, None]"
  using InsertNullData_refines [OF int32_block.block_elem_axioms sample_column(1,4),
      of None 3 "\<lambda>_ _ _ _. None"]
  by (auto simp: CheckRowsLimit_def appended_def sample_column numeral_3_eq_3)

end
