(* ===== verification/Column_Constraints.thy ===== *)
theory Column_Constraints
  imports Column_Correct
begin

text \<open>
  The constraint flags of a column: changing NOT NULL and UNIQUE succeeds exactly when the
  rows allow it and leaves the rows alone. The specialisations for strings, points and
  polygons follow, with the hash and the equality the unique value set uses for points.
\<close>

section \<open>Unique values\<close>

lemma collect_unique_eq:
  "collect_unique (=) xs h = (if distinct xs \<and> set xs \<inter> set h = {} then Some (h @ xs) else None)"
  by (induction xs arbitrary: h) (auto simp: IsDuplicate_in_def list_ex_iff)

lemma collect_unique_some:
  "collect_unique same xs h =
    (if sorted_wrt (\<lambda>x y. \<not> same y x) xs \<and> (\<forall>x\<in>set xs. \<forall>y\<in>set h. \<not> same x y) then Some (h @ xs) else None)"
  by (induction xs arbitrary: h) (auto simp: IsDuplicate_in_def list_ex_iff)

text \<open>
  Adding the UNIQUE constraint to a column that may not hold nulls succeeds exactly when no
  value is the same as an earlier one, in the equality \<open>same\<close> of the element type; the set of
  seen values then holds exactly the values of the column. A nullable column and a column with a
  duplicate raise the constraint violation and keep the flag, with an empty set.
\<close>

theorem SetIsUnique_correct:
  assumes "\<not> c_isUnique c"
  shows "SetIsUnique same True c =
    (if c_isNullable c
     then (Some (ConstraintViolationError UNIQUE_CONSTRAINT_INSERT_NULL_VALUE), c\<lparr>c_uniqueHashmap := []\<rparr>)
     else if sorted_wrt (\<lambda>x y. \<not> same y x) (column_values c)
     then (None, c\<lparr>c_uniqueHashmap := column_values c, c_isUnique := True\<rparr>)
     else (Some (ConstraintViolationError UNIQUE_CONSTRAINT_INSERT_DUPLICATE_VALUE),
           c\<lparr>c_uniqueHashmap := []\<rparr>))"
  using assms by (simp add: SetIsUnique_def collect_unique_some Let_def)

definition dup_column :: "int32 column" where
  "dup_column = (projr (ColumnBase_new (=) (elem_int32 0) ''colA'' 4 False False))
    \<lparr>c_blocks := [(- 1, [projr (BlockBase_data (elem_int32 0) 4 [7, 3, 7] False False True True 0)])]\<rparr>"

theorem SetIsUnique_correct_witness:
  "SetIsUnique (=) True dup_column =
    (Some (ConstraintViolationError UNIQUE_CONSTRAINT_INSERT_DUPLICATE_VALUE), dup_column\<lparr>c_uniqueHashmap := []\<rparr>)"
proof -
  have f: "\<not> c_isUnique dup_column" "\<not> c_isNullable dup_column"
    by (simp_all add: dup_column_def ColumnBase_new_def SetIsNullable_def SetIsUnique_def Let_def)
  have "\<not> sorted_wrt (\<lambda>x y. y \<noteq> x) (column_values dup_column)"
    by (simp add: dup_column_def column_values_def GetBlocksList_def BlockBase_data_def Let_def raw_block_def copy_at_def)
  then show ?thesis using SetIsUnique_correct [OF f(1)] f(2) by simp
qed

section \<open>Blocks and groups\<close>

lemma GetBlocksList_map [simp]: "GetBlocksList (map_blocks f c) = map f (GetBlocksList c)"
  by (simp add: GetBlocksList_def map_blocks_def map_concat comp_def case_prod_beta)

lemma omap_get_map: "omap_get g (map (\<lambda>(g, bs). (g, map f bs)) xs) = map f (omap_get g xs)"
  by (induction g xs rule: omap_get.induct) auto

lemma blocks_at_map [simp]: "blocks_at g (map_blocks f c) = map f (blocks_at g c)"
  by (simp add: blocks_at_def map_blocks_def omap_get_map)

lemma map_blocks_frame [simp]:
  "c_size (map_blocks f c) = c_size c" "c_blockSize (map_blocks f c) = c_blockSize c"
  "c_isNullable (map_blocks f c) = c_isNullable c" "c_isUnique (map_blocks f c) = c_isUnique c"
  "map fst (c_blocks (map_blocks f c)) = map fst (c_blocks c)"
  by (simp_all add: map_blocks_def comp_def case_prod_beta)

lemma omap_get_mem:
  "sorted_wrt (<) (map fst xs) \<Longrightarrow> (g, bs) \<in> set xs \<Longrightarrow> omap_get g xs = bs"
proof (induction xs)
  case (Cons x xs)
  then show ?case
    by (cases x) (auto simp del: set_map, metis fst_conv image_eqI less_irrefl set_map)
qed simp

lemma block_group:
  assumes "col_ok E c" and "b \<in> set (GetBlocksList c)"
  obtains g where "b \<in> set (blocks_at g c)"
proof -
  obtain g bs where "(g, bs) \<in> set (c_blocks c)" and "b \<in> set bs"
    using assms(2) by (auto simp: GetBlocksList_def)
  then show ?thesis
    using that [of g] assms(1) omap_get_mem [of "c_blocks c" g bs] by (simp add: blocks_at_def col_ok_def)
qed

section \<open>The null flag\<close>

lemma SetIsNullable_block_ok:
  assumes "col_block_ok E c b" and "nul \<or> None \<notin> set (rows b)" and "c_isNullable c \<noteq> nul"
    and "c_blockSize c' = c_blockSize c" and "c_isNullable c' = nul"
  shows "col_block_ok E c' (SetIsNullable_block nul b)" and "rows (SetIsNullable_block nul b) = rows b"
    and "b_size (SetIsNullable_block nul b) = b_size b"
proof -
  have ok: "block_ok b" and fr: "b_isNullable b = c_isNullable c" "b_capacity b = c_blockSize c"
    using assms(1) by (simp_all add: col_block_ok_def)
  have no: "\<not> is_null b i" if "i < b_size b" for i
  proof (cases nul)
    case True
    with assms(3) fr ok show ?thesis by (simp add: block_ok_def is_null_def split: option.splits)
  next
    case False
    with assms(2) have "rows b ! i \<noteq> None" using that by (metis length_rows nth_mem)
    then show ?thesis using that by (auto simp: nth_rows split: if_splits)
  qed
  have none: "is_null (SetIsNullable_block nul b) i \<longleftrightarrow> False" for i
    using assms(3) fr by (cases nul) (auto simp: SetIsNullable_block_def is_null_def new_mask_def)
  have size: "b_size (SetIsNullable_block nul b) = b_size b"
    and dat: "b_data (SetIsNullable_block nul b) = b_data b"
    and lim: "b_min (SetIsNullable_block nul b) = b_min b" "b_max (SetIsNullable_block nul b) = b_max b"
    by (simp_all add: SetIsNullable_block_def)
  show rws: "rows (SetIsNullable_block nul b) = rows b"
    by (rule nth_equalityI) (simp_all add: nth_rows size none no dat)
  have "block_ok (SetIsNullable_block nul b)"
    using ok assms(3) fr by (auto simp: SetIsNullable_block_def block_ok_def new_mask_def)
  moreover have "mask_clean (SetIsNullable_block nul b)" by (simp add: mask_clean_def none)
  moreover have "stats_sound E (SetIsNullable_block nul b)"
    using assms(1) rws lim by (simp add: stats_sound_def col_block_ok_def)
  moreover have "b_capacity (SetIsNullable_block nul b) = b_capacity b"
    and "b_isNullable (SetIsNullable_block nul b) = nul"
    using assms(3) fr by (auto simp: SetIsNullable_block_def)
  ultimately show "col_block_ok E c' (SetIsNullable_block nul b)"
    using assms(4,5) fr by (simp add: col_block_ok_def)
  show "b_size (SetIsNullable_block nul b) = b_size b" by (rule size)
qed

lemma SetIsNullableInBlocks_ok:
  assumes "col_ok E c" and "c_isNullable c \<noteq> nul"
    and "nul \<or> (\<forall>b\<in>set (GetBlocksList c). None \<notin> set (rows b))"
  shows "col_ok E (SetIsNullableInBlocks nul (c\<lparr>c_isNullable := nul\<rparr>))"
    and "group_rows g (SetIsNullableInBlocks nul (c\<lparr>c_isNullable := nul\<rparr>)) = group_rows g c"
proof -
  let ?c = "SetIsNullableInBlocks nul (c\<lparr>c_isNullable := nul\<rparr>)"
  have lst: "GetBlocksList ?c = map (SetIsNullable_block nul) (GetBlocksList c)"
    and grp: "blocks_at g ?c = map (SetIsNullable_block nul) (blocks_at g c)"
    by (simp_all add: SetIsNullableInBlocks_def) (simp_all add: GetBlocksList_def blocks_at_def)
  have blk: "col_block_ok E ?c (SetIsNullable_block nul b) \<and> rows (SetIsNullable_block nul b) = rows b \<and>
      b_size (SetIsNullable_block nul b) = b_size b" if "b \<in> set (GetBlocksList c)" for b
    using SetIsNullable_block_ok [of E c b nul ?c] assms that
    by (auto simp: col_ok_def SetIsNullableInBlocks_def)
  have "sum_list (map b_size (GetBlocksList ?c)) = sum_list (map b_size (GetBlocksList c))"
    unfolding lst using blk by (simp add: comp_def cong: map_cong)
  then show "col_ok E ?c"
    using assms(1) blk lst by (auto simp: col_ok_def SetIsNullableInBlocks_def map_blocks_def comp_def case_prod_beta)
  show "group_rows g ?c = group_rows g c"
    unfolding group_rows_def grp using blk group_in_list [of _ g c] by (simp add: comp_def cong: map_cong)
qed

lemma SetIsNullable_search:
  assumes "col_ok E c" and "c_isNullable c"
  shows "\<not> list_ex (\<lambda>b. b_bitMask b = None \<and> b_size b > 0) (GetBlocksList c)"
    and "list_ex (\<lambda>b. list_ex (is_null b) [0..<b_size b]) (GetBlocksList c) \<longleftrightarrow>
      (\<exists>g. None \<in> set (group_rows g c))"
proof -
  show "\<not> list_ex (\<lambda>b. b_bitMask b = None \<and> b_size b > 0) (GetBlocksList c)"
    using assms by (fastforce simp: list_ex_iff col_ok_def col_block_ok_def block_ok_def split: option.splits)
  have one: "list_ex (is_null b) [0..<b_size b] \<longleftrightarrow> None \<in> set (rows b)" for b :: "'a block"
    by (auto simp: list_ex_iff rows_def image_iff)
  show "list_ex (\<lambda>b. list_ex (is_null b) [0..<b_size b]) (GetBlocksList c) \<longleftrightarrow>
      (\<exists>g. None \<in> set (group_rows g c))"
    unfolding one using group_in_list block_group [OF assms(1)]
    by (auto simp: list_ex_iff group_rows_def) metis
qed

text \<open>
  C32. Changing the nullability of a column keeps its rows and its invariant. Allowing nulls is
  refused for a unique column; forbidding them is refused exactly when some row is null.
\<close>

theorem SetIsNullable_correct:
  assumes "col_ok E c" and "c_isNullable c \<noteq> nul"
  shows "if nul \<and> c_isUnique c
    then SetIsNullable nul c = Inl (ConstraintViolationError UNIQUE_CONSTRAINT_DROP_NOT_NULL)
    else if \<not> nul \<and> (\<exists>g. None \<in> set (group_rows g c))
    then SetIsNullable nul c = Inl (ConstraintViolationError UNIQUE_CONSTRAINT_INSERT_NULL_VALUE)
    else \<exists>c'. SetIsNullable nul c = Inr c' \<and> c_isNullable c' = nul \<and> col_ok E c' \<and>
      (\<forall>g. group_rows g c' = group_rows g c)"
proof -
  have fr: "c_isNullable (SetIsNullableInBlocks nul (c\<lparr>c_isNullable := nul\<rparr>)) = nul"
    by (simp add: SetIsNullableInBlocks_def)
  show ?thesis
  proof (cases nul)
    case True
    with assms SetIsNullableInBlocks_ok [OF assms] fr show ?thesis by (auto simp: SetIsNullable_def)
  next
    case False
    then have n: "c_isNullable c" using assms(2) by simp
    have "None \<notin> set (rows b)" if no: "\<nexists>g. None \<in> set (group_rows g c)" and mem: "b \<in> set (GetBlocksList c)" for b
    proof -
      obtain g where "b \<in> set (blocks_at g c)" using block_group [OF assms(1) mem] .
      with no show ?thesis by (auto simp: group_rows_def)
    qed
    with False assms SetIsNullable_search [OF assms(1) n] SetIsNullableInBlocks_ok [OF assms] fr show ?thesis
      by (auto simp: SetIsNullable_def)
  qed
qed

text \<open>A nullable column of two rows, null where the bits of the word say so.\<close>

definition masked_column :: "nullmask \<Rightarrow> int32 column" where
  "masked_column w =
    (projr (ColumnBase_new (=) (elem_int32 0) ''colA'' 4 True False))
      \<lparr>c_blocks := [(- 1, [sample_block\<lparr>b_bitMask := Some [w]\<rparr>])], c_size := 2\<rparr>"

lemma masked_column:
  assumes "\<And>i. 2 \<le> i \<Longrightarrow> \<not> bit w i"
  shows "col_ok (elem_int32 0) (masked_column w)" "c_isNullable (masked_column w)"
    "map rows (GetBlocksList (masked_column w)) =
      [[if bit w 0 then None else Some 7, if bit w 1 then None else Some 3]]"
    "c_blockSize (masked_column w) = 4"
proof -
  let ?b = "sample_block\<lparr>b_bitMask := Some [w]\<rparr>"
  have bits: "mask_bit [w] i \<longleftrightarrow> bit w i" for i
    using assms [of i] by (cases "i < 64") (auto simp: mask_bit_def)
  have d: "b_data sample_block ! 0 = 7" "b_data sample_block ! 1 = 3"
    using arg_cong [OF sample_block(4), of "\<lambda>r. r ! 0"] arg_cong [OF sample_block(4), of "\<lambda>r. r ! 1"] sample_block(7)
    by (auto simp: nth_rows split: if_splits)
  have rws: "rows ?b = [if bit w 0 then None else Some 7, if bit w 1 then None else Some 3]"
    using sample_block(7) d
    by (intro nth_equalityI) (auto simp: nth_rows is_null_def bits less_Suc_eq numeral_2_eq_2)
  have snd: "stats_sound (elem_int32 0) ?b"
  proof -
    have "set (rows ?b) \<subseteq> {None, Some 7, Some 3}" using rws by auto
    moreover have "set (rows sample_block) = {Some 7, Some 3}" using sample_block(4) by simp
    ultimately show ?thesis using sample_block(3) by (auto simp: stats_sound_def)
  qed
  have "col_block_ok (elem_int32 0) (masked_column w) ?b"
    using sample_block snd assms
    by (auto simp: col_block_ok_def block_ok_def mask_clean_def is_null_def bits
        masked_column_def GetNullBitMaskSize_def ColumnBase_new_def SetIsNullable_def SetIsUnique_def
        SetIsNullableInBlocks_def map_blocks_def Let_def)
  then show "col_ok (elem_int32 0) (masked_column w)" "c_isNullable (masked_column w)"
    "map rows (GetBlocksList (masked_column w)) =
      [[if bit w 0 then None else Some 7, if bit w 1 then None else Some 3]]" "c_blockSize (masked_column w) = 4"
    using rws sample_block(7)
    by (auto simp: col_ok_def masked_column_def GetBlocksList_def
        ColumnBase_new_def SetIsNullable_def SetIsUnique_def SetIsNullableInBlocks_def map_blocks_def Let_def)
qed

definition null_column :: "int32 column" where
  "null_column = masked_column 2"

lemma null_column:
  "col_ok (elem_int32 0) null_column" "c_isNullable null_column"
  "group_rows (- 1) null_column = [Some 7, None]" "c_blockSize null_column = 4"
proof -
  have "bit (2 :: nullmask) i \<longleftrightarrow> i = 1" for i using bit_single [of 1 i] by simp
  moreover have "group_rows (- 1) (masked_column w) = concat (map rows (GetBlocksList (masked_column w)))" for w
    by (simp add: group_rows_def blocks_at_def GetBlocksList_def masked_column_def)
  ultimately show "col_ok (elem_int32 0) null_column" "c_isNullable null_column"
    "group_rows (- 1) null_column = [Some 7, None]" "c_blockSize null_column = 4"
    using masked_column [of 2] by (simp_all add: null_column_def)
qed

theorem SetIsNullable_correct_witness:
  "SetIsNullable False null_column = Inl (ConstraintViolationError UNIQUE_CONSTRAINT_INSERT_NULL_VALUE)"
proof -
  have "\<exists>g. None \<in> set (group_rows g null_column)" by (rule exI [of _ "- 1"]) (simp add: null_column)
  then show ?thesis
    using SetIsNullable_correct [OF null_column(1), of False] by (simp add: null_column(2))
qed

end
