(* ===== verification/Conversions.thy ===== *)
theory Conversions
  imports Elements
begin

text \<open>
  The conversions between element types that \<open>CopyDataToColumn\<close> uses: \<open>static_cast\<close> between
  the number types, \<open>std::to_string\<close>, and \<open>std::stol\<close> and \<open>std::stoll\<close> on strings. A
  conversion that C++ leaves undefined is \<open>UndefinedBehaviour\<close>; \<open>std::invalid_argument\<close> and
  \<open>std::out_of_range\<close> are \<open>InvalidArgument\<close> and \<open>OutOfRange\<close>.
\<close>

section \<open>Number types\<close>

definition int_cast :: "'v::len word \<Rightarrow> 'w::len word" where
  "int_cast x = word_of_int (sint x)"

text \<open>Truncation towards zero, defined when the result is a value of the type.\<close>

definition trunc_abs :: "nat \<Rightarrow> int \<Rightarrow> nat" where
  "trunc_abs m e = (if e \<ge> 0 then m * 2 ^ nat e else m div 2 ^ nat (- e))"

fun fv_to_int :: "nat \<Rightarrow> fval \<Rightarrow> int result" where
  "fv_to_int w FNaN = Inl UndefinedBehaviour"
| "fv_to_int w (FInf s) = Inl UndefinedBehaviour"
| "fv_to_int w (FFin s m e) =
    (let i = f_signed s (trunc_abs m e) in
     if - (2 ^ (w - 1)) \<le> i \<and> i < 2 ^ (w - 1) then Inr i else Inl UndefinedBehaviour)"

definition word_of_fv :: "fval \<Rightarrow> 'w::len word result" where
  "word_of_fv v = mapR word_of_int (fv_to_int LENGTH('w) v)"

section \<open>Numbers to strings\<close>

definition digit_char :: "nat \<Rightarrow> char" where
  "digit_char d = char_of (48 + d)"

fun show_nat :: "nat \<Rightarrow> string" where
  "show_nat n = (if n < 10 then [digit_char n] else show_nat (n div 10) @ [digit_char (n mod 10)])"

declare show_nat.simps [simp del]

definition show_int :: "int \<Rightarrow> string" where
  "show_int i = (if i < 0 then CHR ''-'' # show_nat (nat (- i)) else show_nat (nat i))"

text \<open>\<open>std::to_string\<close> of a floating-point number prints \<open>%f\<close>: six decimals, ties to even.\<close>

definition pad6 :: "nat \<Rightarrow> string" where
  "pad6 n = (let s = show_nat n in replicate (6 - length s) (CHR ''0'') @ s)"

fun show_fv :: "fval \<Rightarrow> string" where
  "show_fv FNaN = ''nan''"
| "show_fv (FInf s) = (if s then ''-inf'' else ''inf'')"
| "show_fv (FFin s m e) =
    (let (a, b) = f_scale (m * 1000000) 1 (- e); q = a div b; r = a mod b;
         v = (if 2 * r > b \<or> (2 * r = b \<and> odd q) then q + 1 else q)
     in (if s then ''-'' else '''') @ show_nat (v div 1000000) @ ''.'' @ pad6 (v mod 1000000))"

section \<open>Strings to numbers\<close>

definition is_space :: "char \<Rightarrow> bool" where
  "is_space c \<longleftrightarrow> c = CHR '' '' \<or> (9 \<le> (of_char c :: nat) \<and> (of_char c :: nat) \<le> 13)"

definition is_digit :: "char \<Rightarrow> bool" where
  "is_digit c \<longleftrightarrow> 48 \<le> (of_char c :: nat) \<and> (of_char c :: nat) \<le> 57"

definition digit_val :: "char \<Rightarrow> nat" where
  "digit_val c = of_char c - 48"

definition read_nat :: "string \<Rightarrow> nat" where
  "read_nat s = foldl (\<lambda>n c. 10 * n + digit_val c) 0 s"

definition split_sign :: "string \<Rightarrow> bool \<times> string" where
  "split_sign s =
    (case s of [] \<Rightarrow> (False, [])
     | c # cs \<Rightarrow> if c = CHR ''-'' then (True, cs) else if c = CHR ''+'' then (False, cs) else (False, s))"

text \<open>\<open>std::stol\<close> and \<open>std::stoll\<close>: both are 64 bits wide on the supported 64-bit Linux.\<close>

definition stoll :: "string \<Rightarrow> int result" where
  "stoll s =
    (let (neg, t) = split_sign (dropWhile is_space s); ds = takeWhile is_digit t in
     if ds = [] then Inl InvalidArgument
     else let i = (if neg then - int (read_nat ds) else int (read_nat ds)) in
       if - (2 ^ 63) \<le> i \<and> i < 2 ^ 63 then Inr i else Inl OutOfRange)"

definition stol :: "string \<Rightarrow> int result" where
  "stol = stoll"

section \<open>Round trip\<close>

lemma of_char_digit [simp]: "d < 10 \<Longrightarrow> (of_char (digit_char d) :: nat) = 48 + d"
  by (simp add: digit_char_def)

lemma is_digit_char [simp]: "d < 10 \<Longrightarrow> is_digit (digit_char d)"
  by (simp add: is_digit_def)

lemma digit_val_char [simp]: "d < 10 \<Longrightarrow> digit_val (digit_char d) = d"
  by (simp add: digit_val_def)

lemma show_nat_digits: "c \<in> set (show_nat n) \<Longrightarrow> is_digit c"
proof (induction n rule: show_nat.induct)
  case (1 n)
  then show ?case by (subst (asm) (2) show_nat.simps) (auto split: if_splits)
qed

lemma show_nat_nonempty [simp]: "show_nat n \<noteq> []"
  by (subst show_nat.simps) simp

lemma read_show_nat: "read_nat (show_nat n) = n"
proof (induction n rule: show_nat.induct)
  case (1 n)
  then show ?case
    by (subst show_nat.simps) (auto simp: read_nat_def)
qed

lemma digit_not_special: "is_digit c \<Longrightarrow> \<not> is_space c \<and> c \<noteq> CHR ''-'' \<and> c \<noteq> CHR ''+''"
  by (auto simp: is_digit_def is_space_def)

lemma stoll_digits:
  assumes "\<And>c. c \<in> set s \<Longrightarrow> is_digit c" and "s \<noteq> []" and "int (read_nat s) < 2 ^ 63"
  shows "stoll s = Inr (int (read_nat s))"
proof -
  obtain c cs where s: "s = c # cs" using assms(2) by (cases s) auto
  have c: "\<not> is_space c" "c \<noteq> CHR ''-''" "c \<noteq> CHR ''+''"
    using digit_not_special [of c] assms(1) [of c] s by auto
  have tw: "takeWhile is_digit s = s" using assms(1) by (simp add: takeWhile_eq_all_conv)
  have dw: "dropWhile is_space s = s" using c s by simp
  have sg: "split_sign s = (False, s)" using c s by (simp add: split_sign_def)
  show ?thesis using assms(2,3) by (simp add: stoll_def tw dw sg Let_def)
qed

lemma stoll_negative:
  assumes "\<And>c. c \<in> set s \<Longrightarrow> is_digit c" and "s \<noteq> []" and "int (read_nat s) \<le> 2 ^ 63"
  shows "stoll (CHR ''-'' # s) = Inr (- int (read_nat s))"
proof -
  have tw: "takeWhile is_digit s = s" using assms(1) by (simp add: takeWhile_eq_all_conv)
  have dw: "\<not> is_space (CHR ''-'')" by (simp add: is_space_def)
  show ?thesis using assms(2,3) by (simp add: stoll_def split_sign_def tw dw Let_def)
qed

lemma stoll_show_int:
  fixes x :: int64
  shows "stoll (show_int (sint x)) = Inr (sint x)"
proof -
  have "- (2 ^ 63) \<le> sint x" "sint x < 2 ^ 63"
    using sint_greater_eq [of x] sint_less [of x] by simp_all
  then show ?thesis
    using stoll_digits [of "show_nat (nat (sint x))", OF show_nat_digits]
      stoll_negative [of "show_nat (nat (- sint x))", OF show_nat_digits]
    by (cases "sint x < 0") (simp_all add: show_int_def read_show_nat)
qed

end
