(* ===== verification/Column_Copy.thy ===== *)
theory Column_Copy
  imports Column_Mask Column_Constraints Conversions
begin

text \<open>
  Changing the type of a column (\<open>CopyDataToColumn\<close>): every block is converted value by value
  into a new block of the destination column and its null mask goes along. Each block of the source
  is erased when it is copied, so the source is returned without blocks.
\<close>

section \<open>Columns of any type\<close>

text \<open>\<open>IColumn\<close>, the common base class: one constructor per instantiation of \<open>ColumnBase\<close>.\<close>

datatype icolumn =
    ColInt "int32 column" | ColLong "int64 column" | ColFloat "f32 column" | ColDouble "f64 column"
  | ColPoint "Point column" | ColPolygon "ComplexPolygon column" | ColString "string column"
  | ColInt8 "int8 column"

definition GetColumnType :: "icolumn \<Rightarrow> DataType" where
  "GetColumnType c =
    (case c of ColInt _ \<Rightarrow> COLUMN_INT | ColLong _ \<Rightarrow> COLUMN_LONG | ColFloat _ \<Rightarrow> COLUMN_FLOAT
     | ColDouble _ \<Rightarrow> COLUMN_DOUBLE | ColPoint _ \<Rightarrow> COLUMN_POINT | ColPolygon _ \<Rightarrow> COLUMN_POLYGON
     | ColString _ \<Rightarrow> COLUMN_STRING | ColInt8 _ \<Rightarrow> COLUMN_INT8_T)"

section \<open>Converting the blocks of number columns\<close>

fun mapM :: "('a \<Rightarrow> 'b result) \<Rightarrow> 'a list \<Rightarrow> 'b list result" where
  "mapM f [] = Inr []"
| "mapM f (x # xs) = bindR (f x) (\<lambda>y. mapR ((#) y) (mapM f xs))"

text \<open>
  One block. The vector for the mask is built from the source mask before anything asks
  whether the destination is nullable; for a source without mask this reads through the null
  pointer.
\<close>

definition copy_block ::
  "('a \<Rightarrow> 'b result) \<Rightarrow> 'b elem \<Rightarrow> int \<Rightarrow> 'a block \<Rightarrow> 'b column \<Rightarrow> 'b column result" where
  "copy_block conv E g b dst =
    bindR (mapM conv (take (b_size b) (b_data b))) (\<lambda>xs.
    bindR (AddBlock_data (\<lambda>_ _ _ _. None) E xs g False False True True UINT32_MAX dst) (\<lambda>dst'.
      let n = GetNullBitMaskSize (b_size b) in
      if n > 0 \<and> (case b_bitMask b of None \<Rightarrow> True | Some m \<Rightarrow> length m < n) then Inl UndefinedBehaviour
      else
        mapR (\<lambda>nb. set_last g nb dst')
          (SetNullBitmask_vec E (case b_bitMask b of None \<Rightarrow> [] | Some m \<Rightarrow> take n m)
            (last (blocks_at g dst')))))"

definition copy_group ::
  "('a \<Rightarrow> 'b result) \<Rightarrow> 'b elem \<Rightarrow> int \<times> 'a block list \<Rightarrow> 'b column \<Rightarrow> 'b column result" where
  "copy_group conv E = (\<lambda>(g, bs). foldR (copy_block conv E g) bs)"

definition erase_copied :: "'a column \<Rightarrow> 'a column" where
  "erase_copied src = src\<lparr>c_blocks := map (\<lambda>(g, bs). (g, [])) (c_blocks src)\<rparr>"

definition copy_blocks ::
  "('a \<Rightarrow> 'b result) \<Rightarrow> 'b elem \<Rightarrow> 'a column \<Rightarrow> 'b column \<Rightarrow> ('a column \<times> 'b column) result" where
  "copy_blocks conv E src dst = mapR (Pair (erase_copied src)) (foldR (copy_group conv E) (c_blocks src) dst)"

text \<open>The conversions out of a number type.\<close>

record 'a casts =
  to_i32 :: "'a \<Rightarrow> int32 result"
  to_i64 :: "'a \<Rightarrow> int64 result"
  to_f64 :: "'a \<Rightarrow> f64 result"
  to_f32 :: "'a \<Rightarrow> f32 result"
  to_i8 :: "'a \<Rightarrow> int8 result"
  to_str :: "'a \<Rightarrow> string result"

definition casts_int :: "'w::len word casts" where
  "casts_int =
    \<lparr>to_i32 = (\<lambda>x. Inr (int_cast x)), to_i64 = (\<lambda>x. Inr (int_cast x)),
     to_f64 = (\<lambda>x. Inr (f64_of_int (sint x))), to_f32 = (\<lambda>x. Inr (f32_of_int (sint x))),
     to_i8 = (\<lambda>x. Inr (int_cast x)), to_str = (\<lambda>x. Inr (show_int (sint x)))\<rparr>"

definition casts_float :: "f32 casts" where
  "casts_float =
    \<lparr>to_i32 = (\<lambda>x. word_of_fv (f32_dec x)), to_i64 = (\<lambda>x. word_of_fv (f32_dec x)),
     to_f64 = (\<lambda>x. Inr (f64_of_f32 x)), to_f32 = Inr,
     to_i8 = (\<lambda>x. word_of_fv (f32_dec x)), to_str = (\<lambda>x. Inr (show_fv (f32_dec x)))\<rparr>"

definition casts_double :: "f64 casts" where
  "casts_double =
    \<lparr>to_i32 = (\<lambda>x. word_of_fv (f64_dec x)), to_i64 = (\<lambda>x. word_of_fv (f64_dec x)),
     to_f64 = Inr, to_f32 = (\<lambda>x. Inr (f32_of_f64 x)),
     to_i8 = (\<lambda>x. word_of_fv (f64_dec x)), to_str = (\<lambda>x. Inr (show_fv (f64_dec x)))\<rparr>"

definition CopyData_INT :: "'a casts \<Rightarrow> int32 \<Rightarrow> 'a column \<Rightarrow> int32 column \<Rightarrow> ('a column \<times> int32 column) result" where
  "CopyData_INT K u = copy_blocks (to_i32 K) (elem_int32 u)"
definition CopyData_LONG :: "'a casts \<Rightarrow> int64 \<Rightarrow> 'a column \<Rightarrow> int64 column \<Rightarrow> ('a column \<times> int64 column) result" where
  "CopyData_LONG K u = copy_blocks (to_i64 K) (elem_int64 u)"
definition CopyData_DOUBLE :: "'a casts \<Rightarrow> f64 \<Rightarrow> 'a column \<Rightarrow> f64 column \<Rightarrow> ('a column \<times> f64 column) result" where
  "CopyData_DOUBLE K u = copy_blocks (to_f64 K) (elem_double u)"
definition CopyData_FLOAT :: "'a casts \<Rightarrow> f32 \<Rightarrow> 'a column \<Rightarrow> f32 column \<Rightarrow> ('a column \<times> f32 column) result" where
  "CopyData_FLOAT K u = copy_blocks (to_f32 K) (elem_float u)"
definition CopyData_INT8 :: "'a casts \<Rightarrow> int8 \<Rightarrow> 'a column \<Rightarrow> int8 column \<Rightarrow> ('a column \<times> int8 column) result" where
  "CopyData_INT8 K u = copy_blocks (to_i8 K) (elem_int8 u)"
definition CopyData_STRING :: "'a casts \<Rightarrow> 'a column \<Rightarrow> string column \<Rightarrow> ('a column \<times> string column) result" where
  "CopyData_STRING K = copy_blocks (to_str K) elem_string"

definition CopyDataToColumn :: "'a casts \<Rightarrow> int64 \<Rightarrow> 'a column \<Rightarrow> icolumn \<Rightarrow> ('a column \<times> icolumn) result" where
  "CopyDataToColumn K u src dst =
    (case dst of
       ColInt d \<Rightarrow> mapR (apsnd ColInt) (CopyData_INT K (int_cast u) src d)
     | ColLong d \<Rightarrow> mapR (apsnd ColLong) (CopyData_LONG K u src d)
     | ColDouble d \<Rightarrow> mapR (apsnd ColDouble) (CopyData_DOUBLE K u src d)
     | ColFloat d \<Rightarrow> mapR (apsnd ColFloat) (CopyData_FLOAT K (int_cast u) src d)
     | ColInt8 d \<Rightarrow> mapR (apsnd ColInt8) (CopyData_INT8 K (int_cast u) src d)
     | ColString d \<Rightarrow> mapR (apsnd ColString) (CopyData_STRING K src d)
     | _ \<Rightarrow> Inl RuntimeError)"

section \<open>Converting the blocks of string columns\<close>

text \<open>
  A row of a string column. \<open>parse\<close> is the conversion; its \<open>InvalidArgument\<close> is caught and makes
  the row null, any other exception ends the whole copy. The mask of the source is read for
  every row that parses.
\<close>

definition src_bit :: "'a block \<Rightarrow> nat \<Rightarrow> bool result" where
  "src_bit b j =
    (case b_bitMask b of
       None \<Rightarrow> Inl UndefinedBehaviour
     | Some m \<Rightarrow> if length m \<le> j div 64 then Inl UndefinedBehaviour
         else Inr (GetConcreteBitFromBitmask m j \<noteq> 0))"

definition parse_row :: "(string \<Rightarrow> 'b result) \<Rightarrow> 'b \<Rightarrow> string block \<Rightarrow> nat \<Rightarrow> ('b \<times> bool) result" where
  "parse_row parse nul b j =
    (case parse (b_data b ! j) of
       Inr x \<Rightarrow> mapR (\<lambda>n. (x, n)) (src_bit b j)
     | Inl InvalidArgument \<Rightarrow> Inr (nul, True)
     | Inl e \<Rightarrow> Inl e)"

definition bits_to_mask :: "bool list \<Rightarrow> nullmask list" where
  "bits_to_mask ns =
    fold (\<lambda>j m. SetBitInBitMask m j (of_bool (ns ! j))) [0..<length ns]
      (replicate (GetNullBitMaskSize (length ns)) 0)"

text \<open>
  The new mask is allocated for the rows of the block, not for its capacity, and is handed
  over to the new block.
\<close>

definition copy_string_block ::
  "(string block \<Rightarrow> nat \<Rightarrow> ('b \<times> bool) result) \<Rightarrow> 'b elem \<Rightarrow> int \<Rightarrow> string block \<Rightarrow> 'b column \<Rightarrow> 'b column result"
where
  "copy_string_block row E g b dst =
    bindR (mapM (row b) [0..<b_size b]) (\<lambda>xs.
    bindR (AddBlock_data (\<lambda>_ _ _ _. None) E (map fst xs) g False False True True UINT32_MAX dst) (\<lambda>dst'.
      mapR (\<lambda>nb. set_last g nb dst')
        (SetNullBitmask_ptr E (Some (bits_to_mask (map snd xs))) (last (blocks_at g dst')))))"

definition copy_string_blocks ::
  "(string block \<Rightarrow> nat \<Rightarrow> ('b \<times> bool) result) \<Rightarrow> 'b elem \<Rightarrow> string column \<Rightarrow> 'b column \<Rightarrow> (string column \<times> 'b column) result"
where
  "copy_string_blocks row E src dst =
    mapR (Pair (erase_copied src)) (foldR (\<lambda>(g, bs). foldR (copy_string_block row E g) bs) (c_blocks src) dst)"

definition CopyString_INT :: "int32 \<Rightarrow> string column \<Rightarrow> int32 column \<Rightarrow> (string column \<times> int32 column) result" where
  "CopyString_INT u =
    copy_string_blocks (parse_row (\<lambda>s. mapR word_of_int (stol s)) (null_v (elem_int32 u))) (elem_int32 u)"

definition CopyString_LONG :: "int64 \<Rightarrow> string column \<Rightarrow> int64 column \<Rightarrow> (string column \<times> int64 column) result" where
  "CopyString_LONG u =
    copy_string_blocks (parse_row (\<lambda>s. mapR word_of_int (stoll s)) (null_v (elem_int64 u))) (elem_int64 u)"

text \<open>A row of a boolean column: a null row stays null without parsing.\<close>

definition parse_bool_row :: "int8 \<Rightarrow> string block \<Rightarrow> nat \<Rightarrow> (int8 \<times> bool) result" where
  "parse_bool_row u b j =
    bindR (src_bit b j) (\<lambda>n.
      if n then Inr (null_v (elem_int8 u), True)
      else let up = map toupper (b_data b ! j) in
        if up = ''TRUE'' then Inr (1, False)
        else if up = ''FALSE'' then Inr (0, False)
        else (case stol (b_data b ! j) of
                Inr i \<Rightarrow> Inr (if (word_of_int i :: int8) = 0 then 0 else 1, False)
              | Inl InvalidArgument \<Rightarrow> Inr (null_v (elem_int8 u), True)
              | Inl e \<Rightarrow> Inl e))"

definition CopyString_INT8 :: "int8 \<Rightarrow> string column \<Rightarrow> int8 column \<Rightarrow> (string column \<times> int8 column) result" where
  "CopyString_INT8 u = copy_string_blocks (parse_bool_row u) (elem_int8 u)"

section \<open>Setting the mask of a fresh block\<close>

lemma setStats_none: "setBlockStatistics E 0 k b = setBlockStatistics E 0 (b_size b) b"
  by (simp add: setBlockStatistics_def setBlockStatistics_num_def setBlockStatistics_byte_def update_rows_def
      split: stat_kind.split)

lemma mask_bit_copy:
  assumes "length nm \<le> length m"
  shows "mask_bit (copy_at nm 0 m) i = (if i < 64 * length nm then mask_bit nm i else mask_bit m i)"
proof -
  have "i < 64 * length nm \<longleftrightarrow> i div 64 < length nm" by (simp add: div_less_iff_less_mult mult.commute)
  with assms show ?thesis by (auto simp: mask_bit_def nth_copy_at)
qed

lemma mask_bit_take: "i < 64 * n \<Longrightarrow> mask_bit (take n m) i = mask_bit m i"
  by (auto simp: mask_bit_def less_mult_imp_div_less)

context block_elem
begin

lemma recount_ok:
  assumes "col_block_ok E c b"
  shows "col_block_ok E c (setBlockStatistics E 0 k b)" and "rows (setBlockStatistics E 0 k b) = rows b"
proof -
  have ok: "block_ok b" and snd: "stats_sound E b" using assms by (simp_all add: col_block_ok_def)
  have nc: "\<not> b_isCompressed b" using ok by (simp add: block_ok_def)
  have "bounds_all E (live b \<union> {b_data b ! i | i. b_size b \<le> i \<and> i < b_size b + 0 \<and> \<not> is_null b i})
      (setBlockStatistics E 0 (b_size b) b)"
    using snd nc by (intro set_bounds) (auto simp: stats_sound_live live_def)
  then have "bounds_all E (live b) (setBlockStatistics E 0 k b)"
    unfolding setStats_none [of E k] by (rule bounds_all_mono) auto
  moreover have "live (setBlockStatistics E 0 k b) = live b" using live_setStats [OF nc] by auto
  ultimately have "stats_sound E (setBlockStatistics E 0 k b)" by (simp add: stats_sound_live)
  moreover have "block_ok (setBlockStatistics E 0 k b)"
    using ok by (intro block_ok_setStats) (simp_all add: block_ok_def)
  ultimately show "col_block_ok E c (setBlockStatistics E 0 k b)"
    using assms nc by (simp add: col_block_ok_def mask_clean_def)
  show "rows (setBlockStatistics E 0 k b) = rows b" using rows_setStats [OF nc, of E 0 k] by simp
qed

lemma SetNullBitmask_vec_fresh:
  assumes "col_block_ok E c b" and "c_isNullable c" and "rows b = map Some xs"
    and "length nm \<le> GetNullBitMaskSize (length xs)" and "\<And>i. mask_bit nm i \<Longrightarrow> i < length xs"
  obtains b' where "SetNullBitmask_vec E nm b = Inr b'" and "col_block_ok E c b'" and "rows b' = nulled nm 0 xs"
proof -
  have ok: "block_ok b" and nul: "b_isNullable b" and cl: "mask_clean b" and snd: "stats_sound E b"
    using assms(1,2) by (simp_all add: col_block_ok_def)
  have sz: "b_size b = length xs" using arg_cong [OF assms(3), of length] by simp
  obtain m where m: "b_bitMask b = Some m" and len: "length m = GetNullBitMaskSize (b_capacity b)"
    using ok nul by (auto simp: block_ok_def split: option.splits)
  have fit: "length nm \<le> length m"
    using assms(4) len sz ok GetNullBitMaskSize_mono [of "b_size b" "b_capacity b"] by (auto simp: block_ok_def)
  have no: "\<not> mask_bit m i" for i
  proof (cases "i < b_size b")
    case True
    then have "rows b ! i = Some (xs ! i)" using assms(3) sz by simp
    then show ?thesis using True m by (auto simp: nth_rows is_null_def split: if_splits)
  next
    case False
    then show ?thesis using cl m by (auto simp: mask_clean_def is_null_def)
  qed
  let ?b = "b\<lparr>b_bitMask := Some (copy_at nm 0 m)\<rparr>"
  have isn: "is_null ?b i = mask_bit nm i" for i
    using no mask_bit_less [of nm i] by (auto simp: is_null_def mask_bit_copy [OF fit])
  have ok1: "block_ok ?b" using block_ok_mask [OF ok nul] len fit by simp
  have rws: "rows ?b = nulled nm 0 xs"
  proof (rule nth_equalityI)
    fix i assume "i < length (rows ?b)"
    then have i: "i < b_size b" by simp
    have "rows b ! i = Some (xs ! i)" using assms(3) i sz by simp
    then show "rows ?b ! i = nulled nm 0 xs ! i" using i sz isn by (auto simp: nth_rows split: if_splits)
  qed (simp add: sz)
  have "live ?b \<subseteq> live b" using no m isn by (auto simp: live_def is_null_def)
  then have "stats_sound E ?b" using snd by (auto simp: stats_sound_live bounds_all_def)
  moreover have "mask_clean ?b" using assms(5) isn sz by (auto simp: mask_clean_def not_le [symmetric])
  ultimately have okb: "col_block_ok E c ?b" using ok1 assms(1) by (simp add: col_block_ok_def)
  have "stats_defined E 0 ?b" by (rule stats_defined_ok [OF ok1]) (use ok in \<open>simp add: block_ok_def\<close>)
  then have "SetNullBitmask_vec E nm b = Inr (setBlockStatistics E 0 0 ?b)"
    using nul m fit by (simp add: SetNullBitmask_vec_def stats_defined_def)
  then show ?thesis using that recount_ok [OF okb, of 0] rws by simp
qed

lemma mapM_total: "conv = (\<lambda>x. Inr (f x)) \<Longrightarrow> mapM conv xs = Inr (map f xs)"
  by (induction xs) simp_all

lemma copy_block_appended:
  assumes "col_ok E dst" and "c_isNullable dst" and "conv = (\<lambda>x. Inr (f x))"
    and "block_ok b" and "mask_clean b" and "b_isNullable b" and "b_size b \<le> c_blockSize dst"
  shows "\<exists>dst'. copy_block conv E g b dst = Inr dst' \<and> appended E g (map (map_option f) (rows b)) dst dst'"
proof -
  let ?xs = "map f (take (b_size b) (b_data b))" and ?n = "GetNullBitMaskSize (b_size b)"
  obtain m where m: "b_bitMask b = Some m" and len: "length m = GetNullBitMaskSize (b_capacity b)"
    using assms(4,6) by (auto simp: block_ok_def split: option.splits)
  have sz: "length ?xs = b_size b" and bs: "length ?xs \<le> c_blockSize dst"
    using assms(4,7) by (auto simp: block_ok_def)
  have fit: "?n \<le> length m" using len assms(4) by (auto simp: block_ok_def intro: GetNullBitMaskSize_mono)
  obtain d nb where d: "AddBlock_data (\<lambda>_ _ _ _. None) E ?xs g False False True True UINT32_MAX dst = Inr d"
    and a: "appended E g (map Some ?xs) dst d" and grp: "blocks_at g d = blocks_at g dst @ [nb]"
    and rws: "rows nb = map Some ?xs"
    by (rule AddBlock_data_appended [OF assms(1) bs])
  have ok: "col_block_ok E d nb" using col_ok_last [OF appendedD(1) [OF a], of g] grp by simp
  have nul: "c_isNullable d" using appendedD(3) [OF a] assms(2) by simp
  have in_n: "i < 64 * ?n" if "i < b_size b" for i using that GetNullBitMaskSize_le [of "b_size b"] by simp
  have clean: "i < length ?xs" if "mask_bit (take ?n m) i" for i
  proof -
    have "mask_bit m i" using that mask_bit_less [OF that] by (simp add: mask_bit_take)
    then show ?thesis using assms(5) m sz by (auto simp: mask_clean_def is_null_def not_le [symmetric])
  qed
  have lenn: "length (take ?n m) \<le> GetNullBitMaskSize (length ?xs)" using sz by simp
  obtain b' where b': "SetNullBitmask_vec E (take ?n m) nb = Inr b'" and ok': "col_block_ok E d b'"
    and rws': "rows b' = nulled (take ?n m) 0 ?xs"
    by (rule SetNullBitmask_vec_fresh [OF ok nul rws lenn clean])
  have eq: "nulled (take ?n m) 0 ?xs = map (map_option f) (rows b)"
    using sz in_n m by (intro nth_equalityI) (auto simp: nth_rows mask_bit_take is_null_def)
  have "appended E g (nulled (take ?n m) 0 ?xs) dst (set_last g b' d)"
    by (rule appended_replace [where old = "[]", OF a _ _ _ _ ok']) (simp_all add: grp rws rws')
  moreover have "copy_block conv E g b dst = Inr (set_last g b' d)"
    using d b' m fit grp by (simp add: copy_block_def mapM_total [OF assms(3)] Let_def)
  ultimately show ?thesis using eq by simp
qed

lemma copy_group_appended:
  assumes "col_ok E dst" and "c_isNullable dst" and "conv = (\<lambda>x. Inr (f x))"
    and "\<And>b. b \<in> set bs \<Longrightarrow> block_ok b \<and> mask_clean b \<and> b_isNullable b \<and> b_size b \<le> c_blockSize dst"
  shows "\<exists>dst'. foldR (copy_block conv E g) bs dst = Inr dst' \<and>
    appended E g (map (map_option f) (concat (map rows bs))) dst dst'"
  using assms(1,2,4)
proof (induction bs arbitrary: dst)
  case Nil
  then show ?case by (simp add: appended_refl)
next
  case (Cons b bs)
  obtain d where d: "copy_block conv E g b dst = Inr d"
    and a: "appended E g (map (map_option f) (rows b)) dst d"
    using copy_block_appended [OF Cons.prems(1,2) assms(3), where b = b and g = g] Cons.prems(3) [of b] by auto
  obtain dst' where "foldR (copy_block conv E g) bs d = Inr dst'"
    and a': "appended E g (map (map_option f) (concat (map rows bs))) d dst'"
    using Cons.IH [of d] appendedD [OF a] Cons.prems by auto
  with d appended_trans [OF a a'] show ?case by simp
qed

text \<open>All groups: every group of the destination gets the converted rows of that group.\<close>

lemma copy_groups:
  assumes "col_ok E dst" and "c_isNullable dst" and "conv = (\<lambda>x. Inr (f x))" and "distinct (map fst gs)"
    and "\<And>g bs b. (g, bs) \<in> set gs \<Longrightarrow> b \<in> set bs \<Longrightarrow>
      block_ok b \<and> mask_clean b \<and> b_isNullable b \<and> b_size b \<le> c_blockSize dst"
  shows "\<exists>dst'. foldR (copy_group conv E) gs dst = Inr dst' \<and> col_ok E dst' \<and>
    (\<forall>g. group_rows g dst' = group_rows g dst @ map (map_option f) (concat (map rows (omap_get g gs))))"
  using assms(1,2,4,5)
proof (induction gs arbitrary: dst)
  case Nil
  then show ?case by simp
next
  case (Cons x gs)
  obtain k bs where x: "x = (k, bs)" by (cases x)
  obtain d where d: "foldR (copy_block conv E k) bs dst = Inr d"
    and a: "appended E k (map (map_option f) (concat (map rows bs))) dst d"
    using copy_group_appended [OF Cons.prems(1,2) assms(3), where bs = bs and g = k] Cons.prems(4) [of k bs] x by auto
  obtain dst' where r: "foldR (copy_group conv E) gs d = Inr dst'" and ok: "col_ok E dst'"
    and g: "\<And>g. group_rows g dst' = group_rows g d @ map (map_option f) (concat (map rows (omap_get g gs)))"
    using Cons.IH [of d] appendedD [OF a] Cons.prems by auto
  have "omap_get k gs = []" using Cons.prems(3) x by (intro omap_get_absent) simp
  moreover have "group_rows h d = group_rows h dst" if "h \<noteq> k" for h
    using a that by (simp add: appended_def group_rows_def)
  ultimately have "group_rows h dst' = group_rows h dst @
      map (map_option f) (concat (map rows (omap_get h (x # gs))))" for h
    using g [of h] a x by (cases "h = k") (auto simp: appended_def)
  then show ?case using r ok d x by (simp add: copy_group_def)
qed

end

text \<open>
  C30. Converting a nullable integer column to strings, or to a wider or narrower integer or
  floating-point column: whenever the conversion is defined on every value, every group of
  the destination gets the converted rows of the source in order, nulls stay nulls, the
  destination keeps its invariant, and the source is left without blocks. The block size of the
  destination is not below that of the source.
\<close>

theorem copy_blocks_correct:
  assumes "block_elem E" and "col_ok E dst" and "c_isNullable dst"
    and "col_ok E' src" and "c_isNullable src" and "c_blockSize src \<le> c_blockSize dst"
    and "\<forall>x. conv x = Inr (f x)"
  shows "\<exists>dst'. copy_blocks conv E src dst = Inr (erase_copied src, dst') \<and> col_ok E dst' \<and>
    (\<forall>g. group_rows g dst' = group_rows g dst @ map (map_option f) (group_rows g src))"
proof -
  have conv: "conv = (\<lambda>x. Inr (f x))" using assms(7) by (simp add: fun_eq_iff)
  have "distinct (map fst (c_blocks src))"
    using assms(4) by (simp add: col_ok_def strict_sorted_iff)
  moreover have "block_ok b \<and> mask_clean b \<and> b_isNullable b \<and> b_size b \<le> c_blockSize dst"
    if "(g, bs) \<in> set (c_blocks src)" "b \<in> set bs" for g bs b
  proof -
    have "b \<in> set (GetBlocksList src)" using that by (force simp: GetBlocksList_def)
    then have "col_block_ok E' src b" using assms(4) by (simp add: col_ok_def)
    then show ?thesis using assms(5,6) by (auto simp: col_block_ok_def block_ok_def)
  qed
  ultimately show ?thesis
    using block_elem.copy_groups [OF assms(1-3) conv, of "c_blocks src"]
    by (simp add: copy_blocks_def group_rows_def blocks_at_def)
qed

theorem copy_blocks_correct_witness:
  "\<exists>d. copy_blocks (to_i64 casts_int) (elem_int64 0) null_column
      (projr (ColumnBase_new (=) (elem_int64 0) ''colB'' 4 True False)) = Inr (erase_copied null_column, d) \<and>
    group_rows (- 1) d = [Some 7, None]"
proof -
  let ?d = "projr (ColumnBase_new (=) (elem_int64 0) ''colB'' 4 True False)"
  obtain c where "ColumnBase_new (=) (elem_int64 0) ''colB'' 4 True False = Inr c"
    and "c_blocks c = [(- 1, [])]" "c_size c = 0" "c_blockSize c = 4" "c_isNullable c = True"
    by (rule ColumnBase_new_eq [of True False "(=)" "elem_int64 0" "''colB''" 4]) simp_all
  then have d: "col_ok (elem_int64 0) ?d" "c_isNullable ?d" "c_blockSize ?d = 4" "group_rows (- 1) ?d = []"
    by (simp_all add: col_ok_def GetBlocksList_def group_rows_def blocks_at_def)
  show ?thesis
    using copy_blocks_correct [OF int64_block.block_elem_axioms d(1,2) null_column(1,2),
        of "to_i64 casts_int" int_cast] d(3,4)
    by (auto simp: casts_int_def null_column int_cast_def)
qed

section \<open>Strings to numbers\<close>

lemma src_bit_ok:
  assumes "block_ok b" and "b_isNullable b" and "j < b_size b"
  shows "src_bit b j = Inr (is_null b j)"
proof -
  obtain m where m: "b_bitMask b = Some m" and len: "length m = GetNullBitMaskSize (b_capacity b)"
    using assms(1,2) by (auto simp: block_ok_def split: option.splits)
  have "j < b_capacity b" using assms(1,3) by (simp add: block_ok_def)
  then have "j div 64 < length m" using len by (simp add: GetNullBitMaskSize_bound)
  then show ?thesis using m by (simp add: src_bit_def is_null_def)
qed

lemma bits_to_mask:
  shows "length (bits_to_mask ns) = GetNullBitMaskSize (length ns)"
    and "j < length ns \<Longrightarrow> mask_bit (bits_to_mask ns) j = ns ! j"
proof -
  let ?f = "\<lambda>js. fold (\<lambda>j m. SetBitInBitMask m j (of_bool (ns ! j))) js (replicate (GetNullBitMaskSize (length ns)) 0)"
  have len: "length (?f [0..<n]) = GetNullBitMaskSize (length ns)" for n by (induction n) simp_all
  then show "length (bits_to_mask ns) = GetNullBitMaskSize (length ns)" by (simp add: bits_to_mask_def)
  have "mask_bit (?f [0..<n]) j = (j < n \<and> ns ! j)" if "n \<le> length ns" for n
    using that
  proof (induction n)
    case (Suc n)
    then have "n div 64 < length (?f [0..<n])" using GetNullBitMaskSize_bound [of n "length ns"] len [of n] by simp
    with Suc show ?case by (auto simp: mask_bit_SetBit less_Suc_eq)
  qed simp
  then show "j < length ns \<Longrightarrow> mask_bit (bits_to_mask ns) j = ns ! j" by (simp add: bits_to_mask_def)
qed

text \<open>What a string becomes in a column of numbers: null when it is no number.\<close>

definition parsed :: "(string \<Rightarrow> 'b result) \<Rightarrow> string option \<Rightarrow> 'b option" where
  "parsed parse r = (case r of None \<Rightarrow> None | Some s \<Rightarrow> (case parse s of Inr x \<Rightarrow> Some x | Inl _ \<Rightarrow> None))"

definition parse_defined :: "(string \<Rightarrow> 'b result) \<Rightarrow> string block \<Rightarrow> bool" where
  "parse_defined parse b \<longleftrightarrow> (\<forall>s\<in>set (take (b_size b) (b_data b)). case parse s of Inr _ \<Rightarrow> True | Inl e \<Rightarrow> e = InvalidArgument)"

definition frame_of :: "'a column \<Rightarrow> nat \<times> bool" where
  "frame_of c = (c_blockSize c, c_isNullable c)"

lemma mapM_Inr: "\<forall>x\<in>set xs. f x = Inr (g x) \<Longrightarrow> mapM f xs = Inr (map g xs)"
  by (induction xs) simp_all

context block_elem
begin

lemma copy_string_block_rows:
  assumes "c_isNullable dst" and "c_blockSize dst < 2 ^ 31" and "block_ok b" and "b_isNullable b" and "b_size b \<le> c_blockSize dst"
    and "parse_defined parse b"
  shows "\<exists>dst'. copy_string_block (parse_row parse nul) E g b dst = Inr dst' \<and> frame_of dst' = frame_of dst \<and>
    group_rows g dst' = group_rows g dst @ map (parsed parse) (rows b) \<and> (\<forall>h. h \<noteq> g \<longrightarrow> blocks_at h dst' = blocks_at h dst)"
proof -
  let ?n = "b_size b"
  define v where "v j = (case parse (b_data b ! j) of Inr x \<Rightarrow> x | Inl _ \<Rightarrow> nul)" for j
  define nl where "nl j = (case parse (b_data b ! j) of Inr x \<Rightarrow> is_null b j | Inl _ \<Rightarrow> True)" for j
  let ?xs = "map v [0..<?n]" and ?ns = "map nl [0..<?n]"
  have len: "?n \<le> length (b_data b)" using assms(3) by (simp add: block_ok_def)
  have "parse_row parse nul b j = Inr (v j, nl j)" if "j < ?n" for j
  proof -
    have "b_data b ! j \<in> set (take ?n (b_data b))" using that len by (auto simp: in_set_conv_nth)
    then have "case parse (b_data b ! j) of Inr _ \<Rightarrow> True | Inl e \<Rightarrow> e = InvalidArgument"
      using assms(6) by (simp add: parse_defined_def)
    then show ?thesis
      using src_bit_ok [OF assms(3,4) that] by (auto simp: parse_row_def v_def nl_def split: sum.splits)
  qed
  then have m: "mapM (parse_row parse nul b) [0..<?n] = Inr (map (\<lambda>j. (v j, nl j)) [0..<?n])" by (intro mapM_Inr) simp
  obtain nb where nb: "BlockBase_data E (c_blockSize dst) ?xs False (c_isNullable dst) True True UINT32_MAX = Inr nb"
    and bok: "block_ok nb" "b_isNullable nb" "b_size nb = ?n" and rws: "rows nb = map Some ?xs"
    using BlockBase_data_ok [of ?xs "c_blockSize dst" "c_isNullable dst" True UINT32_MAX] assms(1,2,5) by auto
  let ?d = "(set_blocks_at g (blocks_at g dst @ [nb]) dst)\<lparr>c_size := c_size dst + int (length ?xs)\<rparr>"
  let ?m = "bits_to_mask ?ns"
  let ?b3 = "nb\<lparr>b_bitMask := Some ?m, b_isNullMaskRegistered := True\<rparr>"
  have d: "AddBlock_data (\<lambda>_ _ _ _. None) E ?xs g False False True True UINT32_MAX dst = Inr ?d"
    using nb by (simp add: AddBlock_data_def compress_if_def)
  have nc: "\<not> b_isCompressed nb" and mk: "b_bitMask nb \<noteq> None" using bok by (auto simp: block_ok_def split: option.splits)
  have s: "SetNullBitmask_ptr E (Some ?m) nb = Inr (setBlockStatistics E 0 0 ?b3)"
    using bok mk bits_to_mask(1) [of ?ns] by (simp add: SetNullBitmask_ptr_def stats_defined_def)
  have data: "b_data nb ! j = v j" if "j < ?n" for j
    using that rws bok(3) nth_rows [of j nb] by (auto split: if_splits)
  have "rows (setBlockStatistics E 0 0 ?b3) = rows ?b3" using rows_setStats [of ?b3 E 0 0] nc by simp
  also have "\<dots> = map (parsed parse) (rows b)"
  proof (rule nth_equalityI)
    fix j assume "j < length (rows ?b3)"
    then have j: "j < ?n" using bok(3) by simp
    then have "rows ?b3 ! j = (if nl j then None else Some (v j))"
      using data [OF j] bits_to_mask(2) [of j ?ns] bok(3) by (simp add: nth_rows is_null_def)
    then show "rows ?b3 ! j = map (parsed parse) (rows b) ! j"
      using j by (auto simp: nth_rows parsed_def nl_def v_def split: sum.splits)
  qed (simp add: bok(3))
  finally have r: "rows (setBlockStatistics E 0 0 ?b3) = map (parsed parse) (rows b)" .
  have "copy_string_block (parse_row parse nul) E g b dst = Inr (set_last g (setBlockStatistics E 0 0 ?b3) ?d)"
    using m d s by (simp add: copy_string_block_def comp_def)
  moreover have "group_rows g (set_last g (setBlockStatistics E 0 0 ?b3) ?d) = group_rows g dst @ map (parsed parse) (rows b)"
    by (simp add: group_rows_def set_last_def r)
  moreover have "frame_of (set_last g (setBlockStatistics E 0 0 ?b3) ?d) = frame_of dst"
    by (simp add: frame_of_def set_last_def set_blocks_at_def)
  moreover have "blocks_at h (set_last g (setBlockStatistics E 0 0 ?b3) ?d) = blocks_at h dst" if "h \<noteq> g" for h
    using that by (simp add: set_last_def)
  ultimately show ?thesis by blast
qed

lemma copy_string_group_rows:
  assumes "c_isNullable dst" and "c_blockSize dst < 2 ^ 31"
    and "\<And>b. b \<in> set bs \<Longrightarrow> block_ok b \<and> b_isNullable b \<and> b_size b \<le> c_blockSize dst \<and> parse_defined parse b"
  shows "\<exists>dst'. foldR (copy_string_block (parse_row parse nul) E g) bs dst = Inr dst' \<and> frame_of dst' = frame_of dst \<and>
    group_rows g dst' = group_rows g dst @ map (parsed parse) (concat (map rows bs)) \<and>
    (\<forall>h. h \<noteq> g \<longrightarrow> blocks_at h dst' = blocks_at h dst)"
  using assms
proof (induction bs arbitrary: dst)
  case (Cons b bs)
  obtain d where d: "copy_string_block (parse_row parse nul) E g b dst = Inr d" "frame_of d = frame_of dst"
    "group_rows g d = group_rows g dst @ map (parsed parse) (rows b)" "\<forall>h. h \<noteq> g \<longrightarrow> blocks_at h d = blocks_at h dst"
    using copy_string_block_rows [OF Cons.prems(1,2), of b parse nul g] Cons.prems(3) [of b] by auto
  have "c_isNullable d" "c_blockSize d = c_blockSize dst" using d(2) Cons.prems(1) by (simp_all add: frame_of_def)
  then obtain dst' where "foldR (copy_string_block (parse_row parse nul) E g) bs d = Inr dst'" "frame_of dst' = frame_of d"
    "group_rows g dst' = group_rows g d @ map (parsed parse) (concat (map rows bs))"
    "\<forall>h. h \<noteq> g \<longrightarrow> blocks_at h dst' = blocks_at h d"
    using Cons.IH [of d] Cons.prems by auto
  with d show ?case by simp
qed simp

lemma copy_string_groups:
  assumes "c_isNullable dst" and "c_blockSize dst < 2 ^ 31" and "distinct (map fst gs)"
    and "\<And>g bs b. (g, bs) \<in> set gs \<Longrightarrow> b \<in> set bs \<Longrightarrow>
      block_ok b \<and> b_isNullable b \<and> b_size b \<le> c_blockSize dst \<and> parse_defined parse b"
  shows "\<exists>dst'. foldR (\<lambda>(g, bs). foldR (copy_string_block (parse_row parse nul) E g) bs) gs dst = Inr dst' \<and>
    (\<forall>g. group_rows g dst' = group_rows g dst @ map (parsed parse) (concat (map rows (omap_get g gs))))"
  using assms
proof (induction gs arbitrary: dst)
  case (Cons x gs)
  obtain k bs where x: "x = (k, bs)" by (cases x)
  obtain d where d: "foldR (copy_string_block (parse_row parse nul) E k) bs dst = Inr d" "frame_of d = frame_of dst"
    "group_rows k d = group_rows k dst @ map (parsed parse) (concat (map rows bs))"
    "\<forall>h. h \<noteq> k \<longrightarrow> blocks_at h d = blocks_at h dst"
    using copy_string_group_rows [OF Cons.prems(1,2), of bs parse nul k] Cons.prems(4) [of k bs] x by auto
  have "c_isNullable d" "c_blockSize d = c_blockSize dst" using d(2) Cons.prems(1) by (simp_all add: frame_of_def)
  then obtain dst' where r: "foldR (\<lambda>(g, bs). foldR (copy_string_block (parse_row parse nul) E g) bs) gs d = Inr dst'"
    and g: "\<And>g. group_rows g dst' = group_rows g d @ map (parsed parse) (concat (map rows (omap_get g gs)))"
    using Cons.IH [of d] Cons.prems by auto
  have "omap_get k gs = []" using Cons.prems(3) x by (intro omap_get_absent) simp
  moreover have "group_rows h d = group_rows h dst" if "h \<noteq> k" for h
    using d(4) that by (simp add: group_rows_def)
  ultimately have "group_rows h dst' = group_rows h dst @
      map (parsed parse) (concat (map rows (omap_get h (x # gs))))" for h
    using g [of h] d(3) x by (cases "h = k") auto
  then show ?case using r d(1) x by simp
qed simp

end

text \<open>
  C31. Converting a nullable string column to numbers: when no text is rejected for another
  reason than not being a number (a number out of range ends the copy with an exception), every
  group of the destination gets the parsed rows of the source in order; null rows stay null, rows
  whose text is no number become null, and the source is left without blocks. The block size of
  the destination is not below that of the source.
\<close>

theorem copy_string_blocks_correct:
  assumes "block_elem E" and "c_isNullable dst" and "c_blockSize dst < 2 ^ 31"
    and "col_ok elem_string src" and "c_isNullable src" and "c_blockSize src \<le> c_blockSize dst"
    and "\<forall>b\<in>set (GetBlocksList src). parse_defined parse b"
  shows "\<exists>dst'. copy_string_blocks (parse_row parse nul) E src dst = Inr (erase_copied src, dst') \<and>
    (\<forall>g. group_rows g dst' = group_rows g dst @ map (parsed parse) (group_rows g src))"
proof -
  have "distinct (map fst (c_blocks src))"
    using assms(4) by (simp add: col_ok_def strict_sorted_iff)
  moreover have "block_ok b \<and> b_isNullable b \<and> b_size b \<le> c_blockSize dst \<and> parse_defined parse b"
    if "(g, bs) \<in> set (c_blocks src)" "b \<in> set bs" for g bs b
  proof -
    have b: "b \<in> set (GetBlocksList src)" using that by (force simp: GetBlocksList_def)
    then have "col_block_ok elem_string src b" using assms(4) by (simp add: col_ok_def)
    then show ?thesis using b assms(5,6,7) by (auto simp: col_block_ok_def block_ok_def)
  qed
  ultimately show ?thesis
    using block_elem.copy_string_groups [OF assms(1-3), of "c_blocks src" parse nul]
    by (simp add: copy_string_blocks_def group_rows_def blocks_at_def)
qed

theorem copy_string_blocks_correct_witness:
  "\<exists>src dst. group_rows (- 1) src = [Some ''12'', Some ''x''] \<and>
    CopyString_LONG 0 src (projr (ColumnBase_new (=) (elem_int64 0) ''colB'' 4 True False)) = Inr (erase_copied src, dst) \<and>
    group_rows (- 1) dst = [Some 12, None]"
proof -
  let ?d = "projr (ColumnBase_new (=) (elem_int64 0) ''colB'' 4 True False)" and ?xs = "[''12'', ''x'']"
  let ?parse = "\<lambda>s. mapR (word_of_int :: int \<Rightarrow> int64) (stoll s)"
  obtain c where "ColumnBase_new (=) (elem_int64 0) ''colB'' 4 True False = Inr c"
    and "c_blocks c = [(- 1, [])]" "c_size c = 0" "c_blockSize c = 4" "c_isNullable c = True"
    by (rule ColumnBase_new_eq [of True False "(=)" "elem_int64 0" "''colB''" 4]) simp_all
  then have d: "c_isNullable ?d" "c_blockSize ?d = 4" "group_rows (- 1) ?d = []"
    by (simp_all add: group_rows_def blocks_at_def)
  obtain e where e: "ColumnBase_new (=) elem_string ''colA'' 4 True False = Inr e"
    "c_blocks e = [(- 1, [])]" "c_size e = 0" "c_blockSize e = 4" "c_isNullable e = True"
    by (rule ColumnBase_new_eq [of True False "(=)" elem_string "''colA''" 4]) simp_all
  then have eok: "col_ok elem_string e" by (simp add: col_ok_def GetBlocksList_def)
  obtain src nb where src: "AddBlock_data (\<lambda>_ _ _ _. None) elem_string ?xs (- 1) False False True True UINT32_MAX e = Inr src"
    and a: "appended elem_string (- 1) (map Some ?xs) e src" and rws: "rows nb = map Some ?xs"
    and grp: "blocks_at (- 1) src = blocks_at (- 1) e @ [nb]"
    by (rule string_block.AddBlock_data_appended [OF eok, where data = ?xs]) (simp_all add: e)
  have bl: "GetBlocksList src = [nb]"
    using src grp e by (auto simp: AddBlock_data_def GetBlocksList_def blocks_at_def set_blocks_at_def split: sum.splits)
  have sz: "b_size nb = 2" using arg_cong [OF rws, of length] by simp
  have "block_ok nb" using appendedD(1) [OF a] bl by (simp add: col_ok_def col_block_ok_def)
  then have "take (b_size nb) (b_data nb) = [b_data nb ! 0, b_data nb ! 1]"
    using sz by (intro nth_equalityI) (auto simp: block_ok_def less_2_cases_iff)
  moreover have nth: "b_data nb ! 0 = ''12''" "b_data nb ! 1 = ''x''"
    using arg_cong [OF rws, of "\<lambda>r. r ! 0"] arg_cong [OF rws, of "\<lambda>r. r ! 1"] sz
    by (auto simp: nth_rows split: if_splits)
  moreover have p: "stoll ''12'' = Inr 12" "stoll ''x'' = Inl InvalidArgument"
    by (simp_all add: stoll_def split_sign_def is_space_def is_digit_def read_nat_def digit_val_def Let_def)
  ultimately have "\<forall>b\<in>set (GetBlocksList src). parse_defined ?parse b" by (simp add: parse_defined_def bl)
  moreover have "col_ok elem_string src" "c_isNullable src" "c_blockSize src \<le> c_blockSize ?d"
    using appendedD [OF a] e d by simp_all
  moreover have "group_rows (- 1) src = [Some ''12'', Some ''x'']"
    using a e by (simp add: appended_def group_rows_def blocks_at_def)
  ultimately show ?thesis
    using copy_string_blocks_correct [OF int64_block.block_elem_axioms d(1) _, of src ?parse "null_v (elem_int64 0)" 0] d p
    by (auto simp: CopyString_LONG_def parsed_def)
qed

end
