(* ===== verification/Column_Stats.thy ===== *)
theory Column_Stats
  imports Column_Constraints
begin

text \<open>
  The statistics of a whole column and the specialisations of \<open>ColumnBase.cpp\<close>: null values,
  statistics and uniqueness per element type, and the hash and equality of points that the
  set of unique values uses.
\<close>

section \<open>Null values and setters\<close>

definition NullArray :: "'a elem \<Rightarrow> nat \<Rightarrow> 'a list" where
  "NullArray E len = replicate len (null_v E)"

definition NullArray_int32 :: "nat \<Rightarrow> int32 list" where
  "NullArray_int32 = NullArray (elem_int32 0)"
definition NullArray_float :: "nat \<Rightarrow> f32 list" where
  "NullArray_float = NullArray (elem_float 0)"
definition NullArray_int64 :: "nat \<Rightarrow> int64 list" where
  "NullArray_int64 = NullArray (elem_int64 0)"
definition NullArray_double :: "nat \<Rightarrow> f64 list" where
  "NullArray_double = NullArray (elem_double 0)"
definition NullArray_int8 :: "nat \<Rightarrow> int8 list" where
  "NullArray_int8 = NullArray (elem_int8 0)"
definition NullArray_string :: "nat \<Rightarrow> string list" where
  "NullArray_string = NullArray elem_string"
definition NullArray_Point :: "nat \<Rightarrow> Point list" where
  "NullArray_Point = NullArray elem_Point"
definition NullArray_Polygon :: "nat \<Rightarrow> ComplexPolygon list" where
  "NullArray_Polygon = NullArray elem_Polygon"

definition SetDefaultValue :: "'a \<Rightarrow> 'a column \<Rightarrow> 'a column" where
  "SetDefaultValue v c = c\<lparr>c_defaultValue := v\<rparr>"
definition SetFileAddressPath :: "string \<Rightarrow> 'a column \<Rightarrow> 'a column" where
  "SetFileAddressPath p c = c\<lparr>c_fileAddressPath := p\<rparr>"
definition SetFileDataPath :: "string \<Rightarrow> 'a column \<Rightarrow> 'a column" where
  "SetFileDataPath p c = c\<lparr>c_fileDataPath := p\<rparr>"
definition SetFileFragmentPath :: "string \<Rightarrow> 'a column \<Rightarrow> 'a column" where
  "SetFileFragmentPath p c = c\<lparr>c_fileFragmentPath := p\<rparr>"
definition SetEncoding :: "string \<Rightarrow> 'a column \<Rightarrow> 'a column" where
  "SetEncoding e c = c\<lparr>c_encoding := e\<rparr>"
definition SetColumnName :: "string \<Rightarrow> 'a column \<Rightarrow> 'a column" where
  "SetColumnName n c = c\<lparr>c_name := n\<rparr>"

definition GetBlockSize_at :: "nat \<Rightarrow> 'a column \<Rightarrow> nat result" where
  "GetBlockSize_at i c =
    (if i < GetBlockCount c then Inr (b_size (GetBlocksList c ! i)) else Inl UndefinedBehaviour)"

definition GetNullBitMaskForBlock :: "nat \<Rightarrow> 'a column \<Rightarrow> nullmask list option result" where
  "GetNullBitMaskForBlock i c =
    (if i < GetBlockCount c then Inr (b_bitMask (GetBlocksList c ! i)) else Inl UndefinedBehaviour)"

text \<open>The distinct values, in the order of their first occurrence.\<close>

definition GetUniqueBuckets :: "('a \<Rightarrow> 'a \<Rightarrow> bool) \<Rightarrow> 'a column \<Rightarrow> 'a list" where
  "GetUniqueBuckets same c = fold (hashmap_insert same) (column_values c) []"

section \<open>Statistics\<close>

fun min_element :: "('a \<Rightarrow> 'a \<Rightarrow> bool) \<Rightarrow> 'a \<Rightarrow> 'a list \<Rightarrow> 'a" where
  "min_element lt m [] = m"
| "min_element lt m (x # xs) = min_element lt (if lt x m then x else m) xs"

fun max_element :: "('a \<Rightarrow> 'a \<Rightarrow> bool) \<Rightarrow> 'a \<Rightarrow> 'a list \<Rightarrow> 'a" where
  "max_element lt m [] = m"
| "max_element lt m (x # xs) = max_element lt (if lt m x then x else m) xs"

definition row_total :: "'a block list \<Rightarrow> f32" where
  "row_total bs = foldl (\<lambda>a b. f32_add a (f32_of_int (int (b_size b)))) 0 bs"

text \<open>
  The pattern of the number types: \<open>tot\<close> is the accumulation of the block sums and \<open>ratio\<close>
  the division by the number of rows, both in the types the source computes them in. With no
  block, the minimum of an empty range is dereferenced.
\<close>

definition column_stats ::
  "('a \<Rightarrow> 'a \<Rightarrow> bool) \<Rightarrow> ('a list \<Rightarrow> 'a) \<Rightarrow> ('a \<Rightarrow> f32 \<Rightarrow> f32) \<Rightarrow> 'a column \<Rightarrow> 'a column result" where
  "column_stats lt tot ratio c =
    (case GetBlocksList c of
       [] \<Rightarrow> Inl UndefinedBehaviour
     | b # bs \<Rightarrow>
         (let s = tot (map b_sum (b # bs)) in
          Inr (c\<lparr>c_min := min_element lt (b_min b) (map b_min bs),
                 c_max := max_element lt (b_max b) (map b_max bs),
                 c_sum := s, c_avg := ratio s (row_total (b # bs))\<rparr>)))"

definition setColumnStatistics_int32 :: "int32 column \<Rightarrow> int32 column result" where
  "setColumnStatistics_int32 c =
    mapR (\<lambda>c'. if c_initAvgIsSet c' then c' else c'\<lparr>c_initAvgIsSet := True, c_initAvg := c_avg c'\<rparr>)
      (column_stats sless (foldl (+) 0) (\<lambda>s n. f32_div (f32_of_int (sint s)) n) c)"

text \<open>\<open>std::accumulate\<close> with the \<open>int\<close> initial value \<open>0\<close>: every partial sum is an \<open>int\<close>.\<close>

definition accumulate_int :: "'w::len word list \<Rightarrow> int32" where
  "accumulate_int xs = foldl (\<lambda>a x. word_of_int (sint a + sint x)) 0 xs"

definition setColumnStatistics_int64 :: "int64 column \<Rightarrow> int64 column result" where
  "setColumnStatistics_int64 c =
    column_stats sless (\<lambda>xs. word_of_int (sint (accumulate_int xs))) (\<lambda>s n. f32_div (f32_of_int (sint s)) n) c"

definition setColumnStatistics_float :: "f32 column \<Rightarrow> f32 column result" where
  "setColumnStatistics_float c = column_stats f32_less (foldl f32_add 0) f32_div c"

definition setColumnStatistics_double :: "f64 column \<Rightarrow> f64 column result" where
  "setColumnStatistics_double c =
    column_stats f64_less (foldl f64_add 0) (\<lambda>s n. f32_of_f64 (f64_div s (f64_of_f32 n))) c"

definition setColumnStatistics_Point :: "Point column \<Rightarrow> Point column" where
  "setColumnStatistics_Point c =
    c\<lparr>c_min := geo_v elem_Point, c_max := geo_v elem_Point, c_avg := 0, c_sum := geo_v elem_Point\<rparr>"

definition setColumnStatistics_Polygon :: "ComplexPolygon column \<Rightarrow> ComplexPolygon column" where
  "setColumnStatistics_Polygon c =
    c\<lparr>c_min := POLYGON_DEFAULT, c_max := POLYGON_DEFAULT, c_avg := 0, c_sum := POLYGON_DEFAULT\<rparr>"

definition setColumnStatistics_string :: "string column \<Rightarrow> string column result" where
  "setColumnStatistics_string c = column_stats (<) (\<lambda>_. '''') (\<lambda>_ _. 0) c"

definition setColumnStatistics_int8 :: "int8 column \<Rightarrow> int8 column result" where
  "setColumnStatistics_int8 c =
    column_stats sless (\<lambda>xs. word_of_int (sint (accumulate_int xs))) (\<lambda>s n. f32_div (f32_of_int (sint s)) n) c"

section \<open>Uniqueness per type\<close>

definition SetIsUnique_string :: "bool \<Rightarrow> string column \<Rightarrow> err option \<times> string column" where
  "SetIsUnique_string = SetIsUnique (=)"

text \<open>The equality of points and polygons has a tolerance; the hash of a point has none.\<close>

definition f32_abs :: "f32 \<Rightarrow> f32" where
  "f32_abs x = x AND 0x7FFFFFFF"

definition f32_sub :: "f32 \<Rightarrow> f32 \<Rightarrow> f32" where
  "f32_sub x y = f32_enc (fv_add (f32_dec x) (fv_neg (f32_dec y)))"

text \<open>\<open>x >= 0.0001f\<close>; the constant rounds to \<open>0x38D1B717\<close>.\<close>

definition f32_ge_tol :: "f32 \<Rightarrow> bool" where
  "f32_ge_tol x \<longleftrightarrow> \<not> f32_isnan x \<and> \<not> f32_less x 0x38D1B717"

definition Point_equal_to :: "Point \<Rightarrow> Point \<Rightarrow> bool" where
  "Point_equal_to p q =
    (if f32_ge_tol (f32_abs (f32_sub (fst p) (fst q))) \<or> f32_ge_tol (f32_abs (f32_sub (snd p) (snd q)))
     then False else True)"

text \<open>The bits of a negative latitude extend into the bits of the longitude.\<close>

definition Point_hash :: "Point \<Rightarrow> 64 word" where
  "Point_hash p = word_of_int (sint (fst p)) OR push_bit 32 (word_of_int (sint (snd p)))"

definition Polygon_equal_to :: "ComplexPolygon \<Rightarrow> ComplexPolygon \<Rightarrow> bool" where
  "Polygon_equal_to l r =
    (if length l \<noteq> length r then False
     else list_all2 (\<lambda>x y. length x = length y \<and> list_all2 Point_equal_to x y) l r)"

definition SetIsUnique_Point ::
  "(Point \<Rightarrow> Point \<Rightarrow> bool) \<Rightarrow> bool \<Rightarrow> Point column \<Rightarrow> err option \<times> Point column" where
  "SetIsUnique_Point same = SetIsUnique same"

definition SetIsUnique_Polygon ::
  "(ComplexPolygon \<Rightarrow> ComplexPolygon \<Rightarrow> bool) \<Rightarrow> bool \<Rightarrow> ComplexPolygon column \<Rightarrow>
   err option \<times> ComplexPolygon column" where
  "SetIsUnique_Polygon same = SetIsUnique same"

section \<open>Statistics bound the rows\<close>

text \<open>
  Taking the least of the block minima needs more of the order than a block does: that
  incomparability is transitive. The integers and the strings have it; the floating-point
  types do not, because of NaN.
\<close>

locale weak_order = elem_order +
  assumes neg_trans: "\<not> lt x y \<Longrightarrow> \<not> lt y z \<Longrightarrow> \<not> lt x z"
begin

lemma min_element_lower: "x \<in> insert m (set xs) \<Longrightarrow> \<not> lt x (min_element lt m xs)"
proof (induction xs arbitrary: m x)
  case Nil
  then show ?case using less_irrefl by simp
next
  case (Cons y ys)
  let ?m = "if lt y m then y else m"
  have le: "\<not> lt ?m (min_element lt ?m ys)" by (rule Cons.IH) simp
  have "\<not> lt m ?m" and "\<not> lt y ?m" using less_irrefl less_trans by auto
  then have "\<not> lt m (min_element lt ?m ys)" and "\<not> lt y (min_element lt ?m ys)"
    by (auto dest: neg_trans [OF _ le])
  then show ?case using Cons.prems Cons.IH [of x ?m] by auto
qed

lemma max_element_upper: "x \<in> insert m (set xs) \<Longrightarrow> \<not> lt (max_element lt m xs) x"
proof (induction xs arbitrary: m x)
  case Nil
  then show ?case using less_irrefl by simp
next
  case (Cons y ys)
  let ?m = "if lt m y then y else m"
  have le: "\<not> lt (max_element lt ?m ys) ?m" by (rule Cons.IH) simp
  have "\<not> lt ?m m" and "\<not> lt ?m y" using less_irrefl less_trans by auto
  then have "\<not> lt (max_element lt ?m ys) m" and "\<not> lt (max_element lt ?m ys) y"
    by (auto dest: neg_trans [OF le])
  then show ?case using Cons.prems Cons.IH [of x ?m] by auto
qed

lemma column_stats_bounds:
  assumes "column_stats lt tot ratio c = Inr c'" and "b \<in> set (GetBlocksList c)"
    and "between lt (b_min b) (b_max b) x"
  shows "between lt (c_min c') (c_max c') x"
proof -
  obtain d ds where bs: "GetBlocksList c = d # ds" and
    c': "c_min c' = min_element lt (b_min d) (map b_min ds)" "c_max c' = max_element lt (b_max d) (map b_max ds)"
    using assms(1) by (auto simp: column_stats_def Let_def split: list.splits)
  have "\<not> lt (b_min b) (c_min c')" and "\<not> lt (c_max c') (b_max b)"
    using assms(2) bs unfolding c' by (auto intro!: min_element_lower max_element_upper)
  with assms(3) show ?thesis using neg_trans by (auto simp: between_def)
qed

end

interpretation int_weak: weak_order "sless :: 'w::len word \<Rightarrow> 'w word \<Rightarrow> bool"
  by unfold_locales (auto simp: sless_def)

interpretation string_weak: weak_order "(<) :: string \<Rightarrow> string \<Rightarrow> bool"
  by unfold_locales auto

text \<open>
  The statistics of a 32-bit integer column bound every row of the column that is not
  null; they are defined for every column that has a block.
\<close>

theorem setColumnStatistics_int32_bounds:
  assumes "col_ok (elem_int32 u) c" and "GetBlocksList c \<noteq> []"
  shows "\<exists>c'. setColumnStatistics_int32 c = Inr c' \<and>
    (\<forall>g x. Some x \<in> set (group_rows g c) \<longrightarrow> sint (c_min c') \<le> sint x \<and> sint x \<le> sint (c_max c'))"
proof -
  obtain d where d: "column_stats sless (foldl (+) 0) (\<lambda>s n. f32_div (f32_of_int (sint s)) n) c = Inr d"
    using assms(2) by (cases "GetBlocksList c") (auto simp: column_stats_def Let_def)
  let ?c = "if c_initAvgIsSet d then d else d\<lparr>c_initAvgIsSet := True, c_initAvg := c_avg d\<rparr>"
  have "sint (c_min ?c) \<le> sint x \<and> sint x \<le> sint (c_max ?c)" if mem: "Some x \<in> set (group_rows g c)" for g x
  proof -
    obtain b where b: "b \<in> set (blocks_at g c)" "Some x \<in> set (rows b)"
      using mem by (auto simp: group_rows_def)
    then have "between sless (b_min b) (b_max b) x"
      using col_ok_block [OF assms(1) b(1)] by (simp add: col_block_ok_def stats_sound_def elem_defs)
    then have "between sless (c_min d) (c_max d) x"
      by (rule int_weak.column_stats_bounds [OF d group_in_list [OF b(1)]])
    then show ?thesis by (simp add: between_def sless_def)
  qed
  then show ?thesis using d by (auto simp: setColumnStatistics_int32_def)
qed

theorem setColumnStatistics_int32_bounds_witness:
  "\<exists>c'. setColumnStatistics_int32 null_column = Inr c' \<and> sint (c_min c') \<le> 7 \<and> 7 \<le> sint (c_max c')"
proof -
  have "GetBlocksList null_column \<noteq> []" by (simp add: null_column_def masked_column_def GetBlocksList_def)
  moreover have "Some 7 \<in> set (group_rows (- 1) null_column)" by (simp add: null_column)
  moreover have "sint (7 :: int32) = 7" by simp
  ultimately show ?thesis using setColumnStatistics_int32_bounds [OF null_column(1)] by metis
qed

section \<open>What accumulation in an int loses\<close>

lemma accumulate_int_eq: "accumulate_int xs = word_of_int (\<Sum>x\<leftarrow>xs. sint x)"
proof -
  have "foldl (\<lambda>a x. word_of_int (sint a + sint x)) w xs = w + (word_of_int (\<Sum>x\<leftarrow>xs. sint x) :: int32)"
    for w and xs :: "'a word list"
    by (induction xs arbitrary: w) simp_all
  from this [of 0 xs] show ?thesis by (simp add: accumulate_int_def)
qed

text \<open>
  The sum of a 64-bit integer column is the sum of its blocks reduced to a signed 32-bit
  number, because the accumulation starts from an \<open>int\<close>.
\<close>

theorem setColumnStatistics_int64_sum:
  assumes "GetBlocksList c \<noteq> []"
  shows "\<exists>c'. setColumnStatistics_int64 c = Inr c' \<and>
    sint (c_sum c') = to_int32 (\<Sum>b\<leftarrow>GetBlocksList c. sint (b_sum b))"
proof -
  have "sint (word_of_int (to_int32 k) :: int64) = to_int32 k" for k
  proof -
    have "- (2 ^ 31) \<le> to_int32 k" "to_int32 k < 2 ^ 31"
      using sint_greater_eq [of "word_of_int k :: int32"] sint_less [of "word_of_int k :: int32"] by (simp_all add: to_int32_def)
    then show ?thesis by (simp add: sint_sbintrunc' signed_take_bit_int_eq_self)
  qed
  moreover have "sint (accumulate_int xs) = to_int32 (\<Sum>x\<leftarrow>xs. sint x)" for xs :: "int64 list"
    by (simp add: accumulate_int_eq to_int32_def)
  ultimately show ?thesis using assms
    by (auto simp: setColumnStatistics_int64_def column_stats_def Let_def comp_def split: list.splits)
qed

theorem setColumnStatistics_int64_sum_witness:
  "\<exists>c'. setColumnStatistics_int64 (projr (ColumnBase_new (=) (elem_int64 0) ''colA'' 4 False False)
      \<lparr>c_blocks := [(- 1, [raw_block (elem_int64 0) 4 [] False False True 0\<lparr>b_sum := 2 ^ 31\<rparr>])]\<rparr>) = Inr c' \<and>
    sint (c_sum c') = - (2 ^ 31)"
proof -
  let ?c = "projr (ColumnBase_new (=) (elem_int64 0) ''colA'' 4 False False)
    \<lparr>c_blocks := [(- 1, [raw_block (elem_int64 0) 4 [] False False True 0\<lparr>b_sum := 2 ^ 31\<rparr>])]\<rparr>"
  have "GetBlocksList ?c \<noteq> []" by (simp add: GetBlocksList_def)
  moreover have "to_int32 (\<Sum>b\<leftarrow>GetBlocksList ?c. sint (b_sum b)) = - (2 ^ 31)"
    by (simp add: GetBlocksList_def to_int32_def)
  ultimately show ?thesis using setColumnStatistics_int64_sum [of ?c] by auto
qed

text \<open>
  The equality and the hash of points do not agree: the points at latitude \<open>0.0\<close> and
  \<open>-0.0\<close> are equal and have different hashes, which \<open>std::unordered_set\<close> forbids.
\<close>

theorem Point_hash_disagrees:
  "\<exists>p q. Point_equal_to p q \<and> Point_hash p \<noteq> Point_hash q"
proof (intro exI conjI)
  have dec: "f32_dec 0 = FFin False 0 (- 149)" "f32_dec 0x80000000 = FFin True 0 (- 149)"
    by (simp_all add: f32_dec_def f_decode_def f_inf_def f_emin_def Let_def)
  have "f32_sub 0 0x80000000 = 0" "f32_sub 0 0 = 0"
    by (simp_all add: f32_sub_def dec f_signed_def f32_enc_def f_scale_def f_round_def f_sign_def)
  then show "Point_equal_to (0, 0) (0x80000000, 0)"
    by (simp add: Point_equal_to_def f32_abs_def f32_ge_tol_def f32_less_def f_less_def f_isnan_def f_key_def
        f_inf_def f_signed_def)
  show "Point_hash (0, 0) \<noteq> Point_hash (0x80000000, 0)"
    by (simp add: Point_hash_def)
qed

end
