(* ===== verification/Tables.thy ===== *)
theory Tables
  imports Column_Copy Column_Stats
begin

text \<open>
  A table (\<open>Table.h\<close>, \<open>Table.cpp\<close>): named columns of any type, the constraints on them and
  the sorting columns of its clustered index. An \<open>unordered_map\<close> is an association list with
  distinct keys; its order stands for the unspecified iteration order, and the theorems hold
  for every order. The mutex only serialises callers and is not part of the state.

  A \<open>std::any\<close> is a value of \<open>any_val\<close> or, for the data of a column, of \<open>any_vec\<close>. A failed
  \<open>any_cast\<close> raises \<open>BadAnyCast\<close>; a failed \<open>dynamic_cast\<close> gives a null pointer whose use is
  undefined.
\<close>

section \<open>State\<close>

datatype any_val =
    AInt int32 | ALong int64 | AFloat f32 | ADouble f64 | APoint Point | APolygon ComplexPolygon
  | AString string | AInt8 int8

datatype any_vec =
    VInt "int32 list" | VLong "int64 list" | VFloat "f32 list" | VDouble "f64 list"
  | VPoint "Point list" | VPolygon "ComplexPolygon list" | VString "string list" | VInt8 "int8 list"

type_synonym row_data = "(string \<times> any_vec) list"
type_synonym mask_data = "(string \<times> nullmask list) list"

record table =
  t_name :: string
  t_blockSize :: nat
  t_columns :: "(string \<times> icolumn) list"
  t_constraints :: "(string \<times> ConstraintType \<times> string list) list"
  t_sortingColumns :: "string list"
  t_saveInterval :: int

text \<open>
  What the operations take from outside the table: the limits of the edition, the content of
  fresh memory, the equality of the unique value sets of floating-point and geometric types,
  and the codecs.
\<close>

record env =
  e_rows :: "int option"
  e_columns :: "int option"
  e_uninit :: int64
  e_sameFloat :: "f32 \<Rightarrow> f32 \<Rightarrow> bool"
  e_sameDouble :: "f64 \<Rightarrow> f64 \<Rightarrow> bool"
  e_samePoint :: "Point \<Rightarrow> Point \<Rightarrow> bool"
  e_samePolygon :: "ComplexPolygon \<Rightarrow> ComplexPolygon \<Rightarrow> bool"
  e_cInt :: "int32 compressor"
  e_cLong :: "int64 compressor"
  e_cFloat :: "f32 compressor"
  e_cDouble :: "f64 compressor"
  e_cPoint :: "Point compressor"
  e_cPolygon :: "ComplexPolygon compressor"
  e_cString :: "string compressor"
  e_cInt8 :: "int8 compressor"

abbreviation E_int :: "env \<Rightarrow> int32 elem" where "E_int v \<equiv> elem_int32 (int_cast (e_uninit v))"
abbreviation E_long :: "env \<Rightarrow> int64 elem" where "E_long v \<equiv> elem_int64 (e_uninit v)"
abbreviation E_float :: "env \<Rightarrow> f32 elem" where "E_float v \<equiv> elem_float (int_cast (e_uninit v))"
abbreviation E_double :: "env \<Rightarrow> f64 elem" where "E_double v \<equiv> elem_double (e_uninit v)"
abbreviation E_int8 :: "env \<Rightarrow> int8 elem" where "E_int8 v \<equiv> elem_int8 (int_cast (e_uninit v))"

section \<open>Columns through their base class\<close>

definition ic_name :: "icolumn \<Rightarrow> string" where
  "ic_name c = case_icolumn c_name c_name c_name c_name c_name c_name c_name c_name c"

definition ic_size :: "icolumn \<Rightarrow> int" where
  "ic_size c = case_icolumn c_size c_size c_size c_size c_size c_size c_size c_size c"

definition ic_isNullable :: "icolumn \<Rightarrow> bool" where
  "ic_isNullable c = case_icolumn c_isNullable c_isNullable c_isNullable c_isNullable c_isNullable
    c_isNullable c_isNullable c_isNullable c"

definition ic_isUnique :: "icolumn \<Rightarrow> bool" where
  "ic_isUnique c = case_icolumn c_isUnique c_isUnique c_isUnique c_isUnique c_isUnique c_isUnique
    c_isUnique c_isUnique c"

definition ic_initAvg :: "icolumn \<Rightarrow> f32" where
  "ic_initAvg c = case_icolumn c_initAvg c_initAvg c_initAvg c_initAvg c_initAvg c_initAvg c_initAvg c_initAvg c"

definition ic_initAvgIsSet :: "icolumn \<Rightarrow> bool" where
  "ic_initAvgIsSet c = case_icolumn c_initAvgIsSet c_initAvgIsSet c_initAvgIsSet c_initAvgIsSet
    c_initAvgIsSet c_initAvgIsSet c_initAvgIsSet c_initAvgIsSet c"

definition ic_blockCount :: "icolumn \<Rightarrow> nat" where
  "ic_blockCount c = case_icolumn GetBlockCount GetBlockCount GetBlockCount GetBlockCount GetBlockCount
    GetBlockCount GetBlockCount GetBlockCount c"

definition block_sizes :: "'a column \<Rightarrow> nat list" where
  "block_sizes c = map b_size (GetBlocksList c)"

definition ic_blockSizes :: "icolumn \<Rightarrow> nat list" where
  "ic_blockSizes c = case_icolumn block_sizes block_sizes block_sizes block_sizes block_sizes
    block_sizes block_sizes block_sizes c"

definition ic_setName :: "string \<Rightarrow> icolumn \<Rightarrow> icolumn" where
  "ic_setName n c =
    (case c of ColInt d \<Rightarrow> ColInt (SetColumnName n d) | ColLong d \<Rightarrow> ColLong (SetColumnName n d)
     | ColFloat d \<Rightarrow> ColFloat (SetColumnName n d) | ColDouble d \<Rightarrow> ColDouble (SetColumnName n d)
     | ColPoint d \<Rightarrow> ColPoint (SetColumnName n d) | ColPolygon d \<Rightarrow> ColPolygon (SetColumnName n d)
     | ColString d \<Rightarrow> ColString (SetColumnName n d) | ColInt8 d \<Rightarrow> ColInt8 (SetColumnName n d))"

definition ic_SetIsNullable :: "bool \<Rightarrow> icolumn \<Rightarrow> icolumn result" where
  "ic_SetIsNullable n c =
    (case c of ColInt d \<Rightarrow> mapR ColInt (SetIsNullable n d) | ColLong d \<Rightarrow> mapR ColLong (SetIsNullable n d)
     | ColFloat d \<Rightarrow> mapR ColFloat (SetIsNullable n d) | ColDouble d \<Rightarrow> mapR ColDouble (SetIsNullable n d)
     | ColPoint d \<Rightarrow> mapR ColPoint (SetIsNullable n d) | ColPolygon d \<Rightarrow> mapR ColPolygon (SetIsNullable n d)
     | ColString d \<Rightarrow> mapR ColString (SetIsNullable n d) | ColInt8 d \<Rightarrow> mapR ColInt8 (SetIsNullable n d))"

definition ic_SetIsUnique :: "env \<Rightarrow> bool \<Rightarrow> icolumn \<Rightarrow> err option \<times> icolumn" where
  "ic_SetIsUnique v n c =
    (case c of ColInt d \<Rightarrow> apsnd ColInt (SetIsUnique (=) n d) | ColLong d \<Rightarrow> apsnd ColLong (SetIsUnique (=) n d)
     | ColFloat d \<Rightarrow> apsnd ColFloat (SetIsUnique (e_sameFloat v) n d)
     | ColDouble d \<Rightarrow> apsnd ColDouble (SetIsUnique (e_sameDouble v) n d)
     | ColPoint d \<Rightarrow> apsnd ColPoint (SetIsUnique_Point (e_samePoint v) n d)
     | ColPolygon d \<Rightarrow> apsnd ColPolygon (SetIsUnique_Polygon (e_samePolygon v) n d)
     | ColString d \<Rightarrow> apsnd ColString (SetIsUnique_string n d) | ColInt8 d \<Rightarrow> apsnd ColInt8 (SetIsUnique (=) n d))"

section \<open>Simple operations\<close>

definition find_column :: "string \<Rightarrow> table \<Rightarrow> icolumn option" where
  "find_column n t = map_of (t_columns t) n"

definition set_column :: "string \<Rightarrow> icolumn \<Rightarrow> table \<Rightarrow> table" where
  "set_column n c t = t\<lparr>t_columns := map (\<lambda>(k, d). (k, if k = n then c else d)) (t_columns t)\<rparr>"

definition Table_new :: "nat \<Rightarrow> int \<Rightarrow> string \<Rightarrow> int \<Rightarrow> table" where
  "Table_new dbBlockSize saveInterval name blockSize =
    \<lparr>t_name = name, t_blockSize = (if blockSize = - 1 then dbBlockSize else nat blockSize), t_columns = [],
     t_constraints = [], t_sortingColumns = [], t_saveInterval = saveInterval\<rparr>"

definition GetBlockCount_table :: "table \<Rightarrow> nat" where
  "GetBlockCount_table t = (case t_columns t of [] \<Rightarrow> 0 | (_, c) # _ \<Rightarrow> ic_blockCount c)"

definition GetSize_table :: "table \<Rightarrow> int" where
  "GetSize_table t = fold (\<lambda>(_, c) s. if ic_size c > s then ic_size c else s) (t_columns t) 0"

definition SetTableName :: "string \<Rightarrow> table \<Rightarrow> table" where
  "SetTableName n t = t\<lparr>t_name := n\<rparr>"
definition SetBlockSize :: "nat \<Rightarrow> table \<Rightarrow> table" where
  "SetBlockSize n t = t\<lparr>t_blockSize := n\<rparr>"
definition SetSortingColumns :: "string list \<Rightarrow> table \<Rightarrow> table" where
  "SetSortingColumns cs t = t\<lparr>t_sortingColumns := cs\<rparr>"
definition SetSaveInterval :: "int \<Rightarrow> table \<Rightarrow> table" where
  "SetSaveInterval n t = t\<lparr>t_saveInterval := n\<rparr>"

definition AddSortingColumn :: "string \<Rightarrow> table \<Rightarrow> table" where
  "AddSortingColumn n t =
    (if n \<in> set (t_sortingColumns t) then t else t\<lparr>t_sortingColumns := t_sortingColumns t @ [n]\<rparr>)"

definition RemoveSortingColumn :: "string \<Rightarrow> table \<Rightarrow> table" where
  "RemoveSortingColumn n t = t\<lparr>t_sortingColumns := remove1 n (t_sortingColumns t)\<rparr>"

definition EraseColumn :: "string \<Rightarrow> table \<Rightarrow> table" where
  "EraseColumn n t = t\<lparr>t_columns := filter (\<lambda>(k, _). k \<noteq> n) (t_columns t)\<rparr>"

definition ContainsColumn :: "string \<Rightarrow> table \<Rightarrow> bool" where
  "ContainsColumn n t = (find_column n t \<noteq> None)"

text \<open>
  The node of the old name is taken out, renamed and put back. \<open>insert\<close> does not overwrite:
  when the new name is taken, the node is dropped.
\<close>

definition RenameColumn :: "string \<Rightarrow> string \<Rightarrow> table \<Rightarrow> table result" where
  "RenameColumn old new t =
    (case find_column old t of
       None \<Rightarrow> Inl OutOfRange
     | Some c \<Rightarrow>
         (let t' = EraseColumn old t in
          Inr (if ContainsColumn new t' then t'
               else t'\<lparr>t_columns := t_columns t' @ [(new, ic_setName new c)]\<rparr>)))"

definition CheckColumnsLimit :: "int option \<Rightarrow> int \<Rightarrow> unit result" where
  "CheckColumnsLimit limit columnsCount =
    (case limit of None \<Rightarrow> Inr () | Some l \<Rightarrow> if columnsCount \<ge> l then Inl RuntimeError else Inr ())"

text \<open>
  A type that is no column type would leave a null column pointer in the table; the model
  reports it at once.
\<close>

definition new_column :: "env \<Rightarrow> string \<Rightarrow> DataType \<Rightarrow> nat \<Rightarrow> bool \<Rightarrow> bool \<Rightarrow> icolumn result" where
  "new_column v n ty bs nul unq =
    (if ty = COLUMN_INT then mapR ColInt (ColumnBase_new (=) (E_int v) n bs nul unq)
     else if ty = COLUMN_LONG then mapR ColLong (ColumnBase_new (=) (E_long v) n bs nul unq)
     else if ty = COLUMN_DOUBLE then mapR ColDouble (ColumnBase_new (e_sameDouble v) (E_double v) n bs nul unq)
     else if ty = COLUMN_FLOAT then mapR ColFloat (ColumnBase_new (e_sameFloat v) (E_float v) n bs nul unq)
     else if ty = COLUMN_STRING then mapR ColString (ColumnBase_new (=) elem_string n bs nul unq)
     else if ty = COLUMN_POLYGON then mapR ColPolygon (ColumnBase_new (e_samePolygon v) elem_Polygon n bs nul unq)
     else if ty = COLUMN_POINT then mapR ColPoint (ColumnBase_new (e_samePoint v) elem_Point n bs nul unq)
     else if ty = COLUMN_INT8_T then mapR ColInt8 (ColumnBase_new (=) (E_int8 v) n bs nul unq)
     else Inl UndefinedBehaviour)"

definition CreateColumn :: "env \<Rightarrow> string \<Rightarrow> DataType \<Rightarrow> bool \<Rightarrow> bool \<Rightarrow> table \<Rightarrow> table result" where
  "CreateColumn v n ty nul unq t =
    bindR (CheckColumnsLimit (e_columns v) (int (length (t_columns t)) - 1)) (\<lambda>_.
    mapR (\<lambda>c. if ContainsColumn n t then t else t\<lparr>t_columns := t_columns t @ [(n, c)]\<rparr>)
      (new_column v n ty (t_blockSize t) nul unq))"

end
