(* ===== verification/Table_Index.thy ===== *)
theory Table_Index
  imports Tables
begin

text \<open>
  The clustered index of a table: rows are kept sorted by the sorting columns, and the
  position of a new row is found by binary search over the row numbers. Rows are numbered
  through the blocks of the first sorting column.
\<close>

section \<open>Operations\<close>

definition indexable :: "icolumn \<Rightarrow> bool" where
  "indexable c \<longleftrightarrow> GetColumnType c \<in> {COLUMN_INT, COLUMN_LONG, COLUMN_DOUBLE, COLUMN_FLOAT, COLUMN_STRING}"

definition first_sorting_column :: "table \<Rightarrow> icolumn result" where
  "first_sorting_column t =
    (case t_sortingColumns t of
       [] \<Rightarrow> Inl UndefinedBehaviour
     | n # _ \<Rightarrow> (case find_column n t of None \<Rightarrow> Inl UndefinedBehaviour | Some c \<Rightarrow> Inr c))"

definition GetDataRangeInSortingColumn :: "table \<Rightarrow> int result" where
  "GetDataRangeInSortingColumn t =
    mapR (\<lambda>c. if indexable c then to_int32 (int (sum_list (ic_blockSizes c))) else 0) (first_sorting_column t)"

text \<open>The loop that walks over the blocks; running past the last one is undefined.\<close>

fun walk_blocks :: "nat \<Rightarrow> nat list \<Rightarrow> nat \<Rightarrow> nat \<Rightarrow> (nat \<times> nat) result" where
  "walk_blocks diff [] blk idx = Inl UndefinedBehaviour"
| "walk_blocks diff (s # ss) blk idx =
    (if idx + diff > s then walk_blocks diff ss (blk + 1) (idx - s) else Inr (blk, idx))"

definition GetIndicesFromTotalIndex :: "nat \<Rightarrow> bool \<Rightarrow> table \<Rightarrow> (nat \<times> nat) result" where
  "GetIndicesFromTotalIndex index positionToCompare t =
    bindR (first_sorting_column t) (\<lambda>c.
      if indexable c then walk_blocks (of_bool positionToCompare) (ic_blockSizes c) 0 index
      else Inr (0, index))"

text \<open>One cell of a column with its null bit. A column without masks has no bit to read.\<close>

definition cell :: "nat \<Rightarrow> nat \<Rightarrow> 'a column \<Rightarrow> ('a \<times> bool) result" where
  "cell blk i c =
    (if blk < length (GetBlocksList c) then
       (let b = GetBlocksList c ! blk in
        if i < length (b_data b) then mapR (\<lambda>n. (b_data b ! i, n)) (src_bit b i)
        else Inl UndefinedBehaviour)
     else Inl UndefinedBehaviour)"

definition any_cell :: "nat \<Rightarrow> nat \<Rightarrow> icolumn \<Rightarrow> (any_val \<times> bool) list result" where
  "any_cell blk i c =
    (case c of
       ColInt d \<Rightarrow> mapR (\<lambda>x. [apfst AInt x]) (cell blk i d)
     | ColLong d \<Rightarrow> mapR (\<lambda>x. [apfst ALong x]) (cell blk i d)
     | ColFloat d \<Rightarrow> mapR (\<lambda>x. [apfst AFloat x]) (cell blk i d)
     | ColDouble d \<Rightarrow> mapR (\<lambda>x. [apfst ADouble x]) (cell blk i d)
     | ColString d \<Rightarrow> mapR (\<lambda>x. [apfst AString x]) (cell blk i d)
     | _ \<Rightarrow> Inr [])"

definition GetRowAndBitmaskOnIndex :: "nat \<Rightarrow> table \<Rightarrow> (any_val list \<times> bool list) result" where
  "GetRowAndBitmaskOnIndex index t =
    bindR (GetIndicesFromTotalIndex index True t) (\<lambda>(blk, i).
    mapR (\<lambda>cells. (map fst (concat cells), map snd (concat cells)))
      (mapM (\<lambda>n. case find_column n t of None \<Rightarrow> Inl UndefinedBehaviour | Some c \<Rightarrow> any_cell blk i c)
        (t_sortingColumns t)))"

datatype CompareResult = Greater | Lower | Equal

definition compare_by :: "('a \<Rightarrow> 'a \<Rightarrow> bool) \<Rightarrow> 'a \<Rightarrow> 'a \<Rightarrow> CompareResult" where
  "compare_by lt x y = (if lt x y then Lower else if lt y x then Greater else Equal)"

definition compare_any :: "DataType \<Rightarrow> any_val \<Rightarrow> any_val \<Rightarrow> CompareResult result" where
  "compare_any ty x y =
    (if ty = COLUMN_INT then
       (case (x, y) of (AInt a, AInt b) \<Rightarrow> Inr (compare_by sless a b) | _ \<Rightarrow> Inl BadAnyCast)
     else if ty = COLUMN_LONG then
       (case (x, y) of (ALong a, ALong b) \<Rightarrow> Inr (compare_by sless a b) | _ \<Rightarrow> Inl BadAnyCast)
     else if ty = COLUMN_DOUBLE then
       (case (x, y) of (ADouble a, ADouble b) \<Rightarrow> Inr (compare_by f64_less a b) | _ \<Rightarrow> Inl BadAnyCast)
     else if ty = COLUMN_FLOAT then
       (case (x, y) of (AFloat a, AFloat b) \<Rightarrow> Inr (compare_by f32_less a b) | _ \<Rightarrow> Inl BadAnyCast)
     else if ty = COLUMN_STRING then
       (case (x, y) of (AString a, AString b) \<Rightarrow> Inr (compare_by (<) a b) | _ \<Rightarrow> Inl BadAnyCast)
     else Inr Equal)"

text \<open>The loop over the sorting columns; indexing past the end of a row is undefined.\<close>

fun compare_loop ::
  "table \<Rightarrow> string list \<Rightarrow> nat \<Rightarrow> any_val list \<Rightarrow> bool list \<Rightarrow> any_val list \<Rightarrow> bool list \<Rightarrow> CompareResult result"
where
  "compare_loop t [] i row msk row' msk' = Inr Equal"
| "compare_loop t (n # ns) i row msk row' msk' =
    (if length msk \<le> i \<or> length msk' \<le> i then Inl UndefinedBehaviour
     else if msk ! i \<and> \<not> msk' ! i then Inr Lower
     else if \<not> msk ! i \<and> msk' ! i then Inr Greater
     else if \<not> msk ! i \<and> \<not> msk' ! i then
       (case find_column n t of
          None \<Rightarrow> Inl UndefinedBehaviour
        | Some c \<Rightarrow>
            if indexable c \<and> (length row \<le> i \<or> length row' \<le> i) then Inl UndefinedBehaviour
            else
              bindR (compare_any (GetColumnType c) (row ! i) (row' ! i)) (\<lambda>r.
                if r = Equal then compare_loop t ns (Suc i) row msk row' msk' else Inr r))
     else compare_loop t ns (Suc i) row msk row' msk')"

definition CompareRows :: "any_val list \<Rightarrow> bool list \<Rightarrow> nat \<Rightarrow> table \<Rightarrow> CompareResult result" where
  "CompareRows rowToInsert maskOfInsertRow index t =
    bindR (GetRowAndBitmaskOnIndex index t) (\<lambda>(row', msk').
      compare_loop t (t_sortingColumns t) 0 rowToInsert maskOfInsertRow row' msk')"

text \<open>The loop of \<open>GetIndex\<close>. The bounds are of type \<open>int\<close>; an overflow of their sum is undefined.\<close>

function bin_search ::
  "(nat \<Rightarrow> CompareResult result) \<Rightarrow> int \<Rightarrow> int \<Rightarrow> int \<Rightarrow> CompareResult \<Rightarrow> int result" where
  "bin_search cmp left right index res =
    (if left \<le> right then
       (if 2 ^ 31 \<le> left + right then Inl UndefinedBehaviour else
        let m = (left + right) div 2 in
        case cmp (nat m) of
          Inl e \<Rightarrow> Inl e
        | Inr Greater \<Rightarrow> bin_search cmp (m + 1) right m Greater
        | Inr Lower \<Rightarrow> bin_search cmp left (m - 1) m Lower
        | Inr Equal \<Rightarrow> Inr m)
     else Inr (if res = Greater then index + 1 else index))"
  by pat_completeness auto
termination
  by (relation "measure (\<lambda>(cmp, left, right, index, res). nat (right + 1 - left))") auto

declare bin_search.simps [simp del]

definition GetIndex :: "any_val list \<Rightarrow> bool list \<Rightarrow> table \<Rightarrow> (nat \<times> nat) result" where
  "GetIndex rowToInsert maskOfRow t =
    bindR (GetDataRangeInSortingColumn t) (\<lambda>right.
      if right = 0 then Inr (0, 0)
      else bindR (bin_search (\<lambda>i. CompareRows rowToInsert maskOfRow i t) 0 (right - 1) 0 Equal)
        (\<lambda>i. GetIndicesFromTotalIndex (nat i) False t))"

section \<open>The binary search\<close>

text \<open>Where the new row compares greater comes first, where it compares lower comes last.\<close>

definition cmp_mono :: "nat \<Rightarrow> (nat \<Rightarrow> CompareResult) \<Rightarrow> bool" where
  "cmp_mono n f \<longleftrightarrow> (\<forall>i j. i \<le> j \<and> j < n \<longrightarrow> (f i = Lower \<longrightarrow> f j = Lower) \<and> (f j = Greater \<longrightarrow> f i = Greater))"

lemma bin_search_spec:
  assumes "\<And>i. i < n \<Longrightarrow> cmp i = Inr (f i)" and "cmp_mono n f"
    and "0 \<le> left" and "right < int n" and "n \<le> 2 ^ 30"
    and "\<And>i. int i < left \<Longrightarrow> i < n \<Longrightarrow> f i = Greater" and "\<And>i. right < int i \<Longrightarrow> i < n \<Longrightarrow> f i = Lower"
    and "left \<le> right + 1"
    and "right < left \<Longrightarrow> (if res = Greater then index + 1 else index) = left"
  shows "\<exists>r. bin_search cmp left right index res = Inr r \<and> 0 \<le> r \<and> r \<le> int n \<and>
    (\<forall>i<n. (int i < r \<longrightarrow> f i \<noteq> Lower) \<and> (r \<le> int i \<longrightarrow> f i \<noteq> Greater))"
  using assms(3,4,6-9)
proof (induction "nat (right + 1 - left)" arbitrary: left right index res rule: less_induct)
  case less
  show ?case
  proof (cases "left \<le> right")
    case False
    then have r: "right + 1 = left" using less.prems by simp
    have "bin_search cmp left right index res = Inr left"
      using False less.prems(6) by (subst bin_search.simps) simp
    moreover have "f i \<noteq> Lower" if "i < n" "int i < left" for i
      using less.prems(3) [OF that(2,1)] by simp
    moreover have "f i \<noteq> Greater" if "i < n" "left \<le> int i" for i
      using less.prems(4) [of i] that r by simp
    ultimately show ?thesis using less.prems r by auto
  next
    case True
    define m where "m = (left + right) div 2"
    have m: "left \<le> m" "m \<le> right" "0 \<le> m" "nat m < n" "int (nat m) = m"
      using True less.prems unfolding m_def by auto
    have c: "cmp (nat m) = Inr (f (nat m))" using assms(1) m by simp
    have o: "left + right < 2 ^ 31" using True less.prems(2) assms(5) by simp
    have step: "bin_search cmp left right index res =
        (case f (nat m) of Greater \<Rightarrow> bin_search cmp (m + 1) right m Greater
         | Lower \<Rightarrow> bin_search cmp left (m - 1) m Lower | Equal \<Rightarrow> Inr m)"
      using True c o by (subst bin_search.simps) (simp add: m_def Let_def split: CompareResult.splits)
    have mono: "f (nat m) = Greater \<Longrightarrow> i \<le> nat m \<Longrightarrow> f i = Greater"
      "f (nat m) = Lower \<Longrightarrow> nat m \<le> i \<Longrightarrow> i < n \<Longrightarrow> f i = Lower"
      "f (nat m) = Equal \<Longrightarrow> i \<le> nat m \<Longrightarrow> f i \<noteq> Lower"
      "f (nat m) = Equal \<Longrightarrow> nat m \<le> i \<Longrightarrow> i < n \<Longrightarrow> f i \<noteq> Greater" for i
      using assms(2) m(4) unfolding cmp_mono_def
      by (metis CompareResult.distinct(1,3,5) order_le_less_trans)+
    show ?thesis
    proof (cases "f (nat m)")
      case Greater
      have "\<exists>r. bin_search cmp (m + 1) right m CompareResult.Greater = Inr r \<and> 0 \<le> r \<and> r \<le> int n \<and>
          (\<forall>i<n. (int i < r \<longrightarrow> f i \<noteq> Lower) \<and> (r \<le> int i \<longrightarrow> f i \<noteq> CompareResult.Greater))"
        by (rule less.hyps) (use m less.prems mono(1) [OF Greater] in auto)
      then show ?thesis using step Greater by simp
    next
      case Lower
      have "\<exists>r. bin_search cmp left (m - 1) m CompareResult.Lower = Inr r \<and> 0 \<le> r \<and> r \<le> int n \<and>
          (\<forall>i<n. (int i < r \<longrightarrow> f i \<noteq> CompareResult.Lower) \<and> (r \<le> int i \<longrightarrow> f i \<noteq> CompareResult.Greater))"
        by (rule less.hyps) (use m less.prems mono(2) [OF Lower] in auto)
      then show ?thesis using step Lower by simp
    next
      case Equal
      have "f i \<noteq> CompareResult.Lower" if "int i < m" for i using mono(3) [OF Equal, of i] that by simp
      moreover have "f i \<noteq> CompareResult.Greater" if "m \<le> int i" "i < n" for i
        using mono(4) [OF Equal, of i] that by simp
      moreover have "m \<le> int n" using m less.prems(2) by simp
      ultimately show ?thesis using step Equal m(3) by auto
    qed
  qed
qed

section \<open>Walking over the blocks\<close>

lemma walk_blocks_spec:
  assumes "idx + diff \<le> sum_list ss" and "ss \<noteq> []" and "diff \<le> 1"
  shows "\<exists>k i. walk_blocks diff ss blk idx = Inr (blk + k, i) \<and> k < length ss \<and> i + diff \<le> ss ! k \<and>
    sum_list (take k ss) + i = idx"
  using assms
proof (induction diff ss blk idx rule: walk_blocks.induct)
  case (2 diff s ss blk idx)
  show ?case
  proof (cases "idx + diff > s")
    case False
    then show ?thesis by (intro exI [of _ 0] exI [of _ idx]) simp
  next
    case True
    then have le: "s \<le> idx" using "2.prems"(3) by simp
    have "idx - s + diff \<le> sum_list ss" and "ss \<noteq> []" using "2.prems" le True by auto
    then obtain k i where "walk_blocks diff ss (blk + 1) (idx - s) = Inr (blk + 1 + k, i)"
      and "k < length ss" "i + diff \<le> ss ! k" "sum_list (take k ss) + i = idx - s"
      using "2.IH" [OF True] "2.prems"(3) by blast
    with True le show ?thesis by (intro exI [of _ "Suc k"] exI [of _ i]) simp
  qed
qed simp

section \<open>A sorted integer column\<close>

text \<open>All rows of a column in the order of its blocks, and the order of the index: nulls first.\<close>

definition column_rows :: "'a column \<Rightarrow> 'a option list" where
  "column_rows c = concat (map rows (GetBlocksList c))"

fun row_le :: "int32 option \<Rightarrow> int32 option \<Rightarrow> bool" where
  "row_le None _ = True"
| "row_le (Some x) None = False"
| "row_le (Some x) (Some y) = (sint x \<le> sint y)"

definition compare_opt :: "int32 option \<Rightarrow> int32 option \<Rightarrow> CompareResult" where
  "compare_opt k l = (if \<not> row_le l k then Lower else if \<not> row_le k l then Greater else Equal)"

lemma row_le_total: "row_le x y \<or> row_le y x"
  by (cases x; cases y) auto

lemma row_le_trans: "row_le x y \<Longrightarrow> row_le y z \<Longrightarrow> row_le x z"
  by (cases x; cases y; cases z) auto

lemma compare_optD:
  "compare_opt k l \<noteq> Lower \<Longrightarrow> row_le l k" "compare_opt k l \<noteq> Greater \<Longrightarrow> row_le k l"
  using row_le_total [of k l] by (auto simp: compare_opt_def split: if_splits)

lemma compare_opt_mono:
  assumes "sorted_wrt row_le rs"
  shows "cmp_mono (length rs) (\<lambda>i. compare_opt k (rs ! i))"
proof -
  have le: "row_le (rs ! i) (rs ! j)" if "i \<le> j" "j < length rs" for i j
    using assms that row_le_total [of "rs ! i" "rs ! i"] by (cases "i = j") (auto simp: sorted_wrt_iff_nth_less)
  show ?thesis unfolding cmp_mono_def
    by (auto simp: compare_opt_def split: if_splits) (metis le row_le_trans row_le_total)+
qed

lemma nth_concat_offset:
  "k < length xss \<Longrightarrow> j < length (xss ! k) \<Longrightarrow>
    concat xss ! (sum_list (map length (take k xss)) + j) = xss ! k ! j"
proof (induction xss arbitrary: k)
  case (Cons xs xss)
  then show ?case by (cases k) (auto simp: nth_append)
qed simp

lemma length_column_rows: "length (column_rows c) = sum_list (block_sizes c)"
  by (simp add: column_rows_def block_sizes_def length_concat comp_def)

lemma column_rows_nth:
  assumes "k < length (GetBlocksList c)" and "j < b_size (GetBlocksList c ! k)"
  shows "column_rows c ! (sum_list (take k (block_sizes c)) + j) = rows (GetBlocksList c ! k) ! j"
proof -
  have "map length (take k (map rows (GetBlocksList c))) = take k (block_sizes c)"
    by (simp add: block_sizes_def take_map)
  then show ?thesis
    using nth_concat_offset [of k "map rows (GetBlocksList c)" j] assms by (simp add: column_rows_def)
qed

text \<open>Reading a cell of a well-formed nullable column is defined and gives the row.\<close>

lemma cell_rows:
  assumes "col_ok E c" and "c_isNullable c" and "k < length (GetBlocksList c)"
    and "j < b_size (GetBlocksList c ! k)"
  shows "\<exists>x. cell k j c = Inr (x, is_null (GetBlocksList c ! k) j) \<and>
    rows (GetBlocksList c ! k) ! j = (if is_null (GetBlocksList c ! k) j then None else Some x)"
proof -
  let ?b = "GetBlocksList c ! k"
  have "col_block_ok E c ?b" using assms(1,3) by (simp add: col_ok_def)
  then have ok: "block_ok ?b" and nul: "b_isNullable ?b" using assms(2) by (simp_all add: col_block_ok_def)
  obtain m where m: "b_bitMask ?b = Some m" and len: "length m = GetNullBitMaskSize (b_capacity ?b)"
    using ok nul by (auto simp: block_ok_def split: option.splits)
  have "j < b_capacity ?b" using ok assms(4) by (simp add: block_ok_def)
  then have "j div 64 < length m" "j < length (b_data ?b)"
    using len ok by (simp_all add: GetNullBitMaskSize_bound block_ok_def)
  then show ?thesis using assms(3,4) m
    by (simp add: cell_def src_bit_def Let_def is_null_def nth_rows)
qed

lemma CompareRows_int:
  assumes "t_sortingColumns t = [n]" and "find_column n t = Some (ColInt c)" and "col_ok E c"
    and "c_isNullable c" and "i < length (column_rows c)"
  shows "CompareRows [AInt x] [b] i t =
    Inr (compare_opt (if b then None else Some x) (column_rows c ! i))"
proof -
  have "i + 1 \<le> sum_list (block_sizes c)" and "block_sizes c \<noteq> []"
    using assms(5) by (auto simp: length_column_rows)
  then obtain k j where w: "walk_blocks 1 (block_sizes c) 0 i = Inr (k, j)" and k: "k < length (block_sizes c)"
    and j: "j + 1 \<le> block_sizes c ! k" and off: "sum_list (take k (block_sizes c)) + j = i"
    using walk_blocks_spec [of i 1 "block_sizes c" 0] by auto
  have kk: "k < length (GetBlocksList c)" and jj: "j < b_size (GetBlocksList c ! k)"
    using k j by (auto simp: block_sizes_def)
  obtain y where y: "cell k j c = Inr (y, is_null (GetBlocksList c ! k) j)"
    "rows (GetBlocksList c ! k) ! j = (if is_null (GetBlocksList c ! k) j then None else Some y)"
    using cell_rows [OF assms(3,4) kk jj] by blast
  have row: "column_rows c ! i = (if is_null (GetBlocksList c ! k) j then None else Some y)"
    using column_rows_nth [OF kk jj] off y(2) by simp
  have "GetRowAndBitmaskOnIndex i t = Inr ([AInt y], [is_null (GetBlocksList c ! k) j])"
    using assms(1,2) w y(1)
    by (simp add: GetRowAndBitmaskOnIndex_def GetIndicesFromTotalIndex_def first_sorting_column_def
        indexable_def GetColumnType_def ic_blockSizes_def any_cell_def)
  then show ?thesis
    using assms(1,2) row
    by (auto simp: CompareRows_def compare_opt_def compare_any_def compare_by_def sless_def indexable_def
        GetColumnType_def)
qed

lemma sorted_insert_at:
  assumes "sorted_wrt row_le rs" and "r \<le> length rs"
    and "\<And>i. i < r \<Longrightarrow> row_le (rs ! i) k" and "\<And>i. r \<le> i \<Longrightarrow> i < length rs \<Longrightarrow> row_le k (rs ! i)"
  shows "sorted_wrt row_le (insert_at r k rs)"
proof -
  have "row_le x k" if "x \<in> set (take r rs)" for x
    using that assms(2,3) by (auto simp: in_set_conv_nth)
  moreover have "row_le k x" if "x \<in> set (drop r rs)" for x
    using that assms(4) by (auto simp: in_set_conv_nth)
  moreover have "sorted_wrt row_le (take r rs)" "sorted_wrt row_le (drop r rs)"
    using assms(1) by (simp_all add: sorted_wrt_take sorted_wrt_drop)
  ultimately show ?thesis
    by (auto simp: insert_at_def sorted_wrt_append intro: row_le_trans [of _ k])
qed

text \<open>
  C12. On a table indexed by one nullable column of 32-bit integers whose at most \<open>2 ^ 30\<close> rows are sorted
  (nulls first), the binary search for a new row ends without error and without overflow of the sum of its bounds, inside
  the blocks of the column, and inserting the row at the position it returns keeps the rows sorted.
\<close>

theorem GetIndex_keeps_sorted:
  assumes "t_sortingColumns t = [n]" and "find_column n t = Some (ColInt c)" and "col_ok E c"
    and "c_isNullable c" and "sorted_wrt row_le (column_rows c)" and "length (column_rows c) \<le> 2 ^ 30"
  shows "\<exists>k j. GetIndex [AInt x] [b] t = Inr (k, j) \<and>
    (column_rows c \<noteq> [] \<longrightarrow> k < length (block_sizes c) \<and> j \<le> block_sizes c ! k) \<and>
    sorted_wrt row_le (insert_at (sum_list (take k (block_sizes c)) + j) (if b then None else Some x) (column_rows c))"
proof -
  let ?k = "if b then None else Some x" and ?rs = "column_rows c"
  let ?f = "\<lambda>i. compare_opt ?k (?rs ! i)"
  have range: "GetDataRangeInSortingColumn t = Inr (int (length ?rs))"
    using assms(1,2,6)
    by (simp add: GetDataRangeInSortingColumn_def first_sorting_column_def indexable_def GetColumnType_def
        ic_blockSizes_def length_column_rows to_int32_id)
  show ?thesis
  proof (cases "?rs = []")
    case True
    then show ?thesis using range by (simp add: GetIndex_def insert_at_def)
  next
    case False
    have "\<exists>r. bin_search (\<lambda>i. CompareRows [AInt x] [b] i t) 0 (int (length ?rs) - 1) 0 Equal = Inr r \<and>
        0 \<le> r \<and> r \<le> int (length ?rs) \<and>
        (\<forall>i<length ?rs. (int i < r \<longrightarrow> ?f i \<noteq> Lower) \<and> (r \<le> int i \<longrightarrow> ?f i \<noteq> Greater))"
      by (rule bin_search_spec)
        (use False compare_opt_mono [OF assms(5)] CompareRows_int [OF assms(1-4)] assms(6) in auto)
    then obtain r where r: "bin_search (\<lambda>i. CompareRows [AInt x] [b] i t) 0 (int (length ?rs) - 1) 0 Equal = Inr r"
      "0 \<le> r" "r \<le> int (length ?rs)"
      and f: "\<And>i. i < length ?rs \<Longrightarrow> (int i < r \<longrightarrow> ?f i \<noteq> Lower) \<and> (r \<le> int i \<longrightarrow> ?f i \<noteq> Greater)"
      by blast
    have "nat r \<le> sum_list (block_sizes c)" and "block_sizes c \<noteq> []"
      using r(3) False length_column_rows [of c] by auto
    then obtain k j where w: "walk_blocks 0 (block_sizes c) 0 (nat r) = Inr (k, j)" and k: "k < length (block_sizes c)"
      and j: "j \<le> block_sizes c ! k" and off: "sum_list (take k (block_sizes c)) + j = nat r"
      using walk_blocks_spec [of "nat r" 0 "block_sizes c" 0] by auto
    have "GetIndex [AInt x] [b] t = Inr (k, j)"
      using range r(1) w False assms(1,2)
      by (simp add: GetIndex_def GetIndicesFromTotalIndex_def first_sorting_column_def indexable_def
          GetColumnType_def ic_blockSizes_def)
    moreover have "sorted_wrt row_le (insert_at (nat r) ?k ?rs)"
    proof (rule sorted_insert_at [OF assms(5)])
      show "row_le (?rs ! i) ?k" if "i < nat r" for i
      proof (rule compare_optD(1))
        have "i < length ?rs" "int i < r" using that r by linarith+
        then show "?f i \<noteq> Lower" using f [of i] by simp
      qed
      show "row_le ?k (?rs ! i)" if "nat r \<le> i" "i < length ?rs" for i
      proof (rule compare_optD(2))
        have "r \<le> int i" using that(1) by linarith
        then show "?f i \<noteq> Greater" using f [OF that(2)] by simp
      qed
    qed (use r in simp)
    ultimately show ?thesis using k j off by auto
  qed
qed

theorem GetIndex_keeps_sorted_witness:
  "\<exists>k j. GetIndex [AInt 2] [False] (Table_new 4 0 ''t'' (- 1)\<lparr>t_columns := [(''colA'', ColInt (masked_column 1))],
      t_sortingColumns := [''colA'']\<rparr>) = Inr (k, j) \<and>
    sorted_wrt row_le (insert_at (sum_list (take k (block_sizes (masked_column 1))) + j) (Some 2) [None, Some 3])"
proof -
  let ?t = "Table_new 4 0 ''t'' (- 1)\<lparr>t_columns := [(''colA'', ColInt (masked_column 1))], t_sortingColumns := [''colA'']\<rparr>"
  have "bit (1 :: nullmask) i \<longleftrightarrow> i = 0" for i by (auto simp: bit_1_iff)
  then have c: "col_ok (elem_int32 0) (masked_column 1)" "c_isNullable (masked_column 1)"
    "column_rows (masked_column 1) = [None, Some 3]"
    using masked_column [of 1] by (simp_all add: column_rows_def)
  have "find_column ''colA'' ?t = Some (ColInt (masked_column 1))" "t_sortingColumns ?t = [''colA'']"
    by (simp_all add: find_column_def)
  then show ?thesis
    using GetIndex_keeps_sorted [of ?t "''colA''" "masked_column 1" "elem_int32 0" 2 False] c by auto
qed

end
