(* ===== verification/Table_Insert.thy ===== *)
theory Table_Insert
  imports Table_Index
begin

text \<open>
  Insertion of rows into a table with its constraint checks, the addition and removal of
  constraints, and the operations behind ALTER TABLE. An operation that changes the table and
  then throws is modelled with the exception and the table it leaves behind.
\<close>

section \<open>Data to insert\<close>

definition vec_length :: "any_vec \<Rightarrow> nat" where
  "vec_length d = case_any_vec length length length length length length length length d"

definition GetDataSizeOfInsertedColumns :: "row_data \<Rightarrow> nat result" where
  "GetDataSizeOfInsertedColumns data =
    (case data of [] \<Rightarrow> Inl UndefinedBehaviour | (_, v) # _ \<Rightarrow> Inr (vec_length v))"

definition mask_at :: "nullmask list \<Rightarrow> nat \<Rightarrow> bool result" where
  "mask_at m i =
    (if length m \<le> i div 64 then Inl UndefinedBehaviour else Inr (GetConcreteBitFromBitmask m i \<noteq> 0))"

definition given_bit :: "mask_data \<Rightarrow> string \<Rightarrow> nat \<Rightarrow> bool result" where
  "given_bit masks n i = (case map_of masks n of None \<Rightarrow> Inr False | Some m \<Rightarrow> mask_at m i)"

definition nth_result :: "'a list \<Rightarrow> nat \<Rightarrow> 'a result" where
  "nth_result xs i = (if i < length xs then Inr (xs ! i) else Inl UndefinedBehaviour)"

text \<open>The key of a row to insert: data of the other types adds nothing to the row.\<close>

definition given_value :: "any_vec \<Rightarrow> nat \<Rightarrow> any_val list result" where
  "given_value d i =
    (case d of
       VInt xs \<Rightarrow> mapR (\<lambda>x. [AInt x]) (nth_result xs i) | VLong xs \<Rightarrow> mapR (\<lambda>x. [ALong x]) (nth_result xs i)
     | VFloat xs \<Rightarrow> mapR (\<lambda>x. [AFloat x]) (nth_result xs i)
     | VDouble xs \<Rightarrow> mapR (\<lambda>x. [ADouble x]) (nth_result xs i)
     | VString xs \<Rightarrow> mapR (\<lambda>x. [AString x]) (nth_result xs i) | _ \<Rightarrow> Inr [])"

definition null_value :: "icolumn \<Rightarrow> any_val" where
  "null_value c =
    (case c of ColInt _ \<Rightarrow> AInt (null_v (elem_int32 0)) | ColLong _ \<Rightarrow> ALong (null_v (elem_int64 0))
     | ColFloat _ \<Rightarrow> AFloat (null_v (elem_float 0)) | ColDouble _ \<Rightarrow> ADouble (null_v (elem_double 0))
     | ColInt8 _ \<Rightarrow> AInt8 (null_v (elem_int8 0)) | ColString _ \<Rightarrow> AString (null_v elem_string)
     | ColPoint _ \<Rightarrow> APoint (null_v elem_Point) | ColPolygon _ \<Rightarrow> APolygon (null_v elem_Polygon))"

definition inserted_cell :: "row_data \<Rightarrow> nat \<Rightarrow> mask_data \<Rightarrow> table \<Rightarrow> string \<Rightarrow> (any_val list \<times> bool) result" where
  "inserted_cell data i masks t n =
    bindR (given_bit masks n i) (\<lambda>b.
      case map_of data n of
        Some d \<Rightarrow> mapR (\<lambda>x. (x, b)) (given_value d i)
      | None \<Rightarrow> (case find_column n t of None \<Rightarrow> Inl OutOfRange | Some c \<Rightarrow> Inr ([null_value c], b)))"

definition GetRowAndBitmaskOfInsertedData ::
  "row_data \<Rightarrow> nat \<Rightarrow> mask_data \<Rightarrow> table \<Rightarrow> (any_val list \<times> bool list) result" where
  "GetRowAndBitmaskOfInsertedData data i masks t =
    mapR (\<lambda>cells. (concat (map fst cells), map snd cells))
      (mapM (inserted_cell data i masks t) (t_sortingColumns t))"

section \<open>Checks\<close>

definition GetHasUniqueConstraints :: "table \<Rightarrow> bool" where
  "GetHasUniqueConstraints t = list_ex (\<lambda>(_, c). ic_isUnique c) (t_columns t)"

definition GetHasNotNullConstraints :: "table \<Rightarrow> bool" where
  "GetHasNotNullConstraints t = list_ex (\<lambda>(_, c). \<not> ic_isNullable c) (t_columns t)"

text \<open>The loop over the data of one unique column: a copy of its set collects the values.\<close>

definition check_unique :: "('a \<Rightarrow> 'a \<Rightarrow> bool) \<Rightarrow> nat \<Rightarrow> 'a list \<Rightarrow> 'a column \<Rightarrow> unit result" where
  "check_unique same n data c =
    (case collect_unique same (take n data) (c_uniqueHashmap c) of
       None \<Rightarrow> Inl (ConstraintViolationError UNIQUE_CONSTRAINT_INSERT_DUPLICATE_VALUE)
     | Some _ \<Rightarrow> if length data < n then Inl UndefinedBehaviour else Inr ())"

definition check_unique_any :: "env \<Rightarrow> nat \<Rightarrow> any_vec \<Rightarrow> icolumn \<Rightarrow> unit result" where
  "check_unique_any v n data c =
    (case (c, data) of
       (ColInt d, VInt xs) \<Rightarrow> check_unique (=) n xs d
     | (ColLong d, VLong xs) \<Rightarrow> check_unique (=) n xs d
     | (ColDouble d, VDouble xs) \<Rightarrow> check_unique (e_sameDouble v) n xs d
     | (ColFloat d, VFloat xs) \<Rightarrow> check_unique (e_sameFloat v) n xs d
     | (ColString d, VString xs) \<Rightarrow> check_unique (=) n xs d
     | (ColPolygon d, VPolygon xs) \<Rightarrow> check_unique (e_samePolygon v) n xs d
     | (ColPoint d, VPoint xs) \<Rightarrow> check_unique (e_samePoint v) n xs d
     | (ColInt8 d, VInt8 xs) \<Rightarrow> check_unique (=) n xs d
     | _ \<Rightarrow> Inl BadAnyCast)"

definition CheckUniqueConstraintInData :: "env \<Rightarrow> row_data \<Rightarrow> nat \<Rightarrow> table \<Rightarrow> unit result" where
  "CheckUniqueConstraintInData v data n t =
    foldR (\<lambda>(name, c) _.
        case map_of data name of
          Some d \<Rightarrow> if ic_isUnique c then check_unique_any v n d c else Inr ()
        | None \<Rightarrow> if ic_isUnique c
            then Inl (ConstraintViolationError UNIQUE_CONSTRAINT_INSERT_NULL_VALUE) else Inr ())
      (t_columns t) ()"

definition check_not_null :: "nullmask list \<Rightarrow> nat \<Rightarrow> unit result" where
  "check_not_null m n =
    foldR (\<lambda>i _. bindR (mask_at m i) (\<lambda>b.
        if b then Inl (ConstraintViolationError UNIQUE_CONSTRAINT_INSERT_NULL_VALUE) else Inr ()))
      [0..<n] ()"

definition CheckNullableConstraintInData :: "mask_data \<Rightarrow> nat \<Rightarrow> table \<Rightarrow> unit result" where
  "CheckNullableConstraintInData masks n t =
    foldR (\<lambda>(name, c) _.
        case map_of masks name of
          Some m \<Rightarrow> if ic_isNullable c then Inr () else check_not_null m n
        | None \<Rightarrow> Inr ())
      (t_columns t) ()"

section \<open>Insertion\<close>

definition add_unique :: "('a \<Rightarrow> 'a \<Rightarrow> bool) \<Rightarrow> 'a list \<Rightarrow> 'a column \<Rightarrow> 'a column" where
  "add_unique same xs c = (if c_isUnique c then InsertIntoHashmap_vec same xs c else c)"

definition put_at ::
  "int option \<Rightarrow> 'a elem \<Rightarrow> ('a \<Rightarrow> 'a \<Rightarrow> bool) \<Rightarrow> nat \<Rightarrow> nat \<Rightarrow> nat \<Rightarrow> bool \<Rightarrow> 'a list \<Rightarrow> 'a column \<Rightarrow> 'a column result"
where
  "put_at limit E same blk i it isNull data c =
    bindR (nth_result data it) (\<lambda>x.
    mapR (\<lambda>c'. if c_isUnique c' then InsertIntoHashmap same x c' else c')
      (InsertDataOnSpecificPosition limit E blk i x (- 1) (of_bool isNull) c))"

definition put_at_any ::
  "env \<Rightarrow> nat \<Rightarrow> nat \<Rightarrow> nat \<Rightarrow> bool \<Rightarrow> any_vec \<Rightarrow> icolumn \<Rightarrow> icolumn result" where
  "put_at_any v blk i it isNull data c =
    (case (data, c) of
       (VInt xs, ColInt d) \<Rightarrow> mapR ColInt (put_at (e_rows v) (E_int v) (=) blk i it isNull xs d)
     | (VLong xs, ColLong d) \<Rightarrow> mapR ColLong (put_at (e_rows v) (E_long v) (=) blk i it isNull xs d)
     | (VDouble xs, ColDouble d) \<Rightarrow>
         mapR ColDouble (put_at (e_rows v) (E_double v) (e_sameDouble v) blk i it isNull xs d)
     | (VFloat xs, ColFloat d) \<Rightarrow>
         mapR ColFloat (put_at (e_rows v) (E_float v) (e_sameFloat v) blk i it isNull xs d)
     | (VPoint xs, ColPoint d) \<Rightarrow>
         mapR ColPoint (put_at (e_rows v) elem_Point (e_samePoint v) blk i it isNull xs d)
     | (VPolygon xs, ColPolygon d) \<Rightarrow>
         mapR ColPolygon (put_at (e_rows v) elem_Polygon (e_samePolygon v) blk i it isNull xs d)
     | (VString xs, ColString d) \<Rightarrow> mapR ColString (put_at (e_rows v) elem_string (=) blk i it isNull xs d)
     | (VInt8 xs, ColInt8 d) \<Rightarrow> mapR ColInt8 (put_at (e_rows v) (E_int8 v) (=) blk i it isNull xs d)
     | _ \<Rightarrow> Inl UndefinedBehaviour)"

definition InsertValuesOnSpecificPosition ::
  "env \<Rightarrow> row_data \<Rightarrow> nat \<Rightarrow> nat \<Rightarrow> nat \<Rightarrow> mask_data \<Rightarrow> table \<Rightarrow> table result" where
  "InsertValuesOnSpecificPosition v data blk i it masks t =
    mapR (\<lambda>cs. t\<lparr>t_columns := cs\<rparr>)
      (mapM (\<lambda>(n, c).
          case map_of data n of
            None \<Rightarrow> Inr (n, c)
          | Some d \<Rightarrow> bindR (given_bit masks n it) (\<lambda>b. mapR (Pair n) (put_at_any v blk i it b d c)))
        (t_columns t))"

definition put_data ::
  "int option \<Rightarrow> 'a compressor \<Rightarrow> 'a elem \<Rightarrow> ('a \<Rightarrow> 'a \<Rightarrow> bool) \<Rightarrow> bool \<Rightarrow> nullmask list option \<Rightarrow> 'a list \<Rightarrow>
   'a column \<Rightarrow> 'a column result" where
  "put_data limit cmpr E same compress nm data c =
    mapR (add_unique same data)
      (case nm of
         Some m \<Rightarrow> InsertData_mask limit cmpr E data m (- 1) compress True UINT32_MAX c
       | None \<Rightarrow> InsertData limit cmpr E data (- 1) compress True UINT32_MAX c)"

definition put_data_any ::
  "env \<Rightarrow> bool \<Rightarrow> nullmask list option \<Rightarrow> any_vec \<Rightarrow> icolumn \<Rightarrow> icolumn result" where
  "put_data_any v z nm data c =
    (case (data, c) of
       (VInt xs, ColInt d) \<Rightarrow> mapR ColInt (put_data (e_rows v) (e_cInt v) (E_int v) (=) z nm xs d)
     | (VLong xs, ColLong d) \<Rightarrow> mapR ColLong (put_data (e_rows v) (e_cLong v) (E_long v) (=) z nm xs d)
     | (VDouble xs, ColDouble d) \<Rightarrow>
         mapR ColDouble (put_data (e_rows v) (e_cDouble v) (E_double v) (e_sameDouble v) z nm xs d)
     | (VFloat xs, ColFloat d) \<Rightarrow>
         mapR ColFloat (put_data (e_rows v) (e_cFloat v) (E_float v) (e_sameFloat v) z nm xs d)
     | (VString xs, ColString d) \<Rightarrow> mapR ColString (put_data (e_rows v) (e_cString v) elem_string (=) z nm xs d)
     | (VPolygon xs, ColPolygon d) \<Rightarrow>
         mapR ColPolygon (put_data (e_rows v) (e_cPolygon v) elem_Polygon (e_samePolygon v) z nm xs d)
     | (VPoint xs, ColPoint d) \<Rightarrow>
         mapR ColPoint (put_data (e_rows v) (e_cPoint v) elem_Point (e_samePoint v) z nm xs d)
     | (VInt8 xs, ColInt8 d) \<Rightarrow> mapR ColInt8 (put_data (e_rows v) (e_cInt8 v) (E_int8 v) (=) z nm xs d)
     | _ \<Rightarrow> Inl UndefinedBehaviour)"

definition insert_columns :: "env \<Rightarrow> row_data \<Rightarrow> bool \<Rightarrow> mask_data \<Rightarrow> table \<Rightarrow> table result" where
  "insert_columns v data compress masks t =
    mapR (\<lambda>cs. t\<lparr>t_columns := cs\<rparr>)
      (mapM (\<lambda>(n, c).
          case map_of data n of
            None \<Rightarrow> Inr (n, c)
          | Some d \<Rightarrow> mapR (Pair n) (put_data_any v compress (map_of masks n) d c))
        (t_columns t))"

definition insert_row :: "env \<Rightarrow> row_data \<Rightarrow> mask_data \<Rightarrow> nat \<Rightarrow> table \<Rightarrow> table result" where
  "insert_row v data masks i t =
    bindR (GetRowAndBitmaskOfInsertedData data i masks t) (\<lambda>(row, msk).
    bindR (GetIndex row msk t) (\<lambda>(blk, j).
      InsertValuesOnSpecificPosition v data blk j i masks t))"

definition InsertData_table :: "env \<Rightarrow> row_data \<Rightarrow> bool \<Rightarrow> mask_data \<Rightarrow> table \<Rightarrow> table result" where
  "InsertData_table v data compress masks t =
    bindR (GetDataSizeOfInsertedColumns data) (\<lambda>n.
    bindR (if GetHasNotNullConstraints t then CheckNullableConstraintInData masks n t else Inr ()) (\<lambda>_.
    bindR (if GetHasUniqueConstraints t then CheckUniqueConstraintInData v data n t else Inr ()) (\<lambda>_.
      if t_sortingColumns t \<noteq> [] then foldR (insert_row v data masks) [0..<n] t
      else insert_columns v data compress masks t)))"

end
