(* ===== verification/Table_Constraints.thy ===== *)
theory Table_Constraints
  imports Table_Insert
begin

text \<open>
  Adding and dropping constraints with their rollback, filling a new column with nulls, and
  the assignment of rows to the groups of the binary index.
\<close>

section \<open>Constraints\<close>

text \<open>What \<open>catch (std::exception&)\<close> catches: every exception, but not undefined behaviour.\<close>

definition catchable :: "err \<Rightarrow> bool" where
  "catchable e \<longleftrightarrow> e \<noteq> UndefinedBehaviour \<and> e \<noteq> Diverges"

definition set_nullable :: "bool \<Rightarrow> string \<Rightarrow> table \<Rightarrow> err option \<times> table" where
  "set_nullable b n t =
    (case find_column n t of
       None \<Rightarrow> (Some OutOfRange, t)
     | Some c \<Rightarrow> (case ic_SetIsNullable b c of Inl e \<Rightarrow> (Some e, t) | Inr c' \<Rightarrow> (None, set_column n c' t)))"

definition set_unique :: "env \<Rightarrow> bool \<Rightarrow> string \<Rightarrow> table \<Rightarrow> err option \<times> table" where
  "set_unique v b n t =
    (case find_column n t of
       None \<Rightarrow> (Some OutOfRange, t)
     | Some c \<Rightarrow> (case ic_SetIsUnique v b c of (e, c') \<Rightarrow> (e, set_column n c' t)))"

definition apply_constraint :: "env \<Rightarrow> ConstraintType \<Rightarrow> string \<Rightarrow> table \<Rightarrow> err option \<times> table" where
  "apply_constraint v ct n t =
    (case ct of
       CONSTRAINT_INDEX \<Rightarrow> (None, AddSortingColumn n t)
     | CONSTRAINT_NOT_NULL \<Rightarrow> set_nullable False n t
     | CONSTRAINT_UNIQUE \<Rightarrow> set_unique v True n t
     | CONSTRAINT_NONE \<Rightarrow> (None, t))"

definition revoke_constraint :: "env \<Rightarrow> ConstraintType \<Rightarrow> string \<Rightarrow> table \<Rightarrow> err option \<times> table" where
  "revoke_constraint v ct n t =
    (case ct of
       CONSTRAINT_INDEX \<Rightarrow> (None, RemoveSortingColumn n t)
     | CONSTRAINT_NOT_NULL \<Rightarrow> set_nullable True n t
     | CONSTRAINT_UNIQUE \<Rightarrow> set_unique v False n t
     | CONSTRAINT_NONE \<Rightarrow> (None, t))"

text \<open>The rollback of a drop: the sorting column is removed once more instead of added.\<close>

definition restore_constraint :: "env \<Rightarrow> ConstraintType \<Rightarrow> string \<Rightarrow> table \<Rightarrow> err option \<times> table" where
  "restore_constraint v ct n t =
    (case ct of
       CONSTRAINT_INDEX \<Rightarrow> (None, RemoveSortingColumn n t)
     | CONSTRAINT_NOT_NULL \<Rightarrow> set_nullable False n t
     | CONSTRAINT_UNIQUE \<Rightarrow> set_unique v True n t
     | CONSTRAINT_NONE \<Rightarrow> (None, t))"

text \<open>A loop over columns up to the first exception, with the columns processed before it.\<close>

fun run_columns ::
  "(string \<Rightarrow> table \<Rightarrow> err option \<times> table) \<Rightarrow> string list \<Rightarrow> string list \<Rightarrow> table \<Rightarrow> err option \<times> string list \<times> table"
where
  "run_columns f [] processed t = (None, processed, t)"
| "run_columns f (n # ns) processed t =
    (case f n t of (None, t') \<Rightarrow> run_columns f ns (processed @ [n]) t' | (Some e, t') \<Rightarrow> (Some e, processed, t'))"

definition roll_back ::
  "(string \<Rightarrow> table \<Rightarrow> err option \<times> table) \<Rightarrow> err \<Rightarrow> string list \<Rightarrow> table \<Rightarrow> err option \<times> table" where
  "roll_back f e processed t =
    (if catchable e then
       (case run_columns f processed [] t of (None, _, t') \<Rightarrow> (Some e, t') | (Some e', _, t') \<Rightarrow> (Some e', t'))
     else (Some e, t))"

definition AddConstraint :: "env \<Rightarrow> string \<Rightarrow> ConstraintType \<Rightarrow> string list \<Rightarrow> table \<Rightarrow> err option \<times> table" where
  "AddConstraint v name ct cols t =
    (case run_columns (apply_constraint v ct) cols [] t of
       (None, _, t') \<Rightarrow>
         (None, if name \<in> fst ` set (t_constraints t') then t'
                else t'\<lparr>t_constraints := t_constraints t' @ [(name, ct, cols)]\<rparr>)
     | (Some e, processed, t') \<Rightarrow> roll_back (revoke_constraint v ct) e processed t')"

definition DropConstraint :: "env \<Rightarrow> string \<Rightarrow> table \<Rightarrow> err option \<times> table" where
  "DropConstraint v name t =
    (case map_of (t_constraints t) name of
       None \<Rightarrow> (Some OutOfRange, t)
     | Some (ct, cols) \<Rightarrow>
         (case run_columns (revoke_constraint v ct) cols [] t of
            (None, _, t') \<Rightarrow> (None, t'\<lparr>t_constraints := filter (\<lambda>(k, _). k \<noteq> name) (t_constraints t')\<rparr>)
          | (Some e, processed, t') \<Rightarrow> roll_back (restore_constraint v ct) e processed t'))"

definition GetConstraintsForColumn :: "string \<Rightarrow> table \<Rightarrow> ConstraintType list result" where
  "GetConstraintsForColumn n t =
    (case find_column n t of
       None \<Rightarrow> Inl OutOfRange
     | Some c \<Rightarrow>
         Inr ((if n \<in> set (t_sortingColumns t) then [CONSTRAINT_INDEX] else []) @
              (if \<not> ic_isNullable c then [CONSTRAINT_NOT_NULL] else []) @
              (if ic_isUnique c then [CONSTRAINT_UNIQUE] else [])))"

section \<open>New columns of an existing table\<close>

definition add_null_block :: "'a elem \<Rightarrow> nat \<Rightarrow> 'a column \<Rightarrow> 'a column result" where
  "add_null_block E n c =
    bindR (AddBlock_data (\<lambda>_ _ _ _. None) E (NullArray E n) (- 1) False False True True UINT32_MAX c) (\<lambda>c'.
      let b = last (blocks_at (- 1) c') in
      case b_bitMask b of
        None \<Rightarrow> if n = 0 then Inr c' else Inl UndefinedBehaviour
      | Some m \<Rightarrow>
          if n > 64 * length m then Inl UndefinedBehaviour
          else Inr (set_last (- 1) (b\<lparr>b_bitMask := Some (fold (\<lambda>j m. SetBitInBitMask m j 1) [0..<n] m)\<rparr>) c'))"

definition add_null_blocks :: "'a elem \<Rightarrow> nat list \<Rightarrow> 'a column \<Rightarrow> 'a column result" where
  "add_null_blocks E sizes c = foldR (add_null_block E) sizes c"

definition add_null_any :: "env \<Rightarrow> nat list \<Rightarrow> icolumn \<Rightarrow> icolumn result" where
  "add_null_any v sizes c =
    (case c of
       ColInt d \<Rightarrow> mapR ColInt (add_null_blocks (E_int v) sizes d)
     | ColLong d \<Rightarrow> mapR ColLong (add_null_blocks (E_long v) sizes d)
     | ColDouble d \<Rightarrow> mapR ColDouble (add_null_blocks (E_double v) sizes d)
     | ColFloat d \<Rightarrow> mapR ColFloat (add_null_blocks (E_float v) sizes d)
     | ColPoint d \<Rightarrow> mapR ColPoint (add_null_blocks elem_Point sizes d)
     | ColPolygon d \<Rightarrow> mapR ColPolygon (add_null_blocks elem_Polygon sizes d)
     | ColString d \<Rightarrow> mapR ColString (add_null_blocks elem_string sizes d)
     | ColInt8 d \<Rightarrow> mapR ColInt8 (add_null_blocks (E_int8 v) sizes d))"

text \<open>The block sizes come from the first column, or the second when the first is the new one.\<close>

definition model_sizes :: "string \<Rightarrow> table \<Rightarrow> nat list result" where
  "model_sizes new t =
    (case t_columns t of
       [] \<Rightarrow> Inl UndefinedBehaviour
     | (_, c) # cs \<Rightarrow>
         if ic_name c = new then (case cs of [] \<Rightarrow> Inl UndefinedBehaviour | (_, d) # _ \<Rightarrow> Inr (ic_blockSizes d))
         else Inr (ic_blockSizes c))"

definition InsertNullDataIntoNewColumn :: "env \<Rightarrow> string \<Rightarrow> table \<Rightarrow> table result" where
  "InsertNullDataIntoNewColumn v new t =
    bindR (model_sizes new t) (\<lambda>sizes.
      case find_column new t of
        None \<Rightarrow> Inl OutOfRange
      | Some c \<Rightarrow> mapR (\<lambda>c'. set_column new c' t) (add_null_any v sizes c))"

section \<open>Groups of the binary index\<close>

definition above_average :: "any_val \<Rightarrow> icolumn \<Rightarrow> bool result" where
  "above_average x c =
    (let avg = ic_initAvg c in
     case (c, x) of
       (ColInt _, AInt i) \<Rightarrow> Inr (f32_less avg (f32_of_int (sint i)))
     | (ColLong _, ALong i) \<Rightarrow> Inr (f32_less avg (f32_of_int (sint i)))
     | (ColFloat _, AFloat f) \<Rightarrow> Inr (f32_less avg f)
     | (ColDouble _, ADouble d) \<Rightarrow> Inr (f64_less (f64_of_f32 avg) d)
     | (ColPoint _, AFloat f) \<Rightarrow> Inr (f32_less avg f)
     | (ColPolygon _, AFloat f) \<Rightarrow> Inr (f32_less avg f)
     | (ColString _, AFloat f) \<Rightarrow> Inr (f32_less avg f)
     | (ColInt8 _, AInt8 i) \<Rightarrow> Inr (f32_less avg (f32_of_int (sint i)))
     | _ \<Rightarrow> Inl BadAnyCast)"

text \<open>The number is an \<open>int32_t\<close>; an overflow of the sum is undefined.\<close>

fun assign_loop :: "any_val list \<Rightarrow> icolumn list \<Rightarrow> nat \<Rightarrow> int \<Rightarrow> int result" where
  "assign_loop row [] i index = Inr index"
| "assign_loop row (c # cs) i index =
    (if \<not> ic_initAvgIsSet c then Inr (- 1)
     else if length row \<le> i then Inl UndefinedBehaviour
     else bindR (above_average (row ! i) c) (\<lambda>b.
       if 2 ^ 31 \<le> index + 2 * int i + of_bool b then Inl UndefinedBehaviour
       else assign_loop row cs (i + 1) (index + 2 * int i + of_bool b)))"

definition AssignGroupId :: "any_val list \<Rightarrow> icolumn list \<Rightarrow> int result" where
  "AssignGroupId row columns = assign_loop row columns 0 0"

definition GetTableGroupIds :: "(string \<times> icolumn) list \<Rightarrow> int list" where
  "GetTableGroupIds columns = map int [0..<length columns]"

definition GetTableGroupIds_vec :: "icolumn list \<Rightarrow> int list" where
  "GetTableGroupIds_vec columns = map int [0..<length columns]"

section \<open>Looking up columns\<close>

lemma map_of_map_update:
  "map_of (map (\<lambda>(k, d). (k, if k = n then c else d)) xs) m =
    (if m = n then map_option (\<lambda>_. c) (map_of xs n) else map_of xs m)"
  by (induction xs) (auto split: if_splits)

lemma find_set_column:
  "find_column m (set_column n c t) = (if m = n then map_option (\<lambda>_. c) (find_column n t) else find_column m t)"
  by (simp add: find_column_def set_column_def map_of_map_update)

lemma set_column_frame [simp]:
  "map fst (t_columns (set_column n c t)) = map fst (t_columns t)"
  "t_name (set_column n c t) = t_name t" "t_blockSize (set_column n c t) = t_blockSize t"
  "t_constraints (set_column n c t) = t_constraints t" "t_sortingColumns (set_column n c t) = t_sortingColumns t"
  "t_saveInterval (set_column n c t) = t_saveInterval t"
  by (simp_all add: set_column_def comp_def case_prod_beta)

lemma columns_eqI:
  assumes "map fst xs = map fst ys" and "distinct (map fst xs)" and "\<And>n. map_of xs n = map_of ys n"
  shows "xs = ys"
proof (rule nth_equalityI)
  show len: "length xs = length ys" using assms(1) by (metis length_map)
  fix i assume i: "i < length xs"
  have k: "fst (xs ! i) = fst (ys ! i)" using assms(1) i len by (metis nth_map)
  have "map_of xs (fst (xs ! i)) = Some (snd (xs ! i))" using assms(2) i by (simp add: map_of_eq_Some_iff)
  moreover have "map_of ys (fst (ys ! i)) = Some (snd (ys ! i))"
    using assms(1,2) i len by (simp add: map_of_eq_Some_iff)
  ultimately show "xs ! i = ys ! i" using assms(3) k by (simp add: prod_eq_iff)
qed

definition same_frame :: "table \<Rightarrow> table \<Rightarrow> bool" where
  "same_frame t t' \<longleftrightarrow> map fst (t_columns t') = map fst (t_columns t) \<and>
    t'\<lparr>t_columns := []\<rparr> = t\<lparr>t_columns := []\<rparr>"

lemma same_frame_set_column [simp]: "same_frame t (set_column n c t') = same_frame t t'"
  by (simp add: same_frame_def set_column_def comp_def case_prod_beta)

lemma table_eqI:
  assumes "same_frame t t'" and "distinct (map fst (t_columns t))" and "\<And>n. find_column n t' = find_column n t"
  shows "t' = t"
proof -
  have "t_columns t' = t_columns t"
    using assms by (intro columns_eqI) (simp_all add: same_frame_def find_column_def)
  then show ?thesis using assms(1) by (cases t; cases t'; simp add: same_frame_def)
qed

section \<open>Rolling back a unique constraint\<close>

definition no_unique :: "'a column \<Rightarrow> bool" where
  "no_unique c \<longleftrightarrow> \<not> c_isUnique c \<and> c_uniqueHashmap c = []"

definition ic_no_unique :: "icolumn \<Rightarrow> bool" where
  "ic_no_unique c = case_icolumn no_unique no_unique no_unique no_unique no_unique no_unique no_unique no_unique c"

lemma SetIsUnique_undo:
  assumes "no_unique c"
  shows "(\<exists>e. catchable e \<and> SetIsUnique same True c = (Some e, c)) \<or>
    (\<exists>c'. SetIsUnique same True c = (None, c') \<and> SetIsUnique same False c' = (None, c) \<and> c_isUnique c')"
proof -
  have n: "c_isUnique c = False" and h: "c_uniqueHashmap c = []" using assms by (simp_all add: no_unique_def)
  have "c\<lparr>c_uniqueHashmap := c_uniqueHashmap c\<rparr> = c"
    and "c\<lparr>c_uniqueHashmap := c_uniqueHashmap c, c_isUnique := c_isUnique c\<rparr> = c" by simp_all
  then have same: "c\<lparr>c_uniqueHashmap := []\<rparr> = c" "c\<lparr>c_uniqueHashmap := [], c_isUnique := False\<rparr> = c"
    unfolding n h .
  show ?thesis
  proof (cases "c_isNullable c \<or> collect_unique same (column_values c) [] = None")
    case True
    then have "\<exists>e. catchable e \<and> SetIsUnique same True c = (Some e, c)"
      using n same(1) by (auto simp: SetIsUnique_def Let_def catchable_def)
    then show ?thesis by blast
  next
    case False
    then obtain l where l: "collect_unique same (column_values c) [] = Some l" by blast
    let ?c = "c\<lparr>c_uniqueHashmap := l, c_isUnique := True\<rparr>"
    have "SetIsUnique same True c = (None, ?c)" using False l n by (simp add: SetIsUnique_def Let_def)
    moreover have "SetIsUnique same False ?c = (None, c)" using same(2) by (simp add: SetIsUnique_def Let_def)
    ultimately show ?thesis by auto
  qed
qed

lemma ic_SetIsUnique_undo:
  assumes "ic_no_unique c"
  shows "(\<exists>e. catchable e \<and> ic_SetIsUnique v True c = (Some e, c)) \<or>
    (\<exists>c'. ic_SetIsUnique v True c = (None, c') \<and> ic_SetIsUnique v False c' = (None, c) \<and> ic_isUnique c')"
proof (cases c)
  case (ColInt d)
  then show ?thesis using assms SetIsUnique_undo [of d "(=)"]
    by (auto simp: ic_no_unique_def ic_SetIsUnique_def ic_isUnique_def)
next
  case (ColLong d)
  then show ?thesis using assms SetIsUnique_undo [of d "(=)"]
    by (auto simp: ic_no_unique_def ic_SetIsUnique_def ic_isUnique_def)
next
  case (ColFloat d)
  then show ?thesis using assms SetIsUnique_undo [of d "e_sameFloat v"]
    by (auto simp: ic_no_unique_def ic_SetIsUnique_def ic_isUnique_def)
next
  case (ColDouble d)
  then show ?thesis using assms SetIsUnique_undo [of d "e_sameDouble v"]
    by (auto simp: ic_no_unique_def ic_SetIsUnique_def ic_isUnique_def)
next
  case (ColPoint d)
  then show ?thesis using assms SetIsUnique_undo [of d "e_samePoint v"]
    by (auto simp: ic_no_unique_def ic_SetIsUnique_def ic_isUnique_def SetIsUnique_Point_def)
next
  case (ColPolygon d)
  then show ?thesis using assms SetIsUnique_undo [of d "e_samePolygon v"]
    by (auto simp: ic_no_unique_def ic_SetIsUnique_def ic_isUnique_def SetIsUnique_Polygon_def)
next
  case (ColString d)
  then show ?thesis using assms SetIsUnique_undo [of d "(=)"]
    by (auto simp: ic_no_unique_def ic_SetIsUnique_def ic_isUnique_def SetIsUnique_string_def)
next
  case (ColInt8 d)
  then show ?thesis using assms SetIsUnique_undo [of d "(=)"]
    by (auto simp: ic_no_unique_def ic_SetIsUnique_def ic_isUnique_def)
qed

lemma set_unique_undo:
  assumes "find_column n t = Some c" and "ic_no_unique c" and "distinct (map fst (t_columns t))"
  shows "(\<exists>e. catchable e \<and> set_unique v True n t = (Some e, t)) \<or>
    (\<exists>c'. set_unique v True n t = (None, set_column n c' t) \<and> ic_SetIsUnique v False c' = (None, c) \<and>
      ic_isUnique c')"
proof -
  have "set_column n c t = t"
    using assms(1,3) by (intro table_eqI) (simp_all add: find_set_column, simp add: same_frame_def)
  with ic_SetIsUnique_undo [OF assms(2), of v] assms(1) show ?thesis by (auto simp: set_unique_def)
qed

text \<open>The columns processed so far can be taken back to the original table.\<close>

definition undoable :: "env \<Rightarrow> table \<Rightarrow> string list \<Rightarrow> table \<Rightarrow> bool" where
  "undoable v t ns t' \<longleftrightarrow> same_frame t t' \<and> (\<forall>n. n \<notin> set ns \<longrightarrow> find_column n t' = find_column n t) \<and>
    (\<forall>n\<in>set ns. \<exists>c c'. find_column n t = Some c \<and> find_column n t' = Some c' \<and>
      ic_SetIsUnique v False c' = (None, c) \<and> ic_isUnique c')"

lemma undo_all:
  assumes "undoable v t ns t'" and "distinct ns" and "distinct (map fst (t_columns t))"
  shows "\<exists>ps. run_columns (set_unique v False) ns qs t' = (None, ps, t)"
  using assms(1,2)
proof (induction ns arbitrary: t' qs)
  case Nil
  then have "t' = t" using assms(3) by (intro table_eqI) (simp_all add: undoable_def)
  then show ?case by simp
next
  case (Cons n ns)
  obtain c c' where c: "find_column n t = Some c" "find_column n t' = Some c'" "ic_SetIsUnique v False c' = (None, c)"
    using Cons.prems(1) by (auto simp: undoable_def)
  have "undoable v t ns (set_column n c t')"
    using Cons.prems c by (auto simp: undoable_def find_set_column)
  with Cons.IH [of "set_column n c t'" "qs @ [n]"] Cons.prems(2) c(2,3) show ?case
    by (simp add: set_unique_def)
qed

lemma run_unique:
  assumes "distinct (map fst (t_columns t))" and "undoable v t ps t'" and "distinct (ps @ ns)"
    and "\<forall>n\<in>set ns. \<forall>c. find_column n t = Some c \<longrightarrow> ic_no_unique c"
  shows "(\<exists>t''. run_columns (set_unique v True) ns ps t' = (None, ps @ ns, t'') \<and> undoable v t (ps @ ns) t'') \<or>
    (\<exists>e qs t''. run_columns (set_unique v True) ns ps t' = (Some e, qs, t'') \<and> catchable e \<and>
      undoable v t qs t'' \<and> distinct qs)"
  using assms(2-4)
proof (induction ns arbitrary: ps t')
  case Nil
  then show ?case by simp
next
  case (Cons n ns)
  have same: "find_column n t' = find_column n t" using Cons.prems(1,2) by (auto simp: undoable_def)
  have dist: "distinct (map fst (t_columns t'))" using Cons.prems(1) assms(1) by (simp add: undoable_def same_frame_def)
  show ?case
  proof (cases "find_column n t")
    case None
    then show ?thesis using same Cons.prems by (auto simp: set_unique_def catchable_def)
  next
    case (Some c)
    then have nu: "ic_no_unique c" using Cons.prems(3) by simp
    from set_unique_undo [OF _ nu dist, of n v] same Some
    consider e where "catchable e" "set_unique v True n t' = (Some e, t')"
      | c' where "set_unique v True n t' = (None, set_column n c' t')" "ic_SetIsUnique v False c' = (None, c)"
        "ic_isUnique c'"
      by auto
    then show ?thesis
    proof cases
      case 1
      then show ?thesis using Cons.prems by auto
    next
      case 2
      have "undoable v t (ps @ [n]) (set_column n c' t')"
        using Cons.prems(1) 2 Some same by (auto simp: undoable_def find_set_column)
      then show ?thesis using Cons.IH [of "ps @ [n]" "set_column n c' t'"] Cons.prems(2,3) 2(1) by simp
    qed
  qed
qed

text \<open>
  C13. Adding a UNIQUE constraint to several columns that have none is atomic: either every
  listed column becomes unique, or an exception is raised and the table is exactly what it
  was before.
\<close>

theorem AddConstraint_unique_atomic:
  assumes "distinct (map fst (t_columns t))" and "distinct cols"
    and "\<forall>n\<in>set cols. \<forall>c. find_column n t = Some c \<longrightarrow> ic_no_unique c"
  shows "case AddConstraint v name CONSTRAINT_UNIQUE cols t of
      (None, t') \<Rightarrow> \<forall>n\<in>set cols. \<exists>c. find_column n t' = Some c \<and> ic_isUnique c
    | (Some e, t') \<Rightarrow> t' = t"
proof -
  have ac: "apply_constraint v CONSTRAINT_UNIQUE = set_unique v True"
    and rc: "revoke_constraint v CONSTRAINT_UNIQUE = set_unique v False"
    by (simp_all add: fun_eq_iff apply_constraint_def revoke_constraint_def)
  have u: "undoable v t [] t" by (simp add: undoable_def same_frame_def)
  from run_unique [OF assms(1) u _ assms(3)] assms(2)
  consider t' where "run_columns (set_unique v True) cols [] t = (None, cols, t')" "undoable v t cols t'"
    | e qs t' where "run_columns (set_unique v True) cols [] t = (Some e, qs, t')" "catchable e"
      "undoable v t qs t'" "distinct qs"
    by auto
  then show ?thesis
  proof cases
    case 1
    then show ?thesis by (auto simp: AddConstraint_def ac undoable_def find_column_def)
  next
    case 2
    obtain ps where "run_columns (set_unique v False) qs [] t' = (None, ps, t)"
      using undo_all [OF 2(3,4) assms(1)] by blast
    then show ?thesis using 2 by (simp add: AddConstraint_def roll_back_def ac rc)
  qed
qed

text \<open>A table with a column of equal values and a nullable column, and an environment.\<close>

definition env0 :: env where
  "env0 = \<lparr>e_rows = None, e_columns = Some 8, e_uninit = 0, e_sameFloat = (=), e_sameDouble = (=),
    e_samePoint = (=), e_samePolygon = (=), e_cInt = (\<lambda>_ _ _ _. None), e_cLong = (\<lambda>_ _ _ _. None),
    e_cFloat = (\<lambda>_ _ _ _. None), e_cDouble = (\<lambda>_ _ _ _. None), e_cPoint = (\<lambda>_ _ _ _. None),
    e_cPolygon = (\<lambda>_ _ _ _. None), e_cString = (\<lambda>_ _ _ _. None), e_cInt8 = (\<lambda>_ _ _ _. None)\<rparr>"

definition two_columns :: "int32 column \<Rightarrow> int32 column \<Rightarrow> table" where
  "two_columns c d = Table_new 4 0 ''t'' (- 1)\<lparr>t_columns := [(''a'', ColInt c), (''b'', ColInt d)]\<rparr>"

lemma dup_column:
  "\<not> c_isUnique dup_column" "\<not> c_isNullable dup_column" "c_uniqueHashmap dup_column = []"
  "\<not> distinct (column_values dup_column)"
  by (simp_all add: dup_column_def ColumnBase_new_def SetIsNullable_def SetIsUnique_def Let_def
      column_values_def GetBlocksList_def BlockBase_data_def raw_block_def copy_at_def)

theorem AddConstraint_unique_atomic_witness:
  "AddConstraint env0 ''u'' CONSTRAINT_UNIQUE [''a''] (two_columns dup_column dup_column) =
    (Some (ConstraintViolationError UNIQUE_CONSTRAINT_INSERT_DUPLICATE_VALUE), two_columns dup_column dup_column)"
proof -
  let ?t = "two_columns dup_column dup_column"
  have d: "distinct (map fst (t_columns ?t))" by (simp add: two_columns_def)
  have n: "\<forall>n\<in>set [''a'']. \<forall>c. find_column n ?t = Some c \<longrightarrow> ic_no_unique c"
    by (simp add: two_columns_def find_column_def ic_no_unique_def no_unique_def dup_column)
  have "fst (AddConstraint env0 ''u'' CONSTRAINT_UNIQUE [''a''] ?t) =
      Some (ConstraintViolationError UNIQUE_CONSTRAINT_INSERT_DUPLICATE_VALUE)"
    by (simp add: AddConstraint_def apply_constraint_def set_unique_def two_columns_def find_column_def
        ic_SetIsUnique_def SetIsUnique_def Let_def dup_column collect_unique_eq roll_back_def catchable_def)
  then show ?thesis
    using AddConstraint_unique_atomic [OF d _ n, of env0 "''u''"]
    by (cases "AddConstraint env0 ''u'' CONSTRAINT_UNIQUE [''a''] ?t") auto
qed

text \<open>
  C38. The rollback forgets what was there before: when a unique column is listed again together
  with a column that cannot be made unique, the failing ADD CONSTRAINT leaves the first
  column without its UNIQUE flag.
\<close>

theorem AddConstraint_rollback_forgets:
  assumes "find_column a t = Some (ColInt c)" and "c_isUnique c" and "find_column b t = Some (ColInt d)"
    and "c_isNullable d" and "\<not> c_isUnique d" and "a \<noteq> b"
  shows "\<exists>e t' c'. AddConstraint v name CONSTRAINT_UNIQUE [a, b] t = (Some e, t') \<and>
    find_column a t' = Some (ColInt c') \<and> \<not> c_isUnique c'"
  using assms
  by (auto simp: AddConstraint_def apply_constraint_def revoke_constraint_def set_unique_def find_set_column
      ic_SetIsUnique_def SetIsUnique_def Let_def roll_back_def catchable_def)

theorem AddConstraint_rollback_forgets_witness:
  "\<exists>e t' c'. AddConstraint env0 ''u'' CONSTRAINT_UNIQUE [''a'', ''b'']
      (two_columns (dup_column\<lparr>c_isUnique := True\<rparr>) (dup_column\<lparr>c_isNullable := True\<rparr>)) = (Some e, t') \<and>
    find_column ''a'' t' = Some (ColInt c') \<and> \<not> c_isUnique c'"
  by (rule AddConstraint_rollback_forgets [where c = "dup_column\<lparr>c_isUnique := True\<rparr>"
      and d = "dup_column\<lparr>c_isNullable := True\<rparr>"])
    (simp_all add: two_columns_def find_column_def dup_column)

section \<open>Renaming\<close>

lemma map_of_filter_key: "map_of (filter (\<lambda>(k, _). k \<noteq> n) xs) m = (if m = n then None else map_of xs m)"
  by (induction xs) auto

text \<open>
  Renaming a column to a name that is free moves the column there, under its new name, and
  leaves the others alone; renaming it to a name that is taken removes the column.
\<close>

theorem RenameColumn_correct:
  assumes "find_column old t = Some c"
  shows "\<exists>t'. RenameColumn old new t = Inr t' \<and>
    (if new = old \<or> find_column new t = None
     then find_column new t' = Some (ic_setName new c) \<and>
       (\<forall>n. n \<noteq> old \<and> n \<noteq> new \<longrightarrow> find_column n t' = find_column n t) \<and> (new \<noteq> old \<longrightarrow> find_column old t' = None)
     else find_column old t' = None \<and> (\<forall>n. n \<noteq> old \<longrightarrow> find_column n t' = find_column n t))"
  using assms
  by (auto simp: RenameColumn_def Let_def ContainsColumn_def EraseColumn_def find_column_def map_of_filter_key
      map_add_def split: option.split)

theorem RenameColumn_correct_witness:
  "\<exists>t'. RenameColumn ''a'' ''b'' (two_columns dup_column dup_column) = Inr t' \<and> find_column ''a'' t' = None"
  using RenameColumn_correct [of "''a''" "two_columns dup_column dup_column" "ColInt dup_column" "''b''"]
  by (auto simp: two_columns_def find_column_def)

section \<open>Group numbers\<close>

lemma assign_loop_bound:
  assumes "\<forall>c\<in>set cs. ic_initAvgIsSet c" and "assign_loop row cs i index = Inr r"
  shows "index + int (length cs) * (2 * int i + int (length cs) - 1) \<le> r"
  using assms
proof (induction row cs i index rule: assign_loop.induct)
  case (1 row i index)
  then show ?case by simp
next
  case (2 row c cs i index)
  obtain b where "assign_loop row cs (i + 1) (index + 2 * int i + of_bool b) = Inr r"
    and len: "\<not> length row \<le> i" and av: "above_average (row ! i) c = Inr b"
    and ov: "\<not> 2 ^ 31 \<le> index + 2 * int i + of_bool b"
    using "2.prems" by (auto split: if_splits)
  then have "index + 2 * int i + of_bool b + int (length cs) * (2 * int (i + 1) + int (length cs) - 1) \<le> r"
    using "2.IH" [OF _ len ov] "2.prems"(1) by simp
  moreover have "(0 :: int) \<le> of_bool b" by simp
  ultimately have "index + 2 * int i + int (length cs) * (2 * int (i + 1) + int (length cs) - 1) \<le> r" by linarith
  then show ?case by (simp add: algebra_simps)
qed

text \<open>
  The number \<open>AssignGroupId\<close> gives to a row is none of the numbers \<open>GetTableGroupIds\<close>
  announces, for any table of two or more columns with initial averages.
\<close>

theorem AssignGroupId_not_announced:
  assumes "\<forall>c\<in>set cs. ic_initAvgIsSet c" and "2 \<le> length cs" and "AssignGroupId row cs = Inr r"
  shows "r \<notin> set (GetTableGroupIds_vec cs)"
proof -
  have "int (length cs) * (int (length cs) - 1) \<le> r"
    using assign_loop_bound [OF assms(1)] assms(3) by (force simp: AssignGroupId_def)
  moreover have "int (length cs) * 1 \<le> int (length cs) * (int (length cs) - 1)"
    using assms(2) by (intro mult_left_mono) auto
  ultimately show ?thesis by (auto simp: GetTableGroupIds_vec_def)
qed

theorem AssignGroupId_not_announced_witness:
  "AssignGroupId [AInt 1, AInt 1] (replicate 2 (ColInt (dup_column\<lparr>c_initAvgIsSet := True, c_initAvg := f32_nan\<rparr>))) =
      Inr 2 \<and>
    2 \<notin> set (GetTableGroupIds_vec (replicate 2 (ColInt (dup_column\<lparr>c_initAvgIsSet := True, c_initAvg := f32_nan\<rparr>))))"
proof -
  let ?c = "ColInt (dup_column\<lparr>c_initAvgIsSet := True, c_initAvg := f32_nan\<rparr>)"
  have s: "\<forall>c\<in>set (replicate 2 ?c). ic_initAvgIsSet c" by (simp add: ic_initAvgIsSet_def)
  have "\<not> f32_less f32_nan x" for x
    by (simp add: f32_less_def f_less_def f_isnan_def f32_nan_def f_inf_def)
  then have a: "AssignGroupId [AInt 1, AInt 1] (replicate 2 ?c) = Inr 2"
    by (simp add: AssignGroupId_def above_average_def ic_initAvg_def ic_initAvgIsSet_def numeral_2_eq_2)
  show ?thesis using a AssignGroupId_not_announced [OF s _ a] by simp
qed

end
