(* ===== verification/Allocator.thy ===== *)
theory Allocator
  imports Prelude "HOL-Library.Multiset"
begin

text \<open>
  The GPU memory allocator: \<open>CudaMemAllocator\<close> (\<open>QueryEngine/CudaMemAllocator.h\<close> and
  \<open>.cu\<close>). One buffer is reserved from the device; \<open>chainedBlocks_\<close> is a linked list of
  the blocks that tile it, \<open>blocksBySize_\<close> a multimap from sizes to the free ones and
  \<open>allocatedBlocks_\<close> a map from pointers to the allocated ones.

  The three containers refer to each other through iterators. An iterator stays valid when
  other nodes are inserted or erased, so it is modelled by the identity of its node: a
  number that no earlier node had (\<open>fresh\<close>). Using an iterator whose node is gone is
  \<open>UndefinedBehaviour\<close>.

  The CUDA runtime is not part of the program: the free memory that \<open>cudaMemGetInfo\<close>
  reports and the address that \<open>cudaMalloc\<close> returns are arguments of the constructor.
\<close>

section \<open>State\<close>

record BlockInfo =
  allocated :: bool
  sizeOrderIt :: "nat option"
  blockSize :: nat
  ptr :: nat

type_synonym chain = "(nat \<times> BlockInfo) list"

type_synonym size_index = "(nat \<times> nat \<times> nat) list"

record allocator =
  cudaBufferStart :: nat
  chainedBlocks :: chain
  blocksBySize :: size_index
  allocatedBlocks :: "nat \<rightharpoonup> nat"
  fresh :: nat

definition RESERVED_MEMORY :: nat where
  "RESERVED_MEMORY = 256000000"

section \<open>The containers\<close>

text \<open>\<open>std::multimap\<close>: entries are (node, key, mapped iterator) in the order of the keys.\<close>

definition mm_lower_bound :: "nat \<Rightarrow> size_index \<Rightarrow> (nat \<times> nat \<times> nat) option" where
  "mm_lower_bound s m = find (\<lambda>(i, k, n). s \<le> k) m"

fun mm_emplace :: "nat \<times> nat \<times> nat \<Rightarrow> size_index \<Rightarrow> size_index" where
  "mm_emplace e [] = [e]"
| "mm_emplace e (x # xs) =
    (if fst (snd x) \<le> fst (snd e) then x # mm_emplace e xs else e # x # xs)"

definition mm_erase :: "nat option \<Rightarrow> size_index \<Rightarrow> size_index result" where
  "mm_erase it m = (case it of
      None \<Rightarrow> Inl UndefinedBehaviour
    | Some i \<Rightarrow> if i \<in> fst ` set m then Inr (filter (\<lambda>e. fst e \<noteq> i) m) else Inl UndefinedBehaviour)"

text \<open>\<open>std::list\<close>: nodes in the order of the list.\<close>

definition chain_update :: "nat \<Rightarrow> (BlockInfo \<Rightarrow> BlockInfo) \<Rightarrow> chain \<Rightarrow> chain" where
  "chain_update n f xs = map (\<lambda>(m, b). (m, if m = n then f b else b)) xs"

fun chain_insert_after :: "nat \<Rightarrow> nat \<times> BlockInfo \<Rightarrow> chain \<Rightarrow> chain" where
  "chain_insert_after n x [] = [x]"
| "chain_insert_after n x (y # ys) = (if fst y = n then y # x # ys else y # chain_insert_after n x ys)"

definition chain_erase :: "nat \<Rightarrow> chain \<Rightarrow> chain" where
  "chain_erase n xs = filter (\<lambda>x. fst x \<noteq> n) xs"

fun chain_next :: "nat \<Rightarrow> chain \<Rightarrow> (nat \<times> BlockInfo) option" where
  "chain_next n (x # y # ys) = (if fst x = n then Some y else chain_next n (y # ys))"
| "chain_next n _ = None"

fun chain_prev :: "nat \<Rightarrow> chain \<Rightarrow> (nat \<times> BlockInfo) option" where
  "chain_prev n (x # y # ys) = (if fst y = n then Some x else chain_prev n (y # ys))"
| "chain_prev n _ = None"

section \<open>Operations\<close>

definition CudaMemAllocator_new :: "nat \<Rightarrow> int \<Rightarrow> nat option \<Rightarrow> allocator result" where
  "CudaMemAllocator_new free percent cudaMalloc =
    (if percent < 1 \<or> percent > 100 then Inl InvalidArgument
     else let usable = (free * nat percent mod 2 ^ 64) div 100 in
      if usable \<le> RESERVED_MEMORY then Inl InvalidArgument
      else let allocSize = usable - RESERVED_MEMORY in
        (case cudaMalloc of
          None \<Rightarrow> Inl InvalidArgument
        | Some start \<Rightarrow> Inr
            \<lparr>cudaBufferStart = start,
             chainedBlocks =
               [(0, \<lparr>allocated = False, sizeOrderIt = Some 1, blockSize = allocSize, ptr = start\<rparr>)],
             blocksBySize = mm_emplace (1, allocSize, 0) [],
             allocatedBlocks = Map.empty,
             fresh = 2\<rparr>))"

definition SplitBlock :: "nat \<times> nat \<times> nat \<Rightarrow> nat \<Rightarrow> allocator \<Rightarrow> allocator result" where
  "SplitBlock blockIterator requestedSize a =
    (let oldSize = fst (snd blockIterator); n = snd (snd blockIterator) in
     case map_of (chainedBlocks a) n of
       None \<Rightarrow> Inl UndefinedBehaviour
     | Some b \<Rightarrow>
         let l = fresh a; s = fresh a + 1;
             newFree = \<lparr>allocated = False, sizeOrderIt = Some s,
                        blockSize = oldSize - requestedSize, ptr = ptr b + requestedSize\<rparr>
         in Inr (a\<lparr>chainedBlocks := chain_update n (blockSize_update (\<lambda>_. requestedSize))
                     (chain_insert_after n (l, newFree) (chainedBlocks a)),
                   blocksBySize := mm_emplace (s, oldSize - requestedSize, l) (blocksBySize a),
                   fresh := fresh a + 2\<rparr>))"

text \<open>
  \<open>numBytes\<close> is a \<open>ptrdiff_t\<close>; rounding it up to a multiple of 512 is signed arithmetic,
  undefined when it overflows.
\<close>

definition alignedSize :: "int \<Rightarrow> nat result" where
  "alignedSize numBytes =
    (let a = if numBytes mod 512 = 0 then numBytes else numBytes + (512 - numBytes mod 512) in
     if a < 2 ^ 63 then Inr (nat a) else Inl UndefinedBehaviour)"

definition Allocate :: "int \<Rightarrow> allocator \<Rightarrow> (nat \<times> allocator) result" where
  "Allocate numBytes a =
    (if numBytes \<le> 0 then Inl OutOfRange
     else bindR (alignedSize numBytes) (\<lambda>s.
      case mm_lower_bound s (blocksBySize a) of
        None \<Rightarrow> Inl OutOfRange
      | Some (i, k, n) \<Rightarrow>
          (case map_of (chainedBlocks a) n of
            None \<Rightarrow> Inl UndefinedBehaviour
          | Some b \<Rightarrow>
              let taken = a\<lparr>chainedBlocks := chain_update n (allocated_update (\<lambda>_. True)) (chainedBlocks a)\<rparr> in
              bindR (if k > s then SplitBlock (i, k, n) s taken else Inr taken) (\<lambda>a2.
              bindR (mm_erase (Some i) (blocksBySize a2)) (\<lambda>m.
              Inr (ptr b, a2\<lparr>blocksBySize := m,
                             allocatedBlocks := (if allocatedBlocks a2 (ptr b) = None
                               then (allocatedBlocks a2)(ptr b \<mapsto> n) else allocatedBlocks a2)\<rparr>))))))"

definition CanAllocate :: "int \<Rightarrow> allocator \<Rightarrow> bool result" where
  "CanAllocate numBytes a =
    (if numBytes \<le> 0 then Inl OutOfRange
     else mapR (\<lambda>s. mm_lower_bound s (blocksBySize a) \<noteq> None) (alignedSize numBytes))"

text \<open>The two merges of \<open>Deallocate\<close>; the node that remains is returned.\<close>

definition merge_prev :: "nat \<Rightarrow> BlockInfo \<Rightarrow> allocator \<Rightarrow> (nat \<times> allocator) result" where
  "merge_prev n b a = (case chain_prev n (chainedBlocks a) of
      None \<Rightarrow> Inr (n, a)
    | Some (p, c) \<Rightarrow>
        if allocated c then Inr (n, a)
        else bindR (mm_erase (sizeOrderIt c) (blocksBySize a)) (\<lambda>m.
          Inr (p, a\<lparr>blocksBySize := m,
                    chainedBlocks := chain_erase n
                      (chain_update p (blockSize_update (\<lambda>s. s + blockSize b)) (chainedBlocks a))\<rparr>)))"

definition merge_next :: "nat \<Rightarrow> allocator \<Rightarrow> allocator result" where
  "merge_next n a = (case chain_next n (chainedBlocks a) of
      None \<Rightarrow> Inr a
    | Some (q, c) \<Rightarrow>
        if allocated c then Inr a
        else bindR (mm_erase (sizeOrderIt c) (blocksBySize a)) (\<lambda>m.
          Inr (a\<lparr>blocksBySize := m,
                 chainedBlocks := chain_erase q
                   (chain_update n (blockSize_update (\<lambda>s. s + blockSize c)) (chainedBlocks a))\<rparr>)))"

definition Deallocate :: "nat \<Rightarrow> allocator \<Rightarrow> allocator result" where
  "Deallocate p a = (case allocatedBlocks a p of
      None \<Rightarrow> Inl OutOfRange
    | Some n \<Rightarrow>
        let a1 = a\<lparr>allocatedBlocks := (allocatedBlocks a)(p := None)\<rparr> in
        (case map_of (chainedBlocks a1) n of
          None \<Rightarrow> Inl UndefinedBehaviour
        | Some b \<Rightarrow>
            bindR (merge_prev n b a1) (\<lambda>(l, a2).
            bindR (merge_next l a2) (\<lambda>a3.
            (case map_of (chainedBlocks a3) l of
              None \<Rightarrow> Inl UndefinedBehaviour
            | Some c \<Rightarrow>
                Inr (a3\<lparr>chainedBlocks := chain_update l
                          (\<lambda>c. c\<lparr>allocated := False, sizeOrderIt := Some (fresh a3)\<rparr>) (chainedBlocks a3),
                        blocksBySize := mm_emplace (fresh a3, blockSize c, l) (blocksBySize a3),
                        fresh := fresh a3 + 1\<rparr>))))))"

text \<open>\<open>Clear\<close> only writes statistics, and those only in a debug build.\<close>

definition Clear :: "allocator \<Rightarrow> allocator" where
  "Clear a = a"

end
