(* ===== verification/Memory_Cache.thy ===== *)
theory Memory_Cache
  imports Conversions Allocator "HOL-Library.Sublist"
begin

text \<open>
  The cache of column blocks in GPU memory: \<open>GPUMemoryCache\<close> (\<open>QueryEngine/GPUMemoryCache.h\<close>
  and \<open>.cpp\<close>). \<open>cacheMap_\<close> is an ordered map from names to entries, \<open>lruQueue_\<close> a linked
  list of references to the entries, least recently used first, and every entry holds the
  iterator of its own queue node. A queue node is modelled by its identity and the key of the
  map node it refers to; an iterator to a node that is gone is \<open>UndefinedBehaviour\<close>.

  The cache reaches the allocator of its device through \<open>Context\<close>; its three operations are
  the record \<open>device_ops\<close>, with the allocator state threaded through. An operation that
  throws keeps the changes it made before, so it returns the exception with both states. A
  loop that never ends is \<open>None\<close>. The static \<open>lockList_\<close> is an argument.
\<close>

section \<open>State\<close>

record 'a device_ops =
  op_CanAllocate :: "int \<Rightarrow> 'a \<Rightarrow> bool result"
  op_Allocate :: "int \<Rightarrow> 'a \<Rightarrow> (nat \<times> 'a) result"
  op_Deallocate :: "nat \<Rightarrow> 'a \<Rightarrow> 'a result"

definition cuda_ops :: "allocator device_ops" where
  "cuda_ops = \<lparr>op_CanAllocate = CanAllocate, op_Allocate = Allocate, op_Deallocate = Deallocate\<rparr>"

record CacheEntry =
  e_key :: string
  e_ptr :: nat
  e_size :: nat
  lruQueueIt :: nat

type_synonym entry_map = "(string \<times> CacheEntry) list"

record GPUMemoryCache =
  maxSize :: nat
  deviceID :: int
  cacheMap :: entry_map
  lruQueue :: "(nat \<times> string) list"
  usedSize :: int
  currentBlockIndex :: nat
  nextIt :: nat

definition GPUMemoryCache_new :: "int \<Rightarrow> nat \<Rightarrow> GPUMemoryCache" where
  "GPUMemoryCache_new device maximumSize =
    \<lparr>maxSize = maximumSize, deviceID = device, cacheMap = [], lruQueue = [], usedSize = 0,
     currentBlockIndex = 0, nextIt = 0\<rparr>"

section \<open>Standard library\<close>

text \<open>\<open>std::map\<close>: entries in the order of their keys.\<close>

fun smap_insert :: "string \<Rightarrow> CacheEntry \<Rightarrow> entry_map \<Rightarrow> entry_map" where
  "smap_insert k e [] = [(k, e)]"
| "smap_insert k e (x # xs) =
    (if fst x = k then x # xs else if k < fst x then (k, e) # x # xs else x # smap_insert k e xs)"

definition smap_erase :: "string \<Rightarrow> entry_map \<Rightarrow> entry_map" where
  "smap_erase k m = filter (\<lambda>x. fst x \<noteq> k) m"

definition smap_update :: "string \<Rightarrow> (CacheEntry \<Rightarrow> CacheEntry) \<Rightarrow> entry_map \<Rightarrow> entry_map" where
  "smap_update k f m = map (\<lambda>(k', e). (k', if k' = k then f e else e)) m"

definition smap_lower_bound :: "string \<Rightarrow> entry_map \<Rightarrow> (string \<times> CacheEntry) option" where
  "smap_lower_bound k m = find (\<lambda>x. \<not> fst x < k) m"

text \<open>\<open>std::list::erase\<close> by iterator.\<close>

definition queue_erase :: "nat \<Rightarrow> (nat \<times> string) list \<Rightarrow> (nat \<times> string) list result" where
  "queue_erase it q = (if it \<in> fst ` set q then Inr (filter (\<lambda>x. fst x \<noteq> it) q) else Inl UndefinedBehaviour)"

text \<open>\<open>std::string::find\<close> from the start and \<open>find_last_of\<close>.\<close>

fun str_find :: "string \<Rightarrow> string \<Rightarrow> nat option" where
  "str_find pat [] = (if pat = [] then Some 0 else None)"
| "str_find pat (c # s) = (if prefix pat (c # s) then Some 0 else map_option Suc (str_find pat s))"

fun find_last_of :: "string \<Rightarrow> string \<Rightarrow> nat option" where
  "find_last_of cs [] = None"
| "find_last_of cs (c # s) =
    (case find_last_of cs s of Some i \<Rightarrow> Some (Suc i) | None \<Rightarrow> if c \<in> set cs then Some 0 else None)"

section \<open>Operations\<close>

definition HasFreeSpace :: "nat \<Rightarrow> GPUMemoryCache \<Rightarrow> bool" where
  "HasFreeSpace sizeToInsert c \<longleftrightarrow> nat ((usedSize c + int sizeToInsert) mod 2 ^ 64) \<le> maxSize c"

definition SetCurrentBlockIndex :: "nat \<Rightarrow> GPUMemoryCache \<Rightarrow> GPUMemoryCache" where
  "SetCurrentBlockIndex blockIndex c = c\<lparr>currentBlockIndex := blockIndex\<rparr>"

definition block_prefix :: "string \<Rightarrow> string \<Rightarrow> int \<Rightarrow> string" where
  "block_prefix databaseName tableAndColumnName blockIndex =
    databaseName @ ''.'' @ tableAndColumnName @ ''_'' @ show_int blockIndex"

definition column_block :: "string \<Rightarrow> string \<Rightarrow> int \<Rightarrow> int \<Rightarrow> int \<Rightarrow> string" where
  "column_block databaseName tableAndColumnName blockIndex loadSize loadOffset =
    block_prefix databaseName tableAndColumnName blockIndex
      @ ''_'' @ show_int loadSize @ ''_'' @ show_int loadOffset"

definition isLockedItem :: "string list \<Rightarrow> nat \<Rightarrow> string \<Rightarrow> bool" where
  "isLockedItem lockList blockIndex key \<longleftrightarrow>
    list_ex (\<lambda>lockedColumn. str_find lockedColumn key = Some 0 \<and>
      find_last_of (show_nat blockIndex) key = Some (length lockedColumn + 1)) lockList"

definition evict_entry ::
  "'a device_ops \<Rightarrow> nat \<Rightarrow> CacheEntry \<Rightarrow> GPUMemoryCache \<Rightarrow> 'a \<Rightarrow> bool result \<times> GPUMemoryCache \<times> 'a" where
  "evict_entry D it e c a =
    (case op_Deallocate D (e_ptr e) a of
      Inl err \<Rightarrow> (Inl err, c, a)
    | Inr a' \<Rightarrow> (Inr True,
        c\<lparr>usedSize := to_int64 (usedSize c - int (e_size e)),
          cacheMap := smap_erase (e_key e) (cacheMap c),
          lruQueue := filter (\<lambda>x. fst x \<noteq> it) (lruQueue c)\<rparr>, a'))"

fun evict_scan ::
  "'a device_ops \<Rightarrow> string list \<Rightarrow> (nat \<times> string) list \<Rightarrow> GPUMemoryCache \<Rightarrow> 'a
    \<Rightarrow> bool result \<times> GPUMemoryCache \<times> 'a" where
  "evict_scan D lockList [] c a = (Inr False, c, a)"
| "evict_scan D lockList ((it, k) # q) c a =
    (case map_of (cacheMap c) k of
      None \<Rightarrow> (Inl UndefinedBehaviour, c, a)
    | Some e \<Rightarrow>
        if isLockedItem lockList (currentBlockIndex c) (e_key e) then evict_scan D lockList q c a
        else evict_entry D it e c a)"

definition Evict ::
  "'a device_ops \<Rightarrow> string list \<Rightarrow> GPUMemoryCache \<Rightarrow> 'a \<Rightarrow> bool result \<times> GPUMemoryCache \<times> 'a" where
  "Evict D lockList c a = evict_scan D lockList (lruQueue c) c a"

partial_function (option) evict_loop ::
  "'a device_ops \<Rightarrow> string list \<Rightarrow> nat \<Rightarrow> GPUMemoryCache \<Rightarrow> 'a
    \<Rightarrow> (unit result \<times> GPUMemoryCache \<times> 'a) option" where
  "evict_loop D lockList sizeToInsert c a =
    (case (if HasFreeSpace sizeToInsert c then op_CanAllocate D (to_int64 (int sizeToInsert)) a
           else Inr False) of
      Inl err \<Rightarrow> Some (Inl err, c, a)
    | Inr room \<Rightarrow>
        if room then Some (Inr (), c, a)
        else (case Evict D lockList c a of
          (Inl err, c', a') \<Rightarrow> Some (Inl err, c', a')
        | (Inr evicted, c', a') \<Rightarrow>
            if evicted then evict_loop D lockList sizeToInsert c' a'
            else Some (Inl LengthError, c', a')))"

text \<open>A cache hit moves the entry to the end of the queue.\<close>

definition touch :: "string \<Rightarrow> CacheEntry \<Rightarrow> GPUMemoryCache \<Rightarrow> GPUMemoryCache result" where
  "touch columnBlock e c = mapR (\<lambda>q. c\<lparr>lruQueue := q @ [(nextIt c, columnBlock)],
      cacheMap := smap_update columnBlock (lruQueueIt_update (\<lambda>_. nextIt c)) (cacheMap c),
      nextIt := nextIt c + 1\<rparr>) (queue_erase (lruQueueIt e) (lruQueue c))"

definition add_entry :: "string \<Rightarrow> nat \<Rightarrow> nat \<Rightarrow> GPUMemoryCache \<Rightarrow> GPUMemoryCache" where
  "add_entry columnBlock p s c =
    c\<lparr>usedSize := to_int64 (usedSize c + int s),
      cacheMap := smap_update columnBlock (lruQueueIt_update (\<lambda>_. nextIt c))
        (smap_insert columnBlock \<lparr>e_key = columnBlock, e_ptr = p, e_size = s, lruQueueIt = nextIt c\<rparr> (cacheMap c)),
      lruQueue := lruQueue c @ [(nextIt c, columnBlock)],
      nextIt := nextIt c + 1\<rparr>"

definition GetColumn ::
  "'a device_ops \<Rightarrow> string list \<Rightarrow> nat \<Rightarrow> string \<Rightarrow> string \<Rightarrow> int \<Rightarrow> nat \<Rightarrow> int \<Rightarrow> int
    \<Rightarrow> GPUMemoryCache \<Rightarrow> 'a \<Rightarrow> ((nat \<times> nat \<times> bool) result \<times> GPUMemoryCache \<times> 'a) option" where
  "GetColumn D lockList sizeofT databaseName tableAndColumnName blockIndex sz loadSize loadOffset c a =
    (let columnBlock = column_block databaseName tableAndColumnName blockIndex loadSize loadOffset in
     case map_of (cacheMap c) columnBlock of
       Some e \<Rightarrow> (case touch columnBlock e c of
           Inl err \<Rightarrow> Some (Inl err, c, a)
         | Inr c' \<Rightarrow> Some (Inr (e_ptr e, e_size e div sizeofT, True), c', a))
     | None \<Rightarrow>
         let sizeToInsert = sizeofT * sz mod 2 ^ 64 in
         if sizeToInsert > maxSize c then Some (Inl LengthError, c, a)
         else (case evict_loop D lockList sizeToInsert c a of
             None \<Rightarrow> None
           | Some (Inl err, c', a') \<Rightarrow> Some (Inl err, c', a')
           | Some (Inr _, c', a') \<Rightarrow>
               (case op_Allocate D (to_int64 (int sizeToInsert)) a' of
                 Inl err \<Rightarrow> Some (Inl err, c', a')
               | Inr (p, a'') \<Rightarrow> Some (Inr (p, sz, False), add_entry columnBlock p sizeToInsert c', a''))))"

definition FindPrefix :: "string \<Rightarrow> GPUMemoryCache \<Rightarrow> (string \<times> CacheEntry) option" where
  "FindPrefix search_for c = (case smap_lower_bound search_for (cacheMap c) of
      None \<Rightarrow> None
    | Some x \<Rightarrow> if take (length search_for) (fst x) = search_for then Some x else None)"

definition erase_found :: "'a device_ops \<Rightarrow> string \<times> CacheEntry \<Rightarrow> GPUMemoryCache \<Rightarrow> 'a
    \<Rightarrow> unit result \<times> GPUMemoryCache \<times> 'a" where
  "erase_found D x c a = (case queue_erase (lruQueueIt (snd x)) (lruQueue c) of
      Inl err \<Rightarrow> (Inl err, c, a)
    | Inr q \<Rightarrow> (case op_Deallocate D (e_ptr (snd x)) a of
        Inl err \<Rightarrow> (Inl err, c\<lparr>lruQueue := q\<rparr>, a)
      | Inr a' \<Rightarrow> (Inr (),
          c\<lparr>lruQueue := q, usedSize := to_int64 (usedSize c - int (e_size (snd x))),
            cacheMap := smap_erase (fst x) (cacheMap c)\<rparr>, a')))"

partial_function (option) clear_loop ::
  "'a device_ops \<Rightarrow> string \<Rightarrow> GPUMemoryCache \<Rightarrow> 'a \<Rightarrow> (unit result \<times> GPUMemoryCache \<times> 'a) option" where
  "clear_loop D columnBlock c a = (case FindPrefix columnBlock c of
      None \<Rightarrow> Some (Inr (), c, a)
    | Some x \<Rightarrow> (case erase_found D x c a of
        (Inl err, c', a') \<Rightarrow> Some (Inl err, c', a')
      | (Inr _, c', a') \<Rightarrow> clear_loop D columnBlock c' a'))"

definition ClearCachedBlock ::
  "'a device_ops \<Rightarrow> string \<Rightarrow> string \<Rightarrow> int \<Rightarrow> GPUMemoryCache \<Rightarrow> 'a
    \<Rightarrow> (unit result \<times> GPUMemoryCache \<times> 'a) option" where
  "ClearCachedBlock D databaseName tableAndColumnName blockIndex =
    clear_loop D (block_prefix databaseName tableAndColumnName blockIndex)"

definition ContainsColumn :: "string \<Rightarrow> string \<Rightarrow> int \<Rightarrow> int \<Rightarrow> int \<Rightarrow> GPUMemoryCache \<Rightarrow> bool" where
  "ContainsColumn databaseName tableAndColumnName blockIndex loadSize loadOffset c \<longleftrightarrow>
    map_of (cacheMap c) (column_block databaseName tableAndColumnName blockIndex loadSize loadOffset) \<noteq> None"

text \<open>The destructor gives every cached pointer back, in the order of the keys.\<close>

definition GPUMemoryCache_delete :: "'a device_ops \<Rightarrow> GPUMemoryCache \<Rightarrow> 'a \<Rightarrow> 'a result" where
  "GPUMemoryCache_delete D c a = foldR (\<lambda>x. op_Deallocate D (e_ptr (snd x))) (cacheMap c) a"

end
