(* ===== verification/Allocator_Correct.thy ===== *)
theory Allocator_Correct
  imports Allocator
begin

text \<open>
  The invariant of the GPU allocator and the proof that every operation keeps it. The
  chain of blocks tiles the buffer, no two neighbours are free, every block starts at a
  multiple of 512 bytes from the start of the buffer, the multimap holds exactly the free
  blocks in the order of their sizes and the pointer map exactly the allocated ones.

  The proofs cut the chain at the node an operation works on, \<open>xs @ (n, b) # ys\<close>; the
  iterators of the code then are plain positions of that list.
\<close>

section \<open>The invariant\<close>

definition bytes :: "chain \<Rightarrow> nat" where
  "bytes xs = (\<Sum>(n, b)\<leftarrow>xs. blockSize b)"

fun tiled :: "nat \<Rightarrow> chain \<Rightarrow> bool" where
  "tiled s [] \<longleftrightarrow> True"
| "tiled s ((n, b) # xs) \<longleftrightarrow> ptr b = s \<and> 0 < blockSize b \<and> tiled (s + blockSize b) xs"

definition free_node :: "nat \<times> BlockInfo \<Rightarrow> bool" where
  "free_node x \<longleftrightarrow> \<not> allocated (snd x)"

definition tiling_ok :: "nat \<Rightarrow> chain \<Rightarrow> bool" where
  "tiling_ok start xs \<longleftrightarrow> tiled start xs \<and> successively (\<lambda>x y. \<not> (free_node x \<and> free_node y)) xs
     \<and> (\<forall>x \<in> set xs. 512 dvd ptr (snd x) - start)"

definition index_entry :: "nat \<times> BlockInfo \<Rightarrow> nat \<times> nat \<times> nat" where
  "index_entry x = (the (sizeOrderIt (snd x)), blockSize (snd x), fst x)"

definition index_of :: "chain \<Rightarrow> size_index" where
  "index_of xs = map index_entry (filter free_node xs)"

definition index_ok :: "chain \<Rightarrow> size_index \<Rightarrow> bool" where
  "index_ok xs m \<longleftrightarrow> mset m = mset (index_of xs) \<and> sorted (map (fst \<circ> snd) m)"

definition nodes_ok :: "nat \<Rightarrow> chain \<Rightarrow> bool" where
  "nodes_ok f xs \<longleftrightarrow> distinct (map fst xs) \<and> distinct (map fst (index_of xs))
     \<and> (\<forall>x \<in> set xs. fst x < f \<and> (free_node x \<longrightarrow> (\<exists>i < f. sizeOrderIt (snd x) = Some i)))"

definition taken_of :: "chain \<Rightarrow> (nat \<times> nat) list" where
  "taken_of xs = map (\<lambda>x. (ptr (snd x), fst x)) (filter (\<lambda>x. \<not> free_node x) xs)"

definition alloc_ok :: "allocator \<Rightarrow> bool" where
  "alloc_ok a \<longleftrightarrow> chainedBlocks a \<noteq> [] \<and> tiling_ok (cudaBufferStart a) (chainedBlocks a)
     \<and> index_ok (chainedBlocks a) (blocksBySize a) \<and> nodes_ok (fresh a) (chainedBlocks a)
     \<and> allocatedBlocks a = map_of (taken_of (chainedBlocks a))"

text \<open>
  What a client of the allocator sees: the blocks as (address, size, allocated) triples, and
  the live allocations with their sizes.
\<close>

definition layout :: "allocator \<Rightarrow> (nat \<times> nat \<times> bool) list" where
  "layout a = map (\<lambda>(n, b). (ptr b, blockSize b, allocated b)) (chainedBlocks a)"

definition live_of :: "chain \<Rightarrow> (nat \<times> nat) list" where
  "live_of xs = map (\<lambda>x. (ptr (snd x), blockSize (snd x))) (filter (\<lambda>x. \<not> free_node x) xs)"

definition live :: "allocator \<Rightarrow> nat \<rightharpoonup> nat" where
  "live a = map_of (live_of (chainedBlocks a))"

section \<open>Lists cut at a node\<close>

lemma bytes_simps [simp]:
  "bytes [] = 0" "bytes (x # xs) = blockSize (snd x) + bytes xs" "bytes (xs @ ys) = bytes xs + bytes ys"
  by (auto simp: bytes_def split: prod.splits)

lemma tiled_append: "tiled s (xs @ ys) \<longleftrightarrow> tiled s xs \<and> tiled (s + bytes xs) ys"
  by (induction s xs rule: tiled.induct) (auto simp: add.assoc)

lemma tiled_bounds:
  "tiled s xs \<Longrightarrow> x \<in> set xs \<Longrightarrow>
    s \<le> ptr (snd x) \<and> ptr (snd x) + blockSize (snd x) \<le> s + bytes xs \<and> 0 < blockSize (snd x)"
  by (induction s xs rule: tiled.induct) fastforce+

lemma tiled_distinct: "tiled s xs \<Longrightarrow> distinct (map (ptr \<circ> snd) xs)"
proof (induction s xs rule: tiled.induct)
  case (2 s n b xs)
  have "ptr (snd x) \<noteq> s" if "x \<in> set xs" for x
    using tiled_bounds [OF _ that, of "s + blockSize b"] 2 by auto
  then have "s \<notin> (ptr \<circ> snd) ` set xs" by auto
  with 2 show ?case by simp
qed simp

lemma index_of_simps [simp]:
  "index_of [] = []"
  "index_of (x # xs) = (if free_node x then index_entry x # index_of xs else index_of xs)"
  "index_of (xs @ ys) = index_of xs @ index_of ys"
  by (simp_all add: index_of_def)

lemma taken_of_simps [simp]:
  "taken_of [] = []"
  "taken_of (x # xs) = (if free_node x then taken_of xs else (ptr (snd x), fst x) # taken_of xs)"
  "taken_of (xs @ ys) = taken_of xs @ taken_of ys"
  by (simp_all add: taken_of_def)

lemma live_of_simps [simp]:
  "live_of [] = []"
  "live_of (x # xs) = (if free_node x then live_of xs else (ptr (snd x), blockSize (snd x)) # live_of xs)"
  "live_of (xs @ ys) = live_of xs @ live_of ys"
  by (simp_all add: live_of_def)

lemma chain_update_cut [simp]:
  "n \<notin> fst ` set xs \<Longrightarrow> n \<notin> fst ` set ys \<Longrightarrow>
    chain_update n f (xs @ (n, b) # ys) = xs @ (n, f b) # ys"
  by (force simp: chain_update_def intro: map_idI)

lemma map_of_cut [simp]: "n \<notin> fst ` set xs \<Longrightarrow> map_of (xs @ (n, b) # ys) n = Some b"
  by (induction xs) auto

lemma chain_insert_after_cut [simp]:
  "n \<notin> fst ` set xs \<Longrightarrow> chain_insert_after n x (xs @ (n, b) # ys) = xs @ (n, b) # x # ys"
  by (induction xs) auto

lemma filter_other: "n \<notin> fst ` set xs \<Longrightarrow> filter (\<lambda>x. fst x \<noteq> n) xs = xs"
  by (induction xs) auto

lemma chain_erase_cut [simp]:
  "n \<notin> fst ` set xs \<Longrightarrow> n \<notin> fst ` set ys \<Longrightarrow> chain_erase n (xs @ (n, b) # ys) = xs @ ys"
  by (simp add: chain_erase_def filter_other)

lemma chain_next_cut:
  "n \<notin> fst ` set xs \<Longrightarrow>
    chain_next n (xs @ (n, b) # ys) = (case ys of [] \<Rightarrow> None | y # _ \<Rightarrow> Some y)"
proof (induction xs)
  case Nil
  show ?case by (cases ys) simp_all
next
  case (Cons x xs)
  then show ?case by (cases xs) auto
qed

lemma chain_prev_cut:
  "n \<notin> fst ` set xs \<Longrightarrow> n \<notin> fst ` set ys \<Longrightarrow>
    chain_prev n (xs @ (n, b) # ys) = (if xs = [] then None else Some (last xs))"
proof (induction xs)
  case Nil
  have "chain_prev n (x # ys) = None" if "n \<notin> fst ` set ys" for x
    using that by (induction ys arbitrary: x) auto
  with Nil show ?case by simp
next
  case (Cons x xs)
  then show ?case by (cases xs) auto
qed

section \<open>The multimap\<close>

lemma mset_mm_emplace [simp]: "mset (mm_emplace e m) = add_mset e (mset m)"
  by (induction m) auto

lemma set_mm_emplace [simp]: "set (mm_emplace e m) = insert e (set m)"
  by (induction m) auto

lemma sorted_mm_emplace [simp]:
  "sorted (map (fst \<circ> snd) m) \<Longrightarrow> sorted (map (fst \<circ> snd) (mm_emplace e m))"
  by (induction m) auto

lemma mset_filter_fst:
  assumes "distinct (map fst m)" and "(i, e) \<in> set m"
  shows "mset (filter (\<lambda>x. fst x \<noteq> i) m) = mset m - {#(i, e)#}"
  using assms
proof (induction m)
  case (Cons x m)
  show ?case
  proof (cases "x = (i, e)")
    case True
    with Cons.prems(1) have "filter (\<lambda>x. fst x \<noteq> i) m = m"
      by (simp add: filter_other)
    with True show ?thesis by simp
  next
    case False
    with Cons.prems have "(i, e) \<in> set m" by simp
    moreover from this Cons.prems(1) have "fst x \<noteq> i" by (auto simp: image_iff)
    ultimately show ?thesis using Cons False by simp
  qed
qed simp

lemma mm_erase_free:
  assumes ok: "index_ok (xs @ x # ys) m" and nodes: "distinct (map fst (index_of (xs @ x # ys)))"
    and free: "free_node x" "sizeOrderIt (snd x) = Some i"
  shows "\<exists>m'. mm_erase (Some i) m = Inr m' \<and> index_ok (xs @ ys) m'"
proof -
  have "index_entry x = (i, blockSize (snd x), fst x)" using free by (simp add: index_entry_def)
  then have entry: "(i, blockSize (snd x), fst x) \<in> set m"
    using ok free(1) mset_eq_setD [of m "index_of (xs @ x # ys)"] by (simp add: index_ok_def)
  have "distinct (map fst m)"
    using ok nodes mset_eq_imp_distinct_iff [of "map fst m" "map fst (index_of (xs @ x # ys))"]
    unfolding index_ok_def mset_map by simp
  from mset_filter_fst [OF this entry] have "index_ok (xs @ ys) (filter (\<lambda>e. fst e \<noteq> i) m)"
    using ok free by (auto simp: index_ok_def index_entry_def sorted_filter)
  with entry show ?thesis by (force simp: mm_erase_def)
qed

lemma index_ok_insert:
  "index_ok (xs @ ys) m \<Longrightarrow> free_node x \<Longrightarrow>
    index_ok (xs @ x # ys) (mm_emplace (index_entry x) m)"
  by (simp add: index_ok_def)

lemma index_ok_allocated: "\<not> free_node x \<Longrightarrow> index_ok (xs @ x # ys) m \<longleftrightarrow> index_ok (xs @ ys) m"
  by (simp add: index_ok_def)

section \<open>Allocation\<close>

lemma nodes_ok_cut:
  assumes "nodes_ok f (xs @ (n, b) # ys)"
  shows "n \<notin> fst ` set xs" "n \<notin> fst ` set ys" "n < f"
    "distinct (map fst (xs @ ys))" "fst ` set xs \<inter> fst ` set ys = {}"
  using assms by (auto simp: nodes_ok_def)

lemma node_new: "nodes_ok f xs \<Longrightarrow> f \<le> k \<Longrightarrow> k \<notin> fst ` set xs"
  by (auto simp: nodes_ok_def)

lemma index_node_new: "nodes_ok f xs \<Longrightarrow> f \<le> k \<Longrightarrow> k \<notin> fst ` set (index_of xs)"
  by (fastforce simp: nodes_ok_def index_of_def index_entry_def)

lemma lower_bound_node:
  assumes ok: "index_ok xs m" "nodes_ok f xs" and found: "mm_lower_bound s m = Some (i, k, n)"
  obtains xs1 b xs2 where "xs = xs1 @ (n, b) # xs2" "\<not> allocated b" "sizeOrderIt b = Some i"
    "blockSize b = k" "s \<le> k" "\<forall>x \<in> set xs. free_node x \<longrightarrow> s \<le> blockSize (snd x) \<longrightarrow> k \<le> blockSize (snd x)"
proof -
  from found obtain j where j: "j < length m" "(i, k, n) = m ! j" "s \<le> fst (snd (m ! j))"
      "\<forall>i' < j. \<not> s \<le> fst (snd (m ! i'))"
    by (auto simp: mm_lower_bound_def find_Some_iff split_beta)
  from j(2,3) have sk: "s \<le> k" by (metis fst_conv snd_conv)
  have sets: "set m = set (index_of xs)" using ok(1) mset_eq_setD by (auto simp: index_ok_def)
  with j have "(i, k, n) \<in> set (index_of xs)" by (metis nth_mem)
  then obtain b where b: "(n, b) \<in> set xs" "\<not> allocated b" "the (sizeOrderIt b) = i" "blockSize b = k"
    by (auto simp: index_of_def index_entry_def free_node_def)
  have i: "sizeOrderIt b = Some i" using b ok(2) by (force simp: nodes_ok_def free_node_def)
  have least: "k \<le> fst (snd e)" if "e \<in> set m" "s \<le> fst (snd e)" for e
  proof -
    from that obtain l where l: "l < length m" "m ! l = e" by (auto simp: in_set_conv_nth)
    with j that have "j \<le> l" by (meson leI)
    with ok(1) j l have "fst (snd (m ! j)) \<le> fst (snd e)"
      by (auto simp: index_ok_def sorted_iff_nth_mono)
    with j(2) show ?thesis by (metis fst_conv snd_conv)
  qed
  have "k \<le> blockSize (snd x)" if "x \<in> set xs" "free_node x" "s \<le> blockSize (snd x)" for x
    using least [of "index_entry x"] that sets by (simp add: index_of_def index_entry_def)
  with b i sk show thesis
    by (metis that split_list)
qed

definition taken_chain :: "nat \<Rightarrow> nat \<Rightarrow> chain \<Rightarrow> nat \<times> BlockInfo \<Rightarrow> chain \<Rightarrow> chain" where
  "taken_chain f s xs x ys =
    xs @ (fst x, (snd x)\<lparr>allocated := True, blockSize := s\<rparr>) #
      (if s < blockSize (snd x)
       then (f, \<lparr>allocated = False, sizeOrderIt = Some (f + 1),
                 blockSize = blockSize (snd x) - s, ptr = ptr (snd x) + s\<rparr>) # ys
       else ys)"

lemma tiling_taken:
  assumes ok: "tiling_ok start (xs @ x # ys)" and free: "free_node x"
    and s: "0 < s" "s \<le> blockSize (snd x)" "512 dvd s"
  shows "tiling_ok start (taken_chain f s xs x ys)"
proof -
  have "ys = [] \<or> \<not> free_node (hd ys)"
    using ok free by (auto simp: tiling_ok_def successively_append_iff successively_Cons)
  moreover have start: "start \<le> ptr (snd x)"
    using ok tiled_bounds [of start "xs @ x # ys" x] by (simp add: tiling_ok_def)
  then have "512 dvd ptr (snd x) + s - start" if "512 dvd ptr (snd x) - start"
    using that s(3) by (metis Nat.add_diff_assoc2 dvd_add)
  ultimately show ?thesis
    using ok s free by (cases x)
      (auto simp: tiling_ok_def taken_chain_def tiled_append successively_append_iff successively_Cons free_node_def add.assoc)
qed

lemma nodes_taken:
  assumes ok: "nodes_ok f (xs @ x # ys)" and free: "free_node x"
  shows "nodes_ok (if s < blockSize (snd x) then f + 2 else f) (taken_chain f s xs x ys)"
proof -
  from index_node_new [OF ok, of "f + 1"]
  have "Suc f \<notin> fst ` set (index_of xs) \<union> fst ` set (index_of ys)" using free by auto
  moreover from node_new [OF ok, of f]
  have "f \<notin> fst ` set xs \<union> fst ` set ys" "fst x \<noteq> f" by auto
  ultimately show ?thesis
    using ok free
    by (auto simp: nodes_ok_def taken_chain_def free_node_def index_entry_def less_Suc_eq)
qed

lemma taken_of_ptrs: "tiled start (xs @ x # ys) \<Longrightarrow> ptr (snd x) \<notin> fst ` set (taken_of (xs @ ys))"
  by (drule tiled_distinct) (force simp: taken_of_def)

lemma map_of_middle: "k \<notin> fst ` set xs \<Longrightarrow> map_of (xs @ (k, v) # ys) = (map_of (xs @ ys))(k \<mapsto> v)"
  by (induction xs) (auto simp: fun_upd_twist)

lemma map_of_taken:
  assumes "tiled start (xs @ x # ys)" and "free_node x"
  shows "map_of (taken_of (taken_chain f s xs x ys)) =
    (map_of (taken_of (xs @ x # ys)))(ptr (snd x) \<mapsto> fst x)"
    and "map_of (taken_of (xs @ x # ys)) (ptr (snd x)) = None"
  using taken_of_ptrs [OF assms(1)] assms(2)
  by (auto simp: taken_chain_def free_node_def map_of_middle map_of_eq_None_iff image_Un simp del: map_of_append)

lemma Allocate_eq:
  assumes ok: "alloc_ok a" and s: "0 < numBytes" "alignedSize numBytes = Inr s"
    and found: "mm_lower_bound s (blocksBySize a) = Some (i, k, n)"
    and cut: "chainedBlocks a = xs @ (n, b) # ys"
    and b: "\<not> allocated b" "sizeOrderIt b = Some i" "blockSize b = k" "s \<le> k"
  shows "\<exists>m. Allocate numBytes a = Inr (ptr b,
      a\<lparr>chainedBlocks := taken_chain (fresh a) s xs (n, b) ys, blocksBySize := m,
        allocatedBlocks := (allocatedBlocks a)(ptr b \<mapsto> n),
        fresh := if s < k then fresh a + 2 else fresh a\<rparr>)
    \<and> index_ok (taken_chain (fresh a) s xs (n, b) ys) m"
proof -
  have nodes: "nodes_ok (fresh a) (xs @ (n, b) # ys)" and index: "index_ok (xs @ (n, b) # ys) (blocksBySize a)"
    using ok cut by (auto simp: alloc_ok_def)
  note n = nodes_ok_cut [OF nodes]
  have free: "free_node (n, b)" using b by (simp add: free_node_def)
  have p: "allocatedBlocks a (ptr b) = None"
    using map_of_taken(2) [of "cudaBufferStart a" xs "(n, b)" ys] ok cut free
    by (simp add: alloc_ok_def tiling_ok_def)
  have dist: "distinct (map fst (index_of (xs @ (n, b) # ys)))"
    using nodes by (simp add: nodes_ok_def)
  show ?thesis
  proof (cases "s < k")
    case False
    from mm_erase_free [OF index dist free] b obtain m where
      "mm_erase (Some i) (blocksBySize a) = Inr m" "index_ok (xs @ ys) m" by auto
    with False s found cut b n p show ?thesis
      by (auto simp: Allocate_def taken_chain_def index_ok_def free_node_def simp del: map_of_append)
  next
    case True
    let ?x = "(fresh a, \<lparr>allocated = False, sizeOrderIt = Some (fresh a + 1), blockSize = k - s, ptr = ptr b + s\<rparr>)"
    have entry: "index_entry ?x = (fresh a + 1, k - s, fresh a)" by (simp add: index_entry_def)
    have index2: "index_ok (xs @ (n, b) # ?x # ys) (mm_emplace (index_entry ?x) (blocksBySize a))"
      using index_ok_insert [of "xs @ [(n, b)]" ys "blocksBySize a" ?x] index by (simp add: free_node_def)
    have "distinct (map fst (index_of (xs @ (n, b) # ?x # ys)))"
      using dist index_node_new [OF nodes, of "fresh a + 1"] free
      by (simp add: index_entry_def free_node_def image_Un)
    from mm_erase_free [OF index2 this free] b obtain m where
      "mm_erase (Some i) (mm_emplace (index_entry ?x) (blocksBySize a)) = Inr m" "index_ok (xs @ ?x # ys) m"
      by auto
    with True s found cut b n p entry show ?thesis
      by (auto simp: Allocate_def SplitBlock_def taken_chain_def index_ok_def free_node_def Let_def
          simp del: map_of_append)
  qed
qed

lemma alignedSize_Inr:
  assumes "alignedSize numBytes = Inr s" "0 < numBytes"
  shows "512 dvd s" "0 < s" "numBytes \<le> int s" "int s < numBytes + 512"
proof -
  let ?r = "(- numBytes) mod 512"
  have r: "0 \<le> ?r" "?r < 512" "(numBytes + ?r) mod 512 = 0" by (simp_all add: mod_add_right_eq)
  have "(if numBytes mod 512 = 0 then numBytes else numBytes + (512 - numBytes mod 512)) = numBytes + ?r"
    by (simp add: zmod_zminus1_eq_if)
  then have s: "s = nat (numBytes + ?r)"
    using assms by (simp add: alignedSize_def Let_def split: if_splits)
  then have "int s = numBytes + ?r" using r(1) assms(2) by simp
  with r(3) have "int 512 dvd int s" by (simp add: mod_0_imp_dvd)
  then show "512 dvd s" by (simp only: int_dvd_int_iff)
  show "0 < s" "numBytes \<le> int s" "int s < numBytes + 512" using s r assms(2) by auto
qed

section \<open>Deallocation\<close>

definition left_rest :: "chain \<Rightarrow> chain" where
  "left_rest xs = (if xs \<noteq> [] \<and> free_node (last xs) then butlast xs else xs)"

definition merged_left :: "chain \<Rightarrow> nat \<times> BlockInfo \<Rightarrow> nat \<times> BlockInfo" where
  "merged_left xs x = (if xs \<noteq> [] \<and> free_node (last xs)
    then (fst (last xs), blockSize_update (\<lambda>s. s + blockSize (snd x)) (snd (last xs))) else x)"

definition right_rest :: "chain \<Rightarrow> chain" where
  "right_rest ys = (if ys \<noteq> [] \<and> free_node (hd ys) then tl ys else ys)"

definition merged_right :: "nat \<times> BlockInfo \<Rightarrow> chain \<Rightarrow> nat \<times> BlockInfo" where
  "merged_right x ys = (if ys \<noteq> [] \<and> free_node (hd ys)
    then (fst x, blockSize_update (\<lambda>s. s + blockSize (snd (hd ys))) (snd x)) else x)"

definition freed_node :: "nat \<Rightarrow> nat \<times> BlockInfo \<Rightarrow> nat \<times> BlockInfo" where
  "freed_node f x = (fst x, (snd x)\<lparr>allocated := False, sizeOrderIt := Some f\<rparr>)"

definition freed_chain :: "nat \<Rightarrow> chain \<Rightarrow> nat \<times> BlockInfo \<Rightarrow> chain \<Rightarrow> chain" where
  "freed_chain f xs x ys =
    left_rest xs @ freed_node f (merged_right (merged_left xs x) ys) # right_rest ys"

lemma merge_prev_eq:
  assumes cut: "chainedBlocks a = xs @ (n, b) # ys" and nodes: "nodes_ok f (xs @ (n, b) # ys)"
    and index: "index_ok (xs @ ys) (blocksBySize a)" and b: "allocated b"
  shows "\<exists>m. merge_prev n b a = Inr (fst (merged_left xs (n, b)),
      a\<lparr>blocksBySize := m, chainedBlocks := left_rest xs @ merged_left xs (n, b) # ys\<rparr>)
    \<and> index_ok (left_rest xs @ ys) m"
proof (cases "xs \<noteq> [] \<and> free_node (last xs)")
  case False
  then have "merge_prev n b a = Inr (n, a)"
    using cut nodes_ok_cut [OF nodes]
    by (auto simp: merge_prev_def chain_prev_cut free_node_def split: prod.splits)
  moreover have "a = a\<lparr>blocksBySize := blocksBySize a, chainedBlocks := xs @ (n, b) # ys\<rparr>"
    using cut by simp
  ultimately show ?thesis
    using False index by (metis left_rest_def merged_left_def fst_conv)
next
  case True
  then obtain zs l d where xs: "xs = zs @ [(l, d)]"
    by (metis append_butlast_last_id surj_pair)
  with True nodes obtain i where d: "\<not> allocated d" "sizeOrderIt d = Some i"
    by (auto simp: nodes_ok_def free_node_def)
  have dist: "distinct (map fst (index_of (zs @ (l, d) # ys)))"
    using nodes b xs d by (simp add: nodes_ok_def free_node_def)
  from mm_erase_free [OF _ dist] index xs d obtain m where
    m: "mm_erase (Some i) (blocksBySize a) = Inr m" "index_ok (zs @ ys) m"
    by (auto simp: free_node_def)
  have l: "l \<notin> fst ` set zs" "l \<notin> fst ` set ((n, b) # ys)"
    using nodes_ok_cut(1,2) [of f zs l d "(n, b) # ys"] nodes xs by simp_all
  have n: "n \<notin> fst ` set (zs @ [(l, e)])" "n \<notin> fst ` set ys" for e
    using nodes_ok_cut(1,2) [OF nodes] xs by simp_all
  have "chain_erase n (chain_update l g (zs @ (l, d) # (n, b) # ys)) = zs @ (l, g d) # ys" for g
    using l chain_erase_cut [OF n] by simp
  then show ?thesis
    using cut xs d m(1) chain_prev_cut [OF n, of d b] True m(2)
    by (simp add: merge_prev_def left_rest_def merged_left_def) blast
qed

lemma merge_next_eq:
  assumes cut: "chainedBlocks a = xs @ (n, b) # ys" and nodes: "distinct (map fst (xs @ (n, b) # ys))"
    and index: "index_ok (xs @ ys) (blocksBySize a)" and dist: "nodes_ok f (xs @ ys)"
  shows "\<exists>m. merge_next n a = Inr
      (a\<lparr>blocksBySize := m, chainedBlocks := xs @ merged_right (n, b) ys # right_rest ys\<rparr>)
    \<and> index_ok (xs @ right_rest ys) m"
proof (cases "ys \<noteq> [] \<and> free_node (hd ys)")
  case False
  then have "merge_next n a = Inr a"
    using cut nodes by (cases ys) (auto simp: merge_next_def chain_next_cut free_node_def split: prod.splits)
  moreover have "a = a\<lparr>blocksBySize := blocksBySize a, chainedBlocks := xs @ (n, b) # ys\<rparr>"
    using cut by simp
  ultimately show ?thesis
    using False index by (metis right_rest_def merged_right_def)
next
  case True
  then obtain zs l d where ys: "ys = (l, d) # zs" by (metis list.collapse surj_pair)
  with True dist obtain i where d: "\<not> allocated d" "sizeOrderIt d = Some i"
    by (auto simp: nodes_ok_def free_node_def)
  have free: "free_node (l, d)" using d by (simp add: free_node_def)
  have "distinct (map fst (index_of (xs @ (l, d) # zs)))" using dist ys by (simp only: nodes_ok_def)
  from mm_erase_free [OF _ this free] index ys d obtain m where
    m: "mm_erase (Some i) (blocksBySize a) = Inr m" "index_ok (xs @ zs) m" by auto
  have l: "l \<notin> fst ` set (xs @ [(n, e)])" "l \<notin> fst ` set zs" and n: "n \<notin> fst ` set xs" "n \<notin> fst ` set ((l, d) # zs)"
    for e using nodes ys by auto
  have "chain_erase l (chain_update n g (xs @ (n, b) # (l, d) # zs)) = xs @ (n, g b) # zs" for g
    using n chain_erase_cut [OF l] by simp
  then show ?thesis
    using cut ys d m chain_next_cut [OF n(1), of b "(l, d) # zs"] True
    by (simp add: merge_next_def right_rest_def merged_right_def) blast
qed

lemma left_merge_facts:
  assumes "nodes_ok f (xs @ (n, b) # ys)"
  shows "distinct (map fst (left_rest xs @ merged_left xs (n, b) # ys))"
    and "nodes_ok f (left_rest xs @ ys)"
    and "fst (merged_left xs (n, b)) < f"
proof -
  have "distinct (map fst (left_rest xs @ merged_left xs (n, b) # ys)) \<and> nodes_ok f (left_rest xs @ ys)
    \<and> fst (merged_left xs (n, b)) < f"
  proof (cases "xs \<noteq> [] \<and> free_node (last xs)")
    case True
    then obtain zs l d where xs: "xs = zs @ [(l, d)]" by (metis append_butlast_last_id surj_pair)
    with True assms show ?thesis
      by (simp add: left_rest_def merged_left_def nodes_ok_def split: if_splits)
  next
    case False
    then have "left_rest xs = xs" "merged_left xs (n, b) = (n, b)"
      by (auto simp: left_rest_def merged_left_def)
    with assms show ?thesis by (simp add: nodes_ok_def split: if_splits)
  qed
  then show "distinct (map fst (left_rest xs @ merged_left xs (n, b) # ys))"
    "nodes_ok f (left_rest xs @ ys)" "fst (merged_left xs (n, b)) < f" by simp_all
qed

lemma nodes_right_rest:
  assumes "nodes_ok f (xs @ ys)" "distinct (map fst (xs @ x # ys))"
  shows "nodes_ok f (xs @ right_rest ys)" "distinct (map fst (xs @ x # right_rest ys))"
  using assms by (cases ys; simp add: right_rest_def nodes_ok_def split: if_splits)+

lemma fst_merged_right [simp]: "fst (merged_right x ys) = fst x"
  by (simp add: merged_right_def)

lemma nodes_freed:
  assumes "nodes_ok f (xs @ x # ys)"
  shows "nodes_ok (f + 1) (freed_chain f xs x ys)"
proof -
  obtain n b where x: "x = (n, b)" by (cases x)
  note facts = left_merge_facts [OF assms [unfolded x]]
  note rest = nodes_right_rest [OF facts(2,1)]
  have "f \<notin> fst ` set (index_of (left_rest xs @ right_rest ys))"
    using index_node_new [OF rest(1)] by simp
  then show ?thesis
    using rest facts(3) x
    by (auto simp: freed_chain_def freed_node_def nodes_ok_def index_entry_def free_node_def less_Suc_eq)
qed

lemma free_freed_node [simp]: "free_node (freed_node f x)"
  by (simp add: freed_node_def free_node_def)

lemma left_rest_cases:
  obtains (keep) "left_rest xs = xs" "\<And>x. merged_left xs x = x" "xs = [] \<or> \<not> free_node (last xs)"
  | (join) zs y where "xs = zs @ [y]" "free_node y" "left_rest xs = zs"
      "\<And>x. merged_left xs x = (fst y, blockSize_update (\<lambda>s. s + blockSize (snd x)) (snd y))"
proof (cases "xs \<noteq> [] \<and> free_node (last xs)")
  case True
  then show thesis using join [of "butlast xs" "last xs"] by (simp add: left_rest_def merged_left_def)
next
  case False
  then show thesis using keep by (auto simp: left_rest_def merged_left_def)
qed

lemma right_rest_cases:
  obtains (keep) "right_rest ys = ys" "\<And>x. merged_right x ys = x" "ys = [] \<or> \<not> free_node (hd ys)"
  | (join) zs y where "ys = y # zs" "free_node y" "right_rest ys = zs"
      "\<And>x. merged_right x ys = (fst x, blockSize_update (\<lambda>s. s + blockSize (snd y)) (snd x))"
proof (cases "ys \<noteq> [] \<and> free_node (hd ys)")
  case True
  then show thesis using join [of "hd ys" "tl ys"] by (simp add: right_rest_def merged_right_def)
next
  case False
  then show thesis using keep by (auto simp: right_rest_def merged_right_def)
qed

lemma taken_of_freed: "\<not> free_node x \<Longrightarrow> taken_of (freed_chain f xs x ys) = taken_of xs @ taken_of ys"
  by (cases xs rule: left_rest_cases; cases ys rule: right_rest_cases) (auto simp: freed_chain_def)

lemma live_of_freed: "\<not> free_node x \<Longrightarrow> live_of (freed_chain f xs x ys) = live_of xs @ live_of ys"
  by (cases xs rule: left_rest_cases; cases ys rule: right_rest_cases) (auto simp: freed_chain_def)

lemma bytes_freed: "bytes (freed_chain f xs x ys) = bytes (xs @ x # ys)"
  by (cases xs rule: left_rest_cases; cases ys rule: right_rest_cases)
    (auto simp: freed_chain_def freed_node_def)

lemmas tiling_simps = tiling_ok_def tiled_append successively_append_iff successively_Cons

lemma tiling_freed:
  assumes "tiling_ok start (xs @ x # ys)"
  shows "tiling_ok start (freed_chain f xs x ys)"
proof (cases xs rule: left_rest_cases; cases ys rule: right_rest_cases)
qed (use assms in \<open>cases x; auto simp: freed_chain_def freed_node_def free_node_def tiling_simps add.assoc\<close>)+

lemma map_of_remove:
  assumes "distinct (map fst (xs @ (k, v) # ys))"
  shows "map_of (xs @ ys) = (map_of (xs @ (k, v) # ys))(k := None)"
  using assms by (auto simp: map_of_middle map_of_eq_None_iff image_Un fun_upd_idem simp del: map_of_append)

lemma taken_of_distinct: "tiled start xs \<Longrightarrow> distinct (map fst (taken_of xs))"
  by (drule tiled_distinct) (auto simp: taken_of_def comp_def intro!: distinct_map_filter)

lemma allocated_node:
  assumes "alloc_ok a" and "allocatedBlocks a p = Some n"
  obtains xs b ys where "chainedBlocks a = xs @ (n, b) # ys" "allocated b" "ptr b = p"
proof -
  from assms have "(p, n) \<in> set (taken_of (chainedBlocks a))"
    by (auto simp: alloc_ok_def dest: map_of_SomeD)
  then obtain b where "(n, b) \<in> set (chainedBlocks a)" "allocated b" "ptr b = p"
    by (auto simp: taken_of_def free_node_def)
  with that show thesis by (metis split_list)
qed

lemma Deallocate_eq:
  assumes ok: "alloc_ok a" and cut: "chainedBlocks a = xs @ (n, b) # ys" and b: "allocated b"
  shows "\<exists>m. Deallocate (ptr b) a = Inr
      (a\<lparr>chainedBlocks := freed_chain (fresh a) xs (n, b) ys, blocksBySize := m,
         allocatedBlocks := (allocatedBlocks a)(ptr b := None), fresh := fresh a + 1\<rparr>)
    \<and> index_ok (freed_chain (fresh a) xs (n, b) ys) m"
proof -
  let ?l = "merged_left xs (n, b)"
  let ?c = "merged_right ?l ys"
  have nodes: "nodes_ok (fresh a) (xs @ (n, b) # ys)" and index: "index_ok (xs @ ys) (blocksBySize a)"
    and tiled: "tiled (cudaBufferStart a) (xs @ (n, b) # ys)"
    using ok cut b by (auto simp: alloc_ok_def tiling_ok_def index_ok_allocated free_node_def)
  note n = nodes_ok_cut [OF nodes] and facts = left_merge_facts [OF nodes]
  have found: "allocatedBlocks a (ptr b) = Some n"
    using ok cut b taken_of_ptrs [OF tiled]
    by (simp add: alloc_ok_def free_node_def map_of_middle image_Un del: map_of_append)
  let ?a1 = "a\<lparr>allocatedBlocks := (allocatedBlocks a)(ptr b := None)\<rparr>"
  obtain m1 where m1: "merge_prev n b ?a1 = Inr (fst ?l,
      ?a1\<lparr>blocksBySize := m1, chainedBlocks := left_rest xs @ ?l # ys\<rparr>)" "index_ok (left_rest xs @ ys) m1"
    using merge_prev_eq [of ?a1, OF _ nodes _ b] cut index by auto
  let ?a2 = "?a1\<lparr>blocksBySize := m1, chainedBlocks := left_rest xs @ ?l # ys\<rparr>"
  obtain m2 where m2: "merge_next (fst ?l) ?a2 = Inr
      (?a2\<lparr>blocksBySize := m2, chainedBlocks := left_rest xs @ ?c # right_rest ys\<rparr>)"
      "index_ok (left_rest xs @ right_rest ys) m2"
    using merge_next_eq [of ?a2 "left_rest xs" "fst ?l" "snd ?l" ys "fresh a"] facts(1,2) m1(2) by auto
  obtain k d where c: "?c = (k, d)" by (cases ?c)
  then have k: "k = fst ?l" by (metis fst_conv fst_merged_right)
  have "distinct (map fst (left_rest xs @ (k, d) # right_rest ys))"
    using nodes_right_rest(2) [OF facts(2,1)] k by simp
  then have kd: "k \<notin> fst ` set (left_rest xs)" "k \<notin> fst ` set (right_rest ys)" by simp_all
  have entry: "index_entry (freed_node (fresh a) (k, d)) = (fresh a, blockSize d, k)"
    by (simp add: index_entry_def freed_node_def)
  let ?m = "mm_emplace (fresh a, blockSize d, k) m2"
  have "index_ok (freed_chain (fresh a) xs (n, b) ys) ?m"
    using index_ok_insert [OF m2(2), of "freed_node (fresh a) (k, d)"] entry c by (simp add: freed_chain_def)
  moreover have "Deallocate (ptr b) a = Inr
      (a\<lparr>chainedBlocks := freed_chain (fresh a) xs (n, b) ys, blocksBySize := ?m,
         allocatedBlocks := (allocatedBlocks a)(ptr b := None), fresh := fresh a + 1\<rparr>)"
    using found cut n(1) m1(1) m2(1) c k kd
    by (simp add: Deallocate_def freed_chain_def freed_node_def Let_def del: map_of_append)
  ultimately show ?thesis by blast
qed

section \<open>The operations keep the invariant\<close>

definition buffer_size :: "allocator \<Rightarrow> nat" where
  "buffer_size a = bytes (chainedBlocks a)"

lemma CudaMemAllocator_new_ok:
  assumes "CudaMemAllocator_new free percent start = Inr a"
  shows "alloc_ok a" "live a = Map.empty" "start = Some (cudaBufferStart a)"
    "buffer_size a = free * nat percent mod 2 ^ 64 div 100 - RESERVED_MEMORY"
  using assms
  by (auto simp: CudaMemAllocator_new_def Let_def alloc_ok_def live_def buffer_size_def free_node_def
      tiling_ok_def index_ok_def nodes_ok_def index_entry_def RESERVED_MEMORY_def split: if_splits option.splits)

lemma live_of_ptrs:
  "tiled start (xs @ x # ys) \<Longrightarrow> ptr (snd x) \<notin> fst ` set (live_of (xs @ ys))"
  by (drule tiled_distinct) (force simp: live_of_def)

lemma Allocate_cases:
  assumes ok: "alloc_ok a" and run: "Allocate numBytes a = Inr (p, a')"
  obtains s n b xs ys m where "0 < numBytes" "alignedSize numBytes = Inr s"
    "chainedBlocks a = xs @ (n, b) # ys" "\<not> allocated b" "s \<le> blockSize b" "ptr b = p"
    "\<forall>x \<in> set (chainedBlocks a). free_node x \<longrightarrow> s \<le> blockSize (snd x) \<longrightarrow> blockSize b \<le> blockSize (snd x)"
    "a' = a\<lparr>chainedBlocks := taken_chain (fresh a) s xs (n, b) ys, blocksBySize := m,
        allocatedBlocks := (allocatedBlocks a)(p \<mapsto> n),
        fresh := if s < blockSize b then fresh a + 2 else fresh a\<rparr>"
    "index_ok (taken_chain (fresh a) s xs (n, b) ys) m"
proof -
  from run obtain s i k n where s: "0 < numBytes" "alignedSize numBytes = Inr s"
      and found: "mm_lower_bound s (blocksBySize a) = Some (i, k, n)"
    by (fastforce simp: Allocate_def split: if_splits option.splits)
  have "index_ok (chainedBlocks a) (blocksBySize a)" "nodes_ok (fresh a) (chainedBlocks a)"
    using ok by (simp_all add: alloc_ok_def)
  from lower_bound_node [OF this found] obtain xs b ys where
    cut: "chainedBlocks a = xs @ (n, b) # ys" and b: "\<not> allocated b" "sizeOrderIt b = Some i"
      "blockSize b = k" "s \<le> k"
    and best: "\<forall>x \<in> set (chainedBlocks a). free_node x \<longrightarrow> s \<le> blockSize (snd x) \<longrightarrow> k \<le> blockSize (snd x)"
    by metis
  from Allocate_eq [OF ok s found cut b] run obtain m where
    "p = ptr b" "a' = a\<lparr>chainedBlocks := taken_chain (fresh a) s xs (n, b) ys, blocksBySize := m,
        allocatedBlocks := (allocatedBlocks a)(ptr b \<mapsto> n),
        fresh := if s < k then fresh a + 2 else fresh a\<rparr>"
    "index_ok (taken_chain (fresh a) s xs (n, b) ys) m" by auto
  then show thesis using that [OF s cut b(1) _ _ _ _ ] b best by simp
qed

lemma Allocate_step:
  assumes ok: "alloc_ok a" and run: "Allocate numBytes a = Inr (p, a')"
  obtains s where "alignedSize numBytes = Inr s" "0 < numBytes" "alloc_ok a'" "live a p = None"
    "live a' = (live a)(p \<mapsto> s)" "cudaBufferStart a' = cudaBufferStart a" "buffer_size a' = buffer_size a"
    "\<exists>k. (p, k, False) \<in> set (layout a) \<and> s \<le> k
       \<and> (\<forall>q l. (q, l, False) \<in> set (layout a) \<longrightarrow> s \<le> l \<longrightarrow> k \<le> l)"
proof -
  from Allocate_cases [OF assms] obtain s n b xs ys m where
    s: "0 < numBytes" "alignedSize numBytes = Inr s" and cut: "chainedBlocks a = xs @ (n, b) # ys"
    and b: "\<not> allocated b" "s \<le> blockSize b" and p: "ptr b = p"
    and best: "\<forall>x \<in> set (chainedBlocks a). free_node x \<longrightarrow> s \<le> blockSize (snd x) \<longrightarrow> blockSize b \<le> blockSize (snd x)"
    and a': "a' = a\<lparr>chainedBlocks := taken_chain (fresh a) s xs (n, b) ys, blocksBySize := m,
        allocatedBlocks := (allocatedBlocks a)(p \<mapsto> n),
        fresh := if s < blockSize b then fresh a + 2 else fresh a\<rparr>"
    and m: "index_ok (taken_chain (fresh a) s xs (n, b) ys) m" by metis
  have free: "free_node (n, b)" using b by (simp add: free_node_def)
  note size = alignedSize_Inr [OF s(2,1)]
  have tiling: "tiling_ok (cudaBufferStart a) (xs @ (n, b) # ys)" and nodes: "nodes_ok (fresh a) (xs @ (n, b) # ys)"
    using ok cut by (simp_all add: alloc_ok_def)
  then have tiled: "tiled (cudaBufferStart a) (xs @ (n, b) # ys)" by (simp add: tiling_ok_def)
  have "alloc_ok a'"
    using ok a' m cut b(2) tiling_taken [OF tiling free size(2) _ size(1)] nodes_taken [OF nodes free, of s]
      map_of_taken(1) [OF tiled free] p
    by (simp add: alloc_ok_def) (simp add: taken_chain_def)
  moreover have "live a p = None" "live a' = (live a)(p \<mapsto> s)"
    using live_of_ptrs [OF tiled] cut free p a'
    by (auto simp: live_def taken_chain_def free_node_def map_of_middle map_of_eq_None_iff image_Un
        simp del: map_of_append)
  moreover have "buffer_size a' = buffer_size a"
    using a' cut b by (simp add: buffer_size_def taken_chain_def)
  moreover have "(p, blockSize b, False) \<in> set (layout a)"
    using cut b p by (force simp: layout_def)
  moreover have "blockSize b \<le> l" if "(q, l, False) \<in> set (layout a)" "s \<le> l" for q l
    using best that by (force simp: layout_def free_node_def)
  ultimately show thesis
    using that [OF s(2,1)] a' b(2) by auto
qed

lemma Deallocate_step:
  assumes ok: "alloc_ok a" and p: "live a p \<noteq> None"
  obtains a' where "Deallocate p a = Inr a'" "alloc_ok a'" "live a' = (live a)(p := None)"
    "cudaBufferStart a' = cudaBufferStart a" "buffer_size a' = buffer_size a"
proof -
  from p have "p \<in> fst ` set (live_of (chainedBlocks a))"
    by (simp add: live_def map_of_eq_None_iff)
  then obtain n b where nb: "(n, b) \<in> set (chainedBlocks a)" "allocated b" "ptr b = p"
    by (auto simp: live_of_def free_node_def)
  then obtain xs ys where cut: "chainedBlocks a = xs @ (n, b) # ys" by (meson split_list)
  from Deallocate_eq [OF ok cut nb(2)] nb(3) obtain m where
    run: "Deallocate p a = Inr (a\<lparr>chainedBlocks := freed_chain (fresh a) xs (n, b) ys, blocksBySize := m,
         allocatedBlocks := (allocatedBlocks a)(p := None), fresh := fresh a + 1\<rparr>)" (is "_ = Inr ?a")
    and m: "index_ok (freed_chain (fresh a) xs (n, b) ys) m" by auto
  have tiling: "tiling_ok (cudaBufferStart a) (xs @ (n, b) # ys)" and nodes: "nodes_ok (fresh a) (xs @ (n, b) # ys)"
    using ok cut by (simp_all add: alloc_ok_def)
  have tiled: "tiled (cudaBufferStart a) (xs @ (n, b) # ys)" using tiling by (simp add: tiling_ok_def)
  have full: "\<not> free_node (n, b)" using nb by (simp add: free_node_def)
  have "map_of (taken_of xs @ taken_of ys) = (map_of (taken_of (xs @ (n, b) # ys)))(p := None)"
    using taken_of_ptrs [OF tiled] full nb(3)
    by (auto simp: map_of_middle image_Un map_of_eq_None_iff fun_upd_idem simp del: map_of_append)
  then have "alloc_ok ?a"
    using ok cut m tiling_freed [OF tiling] nodes_freed [OF nodes] taken_of_freed [OF full]
    by (simp add: alloc_ok_def) (simp add: freed_chain_def)
  moreover have "live ?a = (live a)(p := None)"
    using live_of_ptrs [OF tiled] full nb(3) cut live_of_freed [OF full]
    by (auto simp: live_def map_of_middle image_Un map_of_eq_None_iff fun_upd_idem simp del: map_of_append)
  moreover have "buffer_size ?a = buffer_size a"
    using cut by (simp add: buffer_size_def bytes_freed)
  ultimately show thesis using that [OF run] by simp
qed

lemma fst_taken_of: "fst ` set (taken_of xs) = fst ` set (live_of xs)"
  by (simp add: taken_of_def live_of_def image_image)

lemma Deallocate_unknown:
  assumes "alloc_ok a" "live a p = None"
  shows "Deallocate p a = Inl OutOfRange"
proof -
  have "allocatedBlocks a p = None"
    using assms by (simp add: alloc_ok_def live_def map_of_eq_None_iff fst_taken_of)
  then show ?thesis by (simp add: Deallocate_def)
qed

lemma CanAllocate_Allocate:
  assumes ok: "alloc_ok a"
  shows "CanAllocate numBytes a = Inr True \<longleftrightarrow> (\<exists>r. Allocate numBytes a = Inr r)"
proof
  assume can: "CanAllocate numBytes a = Inr True"
  then obtain s i k n where s: "0 < numBytes" "alignedSize numBytes = Inr s"
      and found: "mm_lower_bound s (blocksBySize a) = Some (i, k, n)"
    by (fastforce simp: CanAllocate_def split: if_splits)
  have "index_ok (chainedBlocks a) (blocksBySize a)" "nodes_ok (fresh a) (chainedBlocks a)"
    using ok by (simp_all add: alloc_ok_def)
  from lower_bound_node [OF this found] Allocate_eq [OF ok s found]
  show "\<exists>r. Allocate numBytes a = Inr r" by metis
next
  assume "\<exists>r. Allocate numBytes a = Inr r"
  then show "CanAllocate numBytes a = Inr True"
    by (fastforce simp: CanAllocate_def Allocate_def split: if_splits option.splits)
qed

lemma CanAllocate_iff_free_block:
  assumes ok: "alloc_ok a" and s: "0 < numBytes" "alignedSize numBytes = Inr s"
  shows "CanAllocate numBytes a = Inr (\<exists>p k. (p, k, False) \<in> set (layout a) \<and> s \<le> k)"
proof -
  have "set (blocksBySize a) = set (index_of (chainedBlocks a))"
    using ok mset_eq_setD by (auto simp: alloc_ok_def index_ok_def)
  moreover have "mm_lower_bound s (blocksBySize a) \<noteq> None \<longleftrightarrow> (\<exists>e \<in> set (blocksBySize a). s \<le> fst (snd e))"
    by (force simp: mm_lower_bound_def find_None_iff split_beta)
  ultimately have "mm_lower_bound s (blocksBySize a) \<noteq> None \<longleftrightarrow>
      (\<exists>x \<in> set (chainedBlocks a). free_node x \<and> s \<le> blockSize (snd x))"
    by (auto simp: index_of_def index_entry_def)
  also have "\<dots> \<longleftrightarrow> (\<exists>p k. (p, k, False) \<in> set (layout a) \<and> s \<le> k)"
    by (force simp: layout_def free_node_def)
  finally show ?thesis using s by (simp add: CanAllocate_def)
qed

section \<open>Reachable states\<close>

inductive alloc_step :: "allocator \<Rightarrow> allocator \<Rightarrow> bool" where
  allocate: "Allocate numBytes a = Inr (p, a') \<Longrightarrow> alloc_step a a'"
| deallocate: "Deallocate p a = Inr a' \<Longrightarrow> alloc_step a a'"
| clear: "alloc_step a (Clear a)"

inductive alloc_reachable :: "nat \<Rightarrow> int \<Rightarrow> nat \<Rightarrow> allocator \<Rightarrow> bool" for free percent start where
  new: "CudaMemAllocator_new free percent (Some start) = Inr a \<Longrightarrow> alloc_reachable free percent start a"
| step: "alloc_reachable free percent start a \<Longrightarrow> alloc_step a a' \<Longrightarrow> alloc_reachable free percent start a'"

lemma Deallocate_step_live: "alloc_ok a \<Longrightarrow> Deallocate p a = Inr a' \<Longrightarrow> live a p \<noteq> None"
  using Deallocate_unknown by fastforce

lemma alloc_step_ok:
  assumes "alloc_step a a'" and ok: "alloc_ok a"
  shows "alloc_ok a' \<and> cudaBufferStart a' = cudaBufferStart a \<and> buffer_size a' = buffer_size a"
  using assms(1)
proof cases
  case (allocate numBytes p)
  then show ?thesis using Allocate_step [OF ok] by metis
next
  case (deallocate p)
  then show ?thesis
    using Deallocate_step [OF ok Deallocate_step_live [OF ok]] by (metis sum.inject(2))
next
  case clear
  then show ?thesis using ok by (simp add: Clear_def)
qed

lemma alloc_reachable_ok:
  "alloc_reachable free percent start a \<Longrightarrow> alloc_ok a \<and> cudaBufferStart a = start
    \<and> buffer_size a = free * nat percent mod 2 ^ 64 div 100 - RESERVED_MEMORY"
proof (induction rule: alloc_reachable.induct)
  case (new a)
  then show ?case using CudaMemAllocator_new_ok [OF new] by simp
next
  case (step a a')
  then show ?case using alloc_step_ok by metis
qed

lemma live_node:
  assumes "live a p = Some s"
  obtains n b where "(n, b) \<in> set (chainedBlocks a)" "allocated b" "ptr b = p" "blockSize b = s"
  using map_of_SomeD [OF assms [unfolded live_def]] that by (auto simp: live_of_def free_node_def)

lemma tiled_disjoint:
  "tiled s xs \<Longrightarrow> x \<in> set xs \<Longrightarrow> y \<in> set xs \<Longrightarrow> ptr (snd x) < ptr (snd y) \<Longrightarrow>
    ptr (snd x) + blockSize (snd x) \<le> ptr (snd y)"
proof (induction s xs rule: tiled.induct)
  case (2 s n b xs)
  then show ?case using tiled_bounds [of "s + blockSize b" xs] by fastforce
qed simp

lemma alloc_ok_disjoint:
  assumes "alloc_ok a" "live a p = Some s" "live a q = Some t" "p < q"
  shows "p + s \<le> q"
proof -
  from assms(2) obtain n b where x: "(n, b) \<in> set (chainedBlocks a)" "ptr b = p" "blockSize b = s"
    by (rule live_node)
  from assms(3) obtain m c where y: "(m, c) \<in> set (chainedBlocks a)" "ptr c = q"
    by (rule live_node)
  show ?thesis
    using tiled_disjoint [of "cudaBufferStart a" "chainedBlocks a" "(n, b)" "(m, c)"] x y assms(1,4)
    by (simp add: alloc_ok_def tiling_ok_def)
qed

lemma alloc_ok_bounds:
  assumes "alloc_ok a" "live a p = Some s"
  shows "cudaBufferStart a \<le> p" "p + s \<le> cudaBufferStart a + buffer_size a" "0 < s"
    "512 dvd p - cudaBufferStart a"
proof -
  from assms(2) obtain n b where x: "(n, b) \<in> set (chainedBlocks a)" "ptr b = p" "blockSize b = s"
    by (rule live_node)
  show "cudaBufferStart a \<le> p" "p + s \<le> cudaBufferStart a + buffer_size a" "0 < s"
    "512 dvd p - cudaBufferStart a"
    using tiled_bounds [of "cudaBufferStart a" "chainedBlocks a" "(n, b)"] x assms(1)
    by (auto simp: alloc_ok_def tiling_ok_def buffer_size_def)
qed

lemma Allocate_Deallocate_layout:
  assumes ok: "alloc_ok a" and run: "Allocate numBytes a = Inr (p, a')"
  shows "\<exists>a''. Deallocate p a' = Inr a'' \<and> layout a'' = layout a"
proof -
  from Allocate_cases [OF assms] obtain s n b xs ys m where
    cut: "chainedBlocks a = xs @ (n, b) # ys" and b: "\<not> allocated b" "s \<le> blockSize b" "ptr b = p"
    and a': "a' = a\<lparr>chainedBlocks := taken_chain (fresh a) s xs (n, b) ys, blocksBySize := m,
        allocatedBlocks := (allocatedBlocks a)(p \<mapsto> n),
        fresh := if s < blockSize b then fresh a + 2 else fresh a\<rparr>" by metis
  from Allocate_step [OF assms] have ok': "alloc_ok a'" by metis
  define b' where "b' = b\<lparr>allocated := True, blockSize := s\<rparr>"
  define ys' where "ys' = (if s < blockSize b
       then (fresh a, \<lparr>allocated = False, sizeOrderIt = Some (fresh a + 1),
                 blockSize = blockSize b - s, ptr = ptr b + s\<rparr>) # ys else ys)"
  have cut': "chainedBlocks a' = xs @ (n, b') # ys'"
    using a' by (simp add: taken_chain_def b'_def ys'_def)
  have b': "allocated b'" "ptr b' = p" by (simp_all add: b'_def b)
  have "xs = [] \<or> \<not> free_node (last xs)" "ys = [] \<or> \<not> free_node (hd ys)"
    using ok cut b by (auto simp: alloc_ok_def tiling_simps free_node_def)
  then have "map (\<lambda>(n, b). (ptr b, blockSize b, allocated b)) (freed_chain f xs (n, b') ys') = layout a" for f
    using b cut by (auto simp: freed_chain_def freed_node_def left_rest_def right_rest_def merged_left_def
        merged_right_def layout_def b'_def ys'_def free_node_def)
  with Deallocate_eq [OF ok' cut' b'(1)] b'(2) show ?thesis by (auto simp: layout_def)
qed

lemma nothing_live_layout:
  assumes ok: "alloc_ok a" and "live a = Map.empty"
  shows "layout a = [(cudaBufferStart a, buffer_size a, False)]"
proof -
  have "live_of (chainedBlocks a) = []" using assms(2) by (simp add: live_def)
  then have free: "\<forall>x \<in> set (chainedBlocks a). free_node x" by (simp add: live_of_def filter_empty_conv)
  obtain x xs where cons: "chainedBlocks a = x # xs" using ok by (cases "chainedBlocks a") (auto simp: alloc_ok_def)
  have "xs = []" using ok free cons by (cases xs) (auto simp: alloc_ok_def tiling_simps)
  with cons ok free show ?thesis
    by (cases x) (auto simp: alloc_ok_def tiling_ok_def layout_def buffer_size_def free_node_def)
qed

section \<open>Properties\<close>

definition sample_allocator :: allocator where
  "sample_allocator =
    \<lparr>cudaBufferStart = 4096,
     chainedBlocks =
       [(0, \<lparr>allocated = False, sizeOrderIt = Some 1, blockSize = 244000000, ptr = 4096\<rparr>)],
     blocksBySize = [(1, 244000000, 0)], allocatedBlocks = Map.empty, fresh = 2\<rparr>"

lemma sample_new: "CudaMemAllocator_new 1000000000 50 (Some 4096) = Inr sample_allocator"
  by (simp add: CudaMemAllocator_new_def sample_allocator_def RESERVED_MEMORY_def)

lemma sample_reachable: "alloc_reachable 1000000000 50 4096 sample_allocator"
  by (rule alloc_reachable.new) (rule sample_new)

definition sample_used :: allocator where
  "sample_used =
    \<lparr>cudaBufferStart = 4096,
     chainedBlocks =
       [(0, \<lparr>allocated = True, sizeOrderIt = Some 1, blockSize = 1024, ptr = 4096\<rparr>),
        (2, \<lparr>allocated = False, sizeOrderIt = Some 3, blockSize = 243998976, ptr = 5120\<rparr>)],
     blocksBySize = [(3, 243998976, 2)], allocatedBlocks = [4096 \<mapsto> 0], fresh = 4\<rparr>"

lemma sample_Allocate: "Allocate 1000 sample_allocator = Inr (4096, sample_used)"
  by (simp add: Allocate_def alignedSize_def sample_allocator_def sample_used_def mm_lower_bound_def
      chain_update_def SplitBlock_def mm_erase_def)

lemma sample_used_reachable: "alloc_reachable 1000000000 50 4096 sample_used"
  using alloc_reachable.step [OF sample_reachable alloc_step.allocate [OF sample_Allocate]] .

lemma sample_ok: "alloc_ok sample_allocator"
  using CudaMemAllocator_new_ok(1) [OF sample_new] .

text \<open>
  C1. In every state the allocator can reach, each live allocation lies inside the device
  buffer, starts at a multiple of 512 bytes from its start, and no two live allocations
  overlap.
\<close>

theorem allocations_disjoint:
  assumes "alloc_reachable free percent start a" and "live a p = Some s"
  shows "start \<le> p \<and> p + s \<le> start + (free * nat percent mod 2 ^ 64 div 100 - RESERVED_MEMORY)
    \<and> 512 dvd p - start
    \<and> (\<forall>q t. live a q = Some t \<longrightarrow> q \<noteq> p \<longrightarrow> p + s \<le> q \<or> q + t \<le> p)"
proof -
  from alloc_reachable_ok [OF assms(1)] have ok: "alloc_ok a" "cudaBufferStart a = start"
    "buffer_size a = free * nat percent mod 2 ^ 64 div 100 - RESERVED_MEMORY" by simp_all
  have "p + s \<le> q \<or> q + t \<le> p" if "live a q = Some t" "q \<noteq> p" for q t
    using alloc_ok_disjoint [OF ok(1)] assms(2) that by (metis linorder_neqE_nat)
  with alloc_ok_bounds [OF ok(1) assms(2)] ok(2,3) show ?thesis by simp
qed

theorem allocations_disjoint_witness:
  "live sample_used 4096 = Some 1024 \<and> 4096 + 1024 \<le> (4096 + (50000000000 mod 2 ^ 64 div 100 - RESERVED_MEMORY) :: nat)"
  using allocations_disjoint [OF sample_used_reachable, of 4096 1024]
  by (simp add: live_def sample_used_def free_node_def)

text \<open>
  C5. \<open>Allocate\<close> on a well-formed allocator: a size that is not positive is refused; otherwise the
  request is rounded up to a multiple of 512 and succeeds exactly when \<open>CanAllocate\<close> says so,
  that is when some free block is large enough. Then it takes a smallest such block, the
  pointer was not live before, only this allocation is added and the invariant holds again.
\<close>

theorem Allocate_correct:
  assumes "alloc_ok a" and "alignedSize numBytes = Inr s"
  shows "if numBytes \<le> 0 then Allocate numBytes a = Inl OutOfRange
    else CanAllocate numBytes a = Inr (\<exists>p k. (p, k, False) \<in> set (layout a) \<and> s \<le> k)
      \<and> (if \<exists>p k. (p, k, False) \<in> set (layout a) \<and> s \<le> k
         then \<exists>p k a'. Allocate numBytes a = Inr (p, a') \<and> (p, k, False) \<in> set (layout a) \<and> s \<le> k
           \<and> (\<forall>q l. (q, l, False) \<in> set (layout a) \<longrightarrow> s \<le> l \<longrightarrow> k \<le> l)
           \<and> live a p = None \<and> live a' = (live a)(p \<mapsto> s) \<and> alloc_ok a'
         else Allocate numBytes a = Inl OutOfRange)"
proof (cases "numBytes \<le> 0")
  case True
  then show ?thesis by (simp add: Allocate_def)
next
  case False
  then have pos: "0 < numBytes" by simp
  note can = CanAllocate_iff_free_block [OF assms(1) pos assms(2)]
  show ?thesis
  proof (cases "\<exists>p k. (p, k, False) \<in> set (layout a) \<and> s \<le> k")
    case True
    with can CanAllocate_Allocate [OF assms(1), of numBytes] obtain p a' where
      run: "Allocate numBytes a = Inr (p, a')" by auto
    from Allocate_step [OF assms(1) run] obtain s' where step: "alignedSize numBytes = Inr s'" "alloc_ok a'"
      "live a p = None" "live a' = (live a)(p \<mapsto> s')" "\<exists>k. (p, k, False) \<in> set (layout a) \<and> s' \<le> k
        \<and> (\<forall>q l. (q, l, False) \<in> set (layout a) \<longrightarrow> s' \<le> l \<longrightarrow> k \<le> l)" by metis
    have "s' = s" using step(1) assms(2) by simp
    with run step(2-5) have "\<exists>p k a'. Allocate numBytes a = Inr (p, a') \<and> (p, k, False) \<in> set (layout a) \<and> s \<le> k
           \<and> (\<forall>q l. (q, l, False) \<in> set (layout a) \<longrightarrow> s \<le> l \<longrightarrow> k \<le> l)
           \<and> live a p = None \<and> live a' = (live a)(p \<mapsto> s) \<and> alloc_ok a'" by blast
    with can show ?thesis unfolding if_not_P [OF False] if_P [OF True] by (intro conjI)
  next
    case no: False
    with can pos assms(2) have "mm_lower_bound s (blocksBySize a) = None"
      by (cases "mm_lower_bound s (blocksBySize a)") (auto simp: CanAllocate_def)
    with no can False pos assms(2) show ?thesis by (simp add: Allocate_def)
  qed
qed

theorem Allocate_correct_witness:
  "alloc_ok sample_allocator \<and> alignedSize 1000 = Inr 1024 \<and>
   (\<exists>p k a'. Allocate 1000 sample_allocator = Inr (p, a') \<and> live a' = (live sample_allocator)(p \<mapsto> 1024))"
proof -
  have s: "alignedSize 1000 = Inr 1024" by (simp add: alignedSize_def)
  have "(4096, 244000000, False) \<in> set (layout sample_allocator)"
    by (simp add: layout_def sample_allocator_def)
  moreover have "(1024::nat) \<le> 244000000" by simp
  ultimately have "\<exists>p k. (p, k, False) \<in> set (layout sample_allocator) \<and> 1024 \<le> k" by blast
  with Allocate_correct [OF sample_ok s] sample_ok s show ?thesis by auto
qed

text \<open>
  C6. Freeing a block that was just allocated restores the layout of the buffer: the split
  is undone by the merge with the free neighbour, so allocation and deallocation in turn leave
  no fragments behind.
\<close>

theorem Allocate_Deallocate_roundtrip:
  assumes "alloc_ok a" and "Allocate numBytes a = Inr (p, a')"
  shows "\<exists>a''. Deallocate p a' = Inr a'' \<and> layout a'' = layout a \<and> live a'' = live a \<and> alloc_ok a''"
proof -
  from Allocate_step [OF assms] obtain s where step: "alloc_ok a'" "live a p = None" "live a' = (live a)(p \<mapsto> s)"
    by metis
  from Deallocate_step [OF step(1), of p] step(3) obtain a'' where
    "Deallocate p a' = Inr a''" "alloc_ok a''" "live a'' = (live a')(p := None)" by auto
  with Allocate_Deallocate_layout [OF assms] step(2,3) show ?thesis
    by (metis (no_types, lifting) fun_upd_idem fun_upd_upd sum.inject(2))
qed

theorem Allocate_Deallocate_roundtrip_witness:
  "\<exists>a''. Deallocate 4096 sample_used = Inr a'' \<and> layout a'' = layout sample_allocator"
  using Allocate_Deallocate_roundtrip [OF sample_ok sample_Allocate] by blast

text \<open>
  C7. When every pointer has been given back the buffer is one free block again, so a request up
  to the size of the buffer succeeds: fragmentation never outlives the allocations that
  caused it.
\<close>

theorem Allocate_after_all_freed:
  assumes "alloc_reachable free percent start a" and "\<forall>p. live a p = None"
    and "0 < numBytes" and "alignedSize numBytes = Inr s"
    and "s \<le> free * nat percent mod 2 ^ 64 div 100 - RESERVED_MEMORY"
  shows "\<exists>a'. Allocate numBytes a = Inr (start, a')"
proof -
  from alloc_reachable_ok [OF assms(1)] have ok: "alloc_ok a" and start: "cudaBufferStart a = start"
    and size: "buffer_size a = free * nat percent mod 2 ^ 64 div 100 - RESERVED_MEMORY" by simp_all
  from assms(2) have "live a = Map.empty" by (simp add: fun_eq_iff)
  from nothing_live_layout [OF ok this] start
  have layout: "layout a = [(start, buffer_size a, False)]" by simp
  with CanAllocate_iff_free_block [OF ok assms(3,4)] assms(5) size
  have "CanAllocate numBytes a = Inr True" by simp
  with CanAllocate_Allocate [OF ok] obtain p a' where run: "Allocate numBytes a = Inr (p, a')" by auto
  from Allocate_step [OF ok run] obtain k where "(p, k, False) \<in> set (layout a)" by metis
  with layout have "p = start" by simp
  with run show ?thesis by blast
qed

theorem Allocate_after_all_freed_witness:
  "\<exists>a'. Allocate 243999744 sample_allocator = Inr (4096, a')"
proof -
  have "alignedSize 243999744 = Inr 243999744" by (simp add: alignedSize_def)
  with Allocate_after_all_freed [OF sample_reachable, of 243999744 243999744] show ?thesis
    by (simp add: RESERVED_MEMORY_def live_def sample_allocator_def free_node_def)
qed

end
