(* ===== verification/Memory_Cache_Correct.thy ===== *)
theory Memory_Cache_Correct
  imports Memory_Cache Allocator_Correct
begin

text \<open>
  The correctness of the block cache. What the cache needs of a device allocator is the locale
  \<open>device_alloc\<close>: a request that can be served is served with a pointer that was not live,
  and a live pointer can be given back. The lemmas on \<open>Evict\<close>, \<open>GetColumn\<close> and
  \<open>ClearCachedBlock\<close> are proved in it; \<open>cuda\<close> interprets it on \<open>CudaMemAllocator\<close>.
\<close>

section \<open>The invariant\<close>

definition queue_entry :: "string \<times> CacheEntry \<Rightarrow> nat \<times> string" where
  "queue_entry x = (lruQueueIt (snd x), fst x)"

definition queue_ok :: "GPUMemoryCache \<Rightarrow> bool" where
  "queue_ok c \<longleftrightarrow> mset (lruQueue c) = mset (map queue_entry (cacheMap c))
     \<and> distinct (map fst (lruQueue c)) \<and> (\<forall>x \<in> set (lruQueue c). fst x < nextIt c)"

definition sizes_ok :: "GPUMemoryCache \<Rightarrow> bool" where
  "sizes_ok c \<longleftrightarrow> usedSize c = int (\<Sum>x\<leftarrow>cacheMap c. e_size (snd x)) \<and> usedSize c \<le> int (maxSize c)
     \<and> maxSize c < 2 ^ 62"

definition entries_ok :: "(nat \<rightharpoonup> nat) \<Rightarrow> entry_map \<Rightarrow> bool" where
  "entries_ok lv m \<longleftrightarrow> sorted_wrt (\<lambda>x y. fst x < fst y) m \<and> distinct (map (e_ptr \<circ> snd) m)
     \<and> (\<forall>x \<in> set m. e_key (snd x) = fst x \<and> (\<exists>s. lv (e_ptr (snd x)) = Some s \<and> e_size (snd x) \<le> s))"

definition cache_ok :: "(nat \<rightharpoonup> nat) \<Rightarrow> GPUMemoryCache \<Rightarrow> bool" where
  "cache_ok lv c \<longleftrightarrow> entries_ok lv (cacheMap c) \<and> queue_ok c \<and> sizes_ok c"

definition sole_user :: "(nat \<rightharpoonup> nat) \<Rightarrow> GPUMemoryCache \<Rightarrow> bool" where
  "sole_user lv c \<longleftrightarrow> dom lv = (\<lambda>x. e_ptr (snd x)) ` set (cacheMap c)"

definition drop_entry :: "string \<times> CacheEntry \<Rightarrow> GPUMemoryCache \<Rightarrow> GPUMemoryCache" where
  "drop_entry x c = c\<lparr>usedSize := usedSize c - int (e_size (snd x)),
      cacheMap := smap_erase (fst x) (cacheMap c),
      lruQueue := filter (\<lambda>y. fst y \<noteq> lruQueueIt (snd x)) (lruQueue c)\<rparr>"

section \<open>Ordered maps cut at an entry\<close>

lemma entries_distinct: "entries_ok lv m \<Longrightarrow> distinct (map fst m)"
  unfolding entries_ok_def
  by (induction m) (auto simp: less_le)

lemma entries_cut:
  assumes "entries_ok lv m" "x \<in> set m"
  obtains m1 m2 where "m = m1 @ x # m2" "fst x \<notin> fst ` set m1" "fst x \<notin> fst ` set m2"
    "smap_erase (fst x) m = m1 @ m2" "map_of m (fst x) = Some (snd x)"
    "\<And>f. smap_update (fst x) f m = m1 @ (fst x, f (snd x)) # m2"
proof -
  obtain k e where x: "x = (k, e)" by (cases x)
  obtain m1 m2 where m: "m = m1 @ (k, e) # m2" using split_list [OF assms(2)] x by blast
  with entries_distinct [OF assms(1)] have k: "k \<notin> fst ` set m1" "k \<notin> fst ` set m2" by auto
  have upd: "smap_update k f m' = m'" if "k \<notin> fst ` set m'" for f m'
    using that by (induction m') (auto simp: smap_update_def)
  show thesis
    by (rule that [of m1 m2]) (use m k x upd [of m1] upd [of m2] in
        \<open>auto simp: smap_erase_def filter_other smap_update_def simp del: map_of_append\<close>)
qed

lemma entries_map_of: "entries_ok lv m \<Longrightarrow> map_of m k = Some e \<longleftrightarrow> (k, e) \<in> set m"
  using entries_distinct by (metis map_of_eq_Some_iff)

lemma entries_drop:
  assumes ok: "entries_ok lv (m1 @ x # m2)"
  shows "entries_ok (lv(e_ptr (snd x) := None)) (m1 @ m2)"
  using assms by (auto simp: entries_ok_def sorted_wrt_append image_iff)

lemma queue_ok_mem:
  assumes "queue_ok c"
  shows "set (lruQueue c) = queue_entry ` set (cacheMap c)"
  using assms mset_eq_setD [of "lruQueue c" "map queue_entry (cacheMap c)"] by (simp add: queue_ok_def)

lemma drop_entry_ok:
  assumes ok: "cache_ok lv c" and x: "x \<in> set (cacheMap c)"
  shows "cache_ok (lv(e_ptr (snd x) := None)) (drop_entry x c)"
    and "to_int64 (usedSize c - int (e_size (snd x))) = usedSize c - int (e_size (snd x))"
    and "sole_user lv c \<Longrightarrow> sole_user (lv(e_ptr (snd x) := None)) (drop_entry x c)"
proof -
  have entries: "entries_ok lv (cacheMap c)" using ok by (simp add: cache_ok_def)
  obtain m1 m2 where m: "cacheMap c = m1 @ x # m2" and erase: "smap_erase (fst x) (cacheMap c) = m1 @ m2"
    using entries_cut [OF entries x] by metis
  have "queue_entry x \<in> set (lruQueue c)" using queue_ok_mem ok x by (auto simp: cache_ok_def)
  then have "mset (filter (\<lambda>y. fst y \<noteq> lruQueueIt (snd x)) (lruQueue c)) = mset (lruQueue c) - {#queue_entry x#}"
    using mset_filter_fst [of "lruQueue c"] ok by (simp add: cache_ok_def queue_ok_def queue_entry_def)
  then have "queue_ok (drop_entry x c)"
    using ok m erase by (auto simp: cache_ok_def queue_ok_def drop_entry_def distinct_map_filter)
  moreover have "sizes_ok (drop_entry x c)"
    using ok m erase by (simp add: cache_ok_def sizes_ok_def drop_entry_def)
  ultimately show "cache_ok (lv(e_ptr (snd x) := None)) (drop_entry x c)"
    using entries_drop entries m erase by (simp add: cache_ok_def drop_entry_def)
  have "0 \<le> usedSize c - int (e_size (snd x))" "usedSize c - int (e_size (snd x)) < 2 ^ 62"
    using ok m by (auto simp: cache_ok_def sizes_ok_def)
  then show "to_int64 (usedSize c - int (e_size (snd x))) = usedSize c - int (e_size (snd x))"
    by (intro to_int64_id) auto
  show "sole_user (lv(e_ptr (snd x) := None)) (drop_entry x c)" if "sole_user lv c"
    using that entries m erase by (simp add: sole_user_def drop_entry_def entries_ok_def image_Un)
qed

lemma drop_entry_fields [simp]:
  "maxSize (drop_entry x c) = maxSize c" "currentBlockIndex (drop_entry x c) = currentBlockIndex c"
  "nextIt (drop_entry x c) = nextIt c" "cacheMap (drop_entry x c) = smap_erase (fst x) (cacheMap c)"
  by (simp_all add: drop_entry_def)

lemma set_smap_erase [simp]: "set (smap_erase k m) = {x \<in> set m. fst x \<noteq> k}"
  by (simp add: smap_erase_def)

lemma length_smap_erase: "x \<in> set m \<Longrightarrow> length (smap_erase (fst x) m) < length m"
  unfolding smap_erase_def by (rule length_filter_less) auto

lemma smap_insert_cut:
  "sorted_wrt (\<lambda>x y. fst x < fst y) m \<Longrightarrow> k \<notin> fst ` set m \<Longrightarrow>
    \<exists>m1 m2. m = m1 @ m2 \<and> (\<forall>e. smap_insert k e m = m1 @ (k, e) # m2)
      \<and> (\<forall>x \<in> set m1. fst x < k) \<and> (\<forall>x \<in> set m2. k < fst x)"
proof (induction m)
  case (Cons x m)
  show ?case
  proof (cases "k < fst x")
    case True
    with Cons.prems show ?thesis by (intro exI [of _ "[]"] exI [of _ "x # m"]) auto
  next
    case False
    from Cons obtain m1 m2 where "m = m1 @ m2" "\<forall>e. smap_insert k e m = m1 @ (k, e) # m2"
      "\<forall>x \<in> set m1. fst x < k" "\<forall>x \<in> set m2. k < fst x" by auto
    with False Cons.prems show ?thesis by (intro exI [of _ "x # m1"] exI [of _ m2]) auto
  qed
qed simp

lemma add_entry_ok:
  assumes ok: "cache_ok lv c" and k: "k \<notin> fst ` set (cacheMap c)" and p: "lv p = None" "n \<le> s"
    and room: "usedSize c + int n \<le> int (maxSize c)"
  shows "cache_ok (lv(p \<mapsto> s)) (add_entry k p n c)"
    and "map_of (cacheMap (add_entry k p n c)) k =
      Some \<lparr>e_key = k, e_ptr = p, e_size = n, lruQueueIt = nextIt c\<rparr>"
    and "set (cacheMap (add_entry k p n c)) =
      insert (k, \<lparr>e_key = k, e_ptr = p, e_size = n, lruQueueIt = nextIt c\<rparr>) (set (cacheMap c))"
proof -
  let ?e = "\<lparr>e_key = k, e_ptr = p, e_size = n, lruQueueIt = nextIt c\<rparr>"
  have entries: "entries_ok lv (cacheMap c)" and queue: "queue_ok c" and sizes: "sizes_ok c"
    using ok by (simp_all add: cache_ok_def)
  have "sorted_wrt (\<lambda>x y. fst x < fst y) (cacheMap c)" using entries by (simp add: entries_ok_def)
  then obtain m1 m2 where m: "cacheMap c = m1 @ m2" and ins: "\<And>e. smap_insert k e (cacheMap c) = m1 @ (k, e) # m2"
      and less: "\<forall>x \<in> set m1. fst x < k" "\<forall>x \<in> set m2. k < fst x"
    using smap_insert_cut k by metis
  have upd: "smap_update k f m' = m'" if "k \<notin> fst ` set m'" for f m'
    using that by (induction m') (auto simp: smap_update_def)
  have map: "cacheMap (add_entry k p n c) = m1 @ (k, ?e) # m2"
    using upd [of m1] upd [of m2] k m ins by (simp add: add_entry_def smap_update_def image_Un)
  have "\<forall>x \<in> set (m1 @ m2). e_ptr (snd x) \<noteq> p"
    using entries m p(1) unfolding entries_ok_def by (metis option.distinct(1))
  then have "entries_ok (lv(p \<mapsto> s)) (m1 @ (k, ?e) # m2)"
    using entries m less p(2) by (auto simp: entries_ok_def sorted_wrt_append less_trans)
  moreover have "queue_ok (add_entry k p n c)"
    using queue map m by (auto simp: queue_ok_def queue_entry_def add_entry_def less_Suc_eq)
  moreover have "to_int64 (usedSize c + int n) = usedSize c + int n"
    using sizes room by (intro to_int64_id) (auto simp: sizes_ok_def)
  then have "sizes_ok (add_entry k p n c)"
    using sizes room map m by (auto simp: sizes_ok_def) (simp_all add: add_entry_def)
  ultimately show "cache_ok (lv(p \<mapsto> s)) (add_entry k p n c)" using map by (simp add: cache_ok_def)
  show "map_of (cacheMap (add_entry k p n c)) k = Some ?e"
    using map k m by (simp add: image_Un map_of_cut del: map_of_append)
  show "set (cacheMap (add_entry k p n c)) = insert (k, ?e) (set (cacheMap c))"
    using map m by simp
qed

lemma touch_ok:
  assumes ok: "cache_ok lv c" and e: "map_of (cacheMap c) k = Some e"
  shows "\<exists>c'. touch k e c = Inr c' \<and> cache_ok lv c' \<and> maxSize c' = maxSize c
    \<and> lruQueue c' = filter (\<lambda>x. fst x \<noteq> lruQueueIt e) (lruQueue c) @ [(nextIt c, k)]
    \<and> map fst (cacheMap c') = map fst (cacheMap c)
    \<and> map_of (cacheMap c') k = Some (e\<lparr>lruQueueIt := nextIt c\<rparr>)"
proof -
  have entries: "entries_ok lv (cacheMap c)" and queue: "queue_ok c"
    using ok by (simp_all add: cache_ok_def)
  have mem: "(k, e) \<in> set (cacheMap c)" using e by (rule map_of_SomeD)
  from entries_cut [OF entries this] obtain m1 m2 where m: "cacheMap c = m1 @ (k, e) # m2"
    and k: "k \<notin> fst ` set m1" and upd: "\<And>f. smap_update k f (cacheMap c) = m1 @ (k, f e) # m2" by (metis fst_conv snd_conv)
  have it: "(lruQueueIt e, k) \<in> set (lruQueue c)"
    using queue_ok_mem [OF queue] mem by (force simp: queue_entry_def)
  let ?c = "c\<lparr>lruQueue := filter (\<lambda>x. fst x \<noteq> lruQueueIt e) (lruQueue c) @ [(nextIt c, k)],
      cacheMap := m1 @ (k, e\<lparr>lruQueueIt := nextIt c\<rparr>) # m2, nextIt := nextIt c + 1\<rparr>"
  have run: "touch k e c = Inr ?c" using it upd by (force simp: touch_def queue_erase_def)
  have "mset (filter (\<lambda>x. fst x \<noteq> lruQueueIt e) (lruQueue c)) = mset (lruQueue c) - {#(lruQueueIt e, k)#}"
    using mset_filter_fst [OF _ it] queue by (simp add: queue_ok_def)
  then have "queue_ok ?c"
    using queue m by (auto simp: queue_ok_def queue_entry_def distinct_map_filter less_Suc_eq)
  moreover have "entries_ok lv (cacheMap ?c)" using entries m by (simp add: entries_ok_def sorted_wrt_append)
  moreover have "sizes_ok ?c" using ok m by (simp add: cache_ok_def sizes_ok_def)
  ultimately have "cache_ok lv ?c" by (simp add: cache_ok_def)
  moreover have "map_of (cacheMap ?c) k = Some (e\<lparr>lruQueueIt := nextIt c\<rparr>)"
    using k by (simp add: map_of_cut del: map_of_append)
  ultimately show ?thesis using run m by auto
qed

lemma entries_same_key: "entries_ok lv m \<Longrightarrow> x \<in> set m \<Longrightarrow> y \<in> set m \<Longrightarrow> fst x = fst y \<Longrightarrow> x = y"
  using entries_distinct by (metis eq_key_imp_eq_value prod.collapse)

lemma drop_entry_queue:
  assumes ok: "cache_ok lv c" and x: "x \<in> set (cacheMap c)"
  shows "lruQueue (drop_entry x c) = filter (\<lambda>y. snd y \<noteq> fst x) (lruQueue c)"
proof -
  have dist: "distinct (map fst (lruQueue c))" and entries: "entries_ok lv (cacheMap c)"
    using ok by (simp_all add: cache_ok_def queue_ok_def)
  have mem: "set (lruQueue c) = queue_entry ` set (cacheMap c)" using ok queue_ok_mem by (simp add: cache_ok_def)
  have "fst y = lruQueueIt (snd x) \<longleftrightarrow> snd y = fst x" if y: "y \<in> set (lruQueue c)" for y
  proof
    assume "fst y = lruQueueIt (snd x)"
    moreover have "queue_entry x \<in> set (lruQueue c)" using mem x by simp
    ultimately have "y = queue_entry x"
      using dist y by (metis eq_key_imp_eq_value prod.collapse queue_entry_def fst_conv)
    then show "snd y = fst x" by (simp add: queue_entry_def)
  next
    assume "snd y = fst x"
    moreover obtain z where z: "z \<in> set (cacheMap c)" "y = queue_entry z" using mem y by auto
    ultimately have "x = z" using entries_same_key [OF entries x] by (simp add: queue_entry_def)
    with z show "fst y = lruQueueIt (snd x)" by (simp add: queue_entry_def)
  qed
  then show ?thesis by (auto simp: drop_entry_def intro!: filter_cong)
qed

section \<open>Searching for a prefix\<close>

lemma prefix_le: "prefix p s \<Longrightarrow> p \<le> (s :: string)"
proof (induction p arbitrary: s)
  case (Cons c p)
  then show ?case by (cases s) auto
qed simp

lemma prefix_between:
  "prefix p z \<Longrightarrow> p \<le> y \<Longrightarrow> y \<le> z \<Longrightarrow> prefix p (y :: string)"
proof (induction p arbitrary: y z)
  case (Cons c p)
  from Cons.prems(1) obtain z' where z: "z = c # z'" "prefix p z'" by (cases z) auto
  with Cons.prems(2,3) obtain y' where y: "y = c # y'" "p \<le> y'" "y' \<le> z'"
    by (cases y) auto
  with Cons.IH z show ?case by simp
qed simp

lemma take_prefix: "take (length p) s = p \<longleftrightarrow> prefix p s"
  by (metis append_eq_conv_conj prefix_def take_is_prefix)

lemma find_Some_mem: "find P xs = Some x \<Longrightarrow> x \<in> set xs \<and> P x"
  by (metis find_Some_iff nth_mem)

lemma FindPrefix_Some:
  assumes "FindPrefix pre c = Some x"
  shows "x \<in> set (cacheMap c)" "prefix pre (fst x)"
  using assms
  by (auto simp: FindPrefix_def smap_lower_bound_def take_prefix
      split: option.splits if_splits dest: find_Some_mem)

lemma FindPrefix_None:
  assumes none: "FindPrefix pre c = None" and sorted: "sorted_wrt (\<lambda>x y. fst x < fst y) (cacheMap c)"
    and x: "x \<in> set (cacheMap c)"
  shows "\<not> prefix pre (fst x)"
proof
  assume pre: "prefix pre (fst x)"
  then have ge: "\<not> fst x < pre" using prefix_le by (simp add: not_less)
  have "smap_lower_bound pre (cacheMap c) \<noteq> None"
    unfolding smap_lower_bound_def find_None_iff using x ge by blast
  then obtain y where y: "smap_lower_bound pre (cacheMap c) = Some y" by blast
  then obtain i where i: "i < length (cacheMap c)" "y = cacheMap c ! i" "\<not> fst y < pre"
      "\<forall>j < i. fst (cacheMap c ! j) < pre"
    by (auto simp: smap_lower_bound_def find_Some_iff)
  from x obtain j where j: "j < length (cacheMap c)" "x = cacheMap c ! j" by (metis in_set_conv_nth)
  with ge i(4) have "i \<le> j" by (meson leI)
  then have "fst y \<le> fst x"
    using sorted i j by (cases "i = j") (auto simp: sorted_wrt_iff_nth_less less_imp_le)
  with prefix_between [OF pre] i(3) have "prefix pre (fst y)" by simp
  with none y show False by (simp add: FindPrefix_def take_prefix)
qed

section \<open>The queue in the order of use\<close>

text \<open>
  \<open>evicted lk q q'\<close>: the queue \<open>q'\<close> is what remains of \<open>q\<close> when the entries of an
  initial part that are not locked are evicted, so eviction follows the order of last use.
\<close>

definition evicted :: "(string \<Rightarrow> bool) \<Rightarrow> (nat \<times> string) list \<Rightarrow> (nat \<times> string) list \<Rightarrow> bool" where
  "evicted lk q q' \<longleftrightarrow> (\<exists>n. q' = filter (lk \<circ> snd) (take n q) @ drop n q)"

lemma evicted_refl [simp]: "evicted lk q q"
  unfolding evicted_def by (rule exI [of _ 0]) simp

lemma evicted_trans:
  assumes "evicted lk q q'" "evicted lk q' q''"
  shows "evicted lk q q''"
proof -
  from assms obtain n m where n: "q' = filter (lk \<circ> snd) (take n q) @ drop n q"
    and m: "q'' = filter (lk \<circ> snd) (take m q') @ drop m q'" by (auto simp: evicted_def)
  let ?f = "filter (lk \<circ> snd) (take n q)"
  show ?thesis
  proof (cases "m \<le> length ?f")
    case True
    then have "take m q' = take m ?f" "drop m q' = drop m ?f @ drop n q" using n by simp_all
    moreover have "filter (lk \<circ> snd) (take m ?f) = take m ?f"
      by (rule filter_True) (auto dest: in_set_takeD)
    ultimately have "q'' = take m ?f @ drop m ?f @ drop n q" using m by (simp only:)
    with n have "q'' = q'" by simp
    with assms(1) show ?thesis by simp
  next
    case False
    let ?j = "m - length ?f"
    have "take m q' = ?f @ take ?j (drop n q)" "drop m q' = drop ?j (drop n q)"
      using False n by simp_all
    then have "q'' = filter (lk \<circ> snd) (take (n + ?j) q) @ drop (n + ?j) q"
      using m by (simp add: take_add add.commute comp_def)
    then show ?thesis by (auto simp: evicted_def)
  qed
qed

lemma evicted_first:
  assumes "distinct (map fst q)" "q = q1 @ (it, k) # q2" "\<forall>x \<in> set q1. lk (snd x)" "\<not> lk k"
  shows "evicted lk q (filter (\<lambda>y. fst y \<noteq> it) q)"
proof -
  have "filter (\<lambda>y. fst y \<noteq> it) q = q1 @ q2" using assms(1,2) by (simp add: filter_other)
  moreover have "filter (lk \<circ> snd) q1 = q1" using assms(3) by (simp add: filter_id_conv)
  ultimately have "filter (\<lambda>y. fst y \<noteq> it) q =
      filter (lk \<circ> snd) (take (Suc (length q1)) q) @ drop (Suc (length q1)) q"
    using assms(2,4) by simp
  then show ?thesis unfolding evicted_def by blast
qed

section \<open>What the cache needs of an allocator\<close>

locale device_alloc =
  fixes D :: "'a device_ops" and inv :: "'a \<Rightarrow> bool" and lv :: "'a \<Rightarrow> nat \<rightharpoonup> nat"
  assumes can_total: "inv a \<Longrightarrow> 0 < n \<Longrightarrow> n < 2 ^ 62 \<Longrightarrow> \<exists>b. op_CanAllocate D n a = Inr b"
    and allocate: "inv a \<Longrightarrow> op_CanAllocate D n a = Inr True \<Longrightarrow>
      \<exists>p s a'. op_Allocate D n a = Inr (p, a') \<and> inv a' \<and> lv a p = None \<and> lv a' = (lv a)(p \<mapsto> s) \<and> n \<le> int s"
    and deallocate: "inv a \<Longrightarrow> lv a p \<noteq> None \<Longrightarrow>
      \<exists>a'. op_Deallocate D p a = Inr a' \<and> inv a' \<and> lv a' = (lv a)(p := None)"
begin

lemma evict_entry_drop:
  assumes ok: "cache_ok (lv a) c" "inv a" and x: "x \<in> set (cacheMap c)"
  shows "\<exists>a'. evict_entry D (lruQueueIt (snd x)) (snd x) c a = (Inr True, drop_entry x c, a')
    \<and> inv a' \<and> lv a' = (lv a)(e_ptr (snd x) := None)"
proof -
  have key: "e_key (snd x) = fst x" and live: "lv a (e_ptr (snd x)) \<noteq> None"
    using ok(1) x by (auto simp: cache_ok_def entries_ok_def)
  from deallocate [OF ok(2) live] drop_entry_ok(2) [OF ok(1) x] key
  show ?thesis by (auto simp: evict_entry_def drop_entry_def)
qed

lemma evict_scan_find:
  assumes ok: "cache_ok (lv a) c" and q: "set q \<subseteq> set (lruQueue c)"
  shows "evict_scan D L q c a =
    (case find (\<lambda>y. \<not> isLockedItem L (currentBlockIndex c) (snd y)) q of
       None \<Rightarrow> (Inr False, c, a)
     | Some y \<Rightarrow> evict_entry D (fst y) (the (map_of (cacheMap c) (snd y))) c a)"
  using q
proof (induction q)
  case (Cons y q)
  obtain it k where y: "y = (it, k)" by (cases y)
  have "y \<in> queue_entry ` set (cacheMap c)" using Cons.prems queue_ok_mem ok by (auto simp: cache_ok_def)
  then obtain e where e: "(k, e) \<in> set (cacheMap c)" using y by (auto simp: queue_entry_def)
  have "map_of (cacheMap c) k = Some e" "e_key e = k"
    using ok e by (auto simp: cache_ok_def entries_map_of, force simp: entries_ok_def)
  with Cons y show ?case by simp
qed simp

lemma Evict_cases:
  assumes ok: "cache_ok (lv a) c" "inv a"
  obtains (none) "Evict D L c a = (Inr False, c, a)"
      "\<forall>x \<in> set (cacheMap c). isLockedItem L (currentBlockIndex c) (fst x)"
  | (some) x a' where "x \<in> set (cacheMap c)" "Evict D L c a = (Inr True, drop_entry x c, a')" "inv a'"
      "lv a' = (lv a)(e_ptr (snd x) := None)"
      "evicted (isLockedItem L (currentBlockIndex c)) (lruQueue c) (lruQueue (drop_entry x c))"
proof (cases "find (\<lambda>y. \<not> isLockedItem L (currentBlockIndex c) (snd y)) (lruQueue c)")
  case None
  have "isLockedItem L (currentBlockIndex c) (fst x)" if "x \<in> set (cacheMap c)" for x
  proof -
    have "queue_entry x \<in> set (lruQueue c)" using that queue_ok_mem ok by (auto simp: cache_ok_def)
    with None show ?thesis by (fastforce simp: find_None_iff queue_entry_def)
  qed
  with None none evict_scan_find [OF ok(1) order_refl] show thesis by (simp add: Evict_def)
next
  case (Some y)
  then obtain i where i: "i < length (lruQueue c)" "y = lruQueue c ! i"
      "\<not> isLockedItem L (currentBlockIndex c) (snd y)"
      "\<forall>j < i. isLockedItem L (currentBlockIndex c) (snd (lruQueue c ! j))"
    by (auto simp: find_Some_iff)
  then have "y \<in> set (lruQueue c)" by simp
  then obtain x where x: "x \<in> set (cacheMap c)" "y = queue_entry x"
    using queue_ok_mem ok by (auto simp: cache_ok_def)
  have "map_of (cacheMap c) (fst x) = Some (snd x)"
    using ok x entries_map_of [of "lv a" "cacheMap c" "fst x" "snd x"] by (simp add: cache_ok_def)
  then have run: "Evict D L c a = evict_entry D (lruQueueIt (snd x)) (snd x) c a"
    using evict_scan_find [OF ok(1) order_refl, of L] Some x by (simp add: Evict_def queue_entry_def)
  have q: "lruQueue c = take i (lruQueue c) @ (lruQueueIt (snd x), fst x) # drop (Suc i) (lruQueue c)"
    using i(1,2) x(2) id_take_nth_drop [OF i(1)] by (simp add: queue_entry_def)
  have "\<forall>y \<in> set (take i (lruQueue c)). isLockedItem L (currentBlockIndex c) (snd y)"
    using i(1,4) by (fastforce simp: in_set_conv_nth)
  then have "evicted (isLockedItem L (currentBlockIndex c)) (lruQueue c) (lruQueue (drop_entry x c))"
    using evicted_first [OF _ q] ok(1) i(3) x(2)
    by (simp add: cache_ok_def queue_ok_def drop_entry_def queue_entry_def)
  with evict_entry_drop [OF ok x(1)] run some x(1) show thesis by metis
qed

lemma evict_loop_total:
  assumes "cache_ok (lv a) c" "inv a" "0 < n" "n < 2 ^ 62"
  shows "\<exists>r c' a'. evict_loop D L n c a = Some (r, c', a') \<and> cache_ok (lv a') c' \<and> inv a'
    \<and> maxSize c' = maxSize c \<and> currentBlockIndex c' = currentBlockIndex c
    \<and> set (cacheMap c') \<subseteq> set (cacheMap c)
    \<and> evicted (isLockedItem L (currentBlockIndex c)) (lruQueue c) (lruQueue c')
    \<and> (sole_user (lv a) c \<longrightarrow> sole_user (lv a') c')
    \<and> (r = Inr () \<and> HasFreeSpace n c' \<and> op_CanAllocate D (int n) a' = Inr True
       \<or> r = Inl LengthError \<and> \<not> (HasFreeSpace n c' \<and> op_CanAllocate D (int n) a' = Inr True)
         \<and> (\<forall>x \<in> set (cacheMap c'). isLockedItem L (currentBlockIndex c) (fst x)))"
  using assms
proof (induction "length (cacheMap c)" arbitrary: c a rule: less_induct)
  case less
  have n: "to_int64 (int n) = int n" using less.prems(4) by (intro to_int64_id) auto
  from can_total [OF less.prems(2)] less.prems(3,4) obtain b where can: "op_CanAllocate D (int n) a = Inr b"
    by (metis of_nat_0_less_iff of_nat_less_iff of_nat_numeral of_nat_power)
  have step: "evict_loop D L n c a = (if HasFreeSpace n c \<and> b then Some (Inr (), c, a)
      else (case Evict D L c a of (Inl err, c', a') \<Rightarrow> Some (Inl err, c', a')
        | (Inr ev, c', a') \<Rightarrow> if ev then evict_loop D L n c' a' else Some (Inl LengthError, c', a')))"
    using evict_loop.simps [of D L n c a] can n by (auto split: sum.splits)
  show ?case
  proof (cases "HasFreeSpace n c \<and> b")
    case True
    with step less.prems can show ?thesis by auto
  next
    case room: False
    from less.prems(1,2) show ?thesis
    proof (cases rule: Evict_cases [of a c L])
      case none
      then have "evict_loop D L n c a = Some (Inl LengthError, c, a)" using step room by auto
      with less.prems room can none(2) show ?thesis by auto
    next
      case (some x a')
      note ok = drop_entry_ok [OF less.prems(1) some(1)]
      have loop: "evict_loop D L n c a = evict_loop D L n (drop_entry x c) a'"
        using step room some(2) by auto
      have shorter: "length (cacheMap (drop_entry x c)) < length (cacheMap c)"
        using length_smap_erase [OF some(1)] by simp
      have "cache_ok (lv a') (drop_entry x c)" using ok(1) some(4) by simp
      from less.hyps [OF shorter this some(3) less.prems(3,4)] obtain r c' a'' where
        rest: "evict_loop D L n (drop_entry x c) a' = Some (r, c', a'')" "cache_ok (lv a'') c'" "inv a''"
          "maxSize c' = maxSize c" "currentBlockIndex c' = currentBlockIndex c"
          "set (cacheMap c') \<subseteq> set (cacheMap (drop_entry x c))"
          "evicted (isLockedItem L (currentBlockIndex c)) (lruQueue (drop_entry x c)) (lruQueue c')"
          "sole_user (lv a') (drop_entry x c) \<longrightarrow> sole_user (lv a'') c'"
          "r = Inr () \<and> HasFreeSpace n c' \<and> op_CanAllocate D (int n) a'' = Inr True
           \<or> r = Inl LengthError \<and> \<not> (HasFreeSpace n c' \<and> op_CanAllocate D (int n) a'' = Inr True)
             \<and> (\<forall>x \<in> set (cacheMap c'). isLockedItem L (currentBlockIndex c) (fst x))"
        by (simp only: drop_entry_fields(1,2)) blast
      have "evicted (isLockedItem L (currentBlockIndex c)) (lruQueue c) (lruQueue c')"
        using evicted_trans some(5) rest(7) by blast
      moreover have "sole_user (lv a) c \<longrightarrow> sole_user (lv a'') c'" using ok(3) some(4) rest(8) by simp
      moreover have "set (cacheMap c') \<subseteq> set (cacheMap c)" using rest(6) by auto
      ultimately show ?thesis using loop rest(1-5,9) by metis
    qed
  qed
qed

lemma GetColumn_hit:
  assumes ok: "cache_ok (lv a) c" and e: "map_of (cacheMap c) (column_block db tc bi ls lo) = Some e"
  shows "\<exists>c'. GetColumn D L T db tc bi sz ls lo c a = Some (Inr (e_ptr e, e_size e div T, True), c', a)
    \<and> cache_ok (lv a) c' \<and> maxSize c' = maxSize c \<and> map fst (cacheMap c') = map fst (cacheMap c)
    \<and> lruQueue c' = filter (\<lambda>x. fst x \<noteq> lruQueueIt e) (lruQueue c) @ [(nextIt c, column_block db tc bi ls lo)]
    \<and> map_of (cacheMap c') (column_block db tc bi ls lo) = Some (e\<lparr>lruQueueIt := nextIt c\<rparr>)"
  using touch_ok [OF ok e] e by (force simp: GetColumn_def Let_def)

lemma HasFreeSpace_iff:
  assumes "sizes_ok c" "n < 2 ^ 62"
  shows "HasFreeSpace n c \<longleftrightarrow> usedSize c + int n \<le> int (maxSize c)"
proof -
  have "0 \<le> usedSize c + int n" "usedSize c + int n < 2 ^ 64" using assms by (auto simp: sizes_ok_def)
  then have "(usedSize c + int n) mod 2 ^ 64 = usedSize c + int n" by (rule mod_pos_pos_trivial)
  with \<open>0 \<le> usedSize c + int n\<close> show ?thesis unfolding HasFreeSpace_def by linarith
qed

lemma GetColumn_miss:
  assumes ok: "cache_ok (lv a) c" "inv a" and new: "map_of (cacheMap c) k = None"
    and k: "k = column_block db tc bi ls lo" and n: "n = T * sz mod 2 ^ 64" "0 < n" "n \<le> maxSize c"
  shows "\<exists>r c1 c' a'. GetColumn D L T db tc bi sz ls lo c a = Some (r, c', a')
    \<and> cache_ok (lv a') c' \<and> inv a' \<and> maxSize c' = maxSize c
    \<and> set (cacheMap c1) \<subseteq> set (cacheMap c)
    \<and> evicted (isLockedItem L (currentBlockIndex c)) (lruQueue c) (lruQueue c1)
    \<and> ((\<exists>p. r = Inr (p, sz, False) \<and> c' = add_entry k p n c1
          \<and> map_of (cacheMap c') k = Some \<lparr>e_key = k, e_ptr = p, e_size = n, lruQueueIt = nextIt c1\<rparr>)
       \<or> r = Inl LengthError \<and> c' = c1
         \<and> \<not> (HasFreeSpace n c1 \<and> op_CanAllocate D (int n) a' = Inr True)
         \<and> (sole_user (lv a) c \<longrightarrow> sole_user (lv a') c1)
         \<and> (\<forall>x \<in> set (cacheMap c1). isLockedItem L (currentBlockIndex c) (fst x)))"
proof -
  have small: "n < 2 ^ 62" using ok(1) n(3) by (simp add: cache_ok_def sizes_ok_def)
  have conv: "to_int64 (int n) = int n" using small by (intro to_int64_id) auto
  from evict_loop_total [OF ok n(2) small, of L] obtain r c1 a1 where
    loop: "evict_loop D L n c a = Some (r, c1, a1)" and ok1: "cache_ok (lv a1) c1" "inv a1" "maxSize c1 = maxSize c"
      and sub: "set (cacheMap c1) \<subseteq> set (cacheMap c)"
      and ev: "evicted (isLockedItem L (currentBlockIndex c)) (lruQueue c) (lruQueue c1)"
      and sole: "sole_user (lv a) c \<longrightarrow> sole_user (lv a1) c1"
      and r: "r = Inr () \<and> HasFreeSpace n c1 \<and> op_CanAllocate D (int n) a1 = Inr True
       \<or> r = Inl LengthError \<and> \<not> (HasFreeSpace n c1 \<and> op_CanAllocate D (int n) a1 = Inr True)
         \<and> (\<forall>x \<in> set (cacheMap c1). isLockedItem L (currentBlockIndex c) (fst x))" by blast
  have unfold: "GetColumn D L T db tc bi sz ls lo c a = (case (r, c1, a1) of
       (Inl err, c', a') \<Rightarrow> Some (Inl err, c', a')
     | (Inr _, c', a') \<Rightarrow> (case op_Allocate D (int n) a' of
           Inl err \<Rightarrow> Some (Inl err, c', a')
         | Inr (p, a'') \<Rightarrow> Some (Inr (p, sz, False), add_entry k p n c', a'')))"
    unfolding GetColumn_def Let_def k [symmetric] n(1) [symmetric]
    using new n(3) loop conv by (cases r) (simp_all add: not_less)
  from r show ?thesis
  proof
    assume served: "r = Inr () \<and> HasFreeSpace n c1 \<and> op_CanAllocate D (int n) a1 = Inr True"
    with allocate [OF ok1(2)] obtain p s a2 where al: "op_Allocate D (int n) a1 = Inr (p, a2)" "inv a2"
      "lv a1 p = None" "lv a2 = (lv a1)(p \<mapsto> s)" "int n \<le> int s" by blast
    have "usedSize c1 + int n \<le> int (maxSize c1)"
      using served HasFreeSpace_iff small ok1(1) by (simp add: cache_ok_def)
    moreover have "k \<notin> fst ` set (cacheMap c1)" using new sub by (auto simp: map_of_eq_None_iff)
    ultimately have "cache_ok (lv a2) (add_entry k p n c1)"
      "map_of (cacheMap (add_entry k p n c1)) k = Some \<lparr>e_key = k, e_ptr = p, e_size = n, lruQueueIt = nextIt c1\<rparr>"
      using add_entry_ok [OF ok1(1)] al(3-5) by auto
    moreover have "GetColumn D L T db tc bi sz ls lo c a = Some (Inr (p, sz, False), add_entry k p n c1, a2)"
      using unfold served al(1) by simp
    moreover have "maxSize (add_entry k p n c1) = maxSize c" using ok1(3) by (simp add: add_entry_def)
    ultimately show ?thesis using al(2) sub ev by blast
  next
    assume full: "r = Inl LengthError \<and> \<not> (HasFreeSpace n c1 \<and> op_CanAllocate D (int n) a1 = Inr True)
         \<and> (\<forall>x \<in> set (cacheMap c1). isLockedItem L (currentBlockIndex c) (fst x))"
    then have "GetColumn D L T db tc bi sz ls lo c a = Some (Inl LengthError, c1, a1)" using unfold by simp
    with full ok1 sub ev sole show ?thesis by blast
  qed
qed

lemma foldR_deallocate:
  assumes "inv a" "distinct (map (e_ptr \<circ> snd) m)" "\<forall>x \<in> set m. lv a (e_ptr (snd x)) \<noteq> None"
  shows "\<exists>a'. foldR (\<lambda>x. op_Deallocate D (e_ptr (snd x))) m a = Inr a' \<and> inv a'
    \<and> lv a' = (\<lambda>p. if p \<in> (e_ptr \<circ> snd) ` set m then None else lv a p)"
  using assms
proof (induction m arbitrary: a)
  case (Cons x m)
  from Cons.prems(3) have "lv a (e_ptr (snd x)) \<noteq> None" by simp
  with deallocate [OF Cons.prems(1)] obtain a1 where
    a1: "op_Deallocate D (e_ptr (snd x)) a = Inr a1" "inv a1" "lv a1 = (lv a)(e_ptr (snd x) := None)" by blast
  have "\<forall>y \<in> set m. lv a1 (e_ptr (snd y)) \<noteq> None" using a1(3) Cons.prems(2,3) by (auto simp: image_iff)
  with Cons.IH [OF a1(2)] Cons.prems(2) obtain a' where
    "foldR (\<lambda>x. op_Deallocate D (e_ptr (snd x))) m a1 = Inr a'" "inv a'"
    "lv a' = (\<lambda>p. if p \<in> (e_ptr \<circ> snd) ` set m then None else lv a1 p)" by auto
  with a1 show ?case by auto
qed simp

lemma erase_found_drop:
  assumes ok: "cache_ok (lv a) c" "inv a" and x: "x \<in> set (cacheMap c)"
  shows "\<exists>a'. erase_found D x c a = (Inr (), drop_entry x c, a')
    \<and> inv a' \<and> lv a' = (lv a)(e_ptr (snd x) := None)"
proof -
  have live: "lv a (e_ptr (snd x)) \<noteq> None"
    using ok(1) x by (auto simp: cache_ok_def entries_ok_def)
  have "queue_entry x \<in> set (lruQueue c)" using queue_ok_mem ok x by (auto simp: cache_ok_def)
  then have "lruQueueIt (snd x) \<in> fst ` set (lruQueue c)" by (force simp: queue_entry_def)
  with deallocate [OF ok(2) live] drop_entry_ok(2) [OF ok(1) x]
  show ?thesis by (auto simp: erase_found_def queue_erase_def drop_entry_def)
qed

lemma clear_loop_total:
  assumes "cache_ok (lv a) c" "inv a"
  shows "\<exists>c' a'. clear_loop D pre c a = Some (Inr (), c', a') \<and> cache_ok (lv a') c' \<and> inv a'
    \<and> cacheMap c' = filter (\<lambda>x. \<not> prefix pre (fst x)) (cacheMap c)
    \<and> lruQueue c' = filter (\<lambda>y. \<not> prefix pre (snd y)) (lruQueue c)
    \<and> lv a' = (\<lambda>p. if \<exists>x \<in> set (cacheMap c). prefix pre (fst x) \<and> e_ptr (snd x) = p then None else lv a p)"
  using assms
proof (induction "length (cacheMap c)" arbitrary: c a rule: less_induct)
  case less
  show ?case
  proof (cases "FindPrefix pre c")
    case None
    then have none: "\<forall>x \<in> set (cacheMap c). \<not> prefix pre (fst x)"
      using FindPrefix_None less.prems(1) by (metis cache_ok_def entries_ok_def)
    have "\<forall>y \<in> set (lruQueue c). \<not> prefix pre (snd y)"
      using none queue_ok_mem less.prems(1) by (auto simp: cache_ok_def queue_entry_def)
    with none None less.prems show ?thesis by (simp add: clear_loop.simps [of D pre c a])
  next
    case (Some x)
    note x = FindPrefix_Some [OF Some]
    note ok = drop_entry_ok [OF less.prems(1) x(1)]
    from erase_found_drop [OF less.prems x(1)] obtain a1 where
      a1: "erase_found D x c a = (Inr (), drop_entry x c, a1)" "inv a1" "lv a1 = (lv a)(e_ptr (snd x) := None)"
      by blast
    have loop: "clear_loop D pre c a = clear_loop D pre (drop_entry x c) a1"
      using Some a1(1) by (simp add: clear_loop.simps [of D pre c a])
    have shorter: "length (cacheMap (drop_entry x c)) < length (cacheMap c)"
      using length_smap_erase [OF x(1)] by simp
    have "cache_ok (lv a1) (drop_entry x c)" using ok(1) a1(3) by simp
    from less.hyps [OF shorter this a1(2)] obtain c' a' where
      rest: "clear_loop D pre (drop_entry x c) a1 = Some (Inr (), c', a')" "cache_ok (lv a') c'" "inv a'"
        "cacheMap c' = filter (\<lambda>x. \<not> prefix pre (fst x)) (cacheMap (drop_entry x c))"
        "lruQueue c' = filter (\<lambda>y. \<not> prefix pre (snd y)) (lruQueue (drop_entry x c))"
        "lv a' = (\<lambda>p. if \<exists>y \<in> set (cacheMap (drop_entry x c)). prefix pre (fst y) \<and> e_ptr (snd y) = p
                     then None else lv a1 p)" by blast
    have uniq: "y = x" if "y \<in> set (cacheMap c)" "fst y = fst x" for y
      using entries_same_key that x(1) less.prems(1) unfolding cache_ok_def by metis
    have same: "(\<exists>y \<in> set (cacheMap c). prefix pre (fst y) \<and> e_ptr (snd y) = p) \<longleftrightarrow>
        p = e_ptr (snd x) \<or> (\<exists>y \<in> set (cacheMap (drop_entry x c)). prefix pre (fst y) \<and> e_ptr (snd y) = p)" for p
      unfolding drop_entry_fields set_smap_erase using x uniq by blast
    have "cacheMap c' = filter (\<lambda>x. \<not> prefix pre (fst x)) (cacheMap c)"
      using rest(4) x(2) by (auto simp: smap_erase_def intro!: filter_cong)
    moreover have "lruQueue c' = filter (\<lambda>y. \<not> prefix pre (snd y)) (lruQueue c)"
      using rest(5) x drop_entry_queue [OF less.prems(1) x(1)] by (auto intro!: filter_cong)
    moreover have "lv a' = (\<lambda>p. if \<exists>y \<in> set (cacheMap c). prefix pre (fst y) \<and> e_ptr (snd y) = p then None else lv a p)"
      unfolding rest(6) a1(3) same fun_upd_apply by (rule ext) argo
    ultimately show ?thesis using loop rest(1-3) by auto
  qed
qed

end

end
