(* ===== verification/Memory_Cache_Props.thy ===== *)
theory Memory_Cache_Props
  imports Memory_Cache_Correct
begin

text \<open>
  The properties of the block cache on top of the real allocator: the interpretation of
  \<open>device_alloc\<close> on \<open>CudaMemAllocator\<close>, and what \<open>GetColumn\<close>, \<open>Evict\<close>,
  \<open>ClearCachedBlock\<close> and the destructor do then.
\<close>

section \<open>An allocator that recovers its room\<close>

locale device_alloc_room = device_alloc +
  fixes room :: nat
  assumes can_empty: "inv a \<Longrightarrow> lv a = Map.empty \<Longrightarrow> 0 < n \<Longrightarrow> n + 511 \<le> int room \<Longrightarrow> n < 2 ^ 62 \<Longrightarrow>
      op_CanAllocate D n a = Inr True"
begin

lemma GetColumn_live:
  assumes ok: "cache_ok (lv a) c" "inv a" and sole: "sole_user (lv a) c"
    and unlocked: "\<forall>x \<in> set (cacheMap c). \<not> isLockedItem L (currentBlockIndex c) (fst x)"
    and n: "n = T * sz mod 2 ^ 64" "0 < n" "n \<le> maxSize c" "n + 511 \<le> room"
  shows "\<exists>p m hit c' a'. GetColumn D L T db tc bi sz ls lo c a = Some (Inr (p, m, hit), c', a')"
proof (cases "map_of (cacheMap c) (column_block db tc bi ls lo)")
  case (Some e)
  with GetColumn_hit [OF ok(1)] show ?thesis by blast
next
  case None
  have small: "n < 2 ^ 62" using ok(1) n(3) by (simp add: cache_ok_def sizes_ok_def)
  from GetColumn_miss [OF ok None refl n(1-3), of L] obtain r c1 c' a' where
    run: "GetColumn D L T db tc bi sz ls lo c a = Some (r, c', a')" and ok': "cache_ok (lv a') c'" "inv a'"
      "maxSize c' = maxSize c" and sub: "set (cacheMap c1) \<subseteq> set (cacheMap c)"
    and r: "(\<exists>p. r = Inr (p, sz, False)) \<or> r = Inl LengthError \<and> c' = c1
         \<and> \<not> (HasFreeSpace n c1 \<and> op_CanAllocate D (int n) a' = Inr True)
         \<and> (sole_user (lv a) c \<longrightarrow> sole_user (lv a') c1)
         \<and> (\<forall>x \<in> set (cacheMap c1). isLockedItem L (currentBlockIndex c) (fst x))" by metis
  show ?thesis
  proof (cases "\<exists>p. r = Inr (p, sz, False)")
    case True
    with run show ?thesis by blast
  next
    case False
    with r have c1: "c' = c1" "\<not> (HasFreeSpace n c1 \<and> op_CanAllocate D (int n) a' = Inr True)"
        "sole_user (lv a') c1" "\<forall>x \<in> set (cacheMap c1). isLockedItem L (currentBlockIndex c) (fst x)"
      using sole by blast+
    have "set (cacheMap c1) = {}" using c1(4) unlocked sub by (metis equals0I subsetD)
    then have empty: "cacheMap c1 = []" by simp
    then have "lv a' = Map.empty" using c1(3) by (simp add: sole_user_def)
    with can_empty [OF ok'(2), of "int n"] n small have "op_CanAllocate D (int n) a' = Inr True" by auto
    moreover have "HasFreeSpace n c1"
      using HasFreeSpace_iff [of c1 n] ok' small c1(1) empty n(3) by (simp add: cache_ok_def sizes_ok_def)
    ultimately show ?thesis using c1(2) by blast
  qed
qed

end

section \<open>The real allocator\<close>

lemma alignedSize_small:
  assumes "0 < n" "n < 2 ^ 62"
  obtains s where "alignedSize n = Inr s" "n \<le> int s" "int s \<le> n + 511"
proof -
  let ?a = "if n mod 512 = 0 then n else n + (512 - n mod 512)"
  have "0 \<le> n mod 512" by simp
  then have le: "?a \<le> n + 512" by simp
  have "?a < 2 ^ 63" by (rule le_less_trans [OF le]) (use assms(2) in simp)
  then have "alignedSize n = Inr (nat ?a)" by (simp add: alignedSize_def Let_def)
  with that alignedSize_Inr [OF this assms(1)] show thesis by force
qed

interpretation cuda: device_alloc_room cuda_ops "\<lambda>a. alloc_ok a \<and> buffer_size a = room" live room
  for room :: nat
proof
  fix a :: allocator and n :: int and p :: nat
  assume inv: "alloc_ok a \<and> buffer_size a = room"
  then have ok: "alloc_ok a" ..
  { assume n: "0 < n" "n < 2 ^ 62"
    then obtain s where "alignedSize n = Inr s" by (rule alignedSize_small)
    with n(1) show "\<exists>b. op_CanAllocate cuda_ops n a = Inr b" by (simp add: cuda_ops_def CanAllocate_def)
  }
  { assume "op_CanAllocate cuda_ops n a = Inr True"
    then obtain p a' where run: "Allocate n a = Inr (p, a')"
      using CanAllocate_Allocate [OF ok] by (auto simp: cuda_ops_def)
    from Allocate_step [OF ok this] obtain s where "alignedSize n = Inr s" "0 < n" "alloc_ok a'"
      "live a p = None" "live a' = (live a)(p \<mapsto> s)" "buffer_size a' = buffer_size a" by metis
    with run inv alignedSize_Inr(3) show "\<exists>p s a'. op_Allocate cuda_ops n a = Inr (p, a')
        \<and> (alloc_ok a' \<and> buffer_size a' = room) \<and> live a p = None \<and> live a' = (live a)(p \<mapsto> s) \<and> n \<le> int s"
      by (auto simp: cuda_ops_def)
  }
  { assume "live a p \<noteq> None"
    from Deallocate_step [OF ok this] inv show "\<exists>a'. op_Deallocate cuda_ops p a = Inr a'
        \<and> (alloc_ok a' \<and> buffer_size a' = room) \<and> live a' = (live a)(p := None)"
      by (metis cuda_ops_def device_ops.select_convs(3))
  }
  { assume empty: "live a = Map.empty" and n: "0 < n" "n + 511 \<le> int room" "n < 2 ^ 62"
    obtain s where "alignedSize n = Inr s" "int s \<le> n + 511" by (rule alignedSize_small [OF n(1,3)])
    with nothing_live_layout [OF ok empty] CanAllocate_iff_free_block [OF ok n(1)] n inv
    show "op_CanAllocate cuda_ops n a = Inr True" by (simp add: cuda_ops_def)
  }
qed

section \<open>Names of blocks\<close>

lemma show_int_append_digit:
  assumes "0 < i" "0 \<le> d" "d < 10"
  shows "show_int (10 * i + d) = show_int i @ [digit_char (nat d)]"
proof -
  have "nat (10 * i + d) = 10 * nat i + nat d" using assms by (simp add: nat_add_distrib nat_mult_distrib)
  moreover have "show_nat (10 * nat i + nat d) = show_nat (nat i) @ [digit_char (nat d)]"
    using assms by (subst show_nat.simps) auto
  ultimately show ?thesis using assms by (simp add: show_int_def)
qed

lemma find_last_of_last: "c \<in> set s \<Longrightarrow> c \<in> set cs \<Longrightarrow>
    \<exists>i. find_last_of cs (pre @ s) = Some i \<and> length pre \<le> i"
proof (induction pre)
  case Nil
  have "find_last_of cs s \<noteq> None" if "c \<in> set s" "c \<in> set cs" for s
    using that by (induction s) (auto split: option.splits)
  with Nil show ?case by auto
next
  case (Cons b pre)
  then show ?case by (auto split: option.splits)
qed

section \<open>A cache with one entry\<close>

definition sample_key :: string where
  "sample_key = ''db.t.c_10_1000_0''"

definition sample_cache :: GPUMemoryCache where
  "sample_cache =
    \<lparr>maxSize = 2000, deviceID = 0,
     cacheMap = [(sample_key, \<lparr>e_key = sample_key, e_ptr = 4096, e_size = 1000, lruQueueIt = 0\<rparr>)],
     lruQueue = [(0, sample_key)], usedSize = 1000, currentBlockIndex = 0, nextIt = 1\<rparr>"

lemma sample_name: "column_block ''db'' ''t.c'' 10 1000 0 = sample_key"
  by code_simp

lemma sample_cache_ok: "cache_ok (live sample_used) sample_cache"
  by (simp add: cache_ok_def entries_ok_def queue_ok_def sizes_ok_def queue_entry_def sample_cache_def
      sample_used_def live_def free_node_def)

lemma sample_used_ok: "alloc_ok sample_used"
  using alloc_reachable_ok [OF sample_used_reachable] by blast

lemma sample_contains: "ContainsColumn ''db'' ''t.c'' 10 1000 0 sample_cache"
  by (simp add: ContainsColumn_def sample_name) (simp add: sample_cache_def)

lemma sample_GetColumn:
  "GetColumn cuda_ops [] 1 ''db'' ''t.c'' 10 1000 1000 0 (GPUMemoryCache_new 0 2000) sample_allocator =
     Some (Inr (4096, 1000, False), sample_cache, sample_used)"
proof -
  have "CanAllocate 1000 sample_allocator = Inr True"
    using CanAllocate_Allocate [OF sample_ok] sample_Allocate by blast
  moreover have "to_int64 1000 = 1000" by (rule to_int64_id) simp_all
  moreover have "HasFreeSpace 1000 (GPUMemoryCache_new 0 2000)"
    by (simp add: HasFreeSpace_def GPUMemoryCache_new_def)
  ultimately have "evict_loop cuda_ops [] 1000 (GPUMemoryCache_new 0 2000) sample_allocator =
      Some (Inr (), GPUMemoryCache_new 0 2000, sample_allocator)"
    by (subst evict_loop.simps) (simp add: cuda_ops_def)
  moreover have "add_entry sample_key 4096 1000 (GPUMemoryCache_new 0 2000) = sample_cache"
    using \<open>to_int64 1000 = 1000\<close>
    by (simp add: add_entry_def GPUMemoryCache_new_def sample_cache_def smap_update_def)
  ultimately show ?thesis
    using sample_Allocate \<open>to_int64 1000 = 1000\<close>
    by (simp add: GetColumn_def sample_name cuda_ops_def) (simp add: GPUMemoryCache_new_def)
qed

section \<open>Properties\<close>

text \<open>
  C3. The loop that makes room for a block ends. It leaves a well-formed cache, it has evicted
  the entries that are not locked in the order of their last use, and it stops either with
  enough room in the cache and on the device, or with \<open>length_error\<close> when everything left is
  locked.
\<close>

theorem evict_loop_terminates:
  assumes "alloc_ok a" and "cache_ok (live a) c" and "0 < n" and "n < 2 ^ 62"
  shows "\<exists>r c' a'. evict_loop cuda_ops lockList n c a = Some (r, c', a') \<and> alloc_ok a'
    \<and> cache_ok (live a') c' \<and> set (cacheMap c') \<subseteq> set (cacheMap c)
    \<and> (\<exists>k. lruQueue c' = filter (isLockedItem lockList (currentBlockIndex c) \<circ> snd) (take k (lruQueue c))
          @ drop k (lruQueue c))
    \<and> (r = Inr () \<and> HasFreeSpace n c' \<and> CanAllocate (int n) a' = Inr True
       \<or> r = Inl LengthError \<and> \<not> (HasFreeSpace n c' \<and> CanAllocate (int n) a' = Inr True)
         \<and> (\<forall>x \<in> set (cacheMap c'). isLockedItem lockList (currentBlockIndex c) (fst x)))"
  using cuda.evict_loop_total [OF assms(2) _ assms(3,4), of "buffer_size a" lockList] assms(1)
  unfolding evicted_def by (simp add: cuda_ops_def) blast

theorem evict_loop_terminates_witness:
  "\<exists>r c' a'. evict_loop cuda_ops [] 1500 sample_cache sample_used = Some (r, c', a')
    \<and> cache_ok (live a') c' \<and> set (cacheMap c') \<subseteq> set (cacheMap sample_cache)"
  using evict_loop_terminates [OF sample_used_ok sample_cache_ok, of 1500 "[]"] by auto

text \<open>
  C2. \<open>GetColumn\<close> always returns and keeps the cache and the allocator well-formed. A block that
  is cached is returned with the pointer of its entry; one that is not is allocated and
  entered with exactly the bytes asked for. Either way the block is cached afterwards and is
  the most recently used. The only failure is \<open>length_error\<close>, for a block that was not cached.
\<close>

theorem GetColumn_correct:
  assumes "alloc_ok a" and "cache_ok (live a) c" and "0 < sizeofT * sz mod 2 ^ 64"
  shows "\<exists>r c' a'. GetColumn cuda_ops lockList sizeofT db tc blockIndex sz loadSize loadOffset c a = Some (r, c', a')
    \<and> alloc_ok a' \<and> cache_ok (live a') c' \<and> maxSize c' = maxSize c
    \<and> (case r of
        Inl e \<Rightarrow> e = LengthError \<and> \<not> ContainsColumn db tc blockIndex loadSize loadOffset c
      | Inr (p, n, hit) \<Rightarrow>
          hit = ContainsColumn db tc blockIndex loadSize loadOffset c
          \<and> lruQueue c' \<noteq> [] \<and> snd (last (lruQueue c')) = column_block db tc blockIndex loadSize loadOffset
          \<and> (\<exists>e. map_of (cacheMap c') (column_block db tc blockIndex loadSize loadOffset) = Some e \<and> e_ptr e = p
              \<and> (if hit then n = e_size e div sizeofT \<and> a' = a
                 else n = sz \<and> e_size e = sizeofT * sz mod 2 ^ 64)))"
proof -
  let ?k = "column_block db tc blockIndex loadSize loadOffset"
  let ?n = "sizeofT * sz mod 2 ^ 64"
  show ?thesis
  proof (cases "map_of (cacheMap c) ?k")
    case (Some e)
    with cuda.GetColumn_hit [OF assms(2), of db tc blockIndex loadSize loadOffset e lockList sizeofT sz] assms(1)
    show ?thesis by (fastforce simp: ContainsColumn_def)
  next
    case None
    then have new: "\<not> ContainsColumn db tc blockIndex loadSize loadOffset c" by (simp add: ContainsColumn_def)
    show ?thesis
    proof (cases "?n \<le> maxSize c")
      case False
      then have "GetColumn cuda_ops lockList sizeofT db tc blockIndex sz loadSize loadOffset c a =
          Some (Inl LengthError, c, a)" using None by (simp add: GetColumn_def Let_def)
      with assms new show ?thesis by simp
    next
      case True
      from cuda.GetColumn_miss [OF assms(2) _ None refl refl assms(3) True, of "buffer_size a" lockList] assms(1)
      obtain r c1 c' a' where run: "GetColumn cuda_ops lockList sizeofT db tc blockIndex sz loadSize loadOffset c a =
          Some (r, c', a')" "alloc_ok a'" "cache_ok (live a') c'" "maxSize c' = maxSize c"
        and r: "(\<exists>p. r = Inr (p, sz, False) \<and> c' = add_entry ?k p ?n c1 \<and> map_of (cacheMap c') ?k =
             Some \<lparr>e_key = ?k, e_ptr = p, e_size = ?n, lruQueueIt = nextIt c1\<rparr>) \<or> r = Inl LengthError"
        by blast
      from r run new show ?thesis by (auto simp: add_entry_def)
    qed
  qed
qed

theorem GetColumn_correct_witness:
  "\<exists>r c' a'. GetColumn cuda_ops [] 4 ''db'' ''t.c'' 11 100 100 0 sample_cache sample_used = Some (r, c', a')
    \<and> alloc_ok a' \<and> cache_ok (live a') c'"
  using GetColumn_correct [OF sample_used_ok sample_cache_ok, of 4 100 "[]" "''db''" "''t.c''" 11 100 0] by auto

text \<open>
  C4. When no cached block is locked and the allocator serves the cache only, a block that fits
  into the cache and, with its padding, into the buffer of the device is always returned:
  eviction and merging of free blocks make the room.
\<close>

theorem GetColumn_succeeds:
  assumes "alloc_ok a" and "cache_ok (live a) c" and "sole_user (live a) c"
    and "\<forall>x \<in> set (cacheMap c). \<not> isLockedItem lockList (currentBlockIndex c) (fst x)"
    and "0 < sizeofT * sz mod 2 ^ 64" and "sizeofT * sz mod 2 ^ 64 \<le> maxSize c"
    and "sizeofT * sz mod 2 ^ 64 + 511 \<le> buffer_size a"
  shows "\<exists>p n hit c' a'.
    GetColumn cuda_ops lockList sizeofT db tc blockIndex sz loadSize loadOffset c a = Some (Inr (p, n, hit), c', a')"
  using cuda.GetColumn_live [OF assms(2) _ assms(3,4) refl assms(5,6,7)] assms(1) by simp

theorem GetColumn_succeeds_witness:
  "\<exists>p n hit c' a'. GetColumn cuda_ops [] 4 ''db'' ''t.c'' 11 400 400 0 sample_cache sample_used =
     Some (Inr (p, n, hit), c', a')"
proof -
  have "sole_user (live sample_used) sample_cache"
    by (auto simp: sole_user_def sample_cache_def sample_used_def live_def free_node_def)
  moreover have "buffer_size sample_used = 244000000" "maxSize sample_cache = 2000"
    by (simp_all add: buffer_size_def sample_used_def sample_cache_def)
  moreover have "\<not> isLockedItem [] k key" for k key by (simp add: isLockedItem_def)
  ultimately show ?thesis
    using GetColumn_succeeds [OF sample_used_ok sample_cache_ok, of "[]" 4 400 "''db''" "''t.c''" 11 400 0]
    by simp
qed

text \<open>
  C8. \<open>ClearCachedBlock\<close> ends without an exception; it removes exactly the entries whose name
  starts with the name of the block, gives exactly their memory back and keeps the order
  of use of the others.
\<close>

theorem ClearCachedBlock_correct:
  assumes "alloc_ok a" and "cache_ok (live a) c"
  shows "\<exists>c' a'. ClearCachedBlock cuda_ops db tc blockIndex c a = Some (Inr (), c', a')
    \<and> alloc_ok a' \<and> cache_ok (live a') c'
    \<and> cacheMap c' = filter (\<lambda>x. \<not> prefix (block_prefix db tc blockIndex) (fst x)) (cacheMap c)
    \<and> lruQueue c' = filter (\<lambda>y. \<not> prefix (block_prefix db tc blockIndex) (snd y)) (lruQueue c)
    \<and> (\<forall>p. live a' p = (if \<exists>x \<in> set (cacheMap c). prefix (block_prefix db tc blockIndex) (fst x) \<and> e_ptr (snd x) = p
           then None else live a p))"
  using cuda.clear_loop_total [OF assms(2), of "buffer_size a" "block_prefix db tc blockIndex"] assms(1)
  by (auto simp: ClearCachedBlock_def)

theorem ClearCachedBlock_correct_witness:
  "\<exists>c' a'. ClearCachedBlock cuda_ops ''db'' ''t.c'' 10 sample_cache sample_used = Some (Inr (), c', a')
    \<and> cache_ok (live a') c'"
  using ClearCachedBlock_correct [OF sample_used_ok sample_cache_ok, of "''db''" "''t.c''" 10] by blast

text \<open>
  C9. Block names are compared by prefix without the separator, so clearing block \<open>i\<close> of a
  column also drops its blocks \<open>10 i\<close> to \<open>10 i + 9\<close>.
\<close>

theorem ClearCachedBlock_other_blocks:
  assumes "alloc_ok a" and "cache_ok (live a) c" and "0 < i" and "0 \<le> d" and "d < 10"
  shows "\<exists>c' a'. ClearCachedBlock cuda_ops db tc i c a = Some (Inr (), c', a')
    \<and> \<not> ContainsColumn db tc (10 * i + d) loadSize loadOffset c'"
proof -
  from cuda.clear_loop_total [OF assms(2), of "buffer_size a" "block_prefix db tc i"] assms(1)
  obtain c' a' where run: "ClearCachedBlock cuda_ops db tc i c a = Some (Inr (), c', a')"
    "cacheMap c' = filter (\<lambda>x. \<not> prefix (block_prefix db tc i) (fst x)) (cacheMap c)"
    by (auto simp: ClearCachedBlock_def)
  have "prefix (block_prefix db tc i) (column_block db tc (10 * i + d) loadSize loadOffset)"
    using show_int_append_digit [OF assms(3-5)] by (simp add: block_prefix_def column_block_def)
  then have "\<not> ContainsColumn db tc (10 * i + d) loadSize loadOffset c'"
    using run(2) by (auto simp: ContainsColumn_def map_of_eq_None_iff)
  with run(1) show ?thesis by blast
qed

theorem ClearCachedBlock_other_blocks_witness:
  "ContainsColumn ''db'' ''t.c'' 10 1000 0 sample_cache \<and>
   (\<exists>c' a'. ClearCachedBlock cuda_ops ''db'' ''t.c'' 1 sample_cache sample_used = Some (Inr (), c', a')
     \<and> \<not> ContainsColumn ''db'' ''t.c'' 10 1000 0 c')"
  using ClearCachedBlock_other_blocks [OF sample_used_ok sample_cache_ok, of 1 0 "''db''" "''t.c''" 1000 0]
    sample_contains by simp

text \<open>
  C10. A block of a locked column is not protected when a digit of the current block number
  occurs in the load size or offset of its name, as with block 0 and offset 0: the search for
  the block number finds the last occurrence of any of its digits.
\<close>

theorem lock_ignored:
  assumes "ch \<in> set (show_nat b)" and "ch \<in> set (show_int loadSize) \<or> ch \<in> set (show_int loadOffset)"
  shows "\<not> isLockedItem [db @ ''.'' @ tc] b (column_block db tc (int b) loadSize loadOffset)"
proof -
  let ?pre = "block_prefix db tc (int b) @ ''_''"
  obtain i where "find_last_of (show_nat b) (?pre @ show_int loadSize @ ''_'' @ show_int loadOffset) = Some i"
      "length ?pre \<le> i"
    using find_last_of_last [of ch "show_int loadSize @ ''_'' @ show_int loadOffset" "show_nat b" ?pre] assms
    by auto
  then have "find_last_of (show_nat b) (column_block db tc (int b) loadSize loadOffset) = Some i"
    "length db + length tc + 2 < i"
    by (auto simp: column_block_def block_prefix_def)
  then show ?thesis by (simp add: isLockedItem_def)
qed

theorem lock_ignored_witness:
  "\<not> isLockedItem [''db'' @ ''.'' @ ''t.c''] 0 (column_block ''db'' ''t.c'' (int 0) 1024 0)"
proof -
  have "CHR ''0'' \<in> set (show_nat 0)" "CHR ''0'' \<in> set (show_int 0)" by code_simp+
  then show ?thesis using lock_ignored [of "CHR ''0''" 0 1024 0 "''db''" "''t.c''"] by blast
qed

text \<open>
  C11. The destructor gives all the memory of the cache back: no deallocation fails, and when
  nothing else was allocated the buffer is one free block again.
\<close>

theorem GPUMemoryCache_delete_releases:
  assumes "alloc_ok a" and "cache_ok (live a) c"
  shows "\<exists>a'. GPUMemoryCache_delete cuda_ops c a = Inr a' \<and> alloc_ok a'
    \<and> (sole_user (live a) c \<longrightarrow> layout a' = [(cudaBufferStart a', buffer_size a, False)])"
proof -
  have "distinct (map (e_ptr \<circ> snd) (cacheMap c))" "\<forall>x \<in> set (cacheMap c). live a (e_ptr (snd x)) \<noteq> None"
    using assms(2) by (auto simp: cache_ok_def entries_ok_def)
  from cuda.foldR_deallocate [OF _ this] assms(1) obtain a' where
    run: "GPUMemoryCache_delete cuda_ops c a = Inr a'" "alloc_ok a'" "buffer_size a' = buffer_size a"
    "live a' = (\<lambda>p. if p \<in> (e_ptr \<circ> snd) ` set (cacheMap c) then None else live a p)"
    unfolding GPUMemoryCache_delete_def by blast
  have "live a' = Map.empty" if "sole_user (live a) c"
    using that run(4) by (auto simp: sole_user_def fun_eq_iff dom_def)
  with run nothing_live_layout [OF run(2)] show ?thesis by auto
qed

theorem GPUMemoryCache_delete_releases_witness:
  "\<exists>a'. GPUMemoryCache_delete cuda_ops sample_cache sample_used = Inr a' \<and> alloc_ok a'"
  using GPUMemoryCache_delete_releases [OF sample_used_ok sample_cache_ok] by blast

end
