(* ===== verification/Date_Operations.thy ===== *)
theory Date_Operations
  imports Prelude
begin

text \<open>
  The calendar functors of \<open>QueryEngine/GPUCore/DateOperations.h\<close>: year, month, day, hour,
  minute, second and the two week-day functors of a timestamp in seconds since 1.1.1970. The
  timestamp and the intermediate values are \<open>int64_t\<close>, the results \<open>int32_t\<close>; they are
  modelled as \<open>int\<close> with the range written out, a signed overflow is
  \<open>UndefinedBehaviour\<close>. Division and remainder of C++ round towards zero: \<open>sdiv\<close> and
  \<open>smod\<close>.
\<close>

section \<open>Constants\<close>

definition SECONDS_BETWEEN_1600_1970 :: int where
  "SECONDS_BETWEEN_1600_1970 = 11676096000"

definition DAYS_IN_400_YEARS :: int where
  "DAYS_IN_400_YEARS = 146097"

definition SECONDS_IN_400_YEARS :: int where
  "SECONDS_IN_400_YEARS = DAYS_IN_400_YEARS * 86400"

definition START_DAYS_OF_LEAP_YEARS :: "int list" where
  "START_DAYS_OF_LEAP_YEARS = [
    0,      1461,   2922,   4383,   5844,   7305,   8766,   10227,  11688,  13149,  14610,
    16071,  17532,  18993,  20454,  21915,  23376,  24837,  26298,  27759,  29220,  30681,
    32142,  33603,  35064,  37985,  39446,  40907,  42368,  43829,  45290,  46751,  48212,
    49673,  51134,  52595,  54056,  55517,  56978,  58439,  59900,  61361,  62822,  64283,
    65744,  67205,  68666,  70127,  71588,  74509,  75970,  77431,  78892,  80353,  81814,
    83275,  84736,  86197,  87658,  89119,  90580,  92041,  93502,  94963,  96424,  97885,
    99346,  100807, 102268, 103729, 105190, 106651, 108112, 111033, 112494, 113955, 115416,
    116877, 118338, 119799, 121260, 122721, 124182, 125643, 127104, 128565, 130026, 131487,
    132948, 134409, 135870, 137331, 138792, 140253, 141714, 143175, 144636]"

definition START_DAYS_OF_MONTHS :: "int list" where
  "START_DAYS_OF_MONTHS = [
    0,    31,   60,   91,   121,  152,  182,  213,  244,  274,  305,  335,  366,  397,  425,  456,
    486,  517,  547,  578,  609,  639,  670,  700,  731,  762,  790,  821,  851,  882,  912,  943,
    974,  1004, 1035, 1065, 1096, 1127, 1155, 1186, 1216, 1247, 1277, 1308, 1339, 1369, 1400, 1430,
    1461, 1492, 1520, 1551, 1581, 1612, 1642, 1673, 1704, 1734, 1765, 1795, 1826, 1857, 1885, 1916,
    1946, 1977, 2007, 2038, 2069, 2099, 2130, 2160, 2191, 2222, 2250, 2281, 2311, 2342, 2372, 2403,
    2434, 2464, 2495, 2525, 2556, 2587, 2615, 2646, 2676, 2707, 2737, 2768, 2799, 2829, 2860, 2890]"

section \<open>The functors\<close>

definition int64_checked :: "int \<Rightarrow> int result" where
  "int64_checked i = (if - (2 ^ 63) \<le> i \<and> i < 2 ^ 63 then Inr i else Inl UndefinedBehaviour)"

definition int32_checked :: "int \<Rightarrow> int result" where
  "int32_checked i = (if - (2 ^ 31) \<le> i \<and> i < 2 ^ 31 then Inr i else Inl UndefinedBehaviour)"

text \<open>The search loop \<open>while (table[index] > value) --index\<close>; leaving the table is undefined.\<close>

fun table_loop :: "int list \<Rightarrow> int \<Rightarrow> nat \<Rightarrow> nat result" where
  "table_loop tbl v 0 = (if tbl ! 0 > v then Inl UndefinedBehaviour else Inr 0)"
| "table_loop tbl v (Suc i) = (if tbl ! Suc i > v then table_loop tbl v i else Inr (Suc i))"

definition cycle_days :: "int \<Rightarrow> int" where
  "cycle_days v =
    (if v < 0 then ((v + 1) smod SECONDS_IN_400_YEARS + SECONDS_IN_400_YEARS - 1) sdiv 86400
     else (v sdiv 86400) smod DAYS_IN_400_YEARS)"

definition leap_index :: "int \<Rightarrow> nat result" where
  "leap_index v =
    table_loop START_DAYS_OF_LEAP_YEARS v (nat (min 96 (to_int32 (v * 97 sdiv DAYS_IN_400_YEARS + 1))))"

definition month_index :: "int \<Rightarrow> nat result" where
  "month_index v = table_loop START_DAYS_OF_MONTHS v (nat (min 95 (to_int32 (v * 96 sdiv 2921 + 1))))"

definition year :: "int \<Rightarrow> int result" where
  "year dateTime =
    bindR (int64_checked (dateTime + SECONDS_BETWEEN_1600_1970)) (\<lambda>v.
    bindR (if v < 0 then mapR (\<lambda>n. n sdiv SECONDS_IN_400_YEARS) (int64_checked (v - SECONDS_IN_400_YEARS + 1))
           else Inr (v sdiv SECONDS_IN_400_YEARS)) (\<lambda>q.
    let year400 = to_int32 q; days = cycle_days v in
    bindR (leap_index days) (\<lambda>i.
    let year4 = to_int32 ((START_DAYS_OF_LEAP_YEARS ! i + 730) sdiv 1461);
        rest = days - START_DAYS_OF_LEAP_YEARS ! i;
        k = min 7 (to_int32 (rest * 8 sdiv 2921)) in
    bindR (int32_checked (year400 * 400)) (\<lambda>y. int32_checked (1600 + y + year4 * 4 + k)))))"

definition month :: "int \<Rightarrow> int result" where
  "month dateTime =
    bindR (int64_checked (dateTime + SECONDS_BETWEEN_1600_1970)) (\<lambda>v.
    let days = cycle_days v in
    bindR (leap_index days) (\<lambda>i.
    mapR (\<lambda>j. int j mod 12 + 1) (month_index (days - START_DAYS_OF_LEAP_YEARS ! i))))"

definition day :: "int \<Rightarrow> int result" where
  "day dateTime =
    bindR (int64_checked (dateTime + SECONDS_BETWEEN_1600_1970)) (\<lambda>v.
    let days = cycle_days v in
    bindR (leap_index days) (\<lambda>i.
    let rest = days - START_DAYS_OF_LEAP_YEARS ! i in
    mapR (\<lambda>j. to_int32 (rest - START_DAYS_OF_MONTHS ! j) + 1) (month_index rest)))"

definition hour :: "int \<Rightarrow> int" where
  "hour dateTime =
    (if dateTime < 0 then to_int32 (((dateTime + 1) smod 86400 + 86399) sdiv 3600)
     else to_int32 ((dateTime sdiv 3600) smod 24))"

definition minute :: "int \<Rightarrow> int" where
  "minute dateTime =
    (if dateTime < 0 then to_int32 (((dateTime + 1) smod 3600 + 3599) sdiv 60)
     else to_int32 ((dateTime sdiv 60) smod 60))"

definition second :: "int \<Rightarrow> int" where
  "second dateTime =
    (if dateTime < 0 then to_int32 ((dateTime + 1) smod 60 + 59) else to_int32 (dateTime smod 60))"

definition epoch_day :: "int \<Rightarrow> int result" where
  "epoch_day dateTime =
    mapR (\<lambda>n. n sdiv 86400) (if dateTime < 0 then int64_checked (dateTime - 86400 + 1) else Inr dateTime)"

definition weekday :: "int \<Rightarrow> int result" where
  "weekday dateTime = mapR (\<lambda>d. to_int32 ((d + 3) smod 7)) (epoch_day dateTime)"

definition dayOfWeek :: "int \<Rightarrow> int result" where
  "dayOfWeek dateTime = mapR (\<lambda>d. to_int32 ((d + 4) smod 7 + 1)) (epoch_day dateTime)"

section \<open>The Gregorian calendar\<close>

definition leap_year :: "int \<Rightarrow> bool" where
  "leap_year y \<longleftrightarrow> y mod 4 = 0 \<and> (y mod 100 \<noteq> 0 \<or> y mod 400 = 0)"

definition month_days :: "bool \<Rightarrow> int list" where
  "month_days leap = [31, if leap then 29 else 28, 31, 30, 31, 30, 31, 31, 30, 31, 30, 31]"

text \<open>Days from the start of year 0 to the start of a year.\<close>

definition days_before_year :: "int \<Rightarrow> int" where
  "days_before_year y = 365 * y + (y + 3) div 4 - (y + 99) div 100 + (y + 399) div 400"

definition days_before_month :: "bool \<Rightarrow> int \<Rightarrow> int" where
  "days_before_month leap m = sum_list (take (nat (m - 1)) (month_days leap))"

definition valid_date :: "int \<Rightarrow> int \<Rightarrow> int \<Rightarrow> bool" where
  "valid_date y m d \<longleftrightarrow> 1 \<le> m \<and> m \<le> 12 \<and> 1 \<le> d \<and> d \<le> month_days (leap_year y) ! nat (m - 1)"

text \<open>Days from 1.1.1970.\<close>

definition date_days :: "int \<Rightarrow> int \<Rightarrow> int \<Rightarrow> int" where
  "date_days y m d =
    days_before_year y - days_before_year 1970 + days_before_month (leap_year y) m + d - 1"

text \<open>The closed form counts 366 days for leap years and 365 for the others.\<close>

lemma div_step:
  assumes "0 < (b :: int)" and c: "c = b - 1"
  shows "(y + 1 + c) div b = (y + c) div b + (if y mod b = 0 then 1 else 0)"
proof -
  have y: "y = b * (y div b) + y mod b" by simp
  have r: "0 \<le> y mod b" "y mod b < b" using assms by simp_all
  have "(y + 1 + c) div b = y div b + 1"
    by (rule int_div_pos_eq [of _ _ _ "y mod b"]) (use y r c in \<open>simp_all add: algebra_simps\<close>)
  moreover have "(y + c) div b = y div b" if "y mod b = 0"
    by (rule int_div_pos_eq [of _ _ _ "b - 1"]) (use y that assms in \<open>simp_all add: algebra_simps\<close>)
  moreover have "(y + c) div b = y div b + 1" if "y mod b \<noteq> 0"
    by (rule int_div_pos_eq [of _ _ _ "y mod b - 1"]) (use y that r c in \<open>auto simp add: algebra_simps\<close>)
  ultimately show ?thesis by simp
qed

lemma leap_year_count:
  "(if y mod 4 = 0 then 1 else 0) - (if y mod 100 = 0 then 1 else 0) + (if y mod 400 = 0 then 1 else 0)
    = (if leap_year y then 1 else (0 :: int))"
proof -
  have "y mod 400 = 0 \<Longrightarrow> y mod 100 = 0" "y mod 100 = 0 \<Longrightarrow> y mod 4 = 0"
    using mod_mod_cancel [of 100 400 y] mod_mod_cancel [of 4 100 y] by simp_all
  then show ?thesis
    unfolding leap_year_def by (cases "y mod 400 = 0"; cases "y mod 100 = 0"; cases "y mod 4 = 0") simp_all
qed

lemma days_before_year_Suc:
  "days_before_year (y + 1) = days_before_year y + (if leap_year y then 366 else 365)"
proof -
  have div4: "(y + 1 + 3) div 4 = (y + 3) div 4 + (if y mod 4 = 0 then 1 else 0)"
    by (rule div_step) simp_all
  have div100: "(y + 1 + 99) div 100 = (y + 99) div 100 + (if y mod 100 = 0 then 1 else 0)"
    by (rule div_step) simp_all
  have div400: "(y + 1 + 399) div 400 = (y + 399) div 400 + (if y mod 400 = 0 then 1 else 0)"
    by (rule div_step) simp_all
  have "(if leap_year y then 366 else 365) = 365 + (if leap_year y then 1 else (0 :: int))" by simp
  then show ?thesis
    unfolding days_before_year_def div4 div100 div400 leap_year_count [symmetric] by (simp only:)
      (simp only: algebra_simps)
qed

end
