(* ===== verification/Date_Correct.thy ===== *)
theory Date_Correct
  imports Date_Operations
begin

text \<open>
  The calendar functors against the Gregorian calendar. The two tables are checked entry by
  entry against the calendar; the search loops are shown to stop inside the tables at the last
  entry that is not above the value, for every starting index the heuristic yields.
\<close>

section \<open>The search loop\<close>

lemma table_loop_spec:
  assumes "tbl ! 0 \<le> v"
  shows "\<exists>j \<le> i. table_loop tbl v i = Inr j \<and> tbl ! j \<le> v \<and> (\<forall>l. j < l \<and> l \<le> i \<longrightarrow> v < tbl ! l)"
proof (induction i)
  case 0
  with assms show ?case by simp
next
  case (Suc i)
  show ?case
  proof (cases "v < tbl ! Suc i")
    case False
    then show ?thesis by (intro exI [of _ "Suc i"]) auto
  next
    case True
    from Suc obtain j where j: "j \<le> i" "table_loop tbl v i = Inr j" "tbl ! j \<le> v"
      "\<forall>l. j < l \<and> l \<le> i \<longrightarrow> v < tbl ! l" by blast
    with True show ?thesis by (intro exI [of _ j]) (auto simp: le_Suc_eq)
  qed
qed

lemma list_all_upt: "list_all P [0..<n] \<Longrightarrow> i < n \<Longrightarrow> P i"
  by (simp add: list_all_iff)

text \<open>
  A table, its end appended, and a starting index \<open>min (n - 1) (v * n / w + 1)\<close>: the loop finds
  the interval of the value when the starting index is never too small.
\<close>

definition start_ok :: "int list \<Rightarrow> int \<Rightarrow> bool" where
  "start_ok tbl w \<longleftrightarrow>
    list_all (\<lambda>s. int s * w \<le> int (length tbl) * (tbl @ [w]) ! Suc s) [0..<length tbl]"

lemma table_search:
  assumes start: "start_ok tbl w" and v: "tbl ! 0 = 0" "0 \<le> v" "v < w" and len: "tbl \<noteq> []"
  shows "\<exists>j < length tbl. table_loop tbl v (nat (min (int (length tbl) - 1) (v * int (length tbl) div w + 1))) = Inr j
    \<and> (tbl @ [w]) ! j \<le> v \<and> v < (tbl @ [w]) ! Suc j"
proof -
  let ?n = "int (length tbl)"
  define q where "q = v * ?n div w"
  define s where "s = nat (min (?n - 1) (q + 1))"
  have q: "0 \<le> q" "v * ?n < (q + 1) * w"
  proof -
    show "0 \<le> q" using v by (auto simp: q_def intro!: pos_imp_zdiv_nonneg_iff [THEN iffD2])
    have "v * ?n mod w < w" using v by simp
    moreover have "v * ?n = w * q + v * ?n mod w" by (simp add: q_def)
    ultimately show "v * ?n < (q + 1) * w" by (simp add: algebra_simps)
  qed
  have sn: "s < length tbl" using len q(1) by (cases tbl) (auto simp: s_def min_def)
  have above: "v < (tbl @ [w]) ! Suc s"
  proof (cases "q + 1 \<le> ?n - 1")
    case True
    then have sq: "int s = q + 1" using q(1) by (simp add: s_def)
    have "int s * w \<le> ?n * (tbl @ [w]) ! Suc s"
      using start sn unfolding start_ok_def list_all_iff by auto
    with q(2) sq have "?n * v < ?n * (tbl @ [w]) ! Suc s" by (simp add: mult.commute)
    then show ?thesis using len by simp
  next
    case False
    then have "Suc s = length tbl" using len by (cases tbl) (simp_all add: s_def)
    with v(3) show ?thesis by (simp add: nth_append)
  qed
  have "tbl ! 0 \<le> v" using v by simp
  from table_loop_spec [OF this, of s] obtain j where j: "j \<le> s" "table_loop tbl v s = Inr j" "tbl ! j \<le> v"
    "\<forall>l. j < l \<and> l \<le> s \<longrightarrow> v < tbl ! l" by blast
  have "v < (tbl @ [w]) ! Suc j"
  proof (cases "j = s")
    case False
    with j sn show ?thesis by (auto simp: nth_append)
  qed (use above in simp)
  with j sn show ?thesis unfolding s_def q_def by (intro exI [of _ j]) (auto simp: nth_append)
qed

section \<open>The tables\<close>

abbreviation leaps :: "int list" where
  "leaps \<equiv> START_DAYS_OF_LEAP_YEARS @ [146097]"

abbreviation months :: "int list" where
  "months \<equiv> START_DAYS_OF_MONTHS @ [2921]"

lemma leaps_start: "start_ok START_DAYS_OF_LEAP_YEARS 146097"
  by code_simp

lemma months_start: "start_ok START_DAYS_OF_MONTHS 2921"
  by code_simp

lemma months_sorted: "sorted_wrt (<) months"
  by code_simp

lemma table_lengths [simp]:
  "length START_DAYS_OF_LEAP_YEARS = 97" "length START_DAYS_OF_MONTHS = 96"
  "START_DAYS_OF_LEAP_YEARS ! 0 = 0" "START_DAYS_OF_MONTHS ! 0 = 0"
  "START_DAYS_OF_LEAP_YEARS \<noteq> []" "START_DAYS_OF_MONTHS \<noteq> []"
  by code_simp+

definition month_entry_ok :: "nat \<Rightarrow> bool" where
  "month_entry_ok j \<longleftrightarrow>
    months ! j = months ! (12 * (j div 12)) + days_before_month (j < 12) (int (j mod 12) + 1)
    \<and> months ! Suc j - months ! j = month_days (j < 12) ! (j mod 12)"

lemma months_ok: "list_all month_entry_ok [0..<96]"
  by code_simp

definition leap_entry_ok :: "nat \<Rightarrow> bool" where
  "leap_entry_ok i \<longleftrightarrow>
    (let y = 1600 + (leaps ! i + 730) div 1461 * 4; n = leaps ! Suc i - leaps ! i in
     0 \<le> leaps ! i \<and> n \<le> 2921 \<and> list_all (\<lambda>k. months ! (12 * k) < n \<longrightarrow>
       days_before_year (y + int k) = days_before_year 1600 + leaps ! i + months ! (12 * k)
       \<and> leap_year (y + int k) = (k = 0)) [0..<8])"

lemma leaps_ok: "list_all leap_entry_ok [0..<97]"
  by code_simp

definition year_start_ok :: "nat \<Rightarrow> bool" where
  "year_start_ok k \<longleftrightarrow> 8 * (months ! (12 * k) - 1) < 2921 * int k
     \<and> 2921 * (int k + 1) \<le> 8 * months ! (12 * (k + 1))"

lemma years_ok: "list_all year_start_ok [0..<8]"
  by code_simp

section \<open>One cycle of 400 years\<close>

lemma sdiv_nonneg: "0 \<le> a \<Longrightarrow> 0 < b \<Longrightarrow> a sdiv b = (a div b :: int)"
  by (cases "a = 0") (simp_all add: signed_divide_int_def)

lemma smod_nonneg: "0 \<le> a \<Longrightarrow> 0 < b \<Longrightarrow> a smod b = (a mod b :: int)"
  by (cases "a = 0") (simp_all add: signed_modulo_int_def)

lemma scaled_div_bounds:
  assumes "0 \<le> v" "v < w" "0 < n"
  shows "0 \<le> v * n div w" "v * n div w < (n :: int)"
proof -
  show "0 \<le> v * n div w" using assms by (intro pos_imp_zdiv_nonneg_iff [THEN iffD2]) auto
  have "v * n \<le> n * w - 1" using assms by (simp add: mult.commute)
  then have "v * n div w \<le> (n * w - 1) div w" using assms by (intro zdiv_mono1) auto
  also have "(n * w - 1) div w = n - 1"
    using assms by (intro int_div_pos_eq [of _ _ _ "w - 1"]) (auto simp: algebra_simps)
  finally show "v * n div w < n" by simp
qed

lemma leap_index_spec:
  assumes "0 \<le> v" "v < 146097"
  obtains i where "i < 97" "leap_index v = Inr i" "leaps ! i \<le> v" "v < leaps ! Suc i"
proof -
  have "0 \<le> v * 97 div 146097" "v * 97 div 146097 < 97"
    using scaled_div_bounds [OF assms, of 97] by simp_all
  then have "leap_index v = table_loop START_DAYS_OF_LEAP_YEARS v (nat (min 96 (v * 97 div 146097 + 1)))"
    using assms by (simp add: leap_index_def DAYS_IN_400_YEARS_def sdiv_nonneg to_int32_id)
  with table_search [OF leaps_start _ assms] that show thesis by (auto simp: table_lengths(1))
qed

lemma month_index_spec:
  assumes "0 \<le> v" "v < 2921"
  obtains j where "j < 96" "month_index v = Inr j" "months ! j \<le> v" "v < months ! Suc j"
proof -
  have "0 \<le> v * 96 div 2921" "v * 96 div 2921 < 96"
    using scaled_div_bounds [OF assms, of 96] by simp_all
  then have "month_index v = table_loop START_DAYS_OF_MONTHS v (nat (min 95 (v * 96 div 2921 + 1)))"
    using assms by (simp add: month_index_def sdiv_nonneg to_int32_id)
  with table_search [OF months_start _ assms] that show thesis by (auto simp: table_lengths(2))
qed

lemma year_offset_spec:
  assumes "0 \<le> v" "v < 2921"
  obtains k where "k < 8" "min 7 (to_int32 (v * 8 sdiv 2921)) = int k"
    "months ! (12 * k) \<le> v" "v < months ! (12 * (k + 1))"
proof -
  define q where "q = v * 8 div 2921"
  have q: "0 \<le> q" "q < 8" using scaled_div_bounds [OF assms, of 8] by (simp_all add: q_def)
  have "\<exists>r. v * 8 = 2921 * q + r \<and> 0 \<le> r \<and> r < 2921"
    by (rule exI [of _ "v * 8 mod 2921"]) (simp add: q_def)
  then obtain r where "v * 8 = 2921 * q + r" "0 \<le> r" "r < 2921" by blast
  then have bounds: "2921 * q \<le> v * 8" "v * 8 < 2921 * (q + 1)" by (simp_all add: distrib_left)
  have k: "nat q < 8" "int (nat q) = q" using q by simp_all
  have "year_start_ok (nat q)" using k(1) by (rule list_all_upt [OF years_ok])
  then have "8 * (months ! (12 * nat q) - 1) < 2921 * q" "2921 * (q + 1) \<le> 8 * months ! (12 * (nat q + 1))"
    unfolding year_start_ok_def k(2) by blast+
  then have "8 * (months ! (12 * nat q) - 1) < v * 8" "v * 8 < 8 * months ! (12 * (nat q + 1))"
    using bounds by (blast intro: less_le_trans)+
  then have "months ! (12 * nat q) \<le> v" "v < months ! (12 * (nat q + 1))" by simp_all
  moreover have "min 7 (to_int32 (v * 8 sdiv 2921)) = q"
    using q assms by (simp add: sdiv_nonneg to_int32_id q_def)
  ultimately show thesis using that [of "nat q"] k by simp
qed

lemma months_mono: "i \<le> j \<Longrightarrow> j < 97 \<Longrightarrow> months ! i \<le> months ! j"
  using sorted_wrt_nth_less [OF months_sorted, of i j] by (cases "i = j") auto

lemma month_year:
  assumes "j < 96" "k < 8" "months ! j \<le> v" "v < months ! Suc j"
    and "months ! (12 * k) \<le> v" "v < months ! (12 * (k + 1))"
  shows "j div 12 = k"
proof -
  have "\<not> 12 * (k + 1) \<le> j" using months_mono [of "12 * (k + 1)" j] assms by linarith
  moreover have "\<not> Suc j \<le> 12 * k" using months_mono [of "Suc j" "12 * k"] assms by linarith
  ultimately show ?thesis by (intro div_nat_eqI) auto
qed

lemma month_days_le: "n < 12 \<Longrightarrow> month_days b ! n \<le> 31"
proof -
  assume "n < 12"
  then have "month_days b ! n \<in> set (month_days b)" by (intro nth_mem) (simp add: month_days_def)
  then show ?thesis by (auto simp: month_days_def split: if_splits)
qed

lemma leap_entry_year:
  assumes "leap_entry_ok i" "k < 8" "months ! (12 * k) < leaps ! Suc i - leaps ! i"
  shows "days_before_year (1600 + (leaps ! i + 730) div 1461 * 4 + int k) =
      days_before_year 1600 + leaps ! i + months ! (12 * k)"
    and "leap_year (1600 + (leaps ! i + 730) div 1461 * 4 + int k) = (k = 0)"
  using assms unfolding leap_entry_ok_def Let_def list_all_iff by (metis atLeast0LessThan lessThan_iff set_upt)+

lemma leap_entry_bounds: "leap_entry_ok i \<Longrightarrow> 0 \<le> leaps ! i \<and> leaps ! Suc i - leaps ! i \<le> 2921"
  unfolding leap_entry_ok_def Let_def by blast

lemma month_entry:
  assumes "month_entry_ok j"
  shows "months ! j = months ! (12 * (j div 12)) + days_before_month (j < 12) (int j mod 12 + 1)"
    and "months ! Suc j - months ! j = month_days (j < 12) ! (j mod 12)"
  using assms unfolding month_entry_ok_def zmod_int of_nat_numeral by blast+

text \<open>Year, month and day of a day of the cycle, as the functors compute them.\<close>

lemma cycle_index:
  assumes "0 \<le> D" "D < 146097"
  obtains i where "i < 97" "leap_index D = Inr i" "leap_entry_ok i" "0 \<le> D - leaps ! i" "D - leaps ! i < 2921"
    "D - leaps ! i < leaps ! Suc i - leaps ! i"
proof -
  from leap_index_spec [OF assms] obtain i where i: "i < 97" "leap_index D = Inr i" "leaps ! i \<le> D" "D < leaps ! Suc i" .
  have leap: "leap_entry_ok i" using i(1) by (rule list_all_upt [OF leaps_ok])
  with leap_entry_bounds [OF leap] i show thesis by (intro that [of i]) simp_all
qed

lemma year_month:
  assumes "0 \<le> v" "v < 2921"
  obtains j k where "j < 96" "k < 8" "month_index v = Inr j" "min 7 (to_int32 (v * 8 sdiv 2921)) = int k"
    "months ! j \<le> v" "v < months ! Suc j" "months ! (12 * k) \<le> v" "j div 12 = k"
proof -
  from month_index_spec [OF assms] obtain j where
    j: "j < 96" "month_index v = Inr j" "months ! j \<le> v" "v < months ! Suc j" .
  from year_offset_spec [OF assms] obtain k where
    k: "k < 8" "min 7 (to_int32 (v * 8 sdiv 2921)) = int k" "months ! (12 * k) \<le> v" "v < months ! (12 * (k + 1))" .
  have "j div 12 = k" by (rule month_year [OF j(1) k(1) j(3,4) k(3,4)])
  with j k show thesis by (intro that [of j k])
qed

lemma month_date:
  assumes "j < 96" "months ! j \<le> v" "v < months ! Suc j" "leap_year y = (j < 12)"
  shows "valid_date y (int j mod 12 + 1) (v - months ! j + 1)" "v - months ! j + 1 < 32"
    "months ! j = months ! (12 * (j div 12)) + days_before_month (leap_year y) (int j mod 12 + 1)"
proof -
  have "month_entry_ok j" using assms(1) by (rule list_all_upt [OF months_ok])
  note entry = month_entry [OF this, folded assms(4)]
  have len: "month_days (leap_year y) ! (j mod 12) \<le> 31" by (rule month_days_le) simp
  have nat: "nat (int j mod 12) = j mod 12" by (simp add: nat_mod_distrib)
  have "v - months ! j + 1 \<le> month_days (leap_year y) ! (j mod 12)"
    unfolding entry(2) [symmetric] using assms(3) by simp
  with len show "v - months ! j + 1 < 32" by simp
  show "valid_date y (int j mod 12 + 1) (v - months ! j + 1)"
    unfolding valid_date_def
    using \<open>v - months ! j + 1 \<le> _\<close> assms(2) by (simp add: nat)
  show "months ! j = months ! (12 * (j div 12)) + days_before_month (leap_year y) (int j mod 12 + 1)"
    by (rule entry(1))
qed

lemma cycle_date:
  assumes "0 \<le> D" "D < 146097"
  obtains i j k where "i < 97" "leap_index D = Inr i" "month_index (D - leaps ! i) = Inr j" "j < 96" "k < 8"
    "min 7 (to_int32 ((D - leaps ! i) * 8 sdiv 2921)) = int k" "0 \<le> leaps ! i" "leaps ! i \<le> D"
    "valid_date (1600 + (leaps ! i + 730) div 1461 * 4 + int k) (int j mod 12 + 1) (D - leaps ! i - months ! j + 1)"
    "D - leaps ! i - months ! j + 1 < 32"
    "days_before_year (1600 + (leaps ! i + 730) div 1461 * 4 + int k)
      + days_before_month (leap_year (1600 + (leaps ! i + 730) div 1461 * 4 + int k)) (int j mod 12 + 1)
      + (D - leaps ! i - months ! j + 1) - 1 = days_before_year 1600 + D"
proof -
  from cycle_index [OF assms] obtain i where i: "i < 97" "leap_index D = Inr i" "leap_entry_ok i"
    "0 \<le> D - leaps ! i" "D - leaps ! i < 2921" "D - leaps ! i < leaps ! Suc i - leaps ! i" .
  from year_month [OF i(4,5)] obtain j k where j: "j < 96" "k < 8" "month_index (D - leaps ! i) = Inr j"
    "min 7 (to_int32 ((D - leaps ! i) * 8 sdiv 2921)) = int k"
    "months ! j \<le> D - leaps ! i" "D - leaps ! i < months ! Suc j" "months ! (12 * k) \<le> D - leaps ! i" "j div 12 = k" .
  define y where "y = 1600 + (leaps ! i + 730) div 1461 * 4 + int k"
  have "months ! (12 * k) < leaps ! Suc i - leaps ! i" using j(7) i(6) by (rule le_less_trans)
  note year = leap_entry_year [OF i(3) j(2) this, folded y_def]
  have "leap_year y = (j < 12)" using year(2) j(8) by auto
  note date = month_date [OF j(1,5,6) this, unfolded j(8)]
  have "days_before_year y + days_before_month (leap_year y) (int j mod 12 + 1) + (D - leaps ! i - months ! j + 1) - 1
      = days_before_year 1600 + D"
    unfolding year(1) date(3) by simp
  with that [OF i(1,2) j(3,1,2,4)] leap_entry_bounds [OF i(3)] i(4) date(1,2) show thesis
    unfolding y_def by simp
qed

section \<open>Rounding of negative timestamps\<close>

lemma floor_negative:
  assumes "v < 0" "0 < (s :: int)"
  shows "(v + 1) smod s + s - 1 = v mod s" "(v - s + 1) sdiv s = v div s"
proof -
  define u where "u = - (v + 1)"
  have u: "0 \<le> u" "v = - 1 - u" "v + 1 = - u" "v - s + 1 = - (u + s)" using assms by (simp_all add: u_def)
  have r: "0 \<le> u mod s" "u mod s < s" using assms by simp_all
  have "u = s * (u div s) + u mod s" by simp
  then have v: "v = s * (- (u div s) - 1) + (s - 1 - u mod s)"
    using u(2) by (simp only: right_diff_distrib mult_minus_right mult_1_right)
  then have "v mod s = s - 1 - u mod s" using r by (intro int_mod_pos_eq [of _ _ "- (u div s) - 1"]) auto
  moreover have "(v + 1) smod s = - (u mod s)" unfolding u(3) minus_smod_eq smod_nonneg [OF u(1) assms(2)] ..
  ultimately show "(v + 1) smod s + s - 1 = v mod s" by simp
  have "v div s = - (u div s) - 1" using v r by (intro int_div_pos_eq [of _ _ _ "s - 1 - u mod s"]) auto
  moreover have "(u + s) sdiv s = u div s + 1"
    using u(1) assms(2) by (simp add: sdiv_nonneg div_add_self2)
  ultimately show "(v - s + 1) sdiv s = v div s" unfolding u(4) minus_sdiv_eq by simp
qed

lemma seconds_400: "SECONDS_IN_400_YEARS = 86400 * 146097"
  by (simp add: SECONDS_IN_400_YEARS_def DAYS_IN_400_YEARS_def)

lemma mod_mult_div: "0 < b \<Longrightarrow> 0 \<le> c \<Longrightarrow> a mod (b * c) div b = a div b mod (c :: int)"
  by (simp add: zmod_zmult2_eq)

lemma cycle_days_eq: "cycle_days v = v div 86400 mod 146097"
proof (cases "v < 0")
  case True
  have pos: "0 < SECONDS_IN_400_YEARS" by (simp add: seconds_400)
  have "0 \<le> v mod SECONDS_IN_400_YEARS" using pos by simp
  then have "cycle_days v = v mod SECONDS_IN_400_YEARS div 86400"
    using True floor_negative(1) [OF True pos] by (simp add: cycle_days_def sdiv_nonneg)
  also have "\<dots> = v div 86400 mod 146097"
    unfolding seconds_400 by (rule mod_mult_div) simp_all
  finally show ?thesis .
next
  case False
  then have "0 \<le> v div 86400" by (simp add: pos_imp_zdiv_nonneg_iff)
  with False show ?thesis by (simp add: cycle_days_def DAYS_IN_400_YEARS_def sdiv_nonneg smod_nonneg)
qed

lemma cycle_count:
  assumes "0 \<le> v \<or> - (2 ^ 62) \<le> v"
  shows "(if v < 0 then mapR (\<lambda>n. n sdiv SECONDS_IN_400_YEARS) (int64_checked (v - SECONDS_IN_400_YEARS + 1))
           else Inr (v sdiv SECONDS_IN_400_YEARS)) = Inr (v div 86400 div 146097)"
proof -
  have pos: "0 < SECONDS_IN_400_YEARS" by (simp add: seconds_400)
  have eq: "v div SECONDS_IN_400_YEARS = v div 86400 div 146097"
    unfolding seconds_400 by (rule zdiv_zmult2_eq) simp
  show ?thesis
  proof (cases "v < 0")
    case True
    then have "int64_checked (v - SECONDS_IN_400_YEARS + 1) = Inr (v - SECONDS_IN_400_YEARS + 1)"
      using assms by (auto simp: int64_checked_def seconds_400)
    with True floor_negative(2) [OF True pos] eq show ?thesis by simp
  next
    case False
    with eq pos show ?thesis by (simp add: sdiv_nonneg)
  qed
qed

section \<open>Every cycle\<close>

lemma leap_year_cycle: "leap_year (y + 400 * c) = leap_year y"
proof -
  have "(y + 400 * c) mod 4 = y mod 4" "(y + 400 * c) mod 100 = y mod 100" "(y + 400 * c) mod 400 = y mod 400"
    using mod_mult_self2 [of y 4 "100 * c"] mod_mult_self2 [of y 100 "4 * c"] mod_mult_self2 [of y 400 c]
    by (simp_all only: mult.assoc [symmetric] mult_numeral_left_semiring_numeral) simp_all
  then show ?thesis by (simp only: leap_year_def)
qed

lemma days_before_year_cycle: "days_before_year (y + 400 * c) = days_before_year y + 146097 * c"
proof -
  have "(y + 400 * c + 3) div 4 = (y + 3) div 4 + 100 * c"
    "(y + 400 * c + 99) div 100 = (y + 99) div 100 + 4 * c"
    "(y + 400 * c + 399) div 400 = (y + 399) div 400 + c"
    using div_mult_self2 [of 4 "y + 3" "100 * c"] div_mult_self2 [of 100 "y + 99" "4 * c"]
      div_mult_self2 [of 400 "y + 399" c] by (simp_all add: algebra_simps)
  then show ?thesis unfolding days_before_year_def by simp
qed

lemma epoch_days: "days_before_year 1600 - days_before_year 1970 = - 135140"
  by (simp add: days_before_year_def)

lemma epoch_shift: "(t + SECONDS_BETWEEN_1600_1970) div 86400 = t div 86400 + 135140"
proof -
  have "t + SECONDS_BETWEEN_1600_1970 = t + 86400 * 135140" by (simp add: SECONDS_BETWEEN_1600_1970_def)
  then show ?thesis using div_mult_self2 [of 86400 t 135140] by simp
qed

lemma cycle_range:
  assumes "- (2 ^ 55) \<le> t" "t < 2 ^ 55"
  shows "- 3000000 \<le> (t + SECONDS_BETWEEN_1600_1970) div 86400 div 146097"
    and "(t + SECONDS_BETWEEN_1600_1970) div 86400 div 146097 \<le> 3000000"
proof -
  let ?v = "t + SECONDS_BETWEEN_1600_1970"
  have v: "- (2 ^ 55) \<le> ?v" "?v \<le> 2 ^ 55 + 2 ^ 34" using assms by (simp_all add: SECONDS_BETWEEN_1600_1970_def)
  have "- (2 ^ 55) div 86400 div 146097 \<le> ?v div 86400 div 146097"
    using v(1) by (intro zdiv_mono1) simp_all
  then show "- 3000000 \<le> ?v div 86400 div 146097" by simp
  have "?v div 86400 div 146097 \<le> (2 ^ 55 + 2 ^ 34) div 86400 div 146097"
    using v(2) by (intro zdiv_mono1) simp_all
  then show "?v div 86400 div 146097 \<le> 3000000" by simp
qed

lemma date_fields:
  assumes t: "- (2 ^ 55) \<le> t" "t < 2 ^ 55"
  shows "\<exists>y m d. year t = Inr y \<and> month t = Inr m \<and> day t = Inr d \<and> valid_date y m d
    \<and> date_days y m d = t div 86400"
proof -
  let ?v = "t + SECONDS_BETWEEN_1600_1970"
  define c where "c = ?v div 86400 div 146097"
  define D where "D = ?v div 86400 mod 146097"
  have c: "- 3000000 \<le> c" "c \<le> 3000000" using cycle_range [OF t] by (simp_all add: c_def)
  have D: "0 \<le> D" "D < 146097" by (simp_all add: D_def)
  have N: "?v div 86400 = 146097 * c + D" by (simp add: c_def D_def)
  have check: "int64_checked ?v = Inr ?v"
    using t by (simp add: int64_checked_def SECONDS_BETWEEN_1600_1970_def)
  have days: "cycle_days ?v = D" by (simp add: cycle_days_eq D_def)
  have "0 \<le> ?v \<or> - (2 ^ 62) \<le> ?v" using t by (auto simp: SECONDS_BETWEEN_1600_1970_def)
  note count = cycle_count [OF this, folded c_def]
  from cycle_date [OF D] obtain i j k where ijk: "i < 97" "leap_index D = Inr i"
      "month_index (D - leaps ! i) = Inr j" "j < 96" "k < 8"
      "min 7 (to_int32 ((D - leaps ! i) * 8 sdiv 2921)) = int k" "0 \<le> leaps ! i" "leaps ! i \<le> D"
    and valid: "valid_date (1600 + (leaps ! i + 730) div 1461 * 4 + int k) (int j mod 12 + 1) (D - leaps ! i - months ! j + 1)"
      "D - leaps ! i - months ! j + 1 < 32"
    and sum: "days_before_year (1600 + (leaps ! i + 730) div 1461 * 4 + int k)
      + days_before_month (leap_year (1600 + (leaps ! i + 730) div 1461 * 4 + int k)) (int j mod 12 + 1)
      + (D - leaps ! i - months ! j + 1) - 1 = days_before_year 1600 + D" .
  have L: "START_DAYS_OF_LEAP_YEARS ! i = leaps ! i" "START_DAYS_OF_MONTHS ! j = months ! j"
    using ijk(1,4) by (simp_all add: nth_append)
  define y4 where "y4 = (leaps ! i + 730) div 1461"
  define m where "m = int j mod 12 + 1"
  define d where "d = D - leaps ! i - months ! j + 1"
  have y4: "0 \<le> y4" "y4 \<le> 101"
  proof -
    show "0 \<le> y4" using ijk(7) by (simp add: y4_def pos_imp_zdiv_nonneg_iff)
    have "y4 \<le> (146097 + 730) div 1461" unfolding y4_def using ijk(8) D(2) by (intro zdiv_mono1) simp_all
    then show "y4 \<le> 101" by simp
  qed
  then have y4_32: "to_int32 ((leaps ! i + 730) sdiv 1461) = y4"
    using ijk(7) by (simp add: sdiv_nonneg to_int32_id flip: y4_def)
  have "year t = Inr (1600 + y4 * 4 + int k + 400 * c)"
    unfolding year_def check bindR.simps count days Let_def ijk(2) L y4_32 ijk(6)
    using c y4 ijk(5) by (simp add: to_int32_id int32_checked_def)
  moreover have "month t = Inr m"
    unfolding month_def check bindR.simps days Let_def ijk(2) L ijk(3) by (simp add: m_def)
  moreover have "day t = Inr d"
    unfolding day_def check bindR.simps days Let_def ijk(2) L ijk(3)
    using valid by (simp add: d_def to_int32_id valid_date_def L(2))
  moreover have "valid_date (1600 + y4 * 4 + int k + 400 * c) m d"
    using valid(1) unfolding valid_date_def leap_year_cycle by (simp add: y4_def m_def d_def)
  moreover have "date_days (1600 + y4 * 4 + int k + 400 * c) m d = t div 86400"
    using sum epoch_shift [of t] N epoch_days
    unfolding date_days_def leap_year_cycle days_before_year_cycle by (simp add: y4_def m_def d_def)
  ultimately show ?thesis by blast
qed

section \<open>Time of day\<close>

lemma to_int32_small: "0 \<le> x \<Longrightarrow> x < 100 \<Longrightarrow> to_int32 x = x"
  by (rule to_int32_id) simp_all

lemma hour_eq: "hour t = t div 3600 mod 24"
proof (cases "t < 0")
  case True
  have "(t + 1) smod 86400 + 86399 = t mod (3600 * 24)" using floor_negative(1) [OF True, of 86400] by simp
  moreover have "t mod (3600 * 24) div 3600 = t div 3600 mod 24" by (rule mod_mult_div) simp_all
  moreover have "0 \<le> t mod (3600 * 24)" by simp
  ultimately have "((t + 1) smod 86400 + 86399) sdiv 3600 = t div 3600 mod 24" by (simp only: sdiv_nonneg)
  with True show ?thesis by (simp only: hour_def if_True) (rule to_int32_small; simp)
next
  case False
  then have "(t sdiv 3600) smod 24 = t div 3600 mod 24"
    by (simp add: sdiv_nonneg smod_nonneg pos_imp_zdiv_nonneg_iff)
  with False show ?thesis by (simp only: hour_def if_False) (rule to_int32_small; simp)
qed

lemma minute_eq: "minute t = t div 60 mod 60"
proof (cases "t < 0")
  case True
  have "(t + 1) smod 3600 + 3599 = t mod (60 * 60)" using floor_negative(1) [OF True, of 3600] by simp
  moreover have "t mod (60 * 60) div 60 = t div 60 mod 60" by (rule mod_mult_div) simp_all
  moreover have "0 \<le> t mod (60 * 60)" by simp
  ultimately have "((t + 1) smod 3600 + 3599) sdiv 60 = t div 60 mod 60" by (simp only: sdiv_nonneg)
  with True show ?thesis by (simp only: minute_def if_True) (rule to_int32_small; simp)
next
  case False
  then have "(t sdiv 60) smod 60 = t div 60 mod 60"
    by (simp add: sdiv_nonneg smod_nonneg pos_imp_zdiv_nonneg_iff)
  with False show ?thesis by (simp only: minute_def if_False) (rule to_int32_small; simp)
qed

lemma second_eq: "second t = t mod 60"
proof (cases "t < 0")
  case True
  have "(t + 1) smod 60 + 59 = t mod 60" using floor_negative(1) [OF True, of 60] by simp
  with True show ?thesis by (simp only: second_def if_True) (rule to_int32_small; simp)
next
  case False
  then have "t smod 60 = t mod 60" by (simp add: smod_nonneg)
  with False show ?thesis by (simp only: second_def if_False) (rule to_int32_small; simp)
qed

text \<open>The time of day counts the seconds of the day.\<close>

lemma time_of_day: "t = 86400 * (t div 86400) + 3600 * hour t + 60 * minute t + second t"
proof -
  have "t div 86400 = t div 3600 div 24" "t div 3600 = t div 60 div 60"
    using zdiv_zmult2_eq [of 24 t 3600] zdiv_zmult2_eq [of 60 t 60] by simp_all
  moreover have "t = 60 * (t div 60) + t mod 60" "t div 60 = 60 * (t div 60 div 60) + t div 60 mod 60"
    "t div 3600 = 24 * (t div 3600 div 24) + t div 3600 mod 24" by simp_all
  ultimately show ?thesis unfolding hour_eq minute_eq second_eq by linarith
qed

section \<open>Properties\<close>

text \<open>
  C33. For every timestamp of about a billion years around 1970, year, month and day are the
  Gregorian date of its day, hour, minute and second are in range, and together the six fields
  give the timestamp back.
\<close>

theorem date_time_roundtrip:
  assumes "- (2 ^ 55) \<le> t" and "t < 2 ^ 55"
  shows "\<exists>y m d. year t = Inr y \<and> month t = Inr m \<and> day t = Inr d \<and> valid_date y m d
    \<and> hour t \<in> {0..23} \<and> minute t \<in> {0..59} \<and> second t \<in> {0..59}
    \<and> t = 86400 * date_days y m d + 3600 * hour t + 60 * minute t + second t"
proof -
  have "hour t \<in> {0..23}" "minute t \<in> {0..59}" "second t \<in> {0..59}"
    unfolding hour_eq minute_eq second_eq
    using pos_mod_bound [of 24 "t div 3600"] pos_mod_bound [of 60 "t div 60"] pos_mod_bound [of 60 t] by simp_all
  with date_fields [OF assms] time_of_day [of t] show ?thesis by auto
qed

theorem date_time_roundtrip_witness:
  "\<exists>y m d. year (- 1) = Inr y \<and> month (- 1) = Inr m \<and> day (- 1) = Inr d \<and> valid_date y m d
    \<and> - 1 = 86400 * date_days y m d + 3600 * hour (- 1) + 60 * minute (- 1) + second (- 1)"
  using date_time_roundtrip [of "- 1"] by auto

lemma smod_week:
  fixes x :: int
  shows "x smod 7 mod 7 = x mod 7" "- 7 < x smod 7" "x smod 7 < 7" "0 \<le> x smod 7 \<longleftrightarrow> 0 \<le> x \<or> x mod 7 = 0"
proof -
  have "x smod 7 mod 7 = x mod 7 \<and> - 7 < x smod 7 \<and> x smod 7 < 7 \<and> (0 \<le> x smod 7 \<longleftrightarrow> 0 \<le> x \<or> x mod 7 = 0)"
  proof (cases "0 \<le> x")
    case True
    then have "x smod 7 = x mod 7" by (simp add: smod_nonneg)
    with True show ?thesis using pos_mod_bound [of 7 x] pos_mod_sign [of 7 x] by simp
  next
    case False
    define u where "u = - x"
    have u: "0 \<le> u" "x = - u" using False by (simp_all add: u_def)
    then have eq: "(- u) smod 7 = - (u mod 7)" by (simp add: minus_smod_eq smod_nonneg)
    have "(- u) mod 7 = 0 \<longleftrightarrow> u mod 7 = 0" by (simp only: mod_eq_0_iff_dvd dvd_minus_iff)
    with False show ?thesis unfolding u(2) eq
      using pos_mod_bound [of 7 u] pos_mod_sign [of 7 u] mod_minus_eq [of u 7] by auto
  qed
  then show "x smod 7 mod 7 = x mod 7" "- 7 < x smod 7" "x smod 7 < 7" "0 \<le> x smod 7 \<longleftrightarrow> 0 \<le> x \<or> x mod 7 = 0"
    by simp_all
qed

text \<open>
  C39. The number of the week day is the day of the week, Monday as 0, from the third day
  before 1970 on; before, the remainder of C++ keeps the sign of the dividend, and the result is
  negative except on Mondays.
\<close>

theorem weekday_range:
  assumes "- (2 ^ 62) \<le> t" and "t < 2 ^ 63"
  shows "\<exists>w. weekday t = Inr w \<and> w mod 7 = (t div 86400 + 3) mod 7
    \<and> (0 \<le> w \<longleftrightarrow> - 3 \<le> t div 86400 \<or> (t div 86400 + 3) mod 7 = 0)"
proof -
  let ?d = "t div 86400"
  have day: "epoch_day t = Inr ?d"
  proof (cases "t < 0")
    case True
    then have "int64_checked (t - 86400 + 1) = Inr (t - 86400 + 1)"
      using assms(1) by (simp add: int64_checked_def)
    with True floor_negative(2) [OF True, of 86400] show ?thesis by (simp add: epoch_day_def)
  next
    case False
    then show ?thesis by (simp add: epoch_day_def sdiv_nonneg)
  qed
  have "to_int32 ((?d + 3) smod 7) = (?d + 3) smod 7"
    using smod_week(2,3) [of "?d + 3"] by (intro to_int32_id) auto
  then have run: "weekday t = Inr ((?d + 3) smod 7)" by (simp only: weekday_def day mapR.simps)
  have "0 \<le> (?d + 3) smod 7 \<longleftrightarrow> - 3 \<le> ?d \<or> (?d + 3) mod 7 = 0"
    unfolding smod_week(4) by (rule arg_cong [of _ _ "\<lambda>b. b \<or> _"]) linarith
  with run smod_week(1) [of "?d + 3"] show ?thesis by (intro exI [of _ "(?d + 3) smod 7"] conjI)
qed

theorem weekday_range_witness:
  "\<exists>w. weekday (- 345600) = Inr w \<and> w < 0"
  using weekday_range [of "- 345600"] by (auto simp: not_le [symmetric])

end
