(* ===== verification/Cpu_Values.thy ===== *)
theory Cpu_Values
  imports Conversions Column_Stats
begin

text \<open>
  The values the CPU evaluation of WHERE clauses computes with, and the functors it applies to
  them: the comparisons and logical operations of \<open>GPUFilterConditions.cuh\<close>, the arithmetic of
  \<open>ArithmeticOperations.h\<close> and the minus of \<open>ArithmeticUnaryOperations.h\<close>.

  A template argument is a \<open>ctype\<close>, a value of it a \<open>cnum\<close>: integers of every width as \<open>int\<close>,
  \<open>float\<close> and \<open>double\<close> by their encoding. The usual arithmetic conversions are written out. A
  signed overflow, a division by zero, a shift C++17 leaves undefined and a conversion of a
  floating-point value that does not fit are \<open>UndefinedBehaviour\<close>.
\<close>

section \<open>Numbers\<close>

datatype ctype = Int32T | Int64T | FloatT | DoubleT | Int8T

datatype cnum = NInt int | NFloat f32 | NDouble f64

fun int_width :: "ctype \<Rightarrow> nat" where
  "int_width Int8T = 8" | "int_width Int32T = 32" | "int_width _ = 64"

definition in_width :: "nat \<Rightarrow> int \<Rightarrow> bool" where
  "in_width w i \<longleftrightarrow> - (2 ^ (w - 1)) \<le> i \<and> i < 2 ^ (w - 1)"

fun has_type :: "ctype \<Rightarrow> cnum \<Rightarrow> bool" where
  "has_type FloatT v = (case v of NFloat _ \<Rightarrow> True | _ \<Rightarrow> False)"
| "has_type DoubleT v = (case v of NDouble _ \<Rightarrow> True | _ \<Rightarrow> False)"
| "has_type T v = (case v of NInt i \<Rightarrow> in_width (int_width T) i | _ \<Rightarrow> False)"

fun as_f32 :: "cnum \<Rightarrow> f32" where
  "as_f32 (NInt i) = f32_of_int i" | "as_f32 (NFloat x) = x" | "as_f32 (NDouble x) = f32_of_f64 x"

fun as_f64 :: "cnum \<Rightarrow> f64" where
  "as_f64 (NInt i) = f64_of_int i" | "as_f64 (NFloat x) = f64_of_f32 x" | "as_f64 (NDouble x) = x"

text \<open>Implicit conversion to a type, as in passing an argument; integers wrap around.\<close>

fun to_integer :: "ctype \<Rightarrow> cnum \<Rightarrow> int result" where
  "to_integer T (NInt i) = Inr (signed_take_bit (int_width T - 1) i)"
| "to_integer T (NFloat x) = fv_to_int (int_width T) (f32_dec x)"
| "to_integer T (NDouble x) = fv_to_int (int_width T) (f64_dec x)"

fun convert :: "ctype \<Rightarrow> cnum \<Rightarrow> cnum result" where
  "convert FloatT v = Inr (NFloat (as_f32 v))"
| "convert DoubleT v = Inr (NDouble (as_f64 v))"
| "convert T v = mapR NInt (to_integer T v)"

definition f32_eq :: "f32 \<Rightarrow> f32 \<Rightarrow> bool" where
  "f32_eq x y \<longleftrightarrow> \<not> f32_isnan x \<and> \<not> f32_isnan y \<and> \<not> f32_less x y \<and> \<not> f32_less y x"

definition f64_eq :: "f64 \<Rightarrow> f64 \<Rightarrow> bool" where
  "f64_eq x y \<longleftrightarrow> \<not> f64_isnan x \<and> \<not> f64_isnan y \<and> \<not> f64_less x y \<and> \<not> f64_less y x"

fun num_less :: "cnum \<Rightarrow> cnum \<Rightarrow> bool" where
  "num_less (NInt i) (NInt j) = (i < j)"
| "num_less (NDouble x) b = f64_less x (as_f64 b)"
| "num_less a (NDouble y) = f64_less (as_f64 a) y"
| "num_less a b = f32_less (as_f32 a) (as_f32 b)"

fun num_eq :: "cnum \<Rightarrow> cnum \<Rightarrow> bool" where
  "num_eq (NInt i) (NInt j) = (i = j)"
| "num_eq (NDouble x) b = f64_eq x (as_f64 b)"
| "num_eq a (NDouble y) = f64_eq (as_f64 a) y"
| "num_eq a b = f32_eq (as_f32 a) (as_f32 b)"

definition num_le :: "cnum \<Rightarrow> cnum \<Rightarrow> bool" where
  "num_le a b \<longleftrightarrow> num_less a b \<or> num_eq a b"

text \<open>A number as a condition.\<close>

definition num_true :: "cnum \<Rightarrow> bool" where
  "num_true a \<longleftrightarrow> \<not> num_eq a (NInt 0)"

section \<open>Filter conditions\<close>

datatype FilterConditions =
    Greater | GreaterEqual | Less | LessEqual | Equal | NotEqual | LogicalAnd | LogicalOr

datatype CpuFilterInterval = INNER | OUTER | NONE

fun interval :: "FilterConditions \<Rightarrow> CpuFilterInterval" where
  "interval Equal = INNER" | "interval NotEqual = OUTER" | "interval _ = NONE"

fun apply_filter :: "FilterConditions \<Rightarrow> cnum \<Rightarrow> cnum \<Rightarrow> bool" where
  "apply_filter Greater a b = num_less b a"
| "apply_filter GreaterEqual a b = num_le b a"
| "apply_filter Less a b = num_less a b"
| "apply_filter LessEqual a b = num_le a b"
| "apply_filter Equal a b = num_eq a b"
| "apply_filter NotEqual a b = (\<not> num_eq a b)"
| "apply_filter LogicalAnd a b = (num_true a \<and> num_true b)"
| "apply_filter LogicalOr a b = (num_true a \<or> num_true b)"

text \<open>\<open>OP{}.template operator()<T, U>(a, b)\<close>: the arguments are converted to \<open>T\<close> and \<open>U\<close>.\<close>

definition call_filter :: "FilterConditions \<Rightarrow> ctype \<Rightarrow> ctype \<Rightarrow> cnum \<Rightarrow> cnum \<Rightarrow> bool result" where
  "call_filter f T U a b = bindR (convert T a) (\<lambda>x. mapR (apply_filter f x) (convert U b))"

text \<open>Order on strings is not implemented in the source; the logical operations have no strings.\<close>

fun compareStrings :: "FilterConditions \<Rightarrow> string \<Rightarrow> string \<Rightarrow> bool" where
  "compareStrings Equal a b = (a = b)"
| "compareStrings NotEqual a b = (a \<noteq> b)"
| "compareStrings _ a b = False"

section \<open>Arithmetic\<close>

datatype ArithmeticOperations =
    addNoCheck | subNoCheck | mulNoCheck | divNoCheck | modNoCheck
  | bitwiseAndNoCheck | bitwiseOrNoCheck | bitwiseXorNoCheck | bitwiseLeftShiftNoCheck | bitwiseRightShiftNoCheck

fun isMonotonous :: "ArithmeticOperations \<Rightarrow> bool" where
  "isMonotonous addNoCheck = True" | "isMonotonous subNoCheck = True" | "isMonotonous mulNoCheck = True"
| "isMonotonous divNoCheck = True" | "isMonotonous modNoCheck = True" | "isMonotonous _ = False"

fun is_floating :: "ctype \<Rightarrow> bool" where
  "is_floating FloatT = True" | "is_floating DoubleT = True" | "is_floating _ = False"

fun sizeof_ctype :: "ctype \<Rightarrow> nat" where
  "sizeof_ctype Int8T = 1" | "sizeof_ctype Int32T = 4" | "sizeof_ctype FloatT = 4"
| "sizeof_ctype Int64T = 8" | "sizeof_ctype DoubleT = 8"

definition ResultType :: "ctype \<Rightarrow> ctype \<Rightarrow> ctype" where
  "ResultType T U =
    (if is_floating T = is_floating U then (if sizeof_ctype T \<ge> sizeof_ctype U then T else U)
     else if is_floating T then T else U)"

definition checked :: "ctype \<Rightarrow> int \<Rightarrow> cnum result" where
  "checked T i = (if in_width (int_width T) i then Inr (NInt i) else Inl UndefinedBehaviour)"

text \<open>
  \<open>R\<close> is the common type of the operands, \<open>T\<close> the type of the left one (it decides a shift). On
  integers narrower than \<open>int\<close> the source never instantiates these functors.
\<close>

definition shift_defined :: "ctype \<Rightarrow> int \<Rightarrow> bool" where
  "shift_defined T j \<longleftrightarrow> 0 \<le> j \<and> j < int (int_width T)"

fun int_arith :: "ArithmeticOperations \<Rightarrow> ctype \<Rightarrow> ctype \<Rightarrow> int \<Rightarrow> int \<Rightarrow> cnum result" where
  "int_arith addNoCheck T R i j = checked R (i + j)"
| "int_arith subNoCheck T R i j = checked R (i - j)"
| "int_arith mulNoCheck T R i j = checked R (i * j)"
| "int_arith divNoCheck T R i j = (if j = 0 then Inl UndefinedBehaviour else checked R (i sdiv j))"
| "int_arith modNoCheck T R i j =
    (if j = 0 then Inl UndefinedBehaviour
     else bindR (checked R (i sdiv j)) (\<lambda>_. Inr (NInt (i smod j))))"
| "int_arith bitwiseAndNoCheck T R i j = Inr (NInt (i AND j))"
| "int_arith bitwiseOrNoCheck T R i j = Inr (NInt (i OR j))"
| "int_arith bitwiseXorNoCheck T R i j = Inr (NInt (i XOR j))"
| "int_arith bitwiseLeftShiftNoCheck T R i j =
    (if shift_defined T j \<and> 0 \<le> i \<and> i * 2 ^ nat j < 2 ^ int_width T
     then Inr (NInt (signed_take_bit (int_width T - 1) (i * 2 ^ nat j))) else Inl UndefinedBehaviour)"
| "int_arith bitwiseRightShiftNoCheck T R i j =
    (if shift_defined T j then Inr (NInt (i div 2 ^ nat j)) else Inl UndefinedBehaviour)"

definition f64_neg :: "f64 \<Rightarrow> f64" where
  "f64_neg x = x XOR 0x8000000000000000"

definition f32_neg :: "f32 \<Rightarrow> f32" where
  "f32_neg x = x XOR 0x80000000"

text \<open>Modulo and the bitwise operations are not instantiated on floating-point types.\<close>

fun f32_arith :: "ArithmeticOperations \<Rightarrow> f32 \<Rightarrow> f32 \<Rightarrow> f32 option" where
  "f32_arith addNoCheck x y = Some (f32_add x y)"
| "f32_arith subNoCheck x y = Some (f32_sub x y)"
| "f32_arith mulNoCheck x y = Some (f32_mul x y)"
| "f32_arith divNoCheck x y = Some (f32_div x y)"
| "f32_arith _ x y = None"

fun f64_arith :: "ArithmeticOperations \<Rightarrow> f64 \<Rightarrow> f64 \<Rightarrow> f64 option" where
  "f64_arith addNoCheck x y = Some (f64_add x y)"
| "f64_arith subNoCheck x y = Some (f64_enc (fv_add (f64_dec x) (fv_neg (f64_dec y))))"
| "f64_arith mulNoCheck x y = Some (f64_mul x y)"
| "f64_arith divNoCheck x y = Some (f64_div x y)"
| "f64_arith _ x y = None"

definition opt_result :: "'a option \<Rightarrow> 'a result" where
  "opt_result v = (case v of None \<Rightarrow> Inl UndefinedBehaviour | Some x \<Rightarrow> Inr x)"

definition apply_arith :: "ArithmeticOperations \<Rightarrow> ctype \<Rightarrow> ctype \<Rightarrow> cnum \<Rightarrow> cnum \<Rightarrow> cnum result" where
  "apply_arith f T U a b =
    (case (a, b) of
       (NInt i, NInt j) \<Rightarrow> int_arith f T (ResultType T U) i j
     | (NDouble x, _) \<Rightarrow> mapR NDouble (opt_result (f64_arith f x (as_f64 b)))
     | (_, NDouble y) \<Rightarrow> mapR NDouble (opt_result (f64_arith f (as_f64 a) y))
     | _ \<Rightarrow> mapR NFloat (opt_result (f32_arith f (as_f32 a) (as_f32 b))))"

fun apply_minus :: "ctype \<Rightarrow> cnum \<Rightarrow> cnum result" where
  "apply_minus T (NInt i) = checked T (- i)"
| "apply_minus T (NFloat x) = Inr (NFloat (f32_neg x))"
| "apply_minus T (NDouble x) = Inr (NDouble (f64_neg x))"

end
