(* ===== verification/Memory_Stream.thy ===== *)
theory Memory_Stream
  imports Floats
begin

text \<open>
  The byte stream that carries the operands of the dispatcher functions
  (\<open>GpuSqlParser/MemoryStream.h\<close>, \<open>MemoryStream.cpp\<close>): values are appended in the machine's
  byte order and read back in the order of their insertion. Reading past the end of the buffer
  is undefined. The specialisation for \<open>NativeGeoPoint\<close>, which parses a WKT string, is left
  out.
\<close>

section \<open>Bytes\<close>

text \<open>The object representation of an integer of \<open>n\<close> bytes, least significant byte first.\<close>

fun int_bytes :: "nat \<Rightarrow> int \<Rightarrow> int8 list" where
  "int_bytes 0 i = []"
| "int_bytes (Suc n) i = word_of_int i # int_bytes n (i div 256)"

fun bytes_int :: "int8 list \<Rightarrow> int" where
  "bytes_int [] = 0"
| "bytes_int (b # bs) = uint b + 256 * bytes_int bs"

lemma length_int_bytes [simp]: "length (int_bytes n i) = n"
  by (induction n arbitrary: i) simp_all

lemma bytes_int_bytes: "bytes_int (int_bytes n i) = i mod 256 ^ n"
proof (induction n arbitrary: i)
  case 0
  then show ?case by simp
next
  case (Suc n)
  have "uint (word_of_int i :: int8) = i mod 256" by (simp add: uint_word_of_int)
  then show ?case using zmod_zmult2_eq [of "256 ^ n" i 256] by (simp add: Suc.IH)
qed

definition byte_of_char :: "char \<Rightarrow> int8" where
  "byte_of_char c = word_of_int (of_char c)"

definition char_of_byte :: "int8 \<Rightarrow> char" where
  "char_of_byte b = char_of (uint b)"

lemma char_of_byte_of_char [simp]: "char_of_byte (byte_of_char c) = c"
proof -
  have "(of_char c :: int) mod 256 = of_char c"
    using of_char_mod_256 by blast
  then show ?thesis by (simp add: byte_of_char_def char_of_byte_def uint_word_of_int)
qed

section \<open>The stream\<close>

record MemoryStream =
  ms_buffer :: "int8 list"
  ms_readOffset :: int

definition MemoryStream_new :: MemoryStream where
  "MemoryStream_new = \<lparr>ms_buffer = [], ms_readOffset = 0\<rparr>"

definition Reset :: "MemoryStream \<Rightarrow> MemoryStream" where
  "Reset ms = ms\<lparr>ms_readOffset := 0\<rparr>"

definition Clear_stream :: "MemoryStream \<Rightarrow> MemoryStream" where
  "Clear_stream ms = ms\<lparr>ms_buffer := [], ms_readOffset := 0\<rparr>"

text \<open>The template for the number types; \<open>sizeof(T)\<close> is the width of the word in bytes.\<close>

definition word_bytes :: "'w::len word \<Rightarrow> int8 list" where
  "word_bytes x = int_bytes (LENGTH('w) div 8) (uint x)"

definition Insert_stream :: "'w::len word \<Rightarrow> MemoryStream \<Rightarrow> MemoryStream" where
  "Insert_stream x ms = ms\<lparr>ms_buffer := ms_buffer ms @ word_bytes x\<rparr>"

definition peek :: "nat \<Rightarrow> MemoryStream \<Rightarrow> int8 list result" where
  "peek n ms =
    (if 0 \<le> ms_readOffset ms \<and> ms_readOffset ms + int n \<le> int (length (ms_buffer ms))
     then Inr (take n (drop (nat (ms_readOffset ms)) (ms_buffer ms))) else Inl UndefinedBehaviour)"

definition skip :: "nat \<Rightarrow> MemoryStream \<Rightarrow> MemoryStream" where
  "skip n ms = ms\<lparr>ms_readOffset := to_int32 (ms_readOffset ms + int n)\<rparr>"

definition Read_stream :: "MemoryStream \<Rightarrow> ('w::len word \<times> MemoryStream) result" where
  "Read_stream ms =
    mapR (\<lambda>bs. (word_of_int (bytes_int bs), skip (LENGTH('w) div 8) ms)) (peek (LENGTH('w) div 8) ms)"

text \<open>A string is its length as \<open>int32_t\<close> followed by its characters.\<close>

definition string_bytes :: "string \<Rightarrow> int8 list" where
  "string_bytes s = word_bytes (of_nat (length s) :: int32) @ map byte_of_char s"

definition Insert_string :: "string \<Rightarrow> MemoryStream \<Rightarrow> MemoryStream" where
  "Insert_string s ms =
    (let m = Insert_stream (of_nat (length s) :: int32) ms
     in m\<lparr>ms_buffer := ms_buffer m @ map byte_of_char s\<rparr>)"

definition Read_string :: "MemoryStream \<Rightarrow> (string \<times> MemoryStream) result" where
  "Read_string ms =
    bindR (Read_stream ms) (\<lambda>(l :: int32, m).
      if sint l < 0 then Inl UndefinedBehaviour
      else mapR (\<lambda>bs. (map char_of_byte bs, skip (nat (sint l)) m)) (peek (nat (sint l)) m))"

section \<open>Reading what was inserted\<close>

text \<open>What is still to be read. \<open>readOffset_\<close> is 32 bits wide, so a stream is good up to that size.\<close>

definition stream_ok :: "MemoryStream \<Rightarrow> bool" where
  "stream_ok ms \<longleftrightarrow> 0 \<le> ms_readOffset ms \<and> ms_readOffset ms \<le> int (length (ms_buffer ms))
    \<and> length (ms_buffer ms) < 2 ^ 31"

definition to_read :: "MemoryStream \<Rightarrow> int8 list" where
  "to_read ms = drop (nat (ms_readOffset ms)) (ms_buffer ms)"

lemma skip_ok:
  assumes "stream_ok ms" and "n \<le> length (to_read ms)"
  shows "stream_ok (skip n ms)" and "to_read (skip n ms) = drop n (to_read ms)"
    and "peek n ms = Inr (take n (to_read ms))" and "ms_buffer (skip n ms) = ms_buffer ms"
    and "ms_readOffset (skip n ms) = ms_readOffset ms + int n"
proof -
  have n: "ms_readOffset ms + int n \<le> int (length (ms_buffer ms))"
    using assms unfolding stream_ok_def to_read_def length_drop by linarith
  then have "to_int32 (ms_readOffset ms + int n) = ms_readOffset ms + int n"
    using assms(1) by (intro to_int32_id) (simp_all add: stream_ok_def)
  note off = this
  have "nat (ms_readOffset ms + int n) = nat (ms_readOffset ms) + n"
    using assms(1) by (simp add: stream_ok_def nat_add_distrib)
  with n off assms(1) show "stream_ok (skip n ms)" and "to_read (skip n ms) = drop n (to_read ms)"
    by (simp_all add: skip_def stream_ok_def to_read_def add.commute)
  show "peek n ms = Inr (take n (to_read ms))"
    using n assms(1) by (simp add: peek_def stream_ok_def to_read_def)
  show "ms_buffer (skip n ms) = ms_buffer ms" "ms_readOffset (skip n ms) = ms_readOffset ms + int n"
    by (simp_all add: skip_def off)
qed

lemma length_word_bytes [simp]: "length (word_bytes (x :: 'w::len word)) = LENGTH('w) div 8"
  by (simp add: word_bytes_def)

lemma word_bytes_int:
  assumes "8 dvd LENGTH('w)"
  shows "word_of_int (bytes_int (word_bytes (x :: 'w::len word))) = x"
proof -
  from assms obtain k where k: "LENGTH('w) = 8 * k" by (auto elim: dvdE)
  have "(256 :: int) ^ (LENGTH('w) div 8) = 2 ^ LENGTH('w)"
    by (simp add: k power_mult)
  then show ?thesis by (simp add: word_bytes_def bytes_int_bytes)
qed

lemma Read_stream_ok:
  fixes x :: "'w::len word"
  assumes "stream_ok ms" and "to_read ms = word_bytes x @ rest" and "8 dvd LENGTH('w)"
  shows "Read_stream ms = Inr (x, skip (length (word_bytes x)) ms)"
    and "stream_ok (skip (length (word_bytes x)) ms)" and "to_read (skip (length (word_bytes x)) ms) = rest"
  using skip_ok [OF assms(1), of "LENGTH('w) div 8"] assms(2) word_bytes_int [OF assms(3), of x]
  by (simp_all add: Read_stream_def)

lemma skip_skip:
  assumes "stream_ok ms" and "m + n \<le> length (to_read ms)"
  shows "skip n (skip m ms) = skip (m + n) ms"
proof -
  have "ms_readOffset (skip n (skip m ms)) = ms_readOffset (skip (m + n) ms)"
    using assms skip_ok [OF assms(1), of m] skip_ok [OF assms(1), of "m + n"]
      skip_ok(5) [of "skip m ms" n] by simp
  then show ?thesis by (simp add: skip_def)
qed

lemma length_string_bytes [simp]: "length (string_bytes s) = 4 + length s"
  by (simp add: string_bytes_def)

lemma Read_string_ok:
  assumes "stream_ok ms" and "to_read ms = string_bytes s @ rest"
  shows "Read_string ms = Inr (s, skip (length (string_bytes s)) ms)"
    and "stream_ok (skip (length (string_bytes s)) ms)" and "to_read (skip (length (string_bytes s)) ms) = rest"
proof -
  let ?l = "of_nat (length s) :: int32"
  let ?m = "skip 4 ms"
  have len: "length s < 2 ^ 31"
    using assms(1) length_drop [of "nat (ms_readOffset ms)" "ms_buffer ms"] assms(2)
    unfolding stream_ok_def to_read_def by auto
  then have l: "sint ?l = int (length s)"
    using to_int32_id [of "int (length s)"] by (simp add: to_int32_def)
  have rd: "Read_stream ms = Inr (?l, ?m)" "stream_ok ?m" "to_read ?m = map byte_of_char s @ rest"
    using Read_stream_ok [OF assms(1), of ?l "map byte_of_char s @ rest"] assms(2)
    by (simp_all add: string_bytes_def)
  have sk: "skip (length s) ?m = skip (4 + length s) ms"
    using assms(2) by (intro skip_skip [OF assms(1)]) (simp add: string_bytes_def)
  show "Read_string ms = Inr (s, skip (length (string_bytes s)) ms)"
    using skip_ok(3) [OF rd(2), of "length s"] rd l sk by (simp add: Read_string_def comp_def)
  show "stream_ok (skip (length (string_bytes s)) ms)" "to_read (skip (length (string_bytes s)) ms) = rest"
    using skip_ok [OF rd(2), of "length s"] rd sk by simp_all
qed

lemma Insert_buffer [simp]:
  "ms_buffer (Insert_stream x ms) = ms_buffer ms @ word_bytes x"
  "ms_buffer (Insert_string s ms) = ms_buffer ms @ string_bytes s"
  "ms_readOffset (Insert_stream x ms) = ms_readOffset ms"
  "ms_readOffset (Insert_string s ms) = ms_readOffset ms"
  by (simp_all add: Insert_stream_def Insert_string_def string_bytes_def Let_def)

section \<open>Sequences of operands\<close>

datatype operand =
    OInt int32 | OLong int64 | OFloat f32 | ODouble f64 | OBool int8 | OString string

datatype operand_type = TInt | TLong | TFloat | TDouble | TBool | TString

fun type_of :: "operand \<Rightarrow> operand_type" where
  "type_of (OInt x) = TInt" | "type_of (OLong x) = TLong" | "type_of (OFloat x) = TFloat"
| "type_of (ODouble x) = TDouble" | "type_of (OBool x) = TBool" | "type_of (OString s) = TString"

text \<open>\<open>AddArgument\<close> of the dispatcher and the reads of its functions, per type.\<close>

fun AddArgument :: "operand \<Rightarrow> MemoryStream \<Rightarrow> MemoryStream" where
  "AddArgument (OInt x) ms = Insert_stream x ms"
| "AddArgument (OLong x) ms = Insert_stream x ms"
| "AddArgument (OFloat x) ms = Insert_stream x ms"
| "AddArgument (ODouble x) ms = Insert_stream x ms"
| "AddArgument (OBool x) ms = Insert_stream x ms"
| "AddArgument (OString s) ms = Insert_string s ms"

fun Read_operand :: "operand_type \<Rightarrow> MemoryStream \<Rightarrow> (operand \<times> MemoryStream) result" where
  "Read_operand TInt ms = mapR (apfst OInt) (Read_stream ms)"
| "Read_operand TLong ms = mapR (apfst OLong) (Read_stream ms)"
| "Read_operand TFloat ms = mapR (apfst OFloat) (Read_stream ms)"
| "Read_operand TDouble ms = mapR (apfst ODouble) (Read_stream ms)"
| "Read_operand TBool ms = mapR (apfst OBool) (Read_stream ms)"
| "Read_operand TString ms = mapR (apfst OString) (Read_string ms)"

fun Read_operands :: "operand_type list \<Rightarrow> MemoryStream \<Rightarrow> (operand list \<times> MemoryStream) result" where
  "Read_operands [] ms = Inr ([], ms)"
| "Read_operands (t # ts) ms =
    bindR (Read_operand t ms) (\<lambda>(v, m). mapR (apfst ((#) v)) (Read_operands ts m))"

fun operand_bytes :: "operand \<Rightarrow> int8 list" where
  "operand_bytes (OInt x) = word_bytes x" | "operand_bytes (OLong x) = word_bytes x"
| "operand_bytes (OFloat x) = word_bytes x" | "operand_bytes (ODouble x) = word_bytes x"
| "operand_bytes (OBool x) = word_bytes x" | "operand_bytes (OString s) = string_bytes s"

lemma AddArgument_buffer [simp]:
  "ms_buffer (AddArgument v ms) = ms_buffer ms @ operand_bytes v"
  "ms_readOffset (AddArgument v ms) = ms_readOffset ms"
  by (cases v; simp)+

lemma Read_operand_ok:
  assumes "stream_ok ms" and "to_read ms = operand_bytes v @ rest"
  shows "Read_operand (type_of v) ms = Inr (v, skip (length (operand_bytes v)) ms)"
    and "stream_ok (skip (length (operand_bytes v)) ms)"
    and "to_read (skip (length (operand_bytes v)) ms) = rest"
proof -
  note ok = Read_stream_ok [OF assms(1)] Read_string_ok [OF assms(1)]
  show "Read_operand (type_of v) ms = Inr (v, skip (length (operand_bytes v)) ms)"
    using assms(2) by (cases v) (simp_all add: ok del: length_word_bytes length_string_bytes)
  show "stream_ok (skip (length (operand_bytes v)) ms)"
    using assms by (intro skip_ok(1)) simp_all
  show "to_read (skip (length (operand_bytes v)) ms) = rest"
    using assms by (subst skip_ok(2)) simp_all
qed

lemma fold_AddArgument [simp]:
  "ms_buffer (fold AddArgument vs ms) = ms_buffer ms @ concat (map operand_bytes vs)"
  "ms_readOffset (fold AddArgument vs ms) = ms_readOffset ms"
  by (induction vs arbitrary: ms) simp_all

lemma Read_operands_ok:
  assumes "stream_ok ms" and "to_read ms = concat (map operand_bytes vs) @ rest"
  shows "\<exists>m. Read_operands (map type_of vs) ms = Inr (vs, m) \<and> stream_ok m \<and> to_read m = rest"
  using assms
proof (induction vs arbitrary: ms)
  case Nil
  then show ?case by simp
next
  case (Cons v vs)
  then show ?case
    using Read_operand_ok [of ms v "concat (map operand_bytes vs) @ rest"]
      Cons.IH [of "skip (length (operand_bytes v)) ms"] by auto
qed

text \<open>
  C34. Operands are read back as they were added: after \<open>Clear\<close>, any sequence of numbers and
  strings added to a stream and read after \<open>Reset\<close> with the same types gives the same sequence
  and leaves nothing to read, as long as the stream stays below two gigabytes.
\<close>

theorem MemoryStream_roundtrip:
  assumes "length (ms_buffer (fold AddArgument vs (Clear_stream ms))) < 2 ^ 31"
  shows "\<exists>m. Read_operands (map type_of vs) (Reset (fold AddArgument vs (Clear_stream ms))) = Inr (vs, m)
    \<and> to_read m = []"
  using Read_operands_ok [of "Reset (fold AddArgument vs (Clear_stream ms))" vs "[]"] assms
  by (auto simp: Reset_def Clear_stream_def stream_ok_def to_read_def)

theorem MemoryStream_roundtrip_witness:
  "\<exists>m. Read_operands [TString, TInt, TString]
      (Reset (fold AddArgument [OString ''T.a'', OInt (- 5), OString ''''] (Clear_stream MemoryStream_new))) =
    Inr ([OString ''T.a'', OInt (- 5), OString ''''], m)"
  using MemoryStream_roundtrip [of "[OString ''T.a'', OInt (- 5), OString '''']" MemoryStream_new]
  by (auto simp: Clear_stream_def)

end
