(* ===== verification/Cpu_Dispatcher.thy ===== *)
theory Cpu_Dispatcher
  imports Cpu_Values Memory_Stream Tables
begin

text \<open>
  The CPU evaluation of a WHERE clause (\<open>GpuSqlParser/CpuSqlDispatcher.h\<close>,
  \<open>CpuSqlDispatcher.cpp\<close> and \<open>DispatcherCpu/\<close>). Before a block is copied to the GPU, the clause is
  evaluated on the minimum and the maximum of every column it names; when both results are
  false, the block is skipped. The program is a list of functions, their operands are in the
  argument stream and their results in named registers, one for the minimum and one for the
  maximum; the flag of a register says that the block has to be loaded whatever its value is.

  \<open>allocatedPointers_\<close> maps a name to a register; a register holds one number or a character
  array. \<open>insert\<close> does not replace an element, so a second register of a name is never seen.
  Reading a register at another type than it was written with is undefined. The database is an
  argument: its tables by name.
\<close>

section \<open>State\<close>

datatype cell = CNum ctype cnum | CStr string

record register =
  r_cell :: cell
  r_size :: nat
  r_full :: bool

datatype arg_kind = ArgNum ctype | ArgString | ArgGeo

datatype CpuDispatchFunction =
    FilterColConst FilterConditions ctype ctype | FilterConstCol FilterConditions ctype ctype
  | filterColCol FilterConditions ctype ctype | filterConstConst FilterConditions ctype ctype
  | FilterStringColConst FilterConditions | FilterStringConstCol FilterConditions
  | FilterStringColCol FilterConditions | FilterStringConstConst FilterConditions
  | LogicalColConst FilterConditions ctype ctype | LogicalConstCol FilterConditions ctype ctype
  | LogicalColCol FilterConditions ctype ctype | LogicalConstConst FilterConditions ctype ctype
  | LogicalNotCol ctype | LogicalNotConst ctype | NullCol
  | ArithmeticColConst ArithmeticOperations ctype ctype | arithmeticConstCol ArithmeticOperations ctype ctype
  | arithmeticColCol ArithmeticOperations ctype ctype | arithmeticConstConst ArithmeticOperations ctype ctype
  | ArithmeticUnaryCol ctype | ArithmeticUnaryConst ctype
  | WhereResultCol ctype | WhereResultConst ctype
  | InvalidOperandTypesErrorHandler "arg_kind list"

record CpuSqlDispatcher =
  d_functions :: "CpuDispatchFunction list"
  d_blockIndex :: nat
  d_whereResult :: int
  d_arguments :: MemoryStream
  d_instructionPointer :: nat
  d_allocatedPointers :: "string \<rightharpoonup> register"

type_synonym database = "(string \<times> table) list"

definition CpuSqlDispatcher_new :: CpuSqlDispatcher where
  "CpuSqlDispatcher_new =
    \<lparr>d_functions = [], d_blockIndex = 0, d_whereResult = 1, d_arguments = MemoryStream_new,
     d_instructionPointer = 0, d_allocatedPointers = Map.empty\<rparr>"

definition IsRegisterAllocated :: "string \<Rightarrow> CpuSqlDispatcher \<Rightarrow> bool" where
  "IsRegisterAllocated reg d \<longleftrightarrow> d_allocatedPointers d reg \<noteq> None"

section \<open>Registers and columns\<close>

definition front :: "string \<Rightarrow> char" where
  "front s = (case s of [] \<Rightarrow> CHR 0x00 | c # _ \<Rightarrow> c)"

definition SplitColumnName :: "string \<Rightarrow> string \<times> string" where
  "SplitColumnName name =
    (if CHR ''.'' \<in> set name
     then (takeWhile (\<lambda>c. c \<noteq> CHR ''.'') name, tl (dropWhile (\<lambda>c. c \<noteq> CHR ''.'') name))
     else (name, name))"

definition GetPointerNames :: "string \<Rightarrow> string \<times> string" where
  "GetPointerNames colName = (colName @ ''_min'', colName @ ''_max'')"

definition AllocateRegister :: "string \<Rightarrow> register \<Rightarrow> CpuSqlDispatcher \<Rightarrow> CpuSqlDispatcher" where
  "AllocateRegister reg r d =
    (case d_allocatedPointers d reg of
       None \<Rightarrow> d\<lparr>d_allocatedPointers := (d_allocatedPointers d)(reg \<mapsto> r)\<rparr>
     | Some _ \<Rightarrow> d)"

definition num_register :: "ctype \<Rightarrow> cnum \<Rightarrow> bool \<Rightarrow> register" where
  "num_register T v f = \<lparr>r_cell = CNum T v, r_size = 1, r_full = f\<rparr>"

definition mask_register :: "bool \<Rightarrow> bool \<Rightarrow> register" where
  "mask_register m f = num_register Int8T (NInt (of_bool m)) f"

definition string_register :: "string \<Rightarrow> register" where
  "string_register s = \<lparr>r_cell = CStr s, r_size = length s + 1, r_full = False\<rparr>"

text \<open>Both registers of a result.\<close>

definition set_result :: "string \<Rightarrow> register \<Rightarrow> register \<Rightarrow> CpuSqlDispatcher \<Rightarrow> CpuSqlDispatcher" where
  "set_result reg lo hi d = AllocateRegister (reg @ ''_max'') hi (AllocateRegister (reg @ ''_min'') lo d)"

definition set_mask :: "string \<Rightarrow> bool \<times> bool \<Rightarrow> bool \<times> bool \<Rightarrow> CpuSqlDispatcher \<Rightarrow> CpuSqlDispatcher" where
  "set_mask reg lo hi = set_result reg (mask_register (fst lo) (snd lo)) (mask_register (fst hi) (snd hi))"

text \<open>A wrong \<open>dynamic_cast\<close> gives a null pointer.\<close>

definition block_at :: "'a column \<Rightarrow> nat \<Rightarrow> 'a block result" where
  "block_at c i = (if i < length (GetBlocksList c) then Inr (GetBlocksList c ! i) else Inl UndefinedBehaviour)"

definition GetBlockMin :: "ctype \<Rightarrow> icolumn \<Rightarrow> nat \<Rightarrow> cnum result" where
  "GetBlockMin T c i =
    (case (T, c) of
       (Int32T, ColInt d) \<Rightarrow> mapR (\<lambda>b. NInt (sint (b_min b))) (block_at d i)
     | (Int64T, ColLong d) \<Rightarrow> mapR (\<lambda>b. NInt (sint (b_min b))) (block_at d i)
     | (Int8T, ColInt8 d) \<Rightarrow> mapR (\<lambda>b. NInt (sint (b_min b))) (block_at d i)
     | (FloatT, ColFloat d) \<Rightarrow> mapR (\<lambda>b. NFloat (b_min b)) (block_at d i)
     | (DoubleT, ColDouble d) \<Rightarrow> mapR (\<lambda>b. NDouble (b_min b)) (block_at d i)
     | _ \<Rightarrow> Inl UndefinedBehaviour)"

definition GetBlockMax :: "ctype \<Rightarrow> icolumn \<Rightarrow> nat \<Rightarrow> cnum result" where
  "GetBlockMax T c i =
    (case (T, c) of
       (Int32T, ColInt d) \<Rightarrow> mapR (\<lambda>b. NInt (sint (b_max b))) (block_at d i)
     | (Int64T, ColLong d) \<Rightarrow> mapR (\<lambda>b. NInt (sint (b_max b))) (block_at d i)
     | (Int8T, ColInt8 d) \<Rightarrow> mapR (\<lambda>b. NInt (sint (b_max b))) (block_at d i)
     | (FloatT, ColFloat d) \<Rightarrow> mapR (\<lambda>b. NFloat (b_max b)) (block_at d i)
     | (DoubleT, ColDouble d) \<Rightarrow> mapR (\<lambda>b. NDouble (b_max b)) (block_at d i)
     | _ \<Rightarrow> Inl UndefinedBehaviour)"

text \<open>The column a name stands for.\<close>

definition named_column :: "database \<Rightarrow> string \<Rightarrow> icolumn result" where
  "named_column db colName =
    (case map_of db (fst (SplitColumnName colName)) of None \<Rightarrow> Inl OutOfRange
     | Some t \<Rightarrow> (case find_column (snd (SplitColumnName colName)) t of None \<Rightarrow> Inl OutOfRange | Some c \<Rightarrow> Inr c))"

definition to_load :: "string \<Rightarrow> CpuSqlDispatcher \<Rightarrow> bool" where
  "to_load colName d \<longleftrightarrow> d_allocatedPointers d colName = None \<and> colName \<noteq> [] \<and> front colName \<noteq> CHR ''$''"

definition LoadCol :: "database \<Rightarrow> ctype \<Rightarrow> string \<Rightarrow> CpuSqlDispatcher \<Rightarrow> (int \<times> CpuSqlDispatcher) result" where
  "LoadCol db T colName d =
    (if to_load colName d then
       bindR (named_column db colName) (\<lambda>c.
       if ic_blockCount c \<le> d_blockIndex d then Inr (1, d)
       else bindR (GetBlockMin T c (d_blockIndex d)) (\<lambda>lo.
            bindR (GetBlockMax T c (d_blockIndex d)) (\<lambda>hi.
            Inr (0, set_result colName (num_register T lo False) (num_register T hi False) d))))
     else Inr (0, d))"

definition LoadCol_string :: "database \<Rightarrow> string \<Rightarrow> CpuSqlDispatcher \<Rightarrow> (int \<times> CpuSqlDispatcher) result" where
  "LoadCol_string db colName d =
    (if to_load colName d then
       bindR (named_column db colName) (\<lambda>c.
       if ic_blockCount c \<le> d_blockIndex d then Inr (1, d)
       else (case c of
         ColString s \<Rightarrow> bindR (block_at s (d_blockIndex d)) (\<lambda>b.
           Inr (0, set_result colName (string_register (b_min b)) (string_register (b_max b)) d))
       | _ \<Rightarrow> Inl UndefinedBehaviour))
     else Inr (0, d))"

text \<open>\<open>allocatedPointers_.at\<close>, and the registers of a name read at a type.\<close>

definition pointer_at :: "string \<Rightarrow> CpuSqlDispatcher \<Rightarrow> register result" where
  "pointer_at reg d = (case d_allocatedPointers d reg of None \<Rightarrow> Inl OutOfRange | Some r \<Rightarrow> Inr r)"

definition cell_num :: "ctype \<Rightarrow> register \<Rightarrow> cnum result" where
  "cell_num T r =
    (case r_cell r of CNum U v \<Rightarrow> if U = T then Inr v else Inl UndefinedBehaviour | CStr _ \<Rightarrow> Inl UndefinedBehaviour)"

definition cell_str :: "register \<Rightarrow> string result" where
  "cell_str r = (case r_cell r of CStr s \<Rightarrow> Inr s | CNum _ _ \<Rightarrow> Inl UndefinedBehaviour)"

definition fetch :: "string \<Rightarrow> CpuSqlDispatcher \<Rightarrow> (register \<times> register) result" where
  "fetch colName d =
    bindR (pointer_at (colName @ ''_min'') d) (\<lambda>lo. mapR (Pair lo) (pointer_at (colName @ ''_max'') d))"

definition fetch_num :: "ctype \<Rightarrow> string \<Rightarrow> CpuSqlDispatcher \<Rightarrow> ((cnum \<times> bool) \<times> (cnum \<times> bool)) result" where
  "fetch_num T colName d =
    bindR (fetch colName d) (\<lambda>(lo, hi).
    bindR (cell_num T lo) (\<lambda>a. mapR (\<lambda>b. ((a, r_full lo), (b, r_full hi))) (cell_num T hi)))"

definition fetch_str :: "string \<Rightarrow> CpuSqlDispatcher \<Rightarrow> ((string \<times> bool) \<times> (string \<times> bool)) result" where
  "fetch_str colName d =
    bindR (fetch colName d) (\<lambda>(lo, hi).
    bindR (cell_str lo) (\<lambda>a. mapR (\<lambda>b. ((a, r_full lo), (b, r_full hi))) (cell_str hi)))"

section \<open>Operands\<close>

fun operand_type :: "ctype \<Rightarrow> operand_type" where
  "operand_type Int32T = TInt" | "operand_type Int64T = TLong" | "operand_type FloatT = TFloat"
| "operand_type DoubleT = TDouble" | "operand_type Int8T = TBool"

fun operand_num :: "operand \<Rightarrow> cnum" where
  "operand_num (OInt x) = NInt (sint x)" | "operand_num (OLong x) = NInt (sint x)"
| "operand_num (OBool x) = NInt (sint x)" | "operand_num (OFloat x) = NFloat x"
| "operand_num (ODouble x) = NDouble x" | "operand_num (OString s) = NInt 0"

definition read_string ::
  "CpuSqlDispatcher \<Rightarrow> (string \<Rightarrow> CpuSqlDispatcher \<Rightarrow> 'b result) \<Rightarrow> 'b result" where
  "read_string d k = bindR (Read_string (d_arguments d)) (\<lambda>(s, m). k s (d\<lparr>d_arguments := m\<rparr>))"

definition read_num ::
  "ctype \<Rightarrow> CpuSqlDispatcher \<Rightarrow> (cnum \<Rightarrow> CpuSqlDispatcher \<Rightarrow> 'b result) \<Rightarrow> 'b result" where
  "read_num T d k =
    bindR (Read_operand (operand_type T) (d_arguments d)) (\<lambda>(v, m). k (operand_num v) (d\<lparr>d_arguments := m\<rparr>))"

text \<open>\<open>if (LoadCol(...)) return 1;\<close>\<close>

definition loaded ::
  "(int \<times> CpuSqlDispatcher) result \<Rightarrow> (CpuSqlDispatcher \<Rightarrow> (int \<times> CpuSqlDispatcher) result)
    \<Rightarrow> (int \<times> CpuSqlDispatcher) result" where
  "loaded r k = bindR r (\<lambda>(err, d). if err \<noteq> 0 then Inr (1, d) else k d)"

end
