(* ===== verification/Cpu_Functions.thy ===== *)
theory Cpu_Functions
  imports Cpu_Dispatcher
begin

text \<open>
  The functions of the CPU dispatcher: the templates of
  \<open>DispatcherCpu/CpuDispatcherLogicFunctions.h\<close>, \<open>CpuDispatcherArithmeticFunctions.h\<close> and
  \<open>CpuDispatcherArithmeticUnaryFunctions.h\<close>, the result functions and the error handlers of
  \<open>CpuSqlDispatcher.h\<close>, the tables that select a function by the types of its operands, and the
  loop \<open>Execute\<close>. A function returns 0 to go on and 1 to stop. Logging is left out.
\<close>

section \<open>Comparisons\<close>

text \<open>A string register as the C string \<open>std::string\<close> compares with.\<close>

definition c_str :: "string \<Rightarrow> string" where
  "c_str s = takeWhile (\<lambda>c. c \<noteq> CHR 0x00) s"

text \<open>The tests of a column's bounds \<open>lo\<close> and \<open>hi\<close> against a constant, for both operand orders.\<close>

definition filter_bounds ::
  "FilterConditions \<Rightarrow> ctype \<Rightarrow> ctype \<Rightarrow> cnum \<Rightarrow> cnum \<Rightarrow> cnum \<Rightarrow> (bool \<times> bool) result" where
  "filter_bounds f T U lo hi cnst =
    (case interval f of
       NONE \<Rightarrow> bindR (call_filter f T U lo cnst) (\<lambda>m. mapR (Pair m) (call_filter f T U hi cnst))
     | _ \<Rightarrow> (let m = num_le lo cnst \<and> num_le cnst hi in Inr (m, m)))"

definition filter_string_bounds :: "FilterConditions \<Rightarrow> string \<Rightarrow> string \<Rightarrow> string \<Rightarrow> bool \<times> bool" where
  "filter_string_bounds f lo hi cnst =
    (case interval f of
       NONE \<Rightarrow> (compareStrings f lo cnst, compareStrings f hi cnst)
     | _ \<Rightarrow> (let m = c_str lo \<le> cnst \<and> cnst \<le> c_str hi in (m, m)))"

definition run_FilterColConst where
  "run_FilterColConst db f T U d =
    read_string d (\<lambda>colName d. read_num U d (\<lambda>cnst d. read_string d (\<lambda>reg d.
    loaded (LoadCol db T colName d) (\<lambda>d.
    bindR (fetch_num T colName d) (\<lambda>(lo, hi).
    bindR (filter_bounds f T U (fst lo) (fst hi) cnst) (\<lambda>(m, n).
    Inr (0 :: int, set_mask reg (m, snd lo) (n, snd hi) d)))))))"

definition run_FilterConstCol where
  "run_FilterConstCol db f T U d =
    read_num T d (\<lambda>cnst d. read_string d (\<lambda>colName d. read_string d (\<lambda>reg d.
    loaded (LoadCol db U colName d) (\<lambda>d.
    bindR (fetch_num U colName d) (\<lambda>(lo, hi).
    bindR (filter_bounds f T U (fst lo) (fst hi) cnst) (\<lambda>(m, n).
    Inr (0 :: int, set_mask reg (m, snd lo) (n, snd hi) d)))))))"

text \<open>Two operands that are columns or registers.\<close>

definition is_reg :: "string \<Rightarrow> bool" where
  "is_reg s \<longleftrightarrow> front s = CHR ''$''"

definition run_filterColCol where
  "run_filterColCol db f T U d =
    read_string d (\<lambda>left d. read_string d (\<lambda>right d. read_string d (\<lambda>reg d.
    if \<not> is_reg left \<and> \<not> is_reg right then Inr (0 :: int, set_mask reg (True, True) (True, True) d)
    else loaded (LoadCol db T left d) (\<lambda>d. loaded (LoadCol db U right d) (\<lambda>d.
      bindR (fetch_num T left d) (\<lambda>(a, b). bindR (fetch_num U right d) (\<lambda>(x, y).
      bindR (call_filter f T U (fst a) (fst x)) (\<lambda>m.
      bindR (call_filter f T U (fst b) (fst y)) (\<lambda>n.
      Inr (0, set_mask reg (m, snd a \<or> snd x) (n, snd b \<or> snd y) d)))))))))) "

definition run_filterConstConst where
  "run_filterConstConst f T U d =
    read_num T d (\<lambda>left d. read_num U d (\<lambda>right d. read_string d (\<lambda>reg d.
    bindR (call_filter f T U left right) (\<lambda>m.
    Inr (0 :: int, set_mask reg (m, False) (m, False) d)))))"

definition run_FilterStringColConst where
  "run_FilterStringColConst db f d =
    read_string d (\<lambda>colName d. read_string d (\<lambda>cnst d. read_string d (\<lambda>reg d.
    loaded (LoadCol_string db colName d) (\<lambda>d.
    bindR (fetch_str colName d) (\<lambda>(lo, hi).
    let (m, n) = filter_string_bounds f (fst lo) (fst hi) cnst
    in Inr (0 :: int, set_mask reg (m, snd lo) (n, snd hi) d))))))"

definition run_FilterStringConstCol where
  "run_FilterStringConstCol db f d =
    read_string d (\<lambda>cnst d. read_string d (\<lambda>colName d. read_string d (\<lambda>reg d.
    loaded (LoadCol_string db colName d) (\<lambda>d.
    bindR (fetch_str colName d) (\<lambda>(lo, hi).
    let (m, n) = filter_string_bounds f (fst lo) (fst hi) cnst
    in Inr (0 :: int, set_mask reg (m, snd lo) (n, snd hi) d))))))"

definition run_FilterStringColCol where
  "run_FilterStringColCol db f d =
    read_string d (\<lambda>left d. read_string d (\<lambda>right d. read_string d (\<lambda>reg d.
    if \<not> is_reg left \<and> \<not> is_reg right then Inr (0 :: int, set_mask reg (True, True) (True, True) d)
    else loaded (LoadCol_string db left d) (\<lambda>d. loaded (LoadCol_string db right d) (\<lambda>d.
      bindR (fetch_str left d) (\<lambda>(a, b). bindR (fetch_str right d) (\<lambda>(x, y).
      Inr (0, set_mask reg (compareStrings f (fst a) (fst x), snd a \<or> snd x)
        (compareStrings f (fst b) (fst y), snd b \<or> snd y) d))))))))"

definition run_FilterStringConstConst where
  "run_FilterStringConstConst f d =
    read_string d (\<lambda>left d. read_string d (\<lambda>right d. read_string d (\<lambda>reg d.
    Inr (0 :: int, set_mask reg (compareStrings f left right, False) (compareStrings f left right, False) d))))"

section \<open>Logical operations\<close>

text \<open>The flag of an operand survives only when the operand is a column.\<close>

definition run_LogicalColConst where
  "run_LogicalColConst db f T U d =
    read_string d (\<lambda>colName d. read_num U d (\<lambda>cnst d. read_string d (\<lambda>reg d.
    loaded (LoadCol db T colName d) (\<lambda>d.
    bindR (fetch_num T colName d) (\<lambda>(lo, hi).
    bindR (call_filter f T U (fst lo) cnst) (\<lambda>m.
    bindR (call_filter f T U (fst hi) cnst) (\<lambda>n.
    Inr (0 :: int, set_mask reg (m, \<not> is_reg colName \<and> snd lo) (n, \<not> is_reg colName \<and> snd hi) d))))))))"

definition run_LogicalConstCol where
  "run_LogicalConstCol db f T U d =
    read_num T d (\<lambda>cnst d. read_string d (\<lambda>colName d. read_string d (\<lambda>reg d.
    loaded (LoadCol db U colName d) (\<lambda>d.
    bindR (fetch_num U colName d) (\<lambda>(lo, hi).
    bindR (call_filter f T U cnst (fst lo)) (\<lambda>m.
    bindR (call_filter f T U cnst (fst hi)) (\<lambda>n.
    Inr (0 :: int, set_mask reg (m, \<not> is_reg colName \<and> snd lo) (n, \<not> is_reg colName \<and> snd hi) d))))))))"

text \<open>
  Of two registers, each is first reduced to whether its minimum or maximum is true; the source
  reads the maximum of the left operand at the type of the right one, and the minimum of the
  right one at the type of the left.
\<close>

definition either :: "ctype \<Rightarrow> ctype \<Rightarrow> register \<times> register \<Rightarrow> cnum result" where
  "either T U r =
    bindR (cell_num T (fst r)) (\<lambda>a. bindR (cell_num U (snd r)) (\<lambda>b.
    mapR (\<lambda>m. NInt (of_bool m)) (call_filter LogicalOr T U a b)))"

definition run_LogicalColCol where
  "run_LogicalColCol db f T U d =
    read_string d (\<lambda>left d. read_string d (\<lambda>right d. read_string d (\<lambda>reg d.
    if \<not> is_reg left \<and> \<not> is_reg right then Inr (0 :: int, set_mask reg (True, True) (True, True) d)
    else loaded (LoadCol db T left d) (\<lambda>d. loaded (LoadCol db U right d) (\<lambda>d.
      if \<not> is_reg left \<or> \<not> is_reg right then
        bindR (fetch_num T left d) (\<lambda>(a, b). bindR (fetch_num U right d) (\<lambda>(x, y).
        bindR (call_filter f T U (fst a) (fst x)) (\<lambda>m.
        bindR (call_filter f T U (fst b) (fst y)) (\<lambda>n.
        Inr (0, set_mask reg (m, snd a \<or> snd x) (n, snd b \<or> snd y) d)))))
      else
        bindR (fetch left d) (\<lambda>l. bindR (fetch right d) (\<lambda>r.
        bindR (either T U l) (\<lambda>a. bindR (either T U r) (\<lambda>b.
        bindR (call_filter f T U a b) (\<lambda>m.
        Inr (0, set_mask reg (m, False) (m, False) d)))))))))))"

definition run_LogicalConstConst where
  "run_LogicalConstConst f T U d =
    read_num T d (\<lambda>left d. read_num U d (\<lambda>right d. read_string d (\<lambda>reg d.
    bindR (call_filter f T U left right) (\<lambda>m.
    Inr (0 :: int, set_mask reg (m, False) (m, False) d)))))"

definition run_LogicalNotCol where
  "run_LogicalNotCol db T d =
    read_string d (\<lambda>colName d. read_string d (\<lambda>reg d.
    loaded (LoadCol db T colName d) (\<lambda>d.
    bindR (fetch_num T colName d) (\<lambda>(lo, hi).
    Inr (0 :: int, set_mask reg (\<not> num_true (fst lo), snd lo) (\<not> num_true (fst hi), snd hi) d)))))"

definition run_LogicalNotConst where
  "run_LogicalNotConst T d =
    read_num T d (\<lambda>cnst d. read_string d (\<lambda>reg d.
    Inr (0 :: int, set_mask reg (\<not> num_true cnst, False) (\<not> num_true cnst, False) d)))"

definition run_NullCol where
  "run_NullCol d =
    read_string d (\<lambda>colName d. read_string d (\<lambda>reg d.
    Inr (0 :: int, set_mask reg (True, True) (True, True) d)))"

section \<open>Arithmetic\<close>

definition run_ArithmeticColConst where
  "run_ArithmeticColConst db f T U d =
    read_string d (\<lambda>colName d. read_num U d (\<lambda>cnst d. read_string d (\<lambda>reg d.
    loaded (LoadCol db T colName d) (\<lambda>d.
    bindR (fetch_num T colName d) (\<lambda>(lo, hi).
    bindR (apply_arith f T U (fst lo) cnst) (\<lambda>m.
    bindR (apply_arith f T U (fst hi) cnst) (\<lambda>n.
    Inr (0 :: int, set_result reg (num_register (ResultType T U) m (snd lo \<or> \<not> isMonotonous f))
      (num_register (ResultType T U) n (snd hi \<or> \<not> isMonotonous f)) d))))))))"

definition run_arithmeticConstCol where
  "run_arithmeticConstCol db f T U d =
    read_num T d (\<lambda>cnst d. read_string d (\<lambda>colName d. read_string d (\<lambda>reg d.
    loaded (LoadCol db U colName d) (\<lambda>d.
    bindR (fetch_num U colName d) (\<lambda>(lo, hi).
    bindR (apply_arith f T U cnst (fst lo)) (\<lambda>m.
    bindR (apply_arith f T U cnst (fst hi)) (\<lambda>n.
    Inr (0 :: int, set_result reg (num_register (ResultType T U) m (snd lo \<or> \<not> isMonotonous f))
      (num_register (ResultType T U) n (snd hi \<or> \<not> isMonotonous f)) d))))))))"

definition num_one :: "ctype \<Rightarrow> cnum" where
  "num_one T =
    (case T of FloatT \<Rightarrow> NFloat (f32_of_int 1) | DoubleT \<Rightarrow> NDouble (f64_of_int 1) | _ \<Rightarrow> NInt 1)"

definition run_arithmeticColCol where
  "run_arithmeticColCol db f T U d =
    read_string d (\<lambda>left d. read_string d (\<lambda>right d. read_string d (\<lambda>reg d.
    let R = ResultType T U in
    if \<not> is_reg left \<and> \<not> is_reg right
    then Inr (0 :: int, set_result reg (num_register R (num_one R) True) (num_register R (num_one R) True) d)
    else loaded (LoadCol db T left d) (\<lambda>d. loaded (LoadCol db U right d) (\<lambda>d.
      bindR (fetch_num T left d) (\<lambda>(a, b). bindR (fetch_num U right d) (\<lambda>(x, y).
      bindR (apply_arith f T U (fst a) (fst x)) (\<lambda>m.
      bindR (apply_arith f T U (fst b) (fst y)) (\<lambda>n.
      Inr (0, set_result reg (num_register R m (snd a \<or> snd x \<or> \<not> isMonotonous f))
        (num_register R n (snd b \<or> snd y \<or> \<not> isMonotonous f)) d))))))))))"

definition run_arithmeticConstConst where
  "run_arithmeticConstConst f T U d =
    read_num T d (\<lambda>left d. read_num U d (\<lambda>right d. read_string d (\<lambda>reg d.
    bindR (apply_arith f T U left right) (\<lambda>m.
    Inr (0 :: int, set_result reg (num_register (ResultType T U) m False)
      (num_register (ResultType T U) m False) d)))))"

text \<open>The unary functions, for the functor \<open>minus\<close>, which is declared monotonous.\<close>

definition run_ArithmeticUnaryCol where
  "run_ArithmeticUnaryCol db T d =
    read_string d (\<lambda>colName d. read_string d (\<lambda>reg d.
    loaded (LoadCol db T colName d) (\<lambda>d.
    bindR (fetch_num T colName d) (\<lambda>(lo, hi).
    bindR (apply_minus T (fst lo)) (\<lambda>m. bindR (apply_minus T (fst hi)) (\<lambda>n.
    Inr (0 :: int, set_result reg (num_register T m (snd lo)) (num_register T n (snd hi)) d)))))))"

definition run_ArithmeticUnaryConst where
  "run_ArithmeticUnaryConst T d =
    read_num T d (\<lambda>cnst d. read_string d (\<lambda>reg d.
    bindR (apply_minus T cnst) (\<lambda>m.
    Inr (0 :: int, set_result reg (num_register T m False) (num_register T m False) d))))"

section \<open>Results and errors\<close>

text \<open>\<open>static_cast<int64_t>\<close>\<close>

definition to_long :: "cnum \<Rightarrow> int result" where
  "to_long v = to_integer Int64T v"

definition run_WhereResultCol where
  "run_WhereResultCol T d =
    read_string d (\<lambda>colName d.
    bindR (fetch_num T colName d) (\<lambda>(lo, hi).
    bindR (if snd lo then Inr 1 else to_long (fst lo)) (\<lambda>a.
    bindR (if snd hi then Inr 1 else to_long (fst hi)) (\<lambda>b.
    Inr (1 :: int, d\<lparr>d_whereResult := of_bool (a \<noteq> 0 \<or> b \<noteq> 0)\<rparr>)))))"

definition run_WhereResultConst where
  "run_WhereResultConst T d =
    read_num T d (\<lambda>cnst d. mapR (\<lambda>i. (1 :: int, d\<lparr>d_whereResult := i\<rparr>)) (to_long cnst))"

text \<open>The handlers read their operands and throw. A geometric constant is copied out of raw bytes.\<close>

fun run_InvalidOperandTypes :: "arg_kind list \<Rightarrow> CpuSqlDispatcher \<Rightarrow> (int \<times> CpuSqlDispatcher) result" where
  "run_InvalidOperandTypes [] d = Inl InvalidOperandsException"
| "run_InvalidOperandTypes (ArgNum T # as) d = read_num T d (\<lambda>_. run_InvalidOperandTypes as)"
| "run_InvalidOperandTypes (ArgString # as) d = read_string d (\<lambda>_. run_InvalidOperandTypes as)"
| "run_InvalidOperandTypes (ArgGeo # as) d = Inl UndefinedBehaviour"

fun run_function :: "database \<Rightarrow> CpuDispatchFunction \<Rightarrow> CpuSqlDispatcher \<Rightarrow> (int \<times> CpuSqlDispatcher) result" where
  "run_function db (FilterColConst f T U) d = run_FilterColConst db f T U d"
| "run_function db (FilterConstCol f T U) d = run_FilterConstCol db f T U d"
| "run_function db (filterColCol f T U) d = run_filterColCol db f T U d"
| "run_function db (filterConstConst f T U) d = run_filterConstConst f T U d"
| "run_function db (FilterStringColConst f) d = run_FilterStringColConst db f d"
| "run_function db (FilterStringConstCol f) d = run_FilterStringConstCol db f d"
| "run_function db (FilterStringColCol f) d = run_FilterStringColCol db f d"
| "run_function db (FilterStringConstConst f) d = run_FilterStringConstConst f d"
| "run_function db (LogicalColConst f T U) d = run_LogicalColConst db f T U d"
| "run_function db (LogicalConstCol f T U) d = run_LogicalConstCol db f T U d"
| "run_function db (LogicalColCol f T U) d = run_LogicalColCol db f T U d"
| "run_function db (LogicalConstConst f T U) d = run_LogicalConstConst f T U d"
| "run_function db (LogicalNotCol T) d = run_LogicalNotCol db T d"
| "run_function db (LogicalNotConst T) d = run_LogicalNotConst T d"
| "run_function db NullCol d = run_NullCol d"
| "run_function db (ArithmeticColConst f T U) d = run_ArithmeticColConst db f T U d"
| "run_function db (arithmeticConstCol f T U) d = run_arithmeticConstCol db f T U d"
| "run_function db (arithmeticColCol f T U) d = run_arithmeticColCol db f T U d"
| "run_function db (arithmeticConstConst f T U) d = run_arithmeticConstConst f T U d"
| "run_function db (ArithmeticUnaryCol T) d = run_ArithmeticUnaryCol db T d"
| "run_function db (ArithmeticUnaryConst T) d = run_ArithmeticUnaryConst T d"
| "run_function db (WhereResultCol T) d = run_WhereResultCol T d"
| "run_function db (WhereResultConst T) d = run_WhereResultConst T d"
| "run_function db (InvalidOperandTypesErrorHandler as) d = run_InvalidOperandTypes as d"

section \<open>Function tables\<close>

fun ctype_of :: "DataType \<Rightarrow> ctype option" where
  "ctype_of CONST_INT = Some Int32T" | "ctype_of COLUMN_INT = Some Int32T"
| "ctype_of CONST_LONG = Some Int64T" | "ctype_of COLUMN_LONG = Some Int64T"
| "ctype_of CONST_FLOAT = Some FloatT" | "ctype_of COLUMN_FLOAT = Some FloatT"
| "ctype_of CONST_DOUBLE = Some DoubleT" | "ctype_of COLUMN_DOUBLE = Some DoubleT"
| "ctype_of CONST_INT8_T = Some Int8T" | "ctype_of COLUMN_INT8_T = Some Int8T"
| "ctype_of _ = None"

definition is_const :: "DataType \<Rightarrow> bool" where
  "is_const t \<longleftrightarrow> t < COLUMN_INT"

definition is_string :: "DataType \<Rightarrow> bool" where
  "is_string t \<longleftrightarrow> t = CONST_STRING \<or> t = COLUMN_STRING"

definition arg_kind_of :: "DataType \<Rightarrow> arg_kind" where
  "arg_kind_of t =
    (if \<not> is_const t \<or> t = CONST_STRING then ArgString
     else case ctype_of t of Some T \<Rightarrow> ArgNum T | None \<Rightarrow> ArgGeo)"

definition invalid_operands :: "DataType \<Rightarrow> DataType \<Rightarrow> CpuDispatchFunction" where
  "invalid_operands l r = InvalidOperandTypesErrorHandler [arg_kind_of l, arg_kind_of r]"

text \<open>The common shape of the tables: by constant or column, then by type.\<close>

definition by_sides :: "DataType \<Rightarrow> DataType \<Rightarrow> 'f \<Rightarrow> 'f \<Rightarrow> 'f \<Rightarrow> 'f \<Rightarrow> 'f" where
  "by_sides l r constConst constCol colConst colCol =
    (if is_const l then (if is_const r then constConst else constCol)
     else (if is_const r then colConst else colCol))"

definition comparison_table :: "FilterConditions \<Rightarrow> DataType \<Rightarrow> DataType \<Rightarrow> CpuDispatchFunction" where
  "comparison_table f l r =
    (case (ctype_of l, ctype_of r) of
       (Some T, Some U) \<Rightarrow>
         by_sides l r (filterConstConst f T U) (FilterConstCol f T U) (FilterColConst f T U) (filterColCol f T U)
     | _ \<Rightarrow>
         if is_string l \<and> is_string r then
           by_sides l r (FilterStringConstConst f) (FilterStringConstCol f) (FilterStringColConst f)
             (FilterStringColCol f)
         else invalid_operands l r)"

definition logical_table :: "FilterConditions \<Rightarrow> DataType \<Rightarrow> DataType \<Rightarrow> CpuDispatchFunction" where
  "logical_table f l r =
    (case (ctype_of l, ctype_of r) of
       (Some T, Some U) \<Rightarrow>
         by_sides l r (LogicalConstConst f T U) (LogicalConstCol f T U) (LogicalColConst f T U) (LogicalColCol f T U)
     | _ \<Rightarrow> invalid_operands l r)"

definition arithmetic_table ::
  "(ctype \<Rightarrow> bool) \<Rightarrow> ArithmeticOperations \<Rightarrow> DataType \<Rightarrow> DataType \<Rightarrow> CpuDispatchFunction" where
  "arithmetic_table ok f l r =
    (case (ctype_of l, ctype_of r) of
       (Some T, Some U) \<Rightarrow>
         if ok T \<and> ok U then
           by_sides l r (arithmeticConstConst f T U) (arithmeticConstCol f T U) (ArithmeticColConst f T U)
             (arithmeticColCol f T U)
         else invalid_operands l r
     | _ \<Rightarrow> invalid_operands l r)"

definition no_bool :: "ctype \<Rightarrow> bool" where
  "no_bool T \<longleftrightarrow> T \<noteq> Int8T"

definition integer_only :: "ctype \<Rightarrow> bool" where
  "integer_only T \<longleftrightarrow> T = Int32T \<or> T = Int64T"

definition greaterFunctions where "greaterFunctions = comparison_table Greater"
definition lessFunctions where "lessFunctions = comparison_table Less"
definition greaterEqualFunctions where "greaterEqualFunctions = comparison_table GreaterEqual"
definition lessEqualFunctions where "lessEqualFunctions = comparison_table LessEqual"
definition equalFunctions where "equalFunctions = comparison_table Equal"
definition notEqualFunctions where "notEqualFunctions = comparison_table NotEqual"
definition logicalAndFunctions where "logicalAndFunctions = logical_table LogicalAnd"
definition logicalOrFunctions where "logicalOrFunctions = logical_table LogicalOr"
definition mulFunctions where "mulFunctions = arithmetic_table no_bool mulNoCheck"
definition divFunctions where "divFunctions = arithmetic_table no_bool divNoCheck"
definition addFunctions where "addFunctions = arithmetic_table no_bool addNoCheck"
definition subFunctions where "subFunctions = arithmetic_table no_bool subNoCheck"
definition modFunctions where "modFunctions = arithmetic_table integer_only modNoCheck"
definition bitwiseOrFunctions where "bitwiseOrFunctions = arithmetic_table integer_only bitwiseOrNoCheck"
definition bitwiseAndFunctions where "bitwiseAndFunctions = arithmetic_table integer_only bitwiseAndNoCheck"
definition bitwiseXorFunctions where "bitwiseXorFunctions = arithmetic_table integer_only bitwiseXorNoCheck"
definition bitwiseLeftShiftFunctions where
  "bitwiseLeftShiftFunctions = arithmetic_table integer_only bitwiseLeftShiftNoCheck"
definition bitwiseRightShiftFunctions where
  "bitwiseRightShiftFunctions = arithmetic_table integer_only bitwiseRightShiftNoCheck"

definition logicalNotFunctions :: "DataType \<Rightarrow> CpuDispatchFunction" where
  "logicalNotFunctions t =
    (case ctype_of t of
       Some T \<Rightarrow> if is_const t then LogicalNotConst T else LogicalNotCol T
     | None \<Rightarrow> InvalidOperandTypesErrorHandler [arg_kind_of t])"

definition minusFunctions :: "DataType \<Rightarrow> CpuDispatchFunction" where
  "minusFunctions t =
    (case ctype_of t of
       Some T \<Rightarrow>
         if T = Int8T then InvalidOperandTypesErrorHandler [arg_kind_of t]
         else if is_const t then ArithmeticUnaryConst T else ArithmeticUnaryCol T
     | None \<Rightarrow> InvalidOperandTypesErrorHandler [arg_kind_of t])"

definition whereResultFunctions :: "DataType \<Rightarrow> CpuDispatchFunction" where
  "whereResultFunctions t =
    (case ctype_of t of
       Some T \<Rightarrow> if is_const t then WhereResultConst T else WhereResultCol T
     | None \<Rightarrow> InvalidOperandTypesErrorHandler [arg_kind_of t])"

lemmas table_defs = greaterFunctions_def lessFunctions_def greaterEqualFunctions_def lessEqualFunctions_def
  equalFunctions_def notEqualFunctions_def logicalAndFunctions_def logicalOrFunctions_def
  mulFunctions_def divFunctions_def addFunctions_def subFunctions_def modFunctions_def
  bitwiseOrFunctions_def bitwiseAndFunctions_def bitwiseXorFunctions_def bitwiseLeftShiftFunctions_def
  bitwiseRightShiftFunctions_def comparison_table_def logical_table_def arithmetic_table_def

section \<open>Building and running a program\<close>

text \<open>The operator tokens of the lexer whose functions are modelled.\<close>

datatype Token =
    GREATER | LESS | GREATEREQ | LESSEQ | EQUALS | NOTEQUALS | NOTEQUALS_GT_LT | AND_T | OR_T
  | ASTERISK | DIVISION | PLUS | MINUS | MODULO | BIT_OR | BIT_AND | XOR_T | L_SHIFT | R_SHIFT
  | LOGICAL_NOT | NULL_T | NOT_T

fun binary_function :: "Token \<Rightarrow> (DataType \<Rightarrow> DataType \<Rightarrow> CpuDispatchFunction) option" where
  "binary_function GREATER = Some greaterFunctions"
| "binary_function LESS = Some lessFunctions"
| "binary_function GREATEREQ = Some greaterEqualFunctions"
| "binary_function LESSEQ = Some lessEqualFunctions"
| "binary_function EQUALS = Some equalFunctions"
| "binary_function NOTEQUALS = Some notEqualFunctions"
| "binary_function NOTEQUALS_GT_LT = Some notEqualFunctions"
| "binary_function AND_T = Some logicalAndFunctions"
| "binary_function OR_T = Some logicalOrFunctions"
| "binary_function ASTERISK = Some mulFunctions"
| "binary_function DIVISION = Some divFunctions"
| "binary_function PLUS = Some addFunctions"
| "binary_function MINUS = Some subFunctions"
| "binary_function MODULO = Some modFunctions"
| "binary_function BIT_OR = Some bitwiseOrFunctions"
| "binary_function BIT_AND = Some bitwiseAndFunctions"
| "binary_function XOR_T = Some bitwiseXorFunctions"
| "binary_function L_SHIFT = Some bitwiseLeftShiftFunctions"
| "binary_function R_SHIFT = Some bitwiseRightShiftFunctions"
| "binary_function _ = None"

definition push_function :: "CpuDispatchFunction \<Rightarrow> CpuSqlDispatcher \<Rightarrow> CpuSqlDispatcher" where
  "push_function f d = d\<lparr>d_functions := d_functions d @ [f]\<rparr>"

text \<open>\<open>table[left * DATA_TYPE_SIZE + right]\<close> is defined for the enumerators 0 to 15.\<close>

definition in_table :: "DataType \<Rightarrow> bool" where
  "in_table t \<longleftrightarrow> t \<noteq> CONST_ERROR \<and> t \<noteq> DATA_TYPE_SIZE"

definition AddBinaryOperation ::
  "DataType \<Rightarrow> DataType \<Rightarrow> Token \<Rightarrow> CpuSqlDispatcher \<Rightarrow> CpuSqlDispatcher result" where
  "AddBinaryOperation l r opType d =
    (case binary_function opType of
       None \<Rightarrow> Inr d
     | Some tbl \<Rightarrow> if in_table l \<and> in_table r then Inr (push_function (tbl l r) d) else Inl UndefinedBehaviour)"

definition AddUnaryOperation :: "DataType \<Rightarrow> Token \<Rightarrow> CpuSqlDispatcher \<Rightarrow> CpuSqlDispatcher result" where
  "AddUnaryOperation t opType d =
    (if opType = NULL_T \<or> opType = NOT_T then Inr (push_function NullCol d)
     else if opType = LOGICAL_NOT \<or> opType = MINUS then
       (if in_table t
        then Inr (push_function (if opType = MINUS then minusFunctions t else logicalNotFunctions t) d)
        else Inl UndefinedBehaviour)
     else Inr d)"

definition AddWhereResultFunction :: "DataType \<Rightarrow> CpuSqlDispatcher \<Rightarrow> CpuSqlDispatcher result" where
  "AddWhereResultFunction t d =
    (if in_table t then Inr (push_function (whereResultFunctions t) d) else Inl UndefinedBehaviour)"

definition CopyExecutionDataTo :: "CpuSqlDispatcher \<Rightarrow> CpuSqlDispatcher \<Rightarrow> CpuSqlDispatcher" where
  "CopyExecutionDataTo d other = other\<lparr>d_functions := d_functions d, d_arguments := d_arguments d\<rparr>"

text \<open>The loop: it ends with the function that returns 1; running off the program is undefined.\<close>

fun run_program :: "database \<Rightarrow> CpuDispatchFunction list \<Rightarrow> CpuSqlDispatcher \<Rightarrow> CpuSqlDispatcher result" where
  "run_program db [] d = Inl UndefinedBehaviour"
| "run_program db (f # fs) d =
    bindR (run_function db f (d\<lparr>d_instructionPointer := d_instructionPointer d + 1\<rparr>)) (\<lambda>(err, d).
      if err = 0 then run_program db fs d else Inr d)"

definition Execute :: "database \<Rightarrow> nat \<Rightarrow> CpuSqlDispatcher \<Rightarrow> (int \<times> CpuSqlDispatcher) result" where
  "Execute db index d =
    mapR (\<lambda>d. (d_whereResult d,
        d\<lparr>d_instructionPointer := 0, d_arguments := Reset (d_arguments d), d_allocatedPointers := Map.empty\<rparr>))
      (run_program db (drop (d_instructionPointer d) (d_functions d)) (d\<lparr>d_blockIndex := index\<rparr>))"

text \<open>
  \<open>GpuSqlDispatcher::WhereEvaluation\<close>: whether the block has to be loaded. The CPU evaluation is
  skipped for joins and when the configuration turns it off.
\<close>

definition WhereEvaluation ::
  "bool \<Rightarrow> bool \<Rightarrow> database \<Rightarrow> nat \<Rightarrow> CpuSqlDispatcher \<Rightarrow> (bool \<times> CpuSqlDispatcher) result" where
  "WhereEvaluation usingJoin speedup db blockIndex d =
    (if usingJoin \<or> \<not> speedup then Inr (True, d)
     else mapR (apfst (\<lambda>i. i \<noteq> 0)) (Execute db blockIndex d))"

end
