(* ===== verification/Where_Listener.thy ===== *)
theory Where_Listener
  imports Cpu_Functions
begin

text \<open>
  The listener that translates the parse tree of a WHERE clause to a program of the CPU
  dispatcher (\<open>GpuSqlParser/CpuWhereListener.cpp\<close>). The tree walker visits the operands before
  their operator; every operand leaves its text and type on the parser stack, every operator
  pushes its function, its operands and the name of its result register.

  The parse tree is the datatype \<open>expr\<close>: column references with an optional table, integer,
  string and Boolean literals, the operators of \<open>Token\<close> and \<open>BETWEEN\<close>; parentheses leave no
  node. Decimal, date and geometric literals and the other functions of the grammar are left out.
\<close>

section \<open>Parse trees and state\<close>

datatype expr =
    VarReference "string option" string
  | IntLiteral string | StringLiteral string | BooleanLiteral string
  | BinaryOperation Token expr expr
  | UnaryOperation Token expr
  | TernaryOperation expr expr expr

record CpuWhereListener =
  l_dispatcher :: CpuSqlDispatcher
  l_columnAliasContexts :: "(string \<times> expr) list"
  l_tableAliases :: "(string \<times> string) list"
  l_loadedTables :: "string list"
  l_shortColumnNames :: "(string \<times> string) list"
  l_parserStack :: "(string \<times> DataType) list"

definition CpuWhereListener_new :: "CpuSqlDispatcher \<Rightarrow> CpuWhereListener" where
  "CpuWhereListener_new d =
    \<lparr>l_dispatcher = d, l_columnAliasContexts = [], l_tableAliases = [], l_loadedTables = [],
     l_shortColumnNames = [], l_parserStack = []\<rparr>"

text \<open>\<open>unordered_map::insert\<close> keeps an element that is there.\<close>

definition insert_new :: "string \<Rightarrow> 'v \<Rightarrow> (string \<times> 'v) list \<Rightarrow> (string \<times> 'v) list" where
  "insert_new k v m = (if k \<in> fst ` set m then m else m @ [(k, v)])"

text \<open>The text of an operator after \<open>StringToUpper\<close>.\<close>

fun token_text :: "Token \<Rightarrow> string" where
  "token_text GREATER = ''>''" | "token_text LESS = ''<''" | "token_text GREATEREQ = ''>=''"
| "token_text LESSEQ = ''<=''" | "token_text EQUALS = ''=''" | "token_text NOTEQUALS = ''!=''"
| "token_text NOTEQUALS_GT_LT = ''<>''" | "token_text AND_T = ''AND''" | "token_text OR_T = ''OR''"
| "token_text ASTERISK = ''*''" | "token_text DIVISION = ''/''" | "token_text PLUS = ''+''"
| "token_text MINUS = ''-''" | "token_text MODULO = ''%''" | "token_text BIT_OR = ''|''"
| "token_text BIT_AND = ''&''" | "token_text XOR_T = ''^''" | "token_text L_SHIFT = ''<<''"
| "token_text R_SHIFT = ''>>''" | "token_text LOGICAL_NOT = ''!''" | "token_text NULL_T = ''NULL''"
| "token_text NOT_T = ''NOT''"

section \<open>Helpers\<close>

definition StringToUpper :: "string \<Rightarrow> string" where
  "StringToUpper s = map toupper s"

definition TrimDelimitedIdentifier :: "string \<Rightarrow> string" where
  "TrimDelimitedIdentifier s =
    (if front s = CHR ''['' \<and> last s = CHR '']'' \<and> length s > 2 then butlast (tl s) else s)"

definition stoi :: "string \<Rightarrow> int result" where
  "stoi s = bindR (stol s) (\<lambda>i. if in_width 32 i then Inr i else Inl OutOfRange)"

definition IsLong :: "string \<Rightarrow> bool result" where
  "IsLong s =
    (case stoi s of
       Inr _ \<Rightarrow> Inr False
     | Inl OutOfRange \<Rightarrow> mapR (\<lambda>_. True) (stoll s)
     | Inl e \<Rightarrow> Inl e)"

definition add_argument :: "operand \<Rightarrow> CpuWhereListener \<Rightarrow> CpuWhereListener" where
  "add_argument v L =
    L\<lparr>l_dispatcher := (l_dispatcher L)\<lparr>d_arguments := AddArgument v (d_arguments (l_dispatcher L))\<rparr>\<rparr>"

text \<open>
  The argument of an operand: the value of a constant, the name of anything else. Floating-point
  constants do not occur.
\<close>

definition PushArgument :: "string \<Rightarrow> DataType \<Rightarrow> CpuWhereListener \<Rightarrow> CpuWhereListener result" where
  "PushArgument token t L =
    (case t of
       CONST_INT \<Rightarrow> mapR (\<lambda>i. add_argument (OInt (word_of_int i)) L) (stoi token)
     | CONST_LONG \<Rightarrow> mapR (\<lambda>i. add_argument (OLong (word_of_int i)) L) (stoll token)
     | CONST_INT8_T \<Rightarrow> Inr (add_argument (OBool (of_bool (StringToUpper token = ''TRUE''))) L)
     | CONST_STRING \<Rightarrow>
         (if token = [] then Inl OutOfRange else Inr (add_argument (OString (take (length token - 2) (tl token))) L))
     | CONST_FLOAT \<Rightarrow> Inl UndefinedBehaviour
     | CONST_DOUBLE \<Rightarrow> Inl UndefinedBehaviour
     | DATA_TYPE_SIZE \<Rightarrow> Inr L
     | CONST_ERROR \<Rightarrow> Inr L
     | _ \<Rightarrow> Inr (add_argument (OString token) L))"

definition push_operand :: "string \<times> DataType \<Rightarrow> CpuWhereListener \<Rightarrow> CpuWhereListener" where
  "push_operand v L = L\<lparr>l_parserStack := v # l_parserStack L\<rparr>"

definition StackTopAndPop :: "CpuWhereListener \<Rightarrow> ((string \<times> DataType) \<times> CpuWhereListener) result" where
  "StackTopAndPop L =
    (case l_parserStack L of [] \<Rightarrow> Inl UndefinedBehaviour | v # vs \<Rightarrow> Inr (v, L\<lparr>l_parserStack := vs\<rparr>))"

text \<open>The text of an operand inside the name of a register: without \<open>$\<close>, columns by short name.\<close>

definition TrimReg :: "CpuWhereListener \<Rightarrow> string \<Rightarrow> string" where
  "TrimReg L reg =
    (if front reg = CHR ''$'' then tl reg
     else case map_of (l_shortColumnNames L) reg of Some s \<Rightarrow> s | None \<Rightarrow> reg)"

text \<open>\<open>static_cast<DataType>(t + COLUMN_INT)\<close> of a constant type.\<close>

definition GetReturnDataType :: "DataType \<Rightarrow> DataType" where
  "GetReturnDataType t =
    (if t < COLUMN_INT
     then (case DataType_of_value (DataType_value t + DataType_value COLUMN_INT) of Some u \<Rightarrow> u | None \<Rightarrow> t) else t)"

definition GetReturnDataType2 :: "DataType \<Rightarrow> DataType \<Rightarrow> DataType" where
  "GetReturnDataType2 l r = max (GetReturnDataType l) (GetReturnDataType r)"

section \<open>Operators\<close>

text \<open>The type of a result; \<open>None\<close> when no case of the switch assigns it.\<close>

definition binary_type :: "Token \<Rightarrow> DataType \<Rightarrow> DataType \<Rightarrow> DataType option" where
  "binary_type t l r =
    (if t \<in> {GREATER, LESS, GREATEREQ, LESSEQ, EQUALS, NOTEQUALS, NOTEQUALS_GT_LT, AND_T, OR_T}
     then Some COLUMN_INT8_T
     else if t \<in> {ASTERISK, DIVISION, PLUS, MINUS, MODULO, BIT_OR, BIT_AND, XOR_T, L_SHIFT, R_SHIFT}
     then Some (GetReturnDataType2 l r)
     else None)"

definition binary_reg :: "CpuWhereListener \<Rightarrow> Token \<Rightarrow> string \<Rightarrow> string \<Rightarrow> string" where
  "binary_reg L t left right = ''$'' @ TrimReg L left @ token_text t @ TrimReg L right"

definition with_dispatcher ::
  "(CpuSqlDispatcher \<Rightarrow> CpuSqlDispatcher result) \<Rightarrow> CpuWhereListener \<Rightarrow> CpuWhereListener result" where
  "with_dispatcher f L = mapR (\<lambda>d. L\<lparr>l_dispatcher := d\<rparr>) (f (l_dispatcher L))"

definition exitBinaryOperation :: "Token \<Rightarrow> CpuWhereListener \<Rightarrow> CpuWhereListener result" where
  "exitBinaryOperation t L =
    bindR (StackTopAndPop L) (\<lambda>((right, rightType), L).
    bindR (StackTopAndPop L) (\<lambda>((left, leftType), L).
    bindR (PushArgument left leftType L) (\<lambda>L.
    bindR (PushArgument right rightType L) (\<lambda>L.
    case binary_type t leftType rightType of
      None \<Rightarrow> Inl UndefinedBehaviour
    | Some u \<Rightarrow>
        bindR (with_dispatcher (AddBinaryOperation leftType rightType t) L) (\<lambda>L.
        let reg = binary_reg L t left right in
        bindR (PushArgument reg u L) (\<lambda>L. Inr (push_operand (reg, u) L)))))))"

definition unary_reg :: "CpuWhereListener \<Rightarrow> Token \<Rightarrow> string \<Rightarrow> string" where
  "unary_reg L t arg = ''$'' @ token_text t @ TrimReg L arg"

definition unary_type :: "Token \<Rightarrow> DataType \<Rightarrow> DataType result" where
  "unary_type t a =
    (case t of
       LOGICAL_NOT \<Rightarrow> Inr COLUMN_INT8_T
     | NULL_T \<Rightarrow> if a < COLUMN_INT then Inl NullMaskOperationInvalidOperandException else Inr COLUMN_INT8_T
     | NOT_T \<Rightarrow> if a < COLUMN_INT then Inl NullMaskOperationInvalidOperandException else Inr COLUMN_INT8_T
     | MINUS \<Rightarrow> Inr (GetReturnDataType a)
     | _ \<Rightarrow> Inl UndefinedBehaviour)"

definition exitUnaryOperation :: "Token \<Rightarrow> CpuWhereListener \<Rightarrow> CpuWhereListener result" where
  "exitUnaryOperation t L =
    bindR (StackTopAndPop L) (\<lambda>((arg, argType), L).
    bindR (PushArgument arg argType L) (\<lambda>L.
    bindR (unary_type t argType) (\<lambda>u.
    bindR (with_dispatcher (AddUnaryOperation argType t) L) (\<lambda>L.
    let reg = unary_reg L t arg in
    bindR (PushArgument reg u L) (\<lambda>L. Inr (push_operand (reg, u) L))))))"

definition exitIntLiteral :: "string \<Rightarrow> CpuWhereListener \<Rightarrow> CpuWhereListener result" where
  "exitIntLiteral token L =
    mapR (\<lambda>long. push_operand (token, if long then CONST_LONG else CONST_INT) L) (IsLong token)"

section \<open>Columns\<close>

definition db_column :: "database \<Rightarrow> string \<Rightarrow> string \<Rightarrow> icolumn option" where
  "db_column db table column = (case map_of db table of None \<Rightarrow> None | Some t \<Rightarrow> find_column column t)"

definition GenerateAndValidateColumnName ::
  "database \<Rightarrow> string option \<Rightarrow> string \<Rightarrow> CpuWhereListener \<Rightarrow> ((string \<times> DataType) \<times> CpuWhereListener) result" where
  "GenerateAndValidateColumnName db tableId columnId L =
    (let column = TrimDelimitedIdentifier columnId;
         named = (\<lambda>table short. case db_column db table column of
             None \<Rightarrow> Inl ColumnNotFoundException
           | Some c \<Rightarrow> Inr ((table @ ''.'' @ column, GetColumnType c),
               L\<lparr>l_shortColumnNames := insert_new (table @ ''.'' @ column) short (l_shortColumnNames L)\<rparr>))
     in case tableId of
       Some tid \<Rightarrow>
         (let given = TrimDelimitedIdentifier tid;
              table = (case map_of (l_tableAliases L) given of Some t \<Rightarrow> t | None \<Rightarrow> given)
          in if table \<notin> set (l_loadedTables L) then Inl TableNotFoundFromException
             else if map_of db table = None then Inl OutOfRange
             else named table (table @ ''.'' @ column))
     | None \<Rightarrow>
         if \<not> list_all (\<lambda>t. map_of db t \<noteq> None) (l_loadedTables L) then Inl OutOfRange
         else (case filter (\<lambda>t. db_column db t column \<noteq> None) (l_loadedTables L) of
             [] \<Rightarrow> Inl ColumnNotFoundException
           | [table] \<Rightarrow> named table column
           | _ \<Rightarrow> Inl ColumnAmbiguityException))"

definition push_column ::
  "database \<Rightarrow> string option \<Rightarrow> string \<Rightarrow> CpuWhereListener \<Rightarrow> CpuWhereListener result" where
  "push_column db tableId columnId L =
    mapR (\<lambda>(v, L). push_operand v L) (GenerateAndValidateColumnName db tableId columnId L)"

text \<open>
  The walk over a tree, with the action for a column reference as an argument: inside an alias
  a reference is a column, outside it may be an alias, whose expression is walked in its place.
\<close>

fun walk ::
  "(string option \<Rightarrow> string \<Rightarrow> CpuWhereListener \<Rightarrow> CpuWhereListener result) \<Rightarrow> expr
    \<Rightarrow> CpuWhereListener \<Rightarrow> CpuWhereListener result" where
  "walk var (VarReference t c) L = var t c L"
| "walk var (IntLiteral s) L = exitIntLiteral s L"
| "walk var (StringLiteral s) L = Inr (push_operand (s, CONST_STRING) L)"
| "walk var (BooleanLiteral s) L = Inr (push_operand (s, CONST_INT8_T) L)"
| "walk var (BinaryOperation t a b) L =
    bindR (walk var a L) (\<lambda>L. bindR (walk var b L) (exitBinaryOperation t))"
| "walk var (UnaryOperation t a) L = bindR (walk var a L) (exitUnaryOperation t)"
| "walk var (TernaryOperation a b c) L = bindR (walk var a L) (\<lambda>L. bindR (walk var b L) (walk var c))"

definition exitVarReference ::
  "database \<Rightarrow> string option \<Rightarrow> string \<Rightarrow> CpuWhereListener \<Rightarrow> CpuWhereListener result" where
  "exitVarReference db tableId columnId L =
    (let text = (case tableId of None \<Rightarrow> columnId | Some t \<Rightarrow> t @ ''.'' @ columnId) in
     case map_of (l_columnAliasContexts L) (TrimDelimitedIdentifier text) of
       Some e \<Rightarrow> walk (push_column db) e L
     | None \<Rightarrow> push_column db tableId columnId L)"

section \<open>Clauses\<close>

definition exitWhereClause :: "CpuWhereListener \<Rightarrow> CpuWhereListener result" where
  "exitWhereClause L =
    bindR (StackTopAndPop L) (\<lambda>((arg, t), L).
    with_dispatcher (AddWhereResultFunction t) (add_argument (OString arg) L))"

definition load_table ::
  "database \<Rightarrow> string \<times> string option \<Rightarrow> CpuWhereListener \<Rightarrow> CpuWhereListener result" where
  "load_table db ta L =
    (let table = TrimDelimitedIdentifier (fst ta) in
     if map_of db table = None then Inl TableNotFoundFromException
     else let L' = L\<lparr>l_loadedTables := List.insert table (l_loadedTables L)\<rparr> in
       case snd ta of
         None \<Rightarrow> Inr L'
       | Some a \<Rightarrow>
           (let alias = TrimDelimitedIdentifier a in
            if alias \<in> fst ` set (l_tableAliases L') then Inl AliasRedefinitionException
            else Inr (L'\<lparr>l_tableAliases := l_tableAliases L' @ [(alias, table)]\<rparr>)))"

definition exitFromTables ::
  "database \<Rightarrow> (string \<times> string option) list \<Rightarrow> CpuWhereListener \<Rightarrow> CpuWhereListener result" where
  "exitFromTables db tables L = foldR (load_table db) tables L"

definition exitJoinClause ::
  "database \<Rightarrow> string \<times> string option \<Rightarrow> CpuWhereListener \<Rightarrow> CpuWhereListener result" where
  "exitJoinClause db joinTable L = load_table db joinTable L"

definition extract_alias ::
  "string \<times> expr \<Rightarrow> CpuWhereListener \<Rightarrow> CpuWhereListener result" where
  "extract_alias ae L =
    (let alias = TrimDelimitedIdentifier (fst ae) in
     if alias \<in> fst ` set (l_columnAliasContexts L) then Inl AliasRedefinitionException
     else Inr (L\<lparr>l_columnAliasContexts := l_columnAliasContexts L @ [(alias, snd ae)]\<rparr>))"

definition ExtractColumnAliasContexts ::
  "(string \<times> expr) list \<Rightarrow> CpuWhereListener \<Rightarrow> CpuWhereListener result" where
  "ExtractColumnAliasContexts columns L = foldR extract_alias columns L"

text \<open>The CPU part of \<open>GpuSqlCustomParser::WalkSqlSelect\<close>, for a query with a WHERE clause.\<close>

definition WalkSqlSelect ::
  "database \<Rightarrow> (string \<times> string option) list \<Rightarrow> (string \<times> expr) list \<Rightarrow> (string \<times> string option) list
    \<Rightarrow> expr \<Rightarrow> CpuWhereListener \<Rightarrow> CpuWhereListener result" where
  "WalkSqlSelect db tables aliases joins whereClause L =
    bindR (exitFromTables db tables L) (\<lambda>L.
    bindR (ExtractColumnAliasContexts aliases L) (\<lambda>L.
    bindR (foldR (exitJoinClause db) joins L) (\<lambda>L.
    bindR (walk (exitVarReference db) whereClause L) exitWhereClause)))"

end
