(* ===== verification/Where_Program.thy ===== *)
theory Where_Program
  imports Where_Listener
begin

text \<open>
  The program the listener builds for a WHERE clause over one table, as a function of the clause.
  \<open>typed\<close> is the type system of the clauses considered: comparisons, \<open>AND\<close>, \<open>OR\<close>, \<open>!\<close> and null
  tests over the columns of a table and integer, string and Boolean literals.
\<close>

section \<open>Types of clauses\<close>

type_synonym columns = "string \<Rightarrow> icolumn option"

fun etype :: "columns \<Rightarrow> expr \<Rightarrow> DataType" where
  "etype cs (VarReference t c) = (case cs c of Some ic \<Rightarrow> GetColumnType ic | None \<Rightarrow> CONST_ERROR)"
| "etype cs (IntLiteral s) = (if IsLong s = Inr True then CONST_LONG else CONST_INT)"
| "etype cs (StringLiteral s) = CONST_STRING"
| "etype cs (BooleanLiteral s) = CONST_INT8_T"
| "etype cs (BinaryOperation t a b) = COLUMN_INT8_T"
| "etype cs (UnaryOperation t a) = COLUMN_INT8_T"
| "etype cs (TernaryOperation a b c) = CONST_ERROR"

definition numeric :: "DataType \<Rightarrow> bool" where
  "numeric t \<longleftrightarrow> ctype_of t \<noteq> None"

definition floating :: "DataType \<Rightarrow> bool" where
  "floating t \<longleftrightarrow> t = COLUMN_FLOAT \<or> t = COLUMN_DOUBLE"

text \<open>
  Operands that can be compared. A floating-point column to the right of a constant is left
  out: its bounds are converted to the type of the constant, which is undefined for large values.
\<close>

definition comparable :: "DataType \<Rightarrow> DataType \<Rightarrow> bool" where
  "comparable l r \<longleftrightarrow>
    numeric l \<and> numeric r \<and> \<not> (is_const l \<and> floating r) \<or> is_string l \<and> is_string r"

definition comparison :: "Token \<Rightarrow> bool" where
  "comparison t \<longleftrightarrow> t \<in> {GREATER, LESS, GREATEREQ, LESSEQ, EQUALS, NOTEQUALS, NOTEQUALS_GT_LT}"

definition connective :: "Token \<Rightarrow> bool" where
  "connective t \<longleftrightarrow> t = AND_T \<or> t = OR_T"

definition null_test :: "Token \<Rightarrow> bool" where
  "null_test t \<longleftrightarrow> t = NULL_T \<or> t = NOT_T"

definition plain_text :: "string \<Rightarrow> bool" where
  "plain_text s \<longleftrightarrow> s \<noteq> [] \<and> CHR ''.'' \<notin> set s \<and> front s \<noteq> CHR ''$''"

fun typed :: "columns \<Rightarrow> expr \<Rightarrow> bool" where
  "typed cs (VarReference t c) \<longleftrightarrow> t = None \<and> cs c \<noteq> None \<and> TrimDelimitedIdentifier c = c"
| "typed cs (IntLiteral s) \<longleftrightarrow> plain_text s \<and> (IsLong s = Inr True \<or> IsLong s = Inr False)"
| "typed cs (StringLiteral s) \<longleftrightarrow> front s = CHR 0x22"
| "typed cs (BooleanLiteral s) \<longleftrightarrow> plain_text s"
| "typed cs (BinaryOperation t a b) \<longleftrightarrow> typed cs a \<and> typed cs b \<and>
    (connective t \<and> numeric (etype cs a) \<and> numeric (etype cs b)
     \<or> comparison t \<and> comparable (etype cs a) (etype cs b))"
| "typed cs (UnaryOperation t a) \<longleftrightarrow> typed cs a \<and>
    (t = LOGICAL_NOT \<and> numeric (etype cs a) \<or> null_test t \<and> \<not> is_const (etype cs a))"
| "typed cs (TernaryOperation a b c) \<longleftrightarrow> False"

text \<open>Operators leave their result in a register, named after the text of the expression.\<close>

fun operator :: "expr \<Rightarrow> bool" where
  "operator (BinaryOperation t a b) = True" | "operator (UnaryOperation t a) = True" | "operator e = False"

fun expr_text :: "expr \<Rightarrow> string" where
  "expr_text (VarReference t c) = c" | "expr_text (IntLiteral s) = s" | "expr_text (StringLiteral s) = s"
| "expr_text (BooleanLiteral s) = s"
| "expr_text (BinaryOperation t a b) = expr_text a @ token_text t @ expr_text b"
| "expr_text (UnaryOperation t a) = token_text t @ expr_text a"
| "expr_text (TernaryOperation a b c) = []"

definition column_name :: "string \<Rightarrow> string \<Rightarrow> string" where
  "column_name tn c = tn @ ''.'' @ c"

definition reg_name :: "expr \<Rightarrow> string" where
  "reg_name e = ''$'' @ expr_text e"

fun operand_text :: "string \<Rightarrow> expr \<Rightarrow> string" where
  "operand_text tn (VarReference t c) = column_name tn c"
| "operand_text tn (IntLiteral s) = s" | "operand_text tn (StringLiteral s) = s"
| "operand_text tn (BooleanLiteral s) = s"
| "operand_text tn e = reg_name e"

section \<open>The program of a clause\<close>

definition int_of_text :: "string \<Rightarrow> int" where
  "int_of_text s = (case stoll s of Inr i \<Rightarrow> i | Inl _ \<Rightarrow> 0)"

fun operand_arg :: "string \<Rightarrow> expr \<Rightarrow> operand" where
  "operand_arg tn (IntLiteral s) =
    (if IsLong s = Inr True then OLong (word_of_int (int_of_text s)) else OInt (word_of_int (int_of_text s)))"
| "operand_arg tn (StringLiteral s) = OString (take (length s - 2) (tl s))"
| "operand_arg tn (BooleanLiteral s) = OBool (of_bool (StringToUpper s = ''TRUE''))"
| "operand_arg tn e = OString (operand_text tn e)"

definition binary_code :: "Token \<Rightarrow> DataType \<Rightarrow> DataType \<Rightarrow> CpuDispatchFunction" where
  "binary_code t l r = (case binary_function t of Some tbl \<Rightarrow> tbl l r | None \<Rightarrow> NullCol)"

definition unary_code :: "Token \<Rightarrow> DataType \<Rightarrow> CpuDispatchFunction" where
  "unary_code t a = (if t = LOGICAL_NOT then logicalNotFunctions a else NullCol)"

fun code :: "columns \<Rightarrow> expr \<Rightarrow> CpuDispatchFunction list" where
  "code cs (BinaryOperation t a b) = code cs a @ code cs b @ [binary_code t (etype cs a) (etype cs b)]"
| "code cs (UnaryOperation t a) = code cs a @ [unary_code t (etype cs a)]"
| "code cs e = []"

fun args :: "string \<Rightarrow> expr \<Rightarrow> operand list" where
  "args tn (BinaryOperation t a b) =
    args tn a @ args tn b @ [operand_arg tn a, operand_arg tn b, OString (reg_name (BinaryOperation t a b))]"
| "args tn (UnaryOperation t a) = args tn a @ [operand_arg tn a, OString (reg_name (UnaryOperation t a))]"
| "args tn e = []"

section \<open>The listener builds the program\<close>

definition table_name :: "string \<Rightarrow> bool" where
  "table_name tn \<longleftrightarrow> tn \<noteq> [] \<and> CHR ''.'' \<notin> set tn \<and> front tn \<notin> {CHR ''$'', CHR ''['', CHR 0x22}"

text \<open>The listener inside a query over the one table \<open>tn\<close>, without aliases.\<close>

definition in_table_context :: "string \<Rightarrow> CpuWhereListener \<Rightarrow> bool" where
  "in_table_context tn L \<longleftrightarrow>
    l_columnAliasContexts L = [] \<and> l_tableAliases L = [] \<and> l_loadedTables L = [tn] \<and>
    (\<forall>k v. map_of (l_shortColumnNames L) k = Some v \<longrightarrow> k = column_name tn v)"

text \<open>What walking an expression adds to the listener.\<close>

definition emit ::
  "CpuDispatchFunction list \<Rightarrow> operand list \<Rightarrow> (string \<times> DataType) list \<Rightarrow> (string \<times> string) list
    \<Rightarrow> CpuWhereListener \<Rightarrow> CpuWhereListener" where
  "emit fs vs st short L =
    L\<lparr>l_dispatcher := (l_dispatcher L)\<lparr>d_functions := d_functions (l_dispatcher L) @ fs,
         d_arguments := fold AddArgument vs (d_arguments (l_dispatcher L))\<rparr>,
      l_parserStack := st @ l_parserStack L, l_shortColumnNames := short\<rparr>"

lemma emit_sel [simp]:
  "l_parserStack (emit fs vs st short L) = st @ l_parserStack L"
  "l_shortColumnNames (emit fs vs st short L) = short"
  "d_functions (l_dispatcher (emit fs vs st short L)) = d_functions (l_dispatcher L) @ fs"
  "d_arguments (l_dispatcher (emit fs vs st short L)) = fold AddArgument vs (d_arguments (l_dispatcher L))"
  by (simp_all add: emit_def)

lemma emit_emit [simp]:
  "emit fs vs st short (emit gs us qs short' L) = emit (gs @ fs) (us @ vs) (st @ qs) short L"
  by (simp add: emit_def)

lemma add_argument_emit: "add_argument v L = emit [] [v] [] (l_shortColumnNames L) L"
  by (simp add: add_argument_def emit_def)

lemma push_operand_emit: "push_operand v L = emit [] [] [v] (l_shortColumnNames L) L"
  by (simp add: push_operand_def emit_def)

lemma push_function_emit:
  "L\<lparr>l_dispatcher := push_function f (l_dispatcher L)\<rparr> = emit [f] [] [] (l_shortColumnNames L) L"
  by (simp add: push_function_def emit_def)

lemma context_emit:
  assumes "in_table_context tn L"
    and "\<And>k v. map_of short k = Some v \<Longrightarrow> k = column_name tn v"
  shows "in_table_context tn (emit fs vs st short L)"
  using assms by (simp add: in_table_context_def emit_def)

lemma pop_emit: "StackTopAndPop (emit fs vs (v # st) short L) = Inr (v, emit fs vs st short L)"
  by (simp add: StackTopAndPop_def emit_def)

lemma front_append [simp]: "s \<noteq> [] \<Longrightarrow> front (s @ t) = front s"
  by (cases s) (simp_all add: front_def)

lemma front_reg_name [simp]: "front (reg_name e) = CHR ''$''"
  by (simp add: reg_name_def front_def)

lemma front_column_name [simp]: "table_name tn \<Longrightarrow> front (column_name tn c) = front tn"
  by (simp add: column_name_def table_name_def)

lemma Trim_table: "table_name tn \<Longrightarrow> TrimDelimitedIdentifier tn = tn"
  by (simp add: table_name_def TrimDelimitedIdentifier_def)

text \<open>Inside the name of a register an operand shows as its text.\<close>

lemma TrimReg_operand:
  assumes "in_table_context tn L" and "table_name tn" and "typed cs e"
    and "\<And>t c. e = VarReference t c \<Longrightarrow> map_of (l_shortColumnNames L) (column_name tn c) = Some c"
  shows "TrimReg L (operand_text tn e) = expr_text e"
proof -
  have plain: "map_of (l_shortColumnNames L) s = None" if "CHR ''.'' \<notin> set s \<or> front s = CHR 0x22" for s
  proof (cases "map_of (l_shortColumnNames L) s")
    case (Some v)
    with assms(1) have "s = column_name tn v" by (simp add: in_table_context_def)
    with that assms(2) show ?thesis by (auto simp: table_name_def column_name_def)
  qed simp
  show ?thesis
  proof (cases e)
    case (VarReference t c)
    with assms(2) assms(4) [OF VarReference] show ?thesis by (auto simp: TrimReg_def table_name_def)
  next
    case (IntLiteral s)
    with assms(3) plain [of s] show ?thesis by (auto simp: TrimReg_def plain_text_def)
  next
    case (StringLiteral s)
    with assms(3) plain [of s] show ?thesis by (auto simp: TrimReg_def)
  next
    case (BooleanLiteral s)
    with assms(3) plain [of s] show ?thesis by (auto simp: TrimReg_def plain_text_def)
  qed (use assms(3) in \<open>simp_all add: TrimReg_def reg_name_def front_def\<close>)
qed

text \<open>The argument of an operand.\<close>

lemma stoi_stoll: "stoi s = Inr i \<Longrightarrow> stoll s = Inr i"
  by (auto simp: stoi_def stol_def split: if_splits)

lemma IsLong_False: "IsLong s = Inr False \<Longrightarrow> stoi s = Inr (int_of_text s)"
proof (cases "stoi s")
  case (Inr i)
  then show ?thesis by (simp add: int_of_text_def stoi_stoll)
qed (auto simp: IsLong_def split: err.splits)

lemma IsLong_True: "IsLong s = Inr True \<Longrightarrow> stoll s = Inr (int_of_text s)"
  by (cases "stoi s") (auto simp: IsLong_def int_of_text_def split: err.splits)

lemma PushArgument_operand:
  assumes "typed cs e"
  shows "PushArgument (operand_text tn e) (etype cs e) L = Inr (emit [] [operand_arg tn e] [] (l_shortColumnNames L) L)"
proof (cases e)
  case (VarReference t c)
  then show ?thesis using assms
    by (auto simp: PushArgument_def GetColumnType_def add_argument_emit split: icolumn.splits)
next
  case (IntLiteral s)
  then show ?thesis using assms
    by (auto simp: PushArgument_def IsLong_False IsLong_True add_argument_emit)
next
  case (StringLiteral s)
  then have "s \<noteq> []" using assms by (auto simp: front_def)
  with StringLiteral show ?thesis by (simp add: PushArgument_def add_argument_emit)
qed (use assms in \<open>simp_all add: PushArgument_def add_argument_emit\<close>)

lemma PushArgument_mask:
  "PushArgument s COLUMN_INT8_T L = Inr (emit [] [OString s] [] (l_shortColumnNames L) L)"
  by (simp add: PushArgument_def add_argument_emit)

lemma in_table_typed: "typed cs e \<Longrightarrow> in_table (etype cs e)"
  by (cases e) (auto simp: in_table_def GetColumnType_def split: icolumn.splits)

lemma exitBinary_code:
  assumes "in_table_context tn L" and "table_name tn" and "typed cs (BinaryOperation t a b)"
    and "L = emit fs vs [(operand_text tn b, etype cs b), (operand_text tn a, etype cs a)] short M"
    and "TrimReg L (operand_text tn a) = expr_text a" and "TrimReg L (operand_text tn b) = expr_text b"
  shows "exitBinaryOperation t L =
    Inr (emit (fs @ [binary_code t (etype cs a) (etype cs b)])
      (vs @ [operand_arg tn a, operand_arg tn b, OString (reg_name (BinaryOperation t a b))])
      [(reg_name (BinaryOperation t a b), COLUMN_INT8_T)] short M)"
proof -
  have ab: "typed cs a" "typed cs b" using assms(3) by simp_all
  have ty: "binary_type t l r = Some COLUMN_INT8_T" for l r
    using assms(3) by (auto simp: binary_type_def connective_def comparison_def)
  have fn: "\<exists>tbl. binary_function t = Some tbl"
    using assms(3) by (auto simp: connective_def comparison_def)
  have trim: "TrimReg (emit gs us st short M) = TrimReg L" for gs us st
    by (simp add: assms(4) TrimReg_def fun_eq_iff)
  have reg: "binary_reg (emit gs us st short M) t (operand_text tn a) (operand_text tn b) =
      reg_name (BinaryOperation t a b)" for gs us st
    by (simp add: binary_reg_def trim assms(5,6) reg_name_def)
  have add: "with_dispatcher (AddBinaryOperation (etype cs a) (etype cs b) t) N =
      Inr (emit [binary_code t (etype cs a) (etype cs b)] [] [] (l_shortColumnNames N) N)" for N
    using fn in_table_typed [OF ab(1)] in_table_typed [OF ab(2)]
    by (auto simp: with_dispatcher_def AddBinaryOperation_def push_function_emit binary_code_def)
  show ?thesis
    unfolding exitBinaryOperation_def assms(4) pop_emit bindR.simps prod.case
      PushArgument_operand [OF ab(1)] PushArgument_operand [OF ab(2)] ty option.case add Let_def
      emit_emit emit_sel reg PushArgument_mask push_operand_emit
    by simp
qed

lemma exitUnary_code:
  assumes "in_table_context tn L" and "table_name tn" and "typed cs (UnaryOperation t a)"
    and "L = emit fs vs [(operand_text tn a, etype cs a)] short M"
    and "TrimReg L (operand_text tn a) = expr_text a"
  shows "exitUnaryOperation t L =
    Inr (emit (fs @ [unary_code t (etype cs a)])
      (vs @ [operand_arg tn a, OString (reg_name (UnaryOperation t a))])
      [(reg_name (UnaryOperation t a), COLUMN_INT8_T)] short M)"
proof -
  have a: "typed cs a" using assms(3) by simp
  have ty: "unary_type t (etype cs a) = Inr COLUMN_INT8_T"
    using assms(3) by (auto simp: unary_type_def null_test_def is_const_def)
  have trim: "TrimReg (emit gs us st short M) = TrimReg L" for gs us st
    by (simp add: assms(4) TrimReg_def fun_eq_iff)
  have reg: "unary_reg (emit gs us st short M) t (operand_text tn a) = reg_name (UnaryOperation t a)" for gs us st
    by (simp add: unary_reg_def trim assms(5) reg_name_def)
  have add: "with_dispatcher (AddUnaryOperation (etype cs a) t) N =
      Inr (emit [unary_code t (etype cs a)] [] [] (l_shortColumnNames N) N)" for N
    using assms(3) in_table_typed [OF a]
    by (auto simp: with_dispatcher_def AddUnaryOperation_def push_function_emit unary_code_def null_test_def)
  show ?thesis
    unfolding exitUnaryOperation_def assms(4) pop_emit bindR.simps prod.case
      PushArgument_operand [OF a] ty add Let_def emit_emit emit_sel reg PushArgument_mask push_operand_emit
    by simp
qed

text \<open>A column reference resolves to the column of the table.\<close>

lemma column_ref:
  assumes "in_table_context tn L" and "map_of db tn = Some tab"
    and "find_column c tab = Some ic" and "TrimDelimitedIdentifier c = c"
  shows "\<exists>short. exitVarReference db None c L = Inr (emit [] [] [(column_name tn c, GetColumnType ic)] short L)
    \<and> map_of (l_shortColumnNames L) \<subseteq>\<^sub>m map_of short \<and> map_of short (column_name tn c) = Some c
    \<and> (\<forall>k v. map_of short k = Some v \<longrightarrow> k = column_name tn v)"
proof -
  let ?k = "column_name tn c" and ?old = "l_shortColumnNames L"
  let ?short = "insert_new ?k c ?old"
  have old: "k = column_name tn v" if "map_of ?old k = Some v" for k v
    using assms(1) that by (simp add: in_table_context_def)
  have new: "map_of ?short = (if ?k \<in> fst ` set ?old then map_of ?old else (map_of ?old)(?k \<mapsto> c))"
  proof (cases "?k \<in> fst ` set ?old")
    case False
    then have "map_of ?old ?k = None" by (simp add: map_of_eq_None_iff)
    with False show ?thesis by (auto simp: insert_new_def map_add_def fun_eq_iff split: option.splits)
  qed (simp add: insert_new_def)
  have "map_of ?short ?k = Some c"
  proof (cases "?k \<in> fst ` set ?old")
    case True
    then obtain v where v: "map_of ?old ?k = Some v" by (metis map_of_eq_None_iff not_None_eq)
    with old [OF v] new True show ?thesis by (simp add: column_name_def)
  qed (simp add: new)
  moreover have "map_of ?old \<subseteq>\<^sub>m map_of ?short"
    by (auto simp: new map_le_def) (metis domI domIff map_of_eq_None_iff)
  moreover have "\<forall>k v. map_of ?short k = Some v \<longrightarrow> k = column_name tn v"
    using old by (auto simp: new)
  moreover have "exitVarReference db None c L = Inr (emit [] [] [(?k, GetColumnType ic)] ?short L)"
    using assms by (simp add: exitVarReference_def push_column_def GenerateAndValidateColumnName_def
        in_table_context_def db_column_def push_operand_emit emit_def column_name_def Let_def)
  ultimately show ?thesis by blast
qed

lemma walk_code:
  assumes "table_name tn" and "map_of db tn = Some tab" and "in_table_context tn L"
    and "typed (\<lambda>c. find_column c tab) e"
  shows "\<exists>short. walk (exitVarReference db) e L =
      Inr (emit (code (\<lambda>c. find_column c tab) e) (args tn e) [(operand_text tn e, etype (\<lambda>c. find_column c tab) e)] short L)
    \<and> map_of (l_shortColumnNames L) \<subseteq>\<^sub>m map_of short
    \<and> (\<forall>k v. map_of short k = Some v \<longrightarrow> k = column_name tn v)
    \<and> (\<forall>t c. e = VarReference t c \<longrightarrow> map_of short (column_name tn c) = Some c)"
  using assms(3,4)
proof (induction e arbitrary: L)
  case (VarReference t c)
  then obtain ic where "find_column c tab = Some ic" by auto
  with column_ref [OF VarReference.prems(1) assms(2), of c] VarReference.prems(2) show ?case by auto
next
  case (IntLiteral s)
  then show ?case
    by (intro exI [of _ "l_shortColumnNames L"])
      (auto simp: exitIntLiteral_def push_operand_emit in_table_context_def)
next
  case (BinaryOperation t a b)
  let ?cs = "\<lambda>c. find_column c tab"
  have ty: "typed ?cs a" "typed ?cs b" using BinaryOperation.prems(2) by simp_all
  from BinaryOperation.IH(1) [OF BinaryOperation.prems(1) ty(1)] obtain s1 where
    s1: "walk (exitVarReference db) a L = Inr (emit (code ?cs a) (args tn a) [(operand_text tn a, etype ?cs a)] s1 L)"
      "map_of (l_shortColumnNames L) \<subseteq>\<^sub>m map_of s1" "\<forall>k v. map_of s1 k = Some v \<longrightarrow> k = column_name tn v"
      "\<forall>t c. a = VarReference t c \<longrightarrow> map_of s1 (column_name tn c) = Some c" by blast
  let ?L1 = "emit (code ?cs a) (args tn a) [(operand_text tn a, etype ?cs a)] s1 L"
  have c1: "in_table_context tn ?L1" using context_emit [OF BinaryOperation.prems(1)] s1(3) by blast
  from BinaryOperation.IH(2) [OF c1 ty(2)] obtain s2 where
    s2: "walk (exitVarReference db) b ?L1 = Inr (emit (code ?cs b) (args tn b) [(operand_text tn b, etype ?cs b)] s2 ?L1)"
      "map_of s1 \<subseteq>\<^sub>m map_of s2" "\<forall>k v. map_of s2 k = Some v \<longrightarrow> k = column_name tn v"
      "\<forall>t c. b = VarReference t c \<longrightarrow> map_of s2 (column_name tn c) = Some c" by auto
  let ?L2 = "emit (code ?cs b) (args tn b) [(operand_text tn b, etype ?cs b)] s2 ?L1"
  have c2: "in_table_context tn ?L2" using context_emit [OF c1] s2(3) by blast
  have "map_of s2 (column_name tn c) = Some c" if "a = VarReference u c" for u c
    using s1(4) s2(2) that by (metis domI map_le_def)
  then have ta: "TrimReg ?L2 (operand_text tn a) = expr_text a"
    by (intro TrimReg_operand [OF c2 assms(1) ty(1)]) simp
  have tb: "TrimReg ?L2 (operand_text tn b) = expr_text b"
    using s2(4) by (intro TrimReg_operand [OF c2 assms(1) ty(2)]) simp
  have run: "exitBinaryOperation t ?L2 = Inr (emit (code ?cs (BinaryOperation t a b)) (args tn (BinaryOperation t a b))
      [(reg_name (BinaryOperation t a b), COLUMN_INT8_T)] s2 L)"
    using exitBinary_code [OF c2 assms(1) BinaryOperation.prems(2) _ ta tb,
        of "code ?cs a @ code ?cs b" "args tn a @ args tn b" s2 L] by simp
  from s1(2) s2(2) have "map_of (l_shortColumnNames L) \<subseteq>\<^sub>m map_of s2" by (rule map_le_trans)
  with run s1(1) s2(1,3) show ?case by (intro exI [of _ s2]) (simp del: emit_emit)
next
  case (UnaryOperation t a)
  let ?cs = "\<lambda>c. find_column c tab"
  have ty: "typed ?cs a" using UnaryOperation.prems(2) by simp
  from UnaryOperation.IH [OF UnaryOperation.prems(1) ty] obtain s1 where
    s1: "walk (exitVarReference db) a L = Inr (emit (code ?cs a) (args tn a) [(operand_text tn a, etype ?cs a)] s1 L)"
      "map_of (l_shortColumnNames L) \<subseteq>\<^sub>m map_of s1" "\<forall>k v. map_of s1 k = Some v \<longrightarrow> k = column_name tn v"
      "\<forall>t c. a = VarReference t c \<longrightarrow> map_of s1 (column_name tn c) = Some c" by blast
  let ?L1 = "emit (code ?cs a) (args tn a) [(operand_text tn a, etype ?cs a)] s1 L"
  have c1: "in_table_context tn ?L1" using context_emit [OF UnaryOperation.prems(1)] s1(3) by blast
  have ta: "TrimReg ?L1 (operand_text tn a) = expr_text a"
    using s1(4) by (intro TrimReg_operand [OF c1 assms(1) ty]) simp
  have run: "exitUnaryOperation t ?L1 = Inr (emit (code ?cs (UnaryOperation t a)) (args tn (UnaryOperation t a))
      [(reg_name (UnaryOperation t a), COLUMN_INT8_T)] s1 L)"
    using exitUnary_code [OF c1 assms(1) UnaryOperation.prems(2) _ ta, of "code ?cs a" "args tn a" s1 L] by simp
  with s1(1-3) show ?case by (intro exI [of _ s1]) simp
qed (auto simp: push_operand_emit in_table_context_def intro!: exI [of _ "l_shortColumnNames L" for L])

text \<open>The program of a whole query with the clause \<open>e\<close>, and a dispatcher that is ready to run it.\<close>

definition where_program :: "columns \<Rightarrow> expr \<Rightarrow> CpuDispatchFunction list" where
  "where_program cs e = code cs e @ [whereResultFunctions (etype cs e)]"

definition where_args :: "string \<Rightarrow> expr \<Rightarrow> operand list" where
  "where_args tn e = args tn e @ [OString (operand_text tn e)]"

definition ready :: "columns \<Rightarrow> string \<Rightarrow> expr \<Rightarrow> CpuSqlDispatcher \<Rightarrow> bool" where
  "ready cs tn e d \<longleftrightarrow>
    d_functions d = where_program cs e \<and> ms_buffer (d_arguments d) = concat (map operand_bytes (where_args tn e))
    \<and> ms_readOffset (d_arguments d) = 0 \<and> d_instructionPointer d = 0 \<and> d_allocatedPointers d = Map.empty"

lemma WalkSqlSelect_ready:
  assumes "table_name tn" and "map_of db tn = Some tab" and "typed (\<lambda>c. find_column c tab) e"
  shows "\<exists>L. WalkSqlSelect db [(tn, None)] [] [] e (CpuWhereListener_new CpuSqlDispatcher_new) = Inr L
    \<and> ready (\<lambda>c. find_column c tab) tn e (CopyExecutionDataTo (l_dispatcher L) CpuSqlDispatcher_new)"
proof -
  let ?cs = "\<lambda>c. find_column c tab"
  let ?L = "(CpuWhereListener_new CpuSqlDispatcher_new)\<lparr>l_loadedTables := [tn]\<rparr>"
  have ctx: "in_table_context tn ?L" by (simp add: in_table_context_def CpuWhereListener_new_def)
  have tabs: "exitFromTables db [(tn, None)] (CpuWhereListener_new CpuSqlDispatcher_new) = Inr ?L"
    using assms by (simp add: exitFromTables_def load_table_def Trim_table CpuWhereListener_new_def)
  from walk_code [OF assms(1,2) ctx assms(3)] obtain s where
    w: "walk (exitVarReference db) e ?L = Inr (emit (code ?cs e) (args tn e) [(operand_text tn e, etype ?cs e)] s ?L)"
    by blast
  let ?M = "emit (where_program ?cs e) (where_args tn e) [] s ?L"
  have "exitWhereClause (emit (code ?cs e) (args tn e) [(operand_text tn e, etype ?cs e)] s ?L) = Inr ?M"
    using in_table_typed [OF assms(3)]
    by (simp add: exitWhereClause_def pop_emit with_dispatcher_def AddWhereResultFunction_def
        add_argument_emit push_function_emit where_program_def where_args_def)
  moreover have "ready ?cs tn e (CopyExecutionDataTo (l_dispatcher ?M) CpuSqlDispatcher_new)"
    by (simp add: ready_def CopyExecutionDataTo_def CpuSqlDispatcher_new_def CpuWhereListener_new_def MemoryStream_new_def)
  ultimately show ?thesis
    using tabs w by (simp add: WalkSqlSelect_def ExtractColumnAliasContexts_def)
qed

end
