(* ===== verification/Where_Run.thy ===== *)
theory Where_Run
  imports Where_Program
begin

text \<open>
  Running the program of a WHERE clause: the reads of the operands from the argument stream, the
  registers, and the invariant of the register file that every function of the program keeps.
\<close>

section \<open>Reading operands\<close>

definition pend :: "CpuSqlDispatcher \<Rightarrow> int8 list \<Rightarrow> bool" where
  "pend d bs \<longleftrightarrow> stream_ok (d_arguments d) \<and> to_read (d_arguments d) = bs"

definition after :: "nat \<Rightarrow> CpuSqlDispatcher \<Rightarrow> CpuSqlDispatcher" where
  "after n d = d\<lparr>d_arguments := skip n (d_arguments d)\<rparr>"

lemma after_sel [simp]:
  "d_functions (after n d) = d_functions d" "d_blockIndex (after n d) = d_blockIndex d"
  "d_whereResult (after n d) = d_whereResult d" "d_allocatedPointers (after n d) = d_allocatedPointers d"
  "d_instructionPointer (after n d) = d_instructionPointer d"
  "ms_buffer (d_arguments (after n d)) = ms_buffer (d_arguments d)"
  by (simp_all add: after_def skip_def)

lemma pend_after: "pend d (as @ bs) \<Longrightarrow> pend (after (length as) d) bs"
  using skip_ok [of "d_arguments d" "length as"] by (simp add: pend_def after_def)

lemma after_after: "pend d (as @ bs @ cs) \<Longrightarrow> after (length bs) (after (length as) d) = after (length as + length bs) d"
  using skip_skip [of "d_arguments d" "length as" "length bs"] by (simp add: pend_def after_def)

lemma read_string_pend:
  "pend d (string_bytes s @ bs) \<Longrightarrow> read_string d k = k s (after (length (string_bytes s)) d)"
  using Read_string_ok(1) [of "d_arguments d" s bs] by (simp add: pend_def read_string_def after_def)

lemma read_num_pend:
  assumes "pend d (operand_bytes v @ bs)" and "type_of v = operand_type T"
  shows "read_num T d k = k (operand_num v) (after (length (operand_bytes v)) d)"
  using Read_operand_ok(1) [of "d_arguments d" v bs] assms by (simp add: pend_def read_num_def after_def)

text \<open>The three shapes of two operands and the name of the result.\<close>

definition arg_length :: "operand list \<Rightarrow> nat" where
  "arg_length vs = length (concat (map operand_bytes vs))"

lemma pend3:
  assumes "pend d (operand_bytes u @ operand_bytes v @ operand_bytes w @ bs)"
  shows "pend (after (length (operand_bytes u)) d) (operand_bytes v @ operand_bytes w @ bs)"
    and "pend (after (length (operand_bytes v)) (after (length (operand_bytes u)) d)) (operand_bytes w @ bs)"
    and "after (length (operand_bytes w)) (after (length (operand_bytes v)) (after (length (operand_bytes u)) d))
      = after (arg_length [u, v, w]) d"
    and "pend (after (arg_length [u, v, w]) d) bs"
proof -
  show p1: "pend (after (length (operand_bytes u)) d) (operand_bytes v @ operand_bytes w @ bs)"
    using pend_after [OF assms] .
  show p2: "pend (after (length (operand_bytes v)) (after (length (operand_bytes u)) d)) (operand_bytes w @ bs)"
    using pend_after [OF p1] .
  show p3: "after (length (operand_bytes w)) (after (length (operand_bytes v)) (after (length (operand_bytes u)) d))
      = after (arg_length [u, v, w]) d"
    using after_after [OF p1] after_after [of d "operand_bytes u" "operand_bytes v @ operand_bytes w" bs] assms
    by (simp add: arg_length_def)
  show "pend (after (arg_length [u, v, w]) d) bs"
    using pend_after [OF p2] by (simp only: p3)
qed

lemma read_sss:
  assumes "pend d (operand_bytes (OString a) @ operand_bytes (OString b) @ operand_bytes (OString c) @ bs)"
  shows "read_string d (\<lambda>x d. read_string d (\<lambda>y d. read_string d (\<lambda>z d. k x y z d))) =
    k a b c (after (arg_length [OString a, OString b, OString c]) d)"
proof -
  note p = assms pend3 [OF assms]
  show ?thesis
    using p(4) by (simp only: operand_bytes.simps read_string_pend [OF p(1) [unfolded operand_bytes.simps(6)]]
        read_string_pend [OF p(2) [unfolded operand_bytes.simps(6)]]
        read_string_pend [OF p(3) [unfolded operand_bytes.simps(6)]])
qed

lemma read_sns:
  assumes "pend d (operand_bytes (OString a) @ operand_bytes v @ operand_bytes (OString c) @ bs)"
    and "type_of v = operand_type T"
  shows "read_string d (\<lambda>x d. read_num T d (\<lambda>y d. read_string d (\<lambda>z d. k x y z d))) =
    k a (operand_num v) c (after (arg_length [OString a, v, OString c]) d)"
proof -
  note p = assms(1) pend3 [OF assms(1)]
  show ?thesis
    using p(4) by (simp only: operand_bytes.simps(6) read_string_pend [OF p(1) [unfolded operand_bytes.simps(6)]]
        read_num_pend [OF p(2) [unfolded operand_bytes.simps(6)] assms(2)]
        read_string_pend [OF p(3) [unfolded operand_bytes.simps(6)]])
qed

lemma read_nss:
  assumes "pend d (operand_bytes v @ operand_bytes (OString b) @ operand_bytes (OString c) @ bs)"
    and "type_of v = operand_type T"
  shows "read_num T d (\<lambda>x d. read_string d (\<lambda>y d. read_string d (\<lambda>z d. k x y z d))) =
    k (operand_num v) b c (after (arg_length [v, OString b, OString c]) d)"
proof -
  note p = assms(1) pend3 [OF assms(1)]
  show ?thesis
    using p(4) by (simp only: operand_bytes.simps(6) read_num_pend [OF p(1) assms(2)]
        read_string_pend [OF p(2) [unfolded operand_bytes.simps(6)]]
        read_string_pend [OF p(3) [unfolded operand_bytes.simps(6)]])
qed

lemma read_nns:
  assumes "pend d (operand_bytes u @ operand_bytes v @ operand_bytes (OString c) @ bs)"
    and "type_of u = operand_type T" and "type_of v = operand_type U"
  shows "read_num T d (\<lambda>x d. read_num U d (\<lambda>y d. read_string d (\<lambda>z d. k x y z d))) =
    k (operand_num u) (operand_num v) c (after (arg_length [u, v, OString c]) d)"
proof -
  note p = assms(1) pend3 [OF assms(1)]
  show ?thesis
    using p(4) by (simp only: operand_bytes.simps(6) read_num_pend [OF p(1) assms(2)]
        read_num_pend [OF p(2) assms(3)] read_string_pend [OF p(3) [unfolded operand_bytes.simps(6)]])
qed

lemma pend2:
  assumes "pend d (operand_bytes v @ operand_bytes w @ bs)"
  shows "pend (after (length (operand_bytes v)) d) (operand_bytes w @ bs)"
    and "after (length (operand_bytes w)) (after (length (operand_bytes v)) d) = after (arg_length [v, w]) d"
    and "pend (after (arg_length [v, w]) d) bs"
proof -
  show p1: "pend (after (length (operand_bytes v)) d) (operand_bytes w @ bs)" using pend_after [OF assms] .
  show p2: "after (length (operand_bytes w)) (after (length (operand_bytes v)) d) = after (arg_length [v, w]) d"
    using after_after [OF assms] by (simp add: arg_length_def)
  show "pend (after (arg_length [v, w]) d) bs" using pend_after [OF p1] by (simp only: p2)
qed

lemma read_ss:
  assumes "pend d (operand_bytes (OString a) @ operand_bytes (OString b) @ bs)"
  shows "read_string d (\<lambda>x d. read_string d (\<lambda>y d. k x y d)) = k a b (after (arg_length [OString a, OString b]) d)"
proof -
  note p = assms pend2 [OF assms]
  show ?thesis
    using p(3) by (simp only: operand_bytes.simps read_string_pend [OF p(1) [unfolded operand_bytes.simps(6)]]
        read_string_pend [OF p(2) [unfolded operand_bytes.simps(6)]])
qed

lemma read_ns:
  assumes "pend d (operand_bytes v @ operand_bytes (OString b) @ bs)" and "type_of v = operand_type T"
  shows "read_num T d (\<lambda>x d. read_string d (\<lambda>y d. k x y d)) =
    k (operand_num v) b (after (arg_length [v, OString b]) d)"
proof -
  note p = assms(1) pend2 [OF assms(1)]
  show ?thesis
    using p(3) by (simp only: operand_bytes.simps(6) read_num_pend [OF p(1) assms(2)]
        read_string_pend [OF p(2) [unfolded operand_bytes.simps(6)]])
qed

section \<open>Registers\<close>

lemma regs_AllocateRegister:
  "d_allocatedPointers (AllocateRegister n r d) = [n \<mapsto> r] ++ d_allocatedPointers d"
  by (auto simp: AllocateRegister_def map_add_def fun_eq_iff split: option.splits)

lemma AllocateRegister_sel [simp]:
  "d_functions (AllocateRegister n r d) = d_functions d" "d_blockIndex (AllocateRegister n r d) = d_blockIndex d"
  "d_whereResult (AllocateRegister n r d) = d_whereResult d" "d_arguments (AllocateRegister n r d) = d_arguments d"
  "d_instructionPointer (AllocateRegister n r d) = d_instructionPointer d"
  by (simp_all add: AllocateRegister_def split: option.splits)

lemma set_result_sel [simp]:
  "d_functions (set_result s lo hi d) = d_functions d" "d_blockIndex (set_result s lo hi d) = d_blockIndex d"
  "d_whereResult (set_result s lo hi d) = d_whereResult d" "d_arguments (set_result s lo hi d) = d_arguments d"
  "d_instructionPointer (set_result s lo hi d) = d_instructionPointer d"
  by (simp_all add: set_result_def)

lemma min_max_names [simp]:
  "s @ ''_min'' = t @ ''_min'' \<longleftrightarrow> s = t" "s @ ''_max'' = t @ ''_max'' \<longleftrightarrow> s = t"
  "s @ ''_min'' \<noteq> t @ ''_max''" "s @ ''_max'' \<noteq> t @ ''_min''"
proof -
  have "last (s @ ''_min'') \<noteq> last (t @ ''_max'')" for s t by simp
  then show "s @ ''_min'' \<noteq> t @ ''_max''" "s @ ''_max'' \<noteq> t @ ''_min''" by metis+
qed simp_all

lemma regs_set_result:
  "d_allocatedPointers (set_result s lo hi d) n =
    (case d_allocatedPointers d n of Some r \<Rightarrow> Some r
     | None \<Rightarrow> if n = s @ ''_min'' then Some lo else if n = s @ ''_max'' then Some hi else None)"
  by (simp add: set_result_def regs_AllocateRegister map_add_def split: option.splits)

lemma set_result_le: "d_allocatedPointers d \<subseteq>\<^sub>m d_allocatedPointers (set_result s lo hi d)"
  by (auto simp: map_le_def regs_set_result)

text \<open>The two registers of a name.\<close>

definition pair_of :: "(string \<rightharpoonup> register) \<Rightarrow> string \<Rightarrow> register option \<times> register option" where
  "pair_of m s = (m (s @ ''_min''), m (s @ ''_max''))"

lemma pair_set_result_other: "t \<noteq> s \<Longrightarrow>
    pair_of (d_allocatedPointers (set_result s lo hi d)) t = pair_of (d_allocatedPointers d) t"
  by (simp add: pair_of_def regs_set_result split: option.splits)

lemma pair_set_result_new: "pair_of (d_allocatedPointers d) s = (None, None) \<Longrightarrow>
    pair_of (d_allocatedPointers (set_result s lo hi d)) s = (Some lo, Some hi)"
  by (simp add: pair_of_def regs_set_result)

lemma pair_le:
  assumes "pair_of m s = (Some lo, Some hi)" and "m \<subseteq>\<^sub>m n"
  shows "pair_of n s = (Some lo, Some hi)"
  using assms by (auto simp: pair_of_def map_le_def dom_def)

lemma pair_set_result_old: "pair_of (d_allocatedPointers d) s = (Some a, Some b) \<Longrightarrow>
    pair_of (d_allocatedPointers (set_result s lo hi d)) s = (Some a, Some b)"
  using pair_le set_result_le by blast

lemma fetch_pair: "pair_of (d_allocatedPointers d) s = (Some lo, Some hi) \<Longrightarrow> fetch s d = Inr (lo, hi)"
  by (simp add: fetch_def pointer_at_def pair_of_def)

lemma fetch_num_pair:
  "pair_of (d_allocatedPointers d) s = (Some (num_register T a f), Some (num_register T b g)) \<Longrightarrow>
    fetch_num T s d = Inr ((a, f), (b, g))"
  by (simp add: fetch_num_def fetch_pair cell_num_def num_register_def)

lemma fetch_str_pair:
  "pair_of (d_allocatedPointers d) s = (Some (string_register a), Some (string_register b)) \<Longrightarrow>
    fetch_str s d = Inr ((a, False), (b, False))"
  by (simp add: fetch_str_def fetch_pair cell_str_def string_register_def)

section \<open>The invariant of the register file\<close>

definition column_registers :: "icolumn \<Rightarrow> nat \<Rightarrow> register \<Rightarrow> register \<Rightarrow> bool" where
  "column_registers ic i lo hi \<longleftrightarrow>
    (\<exists>T a b. ctype_of (GetColumnType ic) = Some T \<and> GetBlockMin T ic i = Inr a \<and> GetBlockMax T ic i = Inr b
      \<and> lo = num_register T a False \<and> hi = num_register T b False)
    \<or> (\<exists>s b. ic = ColString s \<and> block_at s i = Inr b \<and> lo = string_register (b_min b) \<and> hi = string_register (b_max b))"

definition column_entry :: "icolumn \<Rightarrow> nat \<Rightarrow> register option \<times> register option \<Rightarrow> bool" where
  "column_entry ic i p \<longleftrightarrow> p = (None, None) \<or> (\<exists>lo hi. p = (Some lo, Some hi) \<and> column_registers ic i lo hi)"

definition mask_entry :: "register option \<times> register option \<Rightarrow> bool" where
  "mask_entry p \<longleftrightarrow> p = (None, None)
    \<or> (\<exists>l h. p = (Some (mask_register (fst l) (snd l)), Some (mask_register (fst h) (snd h))))"

text \<open>
  \<open>C\<close> is the set of columns the clause names: their registers hold the bounds of block \<open>i\<close>, and
  registers of results hold truth values.
\<close>

definition regs_ok :: "columns \<Rightarrow> string \<Rightarrow> nat \<Rightarrow> string set \<Rightarrow> (string \<rightharpoonup> register) \<Rightarrow> bool" where
  "regs_ok cs tn i C m \<longleftrightarrow>
    (\<forall>c\<in>C. \<forall>ic. cs c = Some ic \<longrightarrow> m (column_name tn c) = None \<and> column_entry ic i (pair_of m (column_name tn c)))
    \<and> (\<forall>s. front s = CHR ''$'' \<longrightarrow> mask_entry (pair_of m s))"

definition run_inv :: "columns \<Rightarrow> string \<Rightarrow> nat \<Rightarrow> string set \<Rightarrow> CpuSqlDispatcher \<Rightarrow> bool" where
  "run_inv cs tn i C d \<longleftrightarrow> regs_ok cs tn i C (d_allocatedPointers d) \<and> d_blockIndex d = i"

text \<open>No column of the clause is named like the bound register of another one.\<close>

definition suffix_free :: "string set \<Rightarrow> bool" where
  "suffix_free C \<longleftrightarrow> (\<forall>c\<in>C. \<forall>c'\<in>C. c \<noteq> c' @ ''_min'' \<and> c \<noteq> c' @ ''_max'')"

definition clause_ok :: "database \<Rightarrow> string \<Rightarrow> table \<Rightarrow> nat \<Rightarrow> string set \<Rightarrow> bool" where
  "clause_ok db tn tab i C \<longleftrightarrow>
    map_of db tn = Some tab \<and> table_name tn \<and> suffix_free C
    \<and> (\<forall>c\<in>C. \<exists>ic. find_column c tab = Some ic \<and> i < ic_blockCount ic)"

text \<open>Only registers were added.\<close>

definition frame :: "CpuSqlDispatcher \<Rightarrow> CpuSqlDispatcher \<Rightarrow> bool" where
  "frame d d' \<longleftrightarrow> d' = d\<lparr>d_allocatedPointers := d_allocatedPointers d'\<rparr>
    \<and> d_allocatedPointers d \<subseteq>\<^sub>m d_allocatedPointers d'"

lemma frame_refl [simp]: "frame d d" by (simp add: frame_def)

lemma frame_trans: "frame d e \<Longrightarrow> frame e f \<Longrightarrow> frame d f"
  by (cases d, cases e, cases f) (auto simp: frame_def intro: map_le_trans)

lemma frame_set_result [simp]: "frame d (set_result s lo hi d)"
proof -
  have "AllocateRegister n r e = e\<lparr>d_allocatedPointers := d_allocatedPointers (AllocateRegister n r e)\<rparr>" for n r e
    by (simp add: AllocateRegister_def split: option.splits)
  then have "frame e (AllocateRegister n r e)" for n r e
    by (auto simp: frame_def regs_AllocateRegister map_le_def map_add_def)
  then show ?thesis unfolding set_result_def by (blast intro: frame_trans)
qed

lemma frame_sel:
  assumes "frame d d'"
  shows "d_functions d' = d_functions d" "d_blockIndex d' = d_blockIndex d" "d_whereResult d' = d_whereResult d"
    "d_arguments d' = d_arguments d" "d_instructionPointer d' = d_instructionPointer d"
  using assms by (cases d; cases d'; simp add: frame_def)+

lemma column_name_simps [simp]:
  "column_name tn c = column_name tn c' \<longleftrightarrow> c = c'"
  "column_name tn c @ x = column_name tn (c @ x)"
  by (simp_all add: column_name_def)

lemma regs_ok_column:
  assumes "regs_ok cs tn i C (d_allocatedPointers d)" and "c \<in> C" and "cs c = Some ic"
    and "column_registers ic i lo hi" and "table_name tn" and "suffix_free C"
  shows "regs_ok cs tn i C (d_allocatedPointers (set_result (column_name tn c) lo hi d))"
proof -
  let ?m = "d_allocatedPointers d"
  let ?n = "d_allocatedPointers (set_result (column_name tn c) lo hi d)"
  have col: "?m (column_name tn x) = None" "column_entry y i (pair_of ?m (column_name tn x))"
    if "x \<in> C" "cs x = Some y" for x y
    using assms(1) that by (simp_all add: regs_ok_def)
  have "?n (column_name tn x) = None" if "x \<in> C" "cs x = Some y" for x y
    using col [OF that] assms(2,6) that by (simp add: regs_set_result suffix_free_def)
  moreover have "column_entry y i (pair_of ?n (column_name tn x))" if "x \<in> C" "cs x = Some y" for x y
  proof (cases "x = c")
    case True
    with that assms(3) have y: "y = ic" by simp
    from col(2) [OF that] True show ?thesis
      using assms(4) pair_set_result_new [of d "column_name tn c" lo hi]
        pair_set_result_old [of d "column_name tn c"]
      unfolding column_entry_def y by fastforce
  next
    case False
    with col(2) [OF that] show ?thesis by (simp add: pair_set_result_other)
  qed
  moreover have "mask_entry (pair_of ?n s)" if "front s = CHR ''$''" for s
  proof -
    have "s \<noteq> column_name tn c" using that assms(5) by (auto simp: table_name_def)
    with assms(1) that show ?thesis by (simp add: pair_set_result_other regs_ok_def)
  qed
  ultimately show ?thesis by (simp add: regs_ok_def)
qed

lemma regs_ok_mask:
  assumes "regs_ok cs tn i C (d_allocatedPointers d)" and "front s = CHR ''$''" and "table_name tn"
  shows "regs_ok cs tn i C (d_allocatedPointers (set_mask s l h d))"
    and "pair_of (d_allocatedPointers (set_mask s l h d)) s \<noteq> (None, None)"
proof -
  let ?n = "d_allocatedPointers (set_mask s l h d)"
  have s: "s \<noteq> column_name tn x" "column_name tn x \<noteq> s @ y" for x y
  proof -
    have "front (s @ y) = CHR ''$''" using assms(2) by (cases s) (simp_all add: front_def)
    then show "s \<noteq> column_name tn x" "column_name tn x \<noteq> s @ y"
      using assms(2,3) front_column_name [OF assms(3), of x] unfolding table_name_def by (auto simp del: column_name_simps)
  qed
  have m: "mask_entry (pair_of ?n s)" "pair_of ?n s \<noteq> (None, None)"
  proof -
    have "mask_entry (pair_of (d_allocatedPointers d) s)" using assms(1,2) by (simp add: regs_ok_def)
    then consider "pair_of (d_allocatedPointers d) s = (None, None)"
      | l' h' where "pair_of (d_allocatedPointers d) s =
          (Some (mask_register (fst l') (snd l')), Some (mask_register (fst h') (snd h')))"
      by (auto simp: mask_entry_def)
    then have "mask_entry (pair_of ?n s) \<and> pair_of ?n s \<noteq> (None, None)"
    proof cases
      case 1
      from pair_set_result_new [OF this] show ?thesis by (auto simp: set_mask_def mask_entry_def)
    next
      case 2
      from pair_set_result_old [OF this] show ?thesis by (auto simp: set_mask_def mask_entry_def)
    qed
    then show "mask_entry (pair_of ?n s)" "pair_of ?n s \<noteq> (None, None)" by simp_all
  qed
  show "pair_of ?n s \<noteq> (None, None)" by (rule m(2))
  have "?n (column_name tn x) = None" if "x \<in> C" "cs x = Some y" for x y
    using assms(1) that s(2) by (simp add: regs_set_result set_mask_def regs_ok_def)
  moreover have "column_entry y i (pair_of ?n (column_name tn x))" if "x \<in> C" "cs x = Some y" for x y
    using assms(1) that s(1) [of x] by (simp add: set_mask_def pair_set_result_other regs_ok_def)
  moreover have "mask_entry (pair_of ?n t)" if "front t = CHR ''$''" for t
  proof (cases "t = s")
    case False
    with assms(1) that show ?thesis by (simp add: set_mask_def pair_set_result_other regs_ok_def)
  qed (simp add: m(1))
  ultimately show "regs_ok cs tn i C ?n" by (simp add: regs_ok_def)
qed

end
