(* ===== verification/Where_Types.thy ===== *)
theory Where_Types
  imports Where_Run
begin

text \<open>
  Type safety of the CPU evaluation: every function of the program of a typed clause finds its
  operands in the argument stream and in the registers, reads every register at the type it was
  written with, and the loop ends with a result.
\<close>

section \<open>Operands\<close>

fun evars :: "expr \<Rightarrow> string set" where
  "evars (VarReference t c) = {c}"
| "evars (BinaryOperation t a b) = evars a \<union> evars b"
| "evars (UnaryOperation t a) = evars a"
| "evars (TernaryOperation a b c) = evars a \<union> evars b \<union> evars c"
| "evars _ = {}"

definition avail :: "CpuSqlDispatcher \<Rightarrow> expr \<Rightarrow> bool" where
  "avail d e \<longleftrightarrow> (operator e \<longrightarrow> pair_of (d_allocatedPointers d) (reg_name e) \<noteq> (None, None))"

lemma avail_le:
  assumes "avail d e" and "run_inv cs tn i C d" and "d_allocatedPointers d \<subseteq>\<^sub>m d_allocatedPointers d'"
  shows "avail d' e"
proof (cases "operator e")
  case True
  have "mask_entry (pair_of (d_allocatedPointers d) (reg_name e))"
    using assms(2) by (simp add: run_inv_def regs_ok_def)
  with assms(1) True obtain l h where
    "pair_of (d_allocatedPointers d) (reg_name e) = (Some (mask_register (fst l) (snd l)), Some (mask_register (fst h) (snd h)))"
    by (auto simp: avail_def mask_entry_def)
  from pair_le [OF this assms(3)] show ?thesis by (simp add: avail_def)
qed (simp add: avail_def)

lemma sint_in_width:
  "in_width 8 (sint (x :: int8))" "in_width 32 (sint (y :: int32))" "in_width 64 (sint (z :: int64))"
  using sint_greater_eq [of x] sint_less [of x] sint_greater_eq [of y] sint_less [of y]
    sint_greater_eq [of z] sint_less [of z]
  by (simp_all add: in_width_def)

lemma block_bounds_typed:
  "GetBlockMin T ic i = Inr a \<Longrightarrow> has_type T a" "GetBlockMax T ic i = Inr a \<Longrightarrow> has_type T a"
  by (auto simp: GetBlockMin_def GetBlockMax_def sint_in_width split: ctype.splits icolumn.splits)

lemma block_count: "ic_blockCount c = case_icolumn (\<lambda>d. length (GetBlocksList d)) (\<lambda>d. length (GetBlocksList d))
    (\<lambda>d. length (GetBlocksList d)) (\<lambda>d. length (GetBlocksList d)) (\<lambda>d. length (GetBlocksList d))
    (\<lambda>d. length (GetBlocksList d)) (\<lambda>d. length (GetBlocksList d)) (\<lambda>d. length (GetBlocksList d)) c"
  by (cases c) (simp_all add: ic_blockCount_def GetBlockCount_def GetBlocksList_def length_concat comp_def)

lemma block_bounds_exist:
  assumes "ctype_of (GetColumnType ic) = Some T" and "i < ic_blockCount ic"
  shows "\<exists>lo hi. GetBlockMin T ic i = Inr lo \<and> GetBlockMax T ic i = Inr hi"
  using assms by (cases ic) (auto simp: GetColumnType_def GetBlockMin_def GetBlockMax_def block_at_def block_count)

lemma Split_column: "table_name tn \<Longrightarrow> SplitColumnName (column_name tn c) = (tn, c)"
proof -
  assume "table_name tn"
  then have "\<And>x. x \<in> set tn \<Longrightarrow> x \<noteq> CHR ''.''" by (auto simp: table_name_def)
  then show ?thesis
    by (simp add: SplitColumnName_def column_name_def takeWhile_append2 dropWhile_append2)
qed

lemma named_column_ok:
  assumes "clause_ok db tn tab i C" and "find_column c tab = Some ic"
  shows "named_column db (column_name tn c) = Inr ic"
  using assms by (simp add: clause_ok_def named_column_def Split_column)

lemma load_column:
  assumes ok: "clause_ok db tn tab i C" and inv: "run_inv (\<lambda>c. find_column c tab) tn i C d" and c: "c \<in> C"
    and ic: "find_column c tab = Some ic" and T: "ctype_of (GetColumnType ic) = Some T"
  shows "\<exists>d' lo hi. LoadCol db T (column_name tn c) d = Inr (0, d') \<and> frame d d'
    \<and> run_inv (\<lambda>c. find_column c tab) tn i C d'
    \<and> pair_of (d_allocatedPointers d') (column_name tn c) = (Some (num_register T lo False), Some (num_register T hi False))
    \<and> GetBlockMin T ic i = Inr lo \<and> GetBlockMax T ic i = Inr hi"
proof -
  let ?n = "column_name tn c" and ?cs = "\<lambda>c. find_column c tab"
  have tn: "table_name tn" "suffix_free C" "i < ic_blockCount ic"
    using ok c ic by (auto simp: clause_ok_def)
  from block_bounds_exist [OF T tn(3)] obtain lo hi where b: "GetBlockMin T ic i = Inr lo" "GetBlockMax T ic i = Inr hi"
    by blast
  let ?d = "set_result ?n (num_register T lo False) (num_register T hi False) d"
  have regs: "column_registers ic i (num_register T lo False) (num_register T hi False)"
    using b T by (auto simp: column_registers_def)
  have i: "d_blockIndex d = i" and r: "regs_ok ?cs tn i C (d_allocatedPointers d)" using inv by (simp_all add: run_inv_def)
  have "to_load ?n d"
    using r c ic tn(1) by (auto simp: to_load_def regs_ok_def table_name_def) (simp add: column_name_def)
  then have run: "LoadCol db T ?n d = Inr (0, ?d)"
    using named_column_ok [OF ok ic] b tn(3) by (simp add: LoadCol_def i)
  have inv': "run_inv ?cs tn i C ?d"
    using regs_ok_column [OF r c _ regs tn(1,2)] ic i by (simp add: run_inv_def)
  have "column_entry ic i (pair_of (d_allocatedPointers d) ?n)" using r c ic by (auto simp: regs_ok_def)
  then have "pair_of (d_allocatedPointers ?d) ?n = (Some (num_register T lo False), Some (num_register T hi False))"
  proof (cases "pair_of (d_allocatedPointers d) ?n = (None, None)")
    case True
    then show ?thesis by (rule pair_set_result_new)
  next
    case False
    with \<open>column_entry _ _ _\<close> obtain x y where
      xy: "pair_of (d_allocatedPointers d) ?n = (Some x, Some y)" "column_registers ic i x y"
      by (auto simp: column_entry_def)
    have "x = num_register T lo False" "y = num_register T hi False"
      using xy(2) b T by (auto simp: column_registers_def GetColumnType_def)
    with pair_set_result_old [OF xy(1)] show ?thesis by simp
  qed
  with run inv' b show ?thesis by (intro exI [of _ ?d] exI [of _ lo] exI [of _ hi]) simp
qed

lemma load_string_column:
  assumes ok: "clause_ok db tn tab i C" and inv: "run_inv (\<lambda>c. find_column c tab) tn i C d" and c: "c \<in> C"
    and ic: "find_column c tab = Some (ColString s)"
  shows "\<exists>d' lo hi. LoadCol_string db (column_name tn c) d = Inr (0, d') \<and> frame d d'
    \<and> run_inv (\<lambda>c. find_column c tab) tn i C d'
    \<and> pair_of (d_allocatedPointers d') (column_name tn c) = (Some (string_register lo), Some (string_register hi))"
proof -
  let ?n = "column_name tn c" and ?cs = "\<lambda>c. find_column c tab"
  have tn: "table_name tn" "suffix_free C" "i < ic_blockCount (ColString s)"
    using ok c ic by (auto simp: clause_ok_def)
  then obtain b where b: "block_at s i = Inr b" by (auto simp: block_at_def block_count)
  let ?lo = "string_register (b_min b)" and ?hi = "string_register (b_max b)"
  let ?d = "set_result ?n ?lo ?hi d"
  have regs: "column_registers (ColString s) i ?lo ?hi" using b by (auto simp: column_registers_def)
  have i: "d_blockIndex d = i" and r: "regs_ok ?cs tn i C (d_allocatedPointers d)" using inv by (simp_all add: run_inv_def)
  have "to_load ?n d"
    using r c ic tn(1) by (auto simp: to_load_def regs_ok_def table_name_def) (simp add: column_name_def)
  then have run: "LoadCol_string db ?n d = Inr (0, ?d)"
    using named_column_ok [OF ok ic] b tn(3) by (simp add: LoadCol_string_def i)
  have inv': "run_inv ?cs tn i C ?d"
    using regs_ok_column [OF r c _ regs tn(1,2)] ic i by (simp add: run_inv_def)
  have "column_entry (ColString s) i (pair_of (d_allocatedPointers d) ?n)" using r c ic by (auto simp: regs_ok_def)
  then consider "pair_of (d_allocatedPointers d) ?n = (None, None)" | "pair_of (d_allocatedPointers d) ?n = (Some ?lo, Some ?hi)"
    using b by (auto simp: column_entry_def column_registers_def GetColumnType_def)
  then have "pair_of (d_allocatedPointers ?d) ?n = (Some ?lo, Some ?hi)"
    by cases (simp_all add: pair_set_result_new pair_set_result_old)
  with run inv' show ?thesis by (intro exI [of _ ?d] exI [of _ "b_min b"] exI [of _ "b_max b"]) simp
qed

text \<open>A numeric operand that is not a constant: a column or the result of an operator.\<close>

lemma operator_Int8:
  assumes "run_inv cs tn i C d" and "avail d e" and "operator e"
  shows "\<exists>l h. pair_of (d_allocatedPointers d) (reg_name e) =
    (Some (mask_register (fst l) (snd l)), Some (mask_register (fst h) (snd h)))"
proof -
  have "mask_entry (pair_of (d_allocatedPointers d) (reg_name e))"
    using assms(1) by (simp add: run_inv_def regs_ok_def)
  with assms(2,3) show ?thesis by (simp add: avail_def mask_entry_def)
qed

lemma not_const_cases:
  assumes "typed cs e" and "\<not> is_const (etype cs e)"
  obtains c ic where "e = VarReference None c" "cs c = Some ic" "etype cs e = GetColumnType ic"
  | "operator e" "etype cs e = COLUMN_INT8_T" "operand_text tn e = reg_name e"
proof (cases e)
  case (VarReference t c)
  with assms(1) that(1) show ?thesis by auto
qed (use assms that(2) in \<open>auto simp: is_const_def less_DataType_def DataType_value_def DataType_enum_def split: if_splits\<close>)

lemma load_operand:
  assumes ok: "clause_ok db tn tab i C" and inv: "run_inv (\<lambda>c. find_column c tab) tn i C d"
    and ty: "typed (\<lambda>c. find_column c tab) e" "\<not> is_const (etype (\<lambda>c. find_column c tab) e)"
      "ctype_of (etype (\<lambda>c. find_column c tab) e) = Some T"
    and av: "avail d e" and vars: "evars e \<subseteq> C"
  shows "\<exists>d' lo hi f g. LoadCol db T (operand_text tn e) d = Inr (0, d') \<and> frame d d'
    \<and> run_inv (\<lambda>c. find_column c tab) tn i C d'
    \<and> pair_of (d_allocatedPointers d') (operand_text tn e) = (Some (num_register T lo f), Some (num_register T hi g))
    \<and> has_type T lo \<and> has_type T hi"
  using not_const_cases [OF ty(1,2), where tn = tn]
proof cases
  case (1 c ic)
  then show ?thesis
    using load_column [OF ok inv, of c ic T] vars ty(3) block_bounds_typed by auto blast
next
  case 2
  from operator_Int8 [OF inv av 2(1)] obtain l h where
    p: "pair_of (d_allocatedPointers d) (reg_name e) = (Some (mask_register (fst l) (snd l)), Some (mask_register (fst h) (snd h)))"
    by blast
  have "LoadCol db T (reg_name e) d = Inr (0, d)"
    by (simp add: LoadCol_def to_load_def)
  moreover have "T = Int8T" using ty(3) 2(2) by simp
  moreover have "has_type Int8T (NInt (of_bool m))" for m by (simp add: in_width_def)
  ultimately show ?thesis using p inv 2(3)
    by (intro exI [of _ d] exI [of _ "NInt (of_bool (fst l))"] exI [of _ "NInt (of_bool (fst h))"]
        exI [of _ "snd l"] exI [of _ "snd h"]) (simp add: mask_register_def)
qed

text \<open>Constants.\<close>

lemma sint_of_int: "in_width 32 i \<Longrightarrow> sint (word_of_int i :: int32) = i" "in_width 64 i \<Longrightarrow> sint (word_of_int i :: int64) = i"
  using to_int32_id [of i] to_int64_id [of i] by (simp_all add: in_width_def to_int32_def to_int64_def)

lemma stoll_width: "stoll s = Inr i \<Longrightarrow> in_width 64 i"
  by (auto simp: stoll_def Let_def in_width_def split: prod.splits if_splits)

lemma int_literal_value:
  assumes "typed cs (IntLiteral s)"
  shows "operand_num (operand_arg tn (IntLiteral s)) = NInt (int_of_text s)"
    and "has_type (if IsLong s = Inr True then Int64T else Int32T) (NInt (int_of_text s))"
proof -
  have "IsLong s = Inr True \<Longrightarrow> in_width 64 (int_of_text s)" using IsLong_True stoll_width by blast
  moreover have "IsLong s = Inr False \<Longrightarrow> in_width 32 (int_of_text s)"
    using IsLong_False [of s] by (auto simp: stoi_def split: if_splits)
  ultimately show "operand_num (operand_arg tn (IntLiteral s)) = NInt (int_of_text s)"
    and "has_type (if IsLong s = Inr True then Int64T else Int32T) (NInt (int_of_text s))"
    using assms by (auto simp: sint_of_int)
qed

lemma const_operand:
  assumes "typed cs e" and "is_const (etype cs e)" and "ctype_of (etype cs e) = Some T"
  shows "type_of (operand_arg tn e) = operand_type T" and "has_type T (operand_num (operand_arg tn e))"
    and "\<not> is_floating T"
proof -
  have "is_const (GetColumnType ic) = False" for ic
    by (cases ic) (simp_all add: is_const_def GetColumnType_def less_DataType_def DataType_value_def DataType_enum_def)
  moreover have "\<not> is_const COLUMN_INT8_T"
    by (simp add: is_const_def less_DataType_def DataType_value_def DataType_enum_def)
  ultimately have "(\<exists>s. e = IntLiteral s) \<or> (\<exists>s. e = BooleanLiteral s)"
    using assms by (cases e) auto
  then have "type_of (operand_arg tn e) = operand_type T \<and> has_type T (operand_num (operand_arg tn e)) \<and> \<not> is_floating T"
  proof (elim disjE exE)
    fix s assume s: "e = IntLiteral s"
    then show ?thesis using int_literal_value(1) [of cs s tn] int_literal_value(2) [of cs s] assms by (auto split: if_splits)
  next
    fix s assume s: "e = BooleanLiteral s"
    then show ?thesis using assms(3) sint_in_width(1) by auto
  qed
  then show "type_of (operand_arg tn e) = operand_type T" "has_type T (operand_num (operand_arg tn e))" "\<not> is_floating T"
    by simp_all
qed

lemma non_const_arg: "typed cs e \<Longrightarrow> \<not> is_const (etype cs e) \<Longrightarrow> operand_arg tn e = OString (operand_text tn e)"
  by (cases e) (auto simp: is_const_def less_DataType_def DataType_value_def DataType_enum_def split: if_splits)

lemma const_string_arg: "typed cs e \<Longrightarrow> etype cs e = CONST_STRING \<Longrightarrow> \<exists>s. operand_arg tn e = OString s"
  by (cases e) (auto simp: GetColumnType_def split: icolumn.splits if_splits)

text \<open>Conversions do nothing to a value of the type.\<close>

lemma convert_id: "has_type T a \<Longrightarrow> convert T a = Inr a"
  by (cases T; cases a) (auto simp: in_width_def signed_take_bit_int_eq_self)

lemma convert_int: "\<not> is_floating U \<Longrightarrow> has_type U a \<Longrightarrow> \<exists>x. convert T a = Inr x"
  by (cases U; cases a; cases T) auto

lemma call_filter_typed: "has_type T a \<Longrightarrow> has_type U b \<Longrightarrow> call_filter f T U a b = Inr (apply_filter f a b)"
  by (simp add: call_filter_def convert_id)

lemma call_filter_swapped:
  assumes "has_type U a" and "has_type T b" and "\<not> is_floating U" and "\<not> is_floating T"
  shows "\<exists>m. call_filter f T U a b = Inr m"
  using convert_int [OF assms(3,1), of T] convert_int [OF assms(4,2), of U] by (auto simp: call_filter_def)

section \<open>Functions\<close>

text \<open>A function that stores a truth value in \<open>reg\<close> and goes on.\<close>

definition makes_mask ::
  "columns \<Rightarrow> string \<Rightarrow> nat \<Rightarrow> string set \<Rightarrow> CpuSqlDispatcher \<Rightarrow> string \<Rightarrow> (int \<times> CpuSqlDispatcher) result \<Rightarrow> bool" where
  "makes_mask cs tn i C d reg r \<longleftrightarrow>
    (\<exists>d' l h. r = Inr (0, set_mask reg l h d') \<and> frame d d' \<and> run_inv cs tn i C d')"

lemma makes_maskI: "r = Inr (0, set_mask reg l h d') \<Longrightarrow> frame d d' \<Longrightarrow> run_inv cs tn i C d' \<Longrightarrow> makes_mask cs tn i C d reg r"
  unfolding makes_mask_def by blast

lemma filter_bounds_typed:
  assumes "has_type T lo" and "has_type T hi" and "has_type U k"
  shows "\<exists>m n. filter_bounds f T U lo hi k = Inr (m, n)"
  using call_filter_typed [OF assms(1,3)] call_filter_typed [OF assms(2,3)]
  by (cases "interval f") (simp_all add: filter_bounds_def Let_def)

lemma filter_bounds_swapped:
  assumes "has_type U lo" and "has_type U hi" and "has_type T k" and "\<not> is_floating U" and "\<not> is_floating T"
  shows "\<exists>m n. filter_bounds f T U lo hi k = Inr (m, n)"
  using call_filter_swapped [OF assms(1,3-5), of f] call_filter_swapped [OF assms(2,3-5), of f]
  by (cases "interval f") (auto simp: filter_bounds_def Let_def)

text \<open>Loading two operands.\<close>

lemma load_operands:
  assumes ok: "clause_ok db tn tab i C" and inv: "run_inv (\<lambda>c. find_column c tab) tn i C d"
    and a: "typed (\<lambda>c. find_column c tab) a" "\<not> is_const (etype (\<lambda>c. find_column c tab) a)"
      "ctype_of (etype (\<lambda>c. find_column c tab) a) = Some T" "avail d a" "evars a \<subseteq> C"
    and b: "typed (\<lambda>c. find_column c tab) b" "\<not> is_const (etype (\<lambda>c. find_column c tab) b)"
      "ctype_of (etype (\<lambda>c. find_column c tab) b) = Some U" "avail d b" "evars b \<subseteq> C"
  shows "\<exists>d1 d2 x1 x2 y1 y2 f1 f2 g1 g2.
    LoadCol db T (operand_text tn a) d = Inr (0, d1) \<and> LoadCol db U (operand_text tn b) d1 = Inr (0, d2)
    \<and> frame d d2 \<and> run_inv (\<lambda>c. find_column c tab) tn i C d2
    \<and> pair_of (d_allocatedPointers d2) (operand_text tn a) = (Some (num_register T x1 f1), Some (num_register T x2 f2))
    \<and> pair_of (d_allocatedPointers d2) (operand_text tn b) = (Some (num_register U y1 g1), Some (num_register U y2 g2))
    \<and> has_type T x1 \<and> has_type T x2 \<and> has_type U y1 \<and> has_type U y2"
proof -
  from load_operand [OF ok inv a] obtain d1 x1 x2 f1 f2 where
    1: "LoadCol db T (operand_text tn a) d = Inr (0, d1)" "frame d d1" "run_inv (\<lambda>c. find_column c tab) tn i C d1"
      "pair_of (d_allocatedPointers d1) (operand_text tn a) = (Some (num_register T x1 f1), Some (num_register T x2 f2))"
      "has_type T x1" "has_type T x2" by blast
  have "avail d1 b" using avail_le [OF b(4) inv] 1(2) by (simp add: frame_def)
  from load_operand [OF ok 1(3) b(1-3) this b(5)] obtain d2 y1 y2 g1 g2 where
    2: "LoadCol db U (operand_text tn b) d1 = Inr (0, d2)" "frame d1 d2" "run_inv (\<lambda>c. find_column c tab) tn i C d2"
      "pair_of (d_allocatedPointers d2) (operand_text tn b) = (Some (num_register U y1 g1), Some (num_register U y2 g2))"
      "has_type U y1" "has_type U y2" by blast
  have "pair_of (d_allocatedPointers d2) (operand_text tn a) = (Some (num_register T x1 f1), Some (num_register T x2 f2))"
    using pair_le [OF 1(4)] 2(2) by (simp add: frame_def)
  with 1 2 frame_trans [OF 1(2) 2(2)] show ?thesis by blast
qed

text \<open>Comparisons and connectives of numbers.\<close>

lemma run_numbers:
  assumes ok: "clause_ok db tn tab i C" and inv: "run_inv (\<lambda>c. find_column c tab) tn i C d"
    and a: "typed (\<lambda>c. find_column c tab) a" "ctype_of (etype (\<lambda>c. find_column c tab) a) = Some T" "avail d a" "evars a \<subseteq> C"
    and b: "typed (\<lambda>c. find_column c tab) b" "ctype_of (etype (\<lambda>c. find_column c tab) b) = Some U" "avail d b" "evars b \<subseteq> C"
    and p: "pend d (operand_bytes (operand_arg tn a) @ operand_bytes (operand_arg tn b) @ operand_bytes (OString reg) @ bs)"
    and n: "n = arg_length [operand_arg tn a, operand_arg tn b, OString reg]"
  shows const_const: "is_const (etype (\<lambda>c. find_column c tab) a) \<Longrightarrow> is_const (etype (\<lambda>c. find_column c tab) b) \<Longrightarrow>
      makes_mask (\<lambda>c. find_column c tab) tn i C (after n d) reg (run_filterConstConst f T U d)
      \<and> makes_mask (\<lambda>c. find_column c tab) tn i C (after n d) reg (run_LogicalConstConst f T U d)"
    and col_const: "\<not> is_const (etype (\<lambda>c. find_column c tab) a) \<Longrightarrow> is_const (etype (\<lambda>c. find_column c tab) b) \<Longrightarrow>
      makes_mask (\<lambda>c. find_column c tab) tn i C (after n d) reg (run_FilterColConst db f T U d)
      \<and> makes_mask (\<lambda>c. find_column c tab) tn i C (after n d) reg (run_LogicalColConst db f T U d)"
    and const_col: "is_const (etype (\<lambda>c. find_column c tab) a) \<Longrightarrow> \<not> is_const (etype (\<lambda>c. find_column c tab) b) \<Longrightarrow>
      (\<not> is_floating U \<longrightarrow> makes_mask (\<lambda>c. find_column c tab) tn i C (after n d) reg (run_FilterConstCol db f T U d))
      \<and> makes_mask (\<lambda>c. find_column c tab) tn i C (after n d) reg (run_LogicalConstCol db f T U d)"
proof -
  let ?cs = "\<lambda>c. find_column c tab"
  let ?D = "after n d"
  have inv': "run_inv ?cs tn i C ?D" and av: "avail ?D a" "avail ?D b"
    using inv a(3) b(3) by (simp_all add: run_inv_def avail_def)
  {
    assume c: "is_const (etype ?cs a)" "is_const (etype ?cs b)"
    note ca = const_operand(1,2) [OF a(1) c(1) a(2), of tn] and cb = const_operand(1,2) [OF b(1) c(2) b(2), of tn]
    note cf = call_filter_typed [OF ca(2) cb(2), of f]
    show "makes_mask ?cs tn i C ?D reg (run_filterConstConst f T U d)
      \<and> makes_mask ?cs tn i C ?D reg (run_LogicalConstConst f T U d)"
      unfolding run_filterConstConst_def run_LogicalConstConst_def read_nns [OF p ca(1) cb(1)] cf bindR.simps n [symmetric]
      using inv' by (blast intro: makes_maskI frame_refl)
  next
    assume c: "\<not> is_const (etype ?cs a)" "is_const (etype ?cs b)"
    note cb = const_operand(1,2) [OF b(1) c(2) b(2), of tn]
    note p' = p [unfolded non_const_arg [OF a(1) c(1)]]
    have n': "n = arg_length [OString (operand_text tn a), operand_arg tn b, OString reg]"
      using n non_const_arg [OF a(1) c(1)] by simp
    from load_operand [OF ok inv' a(1) c(1) a(2) av(1) a(4)] obtain D lo hi f1 f2 where
      L: "LoadCol db T (operand_text tn a) ?D = Inr (0, D)" "frame ?D D" "run_inv ?cs tn i C D"
        "pair_of (d_allocatedPointers D) (operand_text tn a) = (Some (num_register T lo f1), Some (num_register T hi f2))"
        "has_type T lo" "has_type T hi" by blast
    from filter_bounds_typed [OF L(5,6) cb(2), of f] obtain x y where
      fb: "filter_bounds f T U lo hi (operand_num (operand_arg tn b)) = Inr (x, y)" by blast
    note cf = call_filter_typed [OF L(5) cb(2), of f] call_filter_typed [OF L(6) cb(2), of f]
    show "makes_mask ?cs tn i C ?D reg (run_FilterColConst db f T U d)
      \<and> makes_mask ?cs tn i C ?D reg (run_LogicalColConst db f T U d)"
      unfolding run_FilterColConst_def run_LogicalColConst_def read_sns [OF p' cb(1)] n' [symmetric] L(1)
      using L(2,3) by (auto simp: loaded_def fetch_num_pair [OF L(4)] fb cf intro!: makes_maskI)
  next
    assume c: "is_const (etype ?cs a)" "\<not> is_const (etype ?cs b)"
    note ca = const_operand(1,2) [OF a(1) c(1) a(2), of tn] const_operand(3) [OF a(1) c(1) a(2)]
    note p' = p [unfolded non_const_arg [OF b(1) c(2)]]
    have n': "n = arg_length [operand_arg tn a, OString (operand_text tn b), OString reg]"
      using n non_const_arg [OF b(1) c(2)] by simp
    from load_operand [OF ok inv' b(1) c(2) b(2) av(2) b(4)] obtain D lo hi f1 f2 where
      L: "LoadCol db U (operand_text tn b) ?D = Inr (0, D)" "frame ?D D" "run_inv ?cs tn i C D"
        "pair_of (d_allocatedPointers D) (operand_text tn b) = (Some (num_register U lo f1), Some (num_register U hi f2))"
        "has_type U lo" "has_type U hi" by blast
    have fb: "\<exists>x y. filter_bounds f T U lo hi (operand_num (operand_arg tn a)) = Inr (x, y)" if "\<not> is_floating U"
      by (rule filter_bounds_swapped [OF L(5,6) ca(2) that ca(3)])
    note cf = call_filter_typed [OF ca(2) L(5), of f] call_filter_typed [OF ca(2) L(6), of f]
    have body: "makes_mask ?cs tn i C ?D reg (run_FilterConstCol db f T U d)" if U: "\<not> is_floating U"
    proof -
      from fb [OF U] obtain x y where
        "filter_bounds f T U lo hi (operand_num (operand_arg tn a)) = Inr (x, y)" by blast
      then show ?thesis
        unfolding run_FilterConstCol_def read_nss [OF p' ca(1)] n' [symmetric] L(1)
        using L(2,3) by (auto simp: loaded_def fetch_num_pair [OF L(4)] intro!: makes_maskI)
    qed
    have "makes_mask ?cs tn i C ?D reg (run_LogicalConstCol db f T U d)"
      unfolding run_LogicalConstCol_def read_nss [OF p' ca(1)] n' [symmetric] L(1)
      using L(2,3) by (auto simp: loaded_def fetch_num_pair [OF L(4)] cf intro!: makes_maskI)
    with body show "(\<not> is_floating U \<longrightarrow> makes_mask ?cs tn i C ?D reg (run_FilterConstCol db f T U d))
      \<and> makes_mask ?cs tn i C ?D reg (run_LogicalConstCol db f T U d)" by blast
  }
qed

lemma either_mask:
  "either Int8T Int8T (num_register Int8T (NInt (of_bool m)) f, num_register Int8T (NInt (of_bool n)) g) =
    Inr (NInt (of_bool (m \<or> n)))"
  by (simp add: either_def cell_num_def num_register_def call_filter_def num_true_def)

lemma is_reg_operator:
  assumes "table_name tn" and "typed cs e" and "\<not> is_const (etype cs e)" and "is_reg (operand_text tn e)"
  shows "operator e" "operand_text tn e = reg_name e" "etype cs e = COLUMN_INT8_T"
proof -
  have "front tn \<noteq> CHR ''$''" using assms(1) by (simp add: table_name_def)
  with assms(4) have "e \<noteq> VarReference t c" for t c
    using front_column_name [OF assms(1)] by (auto simp: is_reg_def)
  with not_const_cases [OF assms(2,3), where tn = tn] show "operator e" "operand_text tn e = reg_name e" "etype cs e = COLUMN_INT8_T"
    by metis+
qed

text \<open>Two operands that are columns or results.\<close>

lemma run_columns:
  assumes ok: "clause_ok db tn tab i C" and inv: "run_inv (\<lambda>c. find_column c tab) tn i C d"
    and a: "typed (\<lambda>c. find_column c tab) a" "\<not> is_const (etype (\<lambda>c. find_column c tab) a)"
      "ctype_of (etype (\<lambda>c. find_column c tab) a) = Some T" "avail d a" "evars a \<subseteq> C"
    and b: "typed (\<lambda>c. find_column c tab) b" "\<not> is_const (etype (\<lambda>c. find_column c tab) b)"
      "ctype_of (etype (\<lambda>c. find_column c tab) b) = Some U" "avail d b" "evars b \<subseteq> C"
    and p: "pend d (operand_bytes (operand_arg tn a) @ operand_bytes (operand_arg tn b) @ operand_bytes (OString reg) @ bs)"
    and n: "n = arg_length [operand_arg tn a, operand_arg tn b, OString reg]"
  shows run_filterColCol_typed:
      "makes_mask (\<lambda>c. find_column c tab) tn i C (after n d) reg (run_filterColCol db f T U d)"
    and run_LogicalColCol_typed:
      "makes_mask (\<lambda>c. find_column c tab) tn i C (after n d) reg (run_LogicalColCol db f T U d)"
proof -
  let ?cs = "\<lambda>c. find_column c tab"
  let ?D = "after n d" and ?a = "operand_text tn a" and ?b = "operand_text tn b"
  have inv': "run_inv ?cs tn i C ?D" and av: "avail ?D a" "avail ?D b"
    using inv a(4) b(4) by (simp_all add: run_inv_def avail_def)
  note p' = p [unfolded non_const_arg [OF a(1,2)] non_const_arg [OF b(1,2)]]
  have n': "n = arg_length [OString ?a, OString ?b, OString reg]"
    using n non_const_arg [OF a(1,2)] non_const_arg [OF b(1,2)] by simp
  from load_operands [OF ok inv' a(1-3) av(1) a(5) b(1-3) av(2) b(5)] obtain d1 d2 x1 x2 y1 y2 f1 f2 g1 g2 where
    L: "LoadCol db T ?a ?D = Inr (0, d1)" "LoadCol db U ?b d1 = Inr (0, d2)"
      "frame ?D d2" "run_inv ?cs tn i C d2"
      "pair_of (d_allocatedPointers d2) ?a = (Some (num_register T x1 f1), Some (num_register T x2 f2))"
      "pair_of (d_allocatedPointers d2) ?b = (Some (num_register U y1 g1), Some (num_register U y2 g2))"
      and ty: "has_type T x1" "has_type T x2" "has_type U y1" "has_type U y2" by blast
  note cf = call_filter_typed [OF ty(1,3), of f] call_filter_typed [OF ty(2,4), of f]
  have all: "makes_mask ?cs tn i C ?D reg (Inr (0, set_mask reg l h ?D))" for l h
    using inv' by (blast intro: makes_maskI frame_refl)
  show "makes_mask ?cs tn i C ?D reg (run_filterColCol db f T U d)"
    unfolding run_filterColCol_def read_sss [OF p'] n' [symmetric]
    using L(3,4) all by (auto simp: loaded_def L(1,2) fetch_num_pair [OF L(5)] fetch_num_pair [OF L(6)] cf intro!: makes_maskI)
  have regs: "makes_mask ?cs tn i C ?D reg
      (bindR (fetch ?a d2) (\<lambda>l. bindR (fetch ?b d2) (\<lambda>r. bindR (either T U l) (\<lambda>x. bindR (either T U r) (\<lambda>y.
        bindR (call_filter f T U x y) (\<lambda>m. Inr (0, set_mask reg (m, False) (m, False) d2)))))))"
    if "is_reg ?a" "is_reg ?b"
  proof -
    have tn: "table_name tn" using ok by (simp add: clause_ok_def)
    note ra = is_reg_operator [OF tn a(1,2) that(1)] and rb = is_reg_operator [OF tn b(1,2) that(2)]
    have T: "T = Int8T" "U = Int8T" using a(3) b(3) ra(3) rb(3) by simp_all
    have av2: "avail d2 a" "avail d2 b"
      using avail_le [OF av(1) inv'] avail_le [OF av(2) inv'] L(3) by (simp_all add: frame_def)
    from operator_Int8 [OF L(4) av2(1) ra(1)] operator_Int8 [OF L(4) av2(2) rb(1)] obtain l h l' h' where
      m: "pair_of (d_allocatedPointers d2) ?a = (Some (mask_register (fst l) (snd l)), Some (mask_register (fst h) (snd h)))"
        "pair_of (d_allocatedPointers d2) ?b = (Some (mask_register (fst l') (snd l')), Some (mask_register (fst h') (snd h')))"
      unfolding ra(2) rb(2) by blast
    have bool8: "has_type Int8T (NInt (of_bool q))" for q by (simp add: in_width_def)
    show ?thesis
      unfolding T fetch_pair [OF m(1)] fetch_pair [OF m(2)] bindR.simps mask_register_def either_mask
        call_filter_typed [OF bool8 bool8]
      using L(3,4) by (blast intro: makes_maskI)
  qed
  show "makes_mask ?cs tn i C ?D reg (run_LogicalColCol db f T U d)"
    unfolding run_LogicalColCol_def read_sss [OF p'] n' [symmetric]
    using L(3,4) all regs
    by (auto simp: loaded_def L(1,2) fetch_num_pair [OF L(5)] fetch_num_pair [OF L(6)] cf intro!: makes_maskI)
qed

text \<open>Strings: a column or a literal.\<close>

lemma string_column:
  assumes "typed cs e" and "etype cs e = COLUMN_STRING"
  obtains c s where "e = VarReference None c" "cs c = Some (ColString s)"
  using assms by (cases e) (auto simp: GetColumnType_def split: icolumn.splits if_splits)

lemma load_string_operand:
  assumes ok: "clause_ok db tn tab i C" and inv: "run_inv (\<lambda>c. find_column c tab) tn i C d"
    and e: "typed (\<lambda>c. find_column c tab) e" "etype (\<lambda>c. find_column c tab) e = COLUMN_STRING" "evars e \<subseteq> C"
  shows "\<exists>d' lo hi. LoadCol_string db (operand_text tn e) d = Inr (0, d') \<and> frame d d'
    \<and> run_inv (\<lambda>c. find_column c tab) tn i C d'
    \<and> pair_of (d_allocatedPointers d') (operand_text tn e) = (Some (string_register lo), Some (string_register hi))"
  using string_column [OF e(1,2)]
proof cases
  case (1 c s)
  then show ?thesis using load_string_column [OF ok inv, of c s] e(3) by simp
qed

lemma string_arg:
  assumes "typed cs e" and "is_string (etype cs e)"
  obtains x where "operand_arg tn e = OString x" "etype cs e = COLUMN_STRING \<Longrightarrow> x = operand_text tn e"
proof (cases "etype cs e = COLUMN_STRING")
  case True
  from string_column [OF assms(1) True] obtain c s where "e = VarReference None c" by metis
  with that show thesis by simp
next
  case False
  with assms(2) have "etype cs e = CONST_STRING" by (simp add: is_string_def)
  from const_string_arg [OF assms(1) this] obtain x where "operand_arg tn e = OString x" by blast
  with that False show thesis by blast
qed

lemma string_not_reg:
  assumes "table_name tn" and "typed cs e" and "etype cs e = COLUMN_STRING"
  shows "\<not> is_reg (operand_text tn e)"
proof -
  from string_column [OF assms(2,3)] obtain c s where "e = VarReference None c" by metis
  with assms(1) show ?thesis by (simp add: is_reg_def) (simp add: table_name_def)
qed

lemma run_strings:
  assumes ok: "clause_ok db tn tab i C" and inv: "run_inv (\<lambda>c. find_column c tab) tn i C d"
    and a: "typed (\<lambda>c. find_column c tab) a" "is_string (etype (\<lambda>c. find_column c tab) a)" "evars a \<subseteq> C"
    and b: "typed (\<lambda>c. find_column c tab) b" "is_string (etype (\<lambda>c. find_column c tab) b)" "evars b \<subseteq> C"
    and p: "pend d (operand_bytes (operand_arg tn a) @ operand_bytes (operand_arg tn b) @ operand_bytes (OString reg) @ bs)"
    and n: "n = arg_length [operand_arg tn a, operand_arg tn b, OString reg]"
  shows "makes_mask (\<lambda>c. find_column c tab) tn i C (after n d) reg
    (run_function db (by_sides (etype (\<lambda>c. find_column c tab) a) (etype (\<lambda>c. find_column c tab) b)
      (FilterStringConstConst f) (FilterStringConstCol f) (FilterStringColConst f) (FilterStringColCol f)) d)"
proof -
  let ?cs = "\<lambda>c. find_column c tab"
  let ?D = "after n d" and ?a = "operand_text tn a" and ?b = "operand_text tn b"
  have inv': "run_inv ?cs tn i C ?D" using inv by (simp add: run_inv_def)
  have const: "is_const CONST_STRING" "\<not> is_const COLUMN_STRING"
    by (simp_all add: is_const_def less_DataType_def DataType_value_def DataType_enum_def)
  have all: "makes_mask ?cs tn i C ?D reg (Inr (0, set_mask reg l h ?D))" for l h
    using inv' by (blast intro: makes_maskI frame_refl)
  obtain x where x: "operand_arg tn a = OString x" "etype ?cs a = COLUMN_STRING \<Longrightarrow> x = ?a"
    using string_arg [OF a(1,2)] by metis
  obtain y where y: "operand_arg tn b = OString y" "etype ?cs b = COLUMN_STRING \<Longrightarrow> y = ?b"
    using string_arg [OF b(1,2)] by metis
  note p' = p [unfolded x(1) y(1)]
  note n' = n [unfolded x(1) y(1)]
  note rd = read_sss [OF p', folded n']
  have tn: "table_name tn" using ok by (simp add: clause_ok_def)
  consider (cc) "etype ?cs a = CONST_STRING" "etype ?cs b = CONST_STRING"
    | (cv) "etype ?cs a = CONST_STRING" "etype ?cs b = COLUMN_STRING"
    | (vc) "etype ?cs a = COLUMN_STRING" "etype ?cs b = CONST_STRING"
    | (vv) "etype ?cs a = COLUMN_STRING" "etype ?cs b = COLUMN_STRING"
    using a(2) b(2) by (auto simp: is_string_def)
  then show ?thesis
  proof cases
    case cc
    then show ?thesis by (simp add: by_sides_def const run_FilterStringConstConst_def rd all)
  next
    case cv
    from load_string_operand [OF ok inv' b(1) cv(2) b(3)] obtain D lo hi where
      L: "LoadCol_string db ?b ?D = Inr (0, D)" "frame ?D D" "run_inv ?cs tn i C D"
        "pair_of (d_allocatedPointers D) ?b = (Some (string_register lo), Some (string_register hi))" by blast
    show ?thesis using cv L(2,3)
      by (auto simp: by_sides_def const run_FilterStringConstCol_def rd y(2) L(1) loaded_def fetch_str_pair [OF L(4)]
          split: prod.split intro!: makes_maskI)
  next
    case vc
    from load_string_operand [OF ok inv' a(1) vc(1) a(3)] obtain D lo hi where
      L: "LoadCol_string db ?a ?D = Inr (0, D)" "frame ?D D" "run_inv ?cs tn i C D"
        "pair_of (d_allocatedPointers D) ?a = (Some (string_register lo), Some (string_register hi))" by blast
    show ?thesis using vc L(2,3)
      by (auto simp: by_sides_def const run_FilterStringColConst_def rd x(2) L(1) loaded_def fetch_str_pair [OF L(4)]
          split: prod.split intro!: makes_maskI)
  next
    case vv
    then show ?thesis using string_not_reg [OF tn a(1)] string_not_reg [OF tn b(1)]
      by (simp add: by_sides_def const run_FilterStringColCol_def rd x(2) y(2) all)
  qed
qed

text \<open>The function of a binary operator.\<close>

lemma run_binary:
  assumes ok: "clause_ok db tn tab i C" and inv: "run_inv (\<lambda>c. find_column c tab) tn i C d"
    and ty: "typed (\<lambda>c. find_column c tab) (BinaryOperation t a b)"
    and av: "avail d a" "avail d b" and C: "evars a \<subseteq> C" "evars b \<subseteq> C"
    and p: "pend d (operand_bytes (operand_arg tn a) @ operand_bytes (operand_arg tn b) @ operand_bytes (OString reg) @ bs)"
    and n: "n = arg_length [operand_arg tn a, operand_arg tn b, OString reg]"
  shows "makes_mask (\<lambda>c. find_column c tab) tn i C (after n d) reg
    (run_function db (binary_code t (etype (\<lambda>c. find_column c tab) a) (etype (\<lambda>c. find_column c tab) b)) d)"
proof -
  let ?cs = "\<lambda>c. find_column c tab"
  let ?l = "etype ?cs a" and ?r = "etype ?cs b"
  have ab: "typed ?cs a" "typed ?cs b" using ty by simp_all
  have num: "makes_mask ?cs tn i C (after n d) reg (run_function db
        (by_sides ?l ?r (filterConstConst f T U) (FilterConstCol f T U) (FilterColConst f T U) (filterColCol f T U)) d)"
      if T: "ctype_of ?l = Some T" "ctype_of ?r = Some U" "\<not> (is_const ?l \<and> floating ?r)" for f T U
  proof -
    have fl: "is_floating U \<Longrightarrow> \<not> is_const ?r \<Longrightarrow> floating ?r"
      using T(2) by (cases ?r) (auto simp: floating_def is_const_def less_DataType_def DataType_value_def DataType_enum_def)
    show ?thesis
      using const_const [OF ok inv ab(1) T(1) av(1) C(1) ab(2) T(2) av(2) C(2) p n, of f]
        const_col [OF ok inv ab(1) T(1) av(1) C(1) ab(2) T(2) av(2) C(2) p n, of f]
        col_const [OF ok inv ab(1) T(1) av(1) C(1) ab(2) T(2) av(2) C(2) p n, of f]
        run_filterColCol_typed [OF ok inv ab(1) _ T(1) av(1) C(1) ab(2) _ T(2) av(2) C(2) p n, of f] fl T(3)
      by (auto simp: by_sides_def)
  qed
  have log: "makes_mask ?cs tn i C (after n d) reg (run_function db
        (by_sides ?l ?r (LogicalConstConst f T U) (LogicalConstCol f T U) (LogicalColConst f T U) (LogicalColCol f T U)) d)"
      if T: "ctype_of ?l = Some T" "ctype_of ?r = Some U" for f T U
    using const_const [OF ok inv ab(1) T(1) av(1) C(1) ab(2) T(2) av(2) C(2) p n, of f]
      const_col [OF ok inv ab(1) T(1) av(1) C(1) ab(2) T(2) av(2) C(2) p n, of f]
      col_const [OF ok inv ab(1) T(1) av(1) C(1) ab(2) T(2) av(2) C(2) p n, of f]
      run_LogicalColCol_typed [OF ok inv ab(1) _ T(1) av(1) C(1) ab(2) _ T(2) av(2) C(2) p n, of f]
    by (auto simp: by_sides_def)
  have str: "makes_mask ?cs tn i C (after n d) reg (run_function db (by_sides ?l ?r
        (FilterStringConstConst f) (FilterStringConstCol f) (FilterStringColConst f) (FilterStringColCol f)) d)"
      if "is_string ?l" "is_string ?r" for f
    by (rule run_strings [OF ok inv ab(1) that(1) C(1) ab(2) that(2) C(2) p n])
  have cmp: "makes_mask ?cs tn i C (after n d) reg (run_function db (comparison_table f ?l ?r) d)"
    if "comparable ?l ?r" for f
    using that
  proof (cases "is_string ?l \<and> is_string ?r")
    case True
    then have "ctype_of ?l = None" by (auto simp: is_string_def)
    with True str [of f] show ?thesis by (simp add: comparison_table_def)
  next
    case False
    with that obtain T U where "ctype_of ?l = Some T" "ctype_of ?r = Some U" "\<not> (is_const ?l \<and> floating ?r)"
      by (auto simp: comparable_def numeric_def)
    with num [of T U f] show ?thesis by (simp add: comparison_table_def)
  qed
  have con: "makes_mask ?cs tn i C (after n d) reg (run_function db (logical_table f ?l ?r) d)"
    if "numeric ?l" "numeric ?r" for f
    using that log by (auto simp: numeric_def logical_table_def)
  show ?thesis using ty cmp con
    by (auto simp: connective_def comparison_def binary_code_def greaterFunctions_def lessFunctions_def
        greaterEqualFunctions_def lessEqualFunctions_def equalFunctions_def notEqualFunctions_def
        logicalAndFunctions_def logicalOrFunctions_def)
qed

lemma run_unary:
  assumes ok: "clause_ok db tn tab i C" and inv: "run_inv (\<lambda>c. find_column c tab) tn i C d"
    and ty: "typed (\<lambda>c. find_column c tab) (UnaryOperation t a)" and av: "avail d a" and C: "evars a \<subseteq> C"
    and p: "pend d (operand_bytes (operand_arg tn a) @ operand_bytes (OString reg) @ bs)"
    and n: "n = arg_length [operand_arg tn a, OString reg]"
  shows "makes_mask (\<lambda>c. find_column c tab) tn i C (after n d) reg
    (run_function db (unary_code t (etype (\<lambda>c. find_column c tab) a)) d)"
proof -
  let ?cs = "\<lambda>c. find_column c tab"
  let ?D = "after n d" and ?t = "etype ?cs a"
  have a: "typed ?cs a" using ty by simp
  have inv': "run_inv ?cs tn i C ?D" and av': "avail ?D a" using inv av by (simp_all add: run_inv_def avail_def)
  have all: "makes_mask ?cs tn i C ?D reg (Inr (0, set_mask reg l h ?D))" for l h
    using inv' by (blast intro: makes_maskI frame_refl)
  show ?thesis
  proof (cases "t = LOGICAL_NOT")
    case True
    with ty obtain T where T: "ctype_of ?t = Some T" by (auto simp: numeric_def null_test_def)
    show ?thesis
    proof (cases "is_const ?t")
      case c: True
      note co = const_operand(1) [OF a c T, of tn]
      show ?thesis using True c T
        by (simp add: unary_code_def logicalNotFunctions_def run_LogicalNotConst_def read_ns [OF p co] n [symmetric] all)
    next
      case False
      note p' = p [unfolded non_const_arg [OF a False]] and n' = n [unfolded non_const_arg [OF a False]]
      from load_operand [OF ok inv' a False T av' C] obtain D lo hi f g where
        L: "LoadCol db T (operand_text tn a) ?D = Inr (0, D)" "frame ?D D" "run_inv ?cs tn i C D"
          "pair_of (d_allocatedPointers D) (operand_text tn a) = (Some (num_register T lo f), Some (num_register T hi g))"
        by blast
      show ?thesis using True False T L(2,3)
        by (auto simp: unary_code_def logicalNotFunctions_def run_LogicalNotCol_def read_ss [OF p'] n' [symmetric]
            L(1) loaded_def fetch_num_pair [OF L(4)] intro!: makes_maskI)
    qed
  next
    case False
    with ty have "\<not> is_const ?t" by simp
    note p' = p [unfolded non_const_arg [OF a this]] and n' = n [unfolded non_const_arg [OF a this]]
    from False show ?thesis by (simp add: unary_code_def run_NullCol_def read_ss [OF p'] n' [symmetric] all)
  qed
qed

section \<open>Programs\<close>

definition kept :: "CpuSqlDispatcher \<Rightarrow> CpuSqlDispatcher \<Rightarrow> bool" where
  "kept d d' \<longleftrightarrow> d_allocatedPointers d \<subseteq>\<^sub>m d_allocatedPointers d' \<and> d_functions d' = d_functions d
    \<and> ms_buffer (d_arguments d') = ms_buffer (d_arguments d)"

lemma kept_refl [simp]: "kept d d" by (simp add: kept_def)

lemma kept_trans: "kept d e \<Longrightarrow> kept e f \<Longrightarrow> kept d f"
  by (auto simp: kept_def intro: map_le_trans)

abbreviation next_ip :: "CpuSqlDispatcher \<Rightarrow> CpuSqlDispatcher" where
  "next_ip d \<equiv> d\<lparr>d_instructionPointer := d_instructionPointer d + 1\<rparr>"

lemma step_mask:
  assumes "makes_mask cs tn i C (after n (next_ip d)) reg (run_function db f (next_ip d))"
    and "pend (after n (next_ip d)) bs" and "front reg = CHR ''$''" and "table_name tn"
  shows "\<exists>d'. run_program db (f # fs) d = run_program db fs d' \<and> run_inv cs tn i C d' \<and> pend d' bs \<and> kept d d'
    \<and> pair_of (d_allocatedPointers d') reg \<noteq> (None, None)"
proof -
  from assms(1) obtain D l h where
    D: "run_function db f (next_ip d) = Inr (0, set_mask reg l h D)" "frame (after n (next_ip d)) D" "run_inv cs tn i C D"
    unfolding makes_mask_def by blast
  note sel = frame_sel [OF D(2)]
  have ok: "regs_ok cs tn i C (d_allocatedPointers (set_mask reg l h D))"
    "pair_of (d_allocatedPointers (set_mask reg l h D)) reg \<noteq> (None, None)"
    using regs_ok_mask [OF _ assms(3,4), of cs i C D l h] D(3) unfolding run_inv_def by blast+
  have "d_allocatedPointers d \<subseteq>\<^sub>m d_allocatedPointers (set_mask reg l h D)"
    using D(2) map_le_trans [OF _ set_result_le] by (simp add: frame_def set_mask_def)
  then have "kept d (set_mask reg l h D)" using sel by (simp add: kept_def set_mask_def)
  moreover have "pend (set_mask reg l h D) bs" using assms(2) sel by (simp add: pend_def set_mask_def)
  moreover have "run_inv cs tn i C (set_mask reg l h D)" using ok(1) D(3) by (simp add: run_inv_def set_mask_def)
  ultimately show ?thesis using D(1) ok(2) by (intro exI [of _ "set_mask reg l h D"]) simp
qed

lemma run_code:
  assumes ok: "clause_ok db tn tab i C" and "run_inv (\<lambda>c. find_column c tab) tn i C d"
    and "typed (\<lambda>c. find_column c tab) e" and "evars e \<subseteq> C"
    and "pend d (concat (map operand_bytes (args tn e)) @ bs)"
  shows "\<exists>d'. run_program db (code (\<lambda>c. find_column c tab) e @ fs) d = run_program db fs d'
    \<and> run_inv (\<lambda>c. find_column c tab) tn i C d' \<and> pend d' bs \<and> kept d d' \<and> avail d' e"
  using assms(2-5)
proof (induction e arbitrary: d bs fs)
  case (BinaryOperation t a b)
  let ?cs = "\<lambda>c. find_column c tab"
  let ?A = "concat (map operand_bytes (args tn a))" and ?B = "concat (map operand_bytes (args tn b))"
  let ?reg = "reg_name (BinaryOperation t a b)" and ?f = "binary_code t (etype ?cs a) (etype ?cs b)"
  let ?ops = "operand_bytes (operand_arg tn a) @ operand_bytes (operand_arg tn b) @ operand_bytes (OString ?reg) @ bs"
  have ty: "typed ?cs a" "typed ?cs b" and C: "evars a \<subseteq> C" "evars b \<subseteq> C"
    using BinaryOperation.prems(2,3) by simp_all
  have p0: "pend d (?A @ ?B @ ?ops)" using BinaryOperation.prems(4) by simp
  from BinaryOperation.IH(1) [OF BinaryOperation.prems(1) ty(1) C(1) p0, of "code ?cs b @ ?f # fs"] obtain d1 where
    1: "run_program db (code ?cs a @ code ?cs b @ ?f # fs) d = run_program db (code ?cs b @ ?f # fs) d1"
      "run_inv ?cs tn i C d1" "pend d1 (?B @ ?ops)" "kept d d1" "avail d1 a" by blast
  from BinaryOperation.IH(2) [OF 1(2) ty(2) C(2) 1(3), of "?f # fs"] obtain d2 where
    2: "run_program db (code ?cs b @ ?f # fs) d1 = run_program db (?f # fs) d2"
      "run_inv ?cs tn i C d2" "pend d2 ?ops" "kept d1 d2" "avail d2 b" by blast
  have av: "avail d2 a" using avail_le [OF 1(5,2)] 2(4) by (simp add: kept_def)
  let ?d = "next_ip d2" and ?n = "arg_length [operand_arg tn a, operand_arg tn b, OString ?reg]"
  have p: "pend ?d ?ops" and inv: "run_inv ?cs tn i C ?d" and av': "avail ?d a" "avail ?d b"
    using 2 av by (simp_all add: pend_def run_inv_def avail_def)
  have "table_name tn" using ok by (simp add: clause_ok_def)
  from step_mask [OF run_binary [OF ok inv BinaryOperation.prems(2) av' C p refl] pend3(4) [OF p] _ this, of fs]
  obtain d3 where 3: "run_program db (?f # fs) d2 = run_program db fs d3" "run_inv ?cs tn i C d3" "pend d3 bs" "kept d2 d3"
      "pair_of (d_allocatedPointers d3) ?reg \<noteq> (None, None)" by (auto simp del: run_program.simps)
  have "kept d d3" using 1(4) 2(4) 3(4) by (blast intro: kept_trans)
  moreover have "avail d3 (BinaryOperation t a b)" using 3(5) by (simp add: avail_def)
  ultimately show ?case using 1(1) 2(1) 3(1-3) by (intro exI [of _ d3]) (simp del: run_program.simps)
next
  case (UnaryOperation t a)
  let ?cs = "\<lambda>c. find_column c tab"
  let ?A = "concat (map operand_bytes (args tn a))"
  let ?reg = "reg_name (UnaryOperation t a)" and ?f = "unary_code t (etype ?cs a)"
  let ?ops = "operand_bytes (operand_arg tn a) @ operand_bytes (OString ?reg) @ bs"
  have ty: "typed ?cs a" and C: "evars a \<subseteq> C" using UnaryOperation.prems(2,3) by simp_all
  have p0: "pend d (?A @ ?ops)" using UnaryOperation.prems(4) by simp
  from UnaryOperation.IH [OF UnaryOperation.prems(1) ty C p0, of "?f # fs"] obtain d1 where
    1: "run_program db (code ?cs a @ ?f # fs) d = run_program db (?f # fs) d1"
      "run_inv ?cs tn i C d1" "pend d1 ?ops" "kept d d1" "avail d1 a" by blast
  let ?d = "next_ip d1"
  have p: "pend ?d ?ops" and inv: "run_inv ?cs tn i C ?d" and av: "avail ?d a"
    using 1 by (simp_all add: pend_def run_inv_def avail_def)
  have "table_name tn" using ok by (simp add: clause_ok_def)
  from step_mask [OF run_unary [OF ok inv UnaryOperation.prems(2) av C p refl] pend2(3) [OF p] _ this, of fs]
  obtain d2 where 2: "run_program db (?f # fs) d1 = run_program db fs d2" "run_inv ?cs tn i C d2" "pend d2 bs" "kept d1 d2"
      "pair_of (d_allocatedPointers d2) ?reg \<noteq> (None, None)" by (auto simp del: run_program.simps)
  have "kept d d2" using 1(4) 2(4) by (blast intro: kept_trans)
  moreover have "avail d2 (UnaryOperation t a)" using 2(5) by (simp add: avail_def)
  ultimately show ?case using 1(1) 2(1-3) by (intro exI [of _ d2]) (simp del: run_program.simps)
qed (auto simp: avail_def)

text \<open>The last function reads the result of the clause.\<close>

lemma run_where_result:
  assumes "pair_of (d_allocatedPointers d) s = (Some (mask_register m f), Some (mask_register n g))"
    and "pend d (operand_bytes (OString s))"
  shows "run_program db [WhereResultCol Int8T] d =
    Inr ((after (length (string_bytes s)) (next_ip d))\<lparr>d_whereResult := of_bool (m \<or> f \<or> n \<or> g)\<rparr>)"
proof -
  let ?D = "after (length (string_bytes s)) (next_ip d)"
  have p: "pend (next_ip d) (string_bytes s @ [])" using assms(2) by (simp add: pend_def)
  have ft: "fetch_num Int8T s ?D = Inr ((NInt (of_bool m), f), (NInt (of_bool n), g))"
    using assms(1) by (intro fetch_num_pair) (simp add: mask_register_def)
  have long: "to_long (NInt (of_bool q)) = Inr (of_bool q)" for q
    by (simp add: to_long_def signed_take_bit_int_eq_self)
  have "run_function db (WhereResultCol Int8T) (next_ip d) = Inr (1, ?D\<lparr>d_whereResult := of_bool (m \<or> f \<or> n \<or> g)\<rparr>)"
    unfolding run_function.simps run_WhereResultCol_def read_string_pend [OF p] ft bindR.simps prod.case fst_conv snd_conv long
    by (cases f; cases g) simp_all
  then show ?thesis unfolding run_program.simps by simp
qed

text \<open>A program that is ready for a block is ready for the next one after it ran.\<close>

lemma ready_start:
  assumes "clause_ok db tn tab i (evars e)" and "ready cs tn e d"
    and "length (concat (map operand_bytes (where_args tn e))) < 2 ^ 31"
  shows "run_inv cs tn i (evars e) (d\<lparr>d_blockIndex := i\<rparr>)"
    and "pend (d\<lparr>d_blockIndex := i\<rparr>) (concat (map operand_bytes (args tn e)) @ operand_bytes (OString (operand_text tn e)))"
  using assms by (auto simp: ready_def run_inv_def regs_ok_def pair_of_def column_entry_def mask_entry_def
      pend_def stream_ok_def to_read_def where_args_def)

lemma Execute_masks:
  assumes r: "ready cs tn e d" and op: "operator e"
    and run: "run_program db (code cs e @ [WhereResultCol Int8T]) (d\<lparr>d_blockIndex := i\<rparr>) = run_program db [WhereResultCol Int8T] D"
    and D: "pend D (operand_bytes (OString (operand_text tn e)))" "kept (d\<lparr>d_blockIndex := i\<rparr>) D"
    and mm: "pair_of (d_allocatedPointers D) (reg_name e) = (Some (mask_register m f), Some (mask_register n g))"
  shows "\<exists>d'. Execute db i d = Inr (of_bool (m \<or> f \<or> n \<or> g), d') \<and> ready cs tn e d'"
proof -
  have tx: "operand_text tn e = reg_name e" "etype cs e = COLUMN_INT8_T" using op by (cases e; simp)+
  have pr: "drop (d_instructionPointer d) (d_functions d) = code cs e @ [WhereResultCol Int8T]"
    using r tx(2) by (simp add: ready_def where_program_def whereResultFunctions_def
        is_const_def less_DataType_def DataType_value_def DataType_enum_def)
  let ?E = "(after (length (string_bytes (reg_name e))) (next_ip D))\<lparr>d_whereResult := of_bool (m \<or> f \<or> n \<or> g)\<rparr>"
  let ?d = "?E\<lparr>d_instructionPointer := 0, d_arguments := Reset (d_arguments ?E), d_allocatedPointers := Map.empty\<rparr>"
  have "Execute db i d = Inr (of_bool (m \<or> f \<or> n \<or> g), ?d)"
    unfolding Execute_def pr run run_where_result [OF mm D(1) [unfolded tx(1)]] by simp
  moreover have "ready cs tn e ?d" using r D(2) by (simp add: ready_def kept_def Reset_def)
  ultimately show ?thesis by blast
qed

lemma Execute_typed:
  assumes ok: "clause_ok db tn tab i (evars e)" and ty: "typed (\<lambda>c. find_column c tab) e" "operator e"
    and r: "ready (\<lambda>c. find_column c tab) tn e d"
    and len: "length (concat (map operand_bytes (where_args tn e))) < 2 ^ 31"
  shows "\<exists>q d'. Execute db i d = Inr (of_bool q, d') \<and> ready (\<lambda>c. find_column c tab) tn e d'"
proof -
  let ?cs = "\<lambda>c. find_column c tab"
  note st = ready_start [OF ok r len]
  from run_code [OF ok st(1) ty(1) _ st(2), of "[WhereResultCol Int8T]"] obtain D where
    D: "run_program db (code ?cs e @ [WhereResultCol Int8T]) (d\<lparr>d_blockIndex := i\<rparr>) = run_program db [WhereResultCol Int8T] D"
      "run_inv ?cs tn i (evars e) D" "pend D (operand_bytes (OString (operand_text tn e)))"
      "kept (d\<lparr>d_blockIndex := i\<rparr>) D" "avail D e" by auto
  from operator_Int8 [OF D(2,5) ty(2)] obtain m f n g where
    "pair_of (d_allocatedPointers D) (reg_name e) = (Some (mask_register m f), Some (mask_register n g))" by auto
  from Execute_masks [OF r ty(2) D(1,3,4) this] show ?thesis by blast
qed

text \<open>A table with one integer column of one block, with the rows 7 and 3.\<close>

definition sample_table :: table where
  "sample_table = (Table_new 4 0 ''T'' 4)\<lparr>t_columns := [(''a'', ColInt (sample_column\<lparr>c_blocks := [(- 1, [sample_block])]\<rparr>))]\<rparr>"

lemma sample_table:
  "find_column ''a'' sample_table = Some (ColInt (sample_column\<lparr>c_blocks := [(- 1, [sample_block])]\<rparr>))"
  "GetBlocksList (sample_column\<lparr>c_blocks := [(- 1, [sample_block])]\<rparr>) = [sample_block]"
  by (simp_all add: sample_table_def find_column_def GetBlocksList_def)

lemma sample_block_count: "ic_blockCount (ColInt (sample_column\<lparr>c_blocks := [(- 1, [sample_block])]\<rparr>)) = 1"
  by (simp add: block_count sample_table(2))

definition sample_clause :: expr where
  "sample_clause = BinaryOperation GREATER (VarReference None ''a'') (IntLiteral ''5'')"

lemma sample_clause:
  "table_name ''T''" "evars sample_clause = {''a''}" "suffix_free {''a''}" "typed (\<lambda>c. find_column c sample_table) sample_clause"
  "operator sample_clause" "length (concat (map operand_bytes (where_args ''T'' sample_clause))) < 2 ^ 31"
proof -
  show "table_name ''T''" by code_simp
  show "evars sample_clause = {''a''}" "operator sample_clause" by (simp_all add: sample_clause_def)
  show "suffix_free {''a''}" by (simp add: suffix_free_def)
  have "IsLong ''5'' = Inr False" by code_simp
  then show "typed (\<lambda>c. find_column c sample_table) sample_clause"
    by (simp add: sample_clause_def sample_table(1) comparison_def comparable_def numeric_def plain_text_def front_def
        GetColumnType_def TrimDelimitedIdentifier_def is_const_def floating_def less_DataType_def DataType_value_def DataType_enum_def)
  have "length (concat (map operand_bytes (where_args ''T'' sample_clause))) < 100" by code_simp
  then show "length (concat (map operand_bytes (where_args ''T'' sample_clause))) < 2 ^ 31" by (rule order_less_trans) simp
qed



end
