(* ===== verification/Where_Sound.thy ===== *)
theory Where_Sound
  imports Where_Types
begin

text \<open>
  What the evaluation on the CPU is for: a block it lets the query skip has no row that satisfies
  the WHERE clause. The clauses are comparisons of an integer column with an integer literal to
  its right or with another integer column, null tests of integer columns, and their conjunctions
  and disjunctions. A literal to the left of a column is a different matter: there the operands are
  compared in the wrong order, and blocks whose rows satisfy the clause are skipped.
\<close>

section \<open>The rows of a block and the meaning of a clause\<close>

definition block_rows :: "'a column \<Rightarrow> nat \<Rightarrow> 'a option list" where
  "block_rows c i = (if i < length (GetBlocksList c) then rows (GetBlocksList c ! i) else [])"

fun int_rows :: "icolumn \<Rightarrow> nat \<Rightarrow> int option list" where
  "int_rows (ColInt c) i = map (map_option sint) (block_rows c i)"
| "int_rows (ColLong c) i = map (map_option sint) (block_rows c i)"
| "int_rows (ColInt8 c) i = map (map_option sint) (block_rows c i)"
| "int_rows _ i = []"

fun int_column :: "icolumn \<Rightarrow> bool" where
  "int_column (ColInt c) = True" | "int_column (ColLong c) = True" | "int_column (ColInt8 c) = True"
| "int_column _ = False"

definition cell_value :: "columns \<Rightarrow> nat \<Rightarrow> nat \<Rightarrow> string \<Rightarrow> int option" where
  "cell_value cs i j c =
    (case cs c of None \<Rightarrow> None
     | Some ic \<Rightarrow> if j < length (int_rows ic i) then int_rows ic i ! j else None)"

fun value_at :: "columns \<Rightarrow> nat \<Rightarrow> nat \<Rightarrow> expr \<Rightarrow> int option" where
  "value_at cs i j (VarReference t c) = cell_value cs i j c"
| "value_at cs i j (IntLiteral s) = Some (int_of_text s)"
| "value_at cs i j _ = None"

fun int_compare :: "Token \<Rightarrow> int \<Rightarrow> int \<Rightarrow> bool" where
  "int_compare GREATER x y = (x > y)" | "int_compare LESS x y = (x < y)"
| "int_compare GREATEREQ x y = (x \<ge> y)" | "int_compare LESSEQ x y = (x \<le> y)"
| "int_compare EQUALS x y = (x = y)" | "int_compare NOTEQUALS x y = (x \<noteq> y)"
| "int_compare NOTEQUALS_GT_LT x y = (x \<noteq> y)" | "int_compare _ x y = False"

text \<open>A comparison with a null does not hold.\<close>

fun holds :: "columns \<Rightarrow> nat \<Rightarrow> nat \<Rightarrow> expr \<Rightarrow> bool" where
  "holds cs i j (BinaryOperation t a b) =
    (if t = AND_T then holds cs i j a \<and> holds cs i j b
     else if t = OR_T then holds cs i j a \<or> holds cs i j b
     else (case (value_at cs i j a, value_at cs i j b) of
         (Some x, Some y) \<Rightarrow> int_compare t x y | _ \<Rightarrow> False))"
| "holds cs i j (UnaryOperation t a) = (if t = NULL_T then value_at cs i j a = None else value_at cs i j a \<noteq> None)"
| "holds cs i j _ = False"

fun int_var :: "columns \<Rightarrow> expr \<Rightarrow> bool" where
  "int_var cs (VarReference t c) = (case cs c of Some ic \<Rightarrow> int_column ic | None \<Rightarrow> False)"
| "int_var cs _ = False"

fun literal :: "expr \<Rightarrow> bool" where
  "literal (IntLiteral s) = True" | "literal _ = False"

fun skippable :: "columns \<Rightarrow> expr \<Rightarrow> bool" where
  "skippable cs (BinaryOperation t a b) =
    (connective t \<and> skippable cs a \<and> skippable cs b
     \<or> t \<in> {GREATER, LESS, GREATEREQ, LESSEQ, EQUALS} \<and> int_var cs a \<and> literal b
     \<or> comparison t \<and> int_var cs a \<and> int_var cs b)"
| "skippable cs (UnaryOperation t a) = (null_test t \<and> int_var cs a)"
| "skippable cs _ = False"

text \<open>
  The clauses that have a register. Its name leaves parentheses out, and a register that is
  written twice keeps its first value, so different clauses have to differ in their text.
\<close>

fun clauses :: "expr \<Rightarrow> expr list" where
  "clauses (BinaryOperation t a b) = BinaryOperation t a b # (if connective t then clauses a @ clauses b else [])"
| "clauses (UnaryOperation t a) = [UnaryOperation t a]"
| "clauses _ = []"

definition unambiguous :: "expr \<Rightarrow> bool" where
  "unambiguous e \<longleftrightarrow> (\<forall>f\<in>set (clauses e). \<forall>g\<in>set (clauses e). expr_text f = expr_text g \<longrightarrow> f = g)"

text \<open>The statistics of the block bound its rows.\<close>

definition bounds_sound :: "icolumn \<Rightarrow> nat \<Rightarrow> bool" where
  "bounds_sound ic i \<longleftrightarrow>
    (case ic of
       ColInt c \<Rightarrow> \<forall>b. block_at c i = Inr b \<longrightarrow> stats_sound (elem_int32 0) b
     | ColLong c \<Rightarrow> \<forall>b. block_at c i = Inr b \<longrightarrow> stats_sound (elem_int64 0) b
     | ColInt8 c \<Rightarrow> \<forall>b. block_at c i = Inr b \<longrightarrow> stats_sound (elem_int8 0) b
     | _ \<Rightarrow> True)"

definition bounds_ok :: "columns \<Rightarrow> nat \<Rightarrow> string set \<Rightarrow> bool" where
  "bounds_ok cs i C \<longleftrightarrow> (\<forall>c\<in>C. \<forall>ic. cs c = Some ic \<longrightarrow> bounds_sound ic i)"

lemma Some_map_option: "Some x \<in> map_option f ` A \<longleftrightarrow> (\<exists>y. Some y \<in> A \<and> x = f y)"
proof
  assume "Some x \<in> map_option f ` A"
  then obtain z where "z \<in> A" "Some x = map_option f z" by blast
  then show "\<exists>y. Some y \<in> A \<and> x = f y" by (cases z) auto
qed force

lemma int_bounds:
  assumes "int_column ic" and "ctype_of (GetColumnType ic) = Some T"
    and "GetBlockMin T ic i = Inr lo" and "GetBlockMax T ic i = Inr hi" and "bounds_sound ic i"
  shows "\<exists>l h. lo = NInt l \<and> hi = NInt h \<and> (\<forall>x. Some x \<in> set (int_rows ic i) \<longrightarrow> l \<le> x \<and> x \<le> h)"
  using assms
  by (cases ic) (auto simp: GetColumnType_def GetBlockMin_def GetBlockMax_def block_at_def bounds_sound_def
      block_rows_def stats_sound_def between_def elem_defs sless_def word_sless_alt word_sle_def not_less
      Some_map_option split: if_splits)

section \<open>Functions\<close>

text \<open>A function that stores a truth value in \<open>reg\<close>, true if \<open>q\<close>, and changes no other result.\<close>

definition marks ::
  "columns \<Rightarrow> string \<Rightarrow> nat \<Rightarrow> string set \<Rightarrow> CpuSqlDispatcher \<Rightarrow> string \<Rightarrow> bool \<Rightarrow> (int \<times> CpuSqlDispatcher) result \<Rightarrow> bool" where
  "marks cs tn i C d reg q r \<longleftrightarrow>
    (\<exists>D l h. r = Inr (0, set_mask reg l h D) \<and> frame d D \<and> run_inv cs tn i C D
      \<and> (\<forall>s. front s = CHR ''$'' \<longrightarrow> pair_of (d_allocatedPointers D) s = pair_of (d_allocatedPointers d) s)
      \<and> (q \<longrightarrow> fst l \<or> fst h))"

lemma marksI:
  assumes "r = Inr (0, set_mask reg l h D)" and "frame d D" and "run_inv cs tn i C D"
    and "\<And>s. front s = CHR ''$'' \<Longrightarrow> pair_of (d_allocatedPointers D) s = pair_of (d_allocatedPointers d) s"
    and "q \<Longrightarrow> fst l \<or> fst h"
  shows "marks cs tn i C d reg q r"
  unfolding marks_def using assms by blast

lemma LoadCol_masks:
  assumes "LoadCol db T (column_name tn c) d = Inr (0, D)" and "table_name tn" and "front s = CHR ''$''"
  shows "pair_of (d_allocatedPointers D) s = pair_of (d_allocatedPointers d) s"
proof -
  have s: "s \<noteq> column_name tn c" using assms(2,3) by (auto simp: table_name_def)
  show ?thesis
  proof (cases "to_load (column_name tn c) d")
    case True
    with assms(1) obtain lo hi where "D = set_result (column_name tn c) lo hi d"
      by (cases "named_column db (column_name tn c)";
          cases "GetBlockMin T (projr (named_column db (column_name tn c))) (d_blockIndex d)";
          cases "GetBlockMax T (projr (named_column db (column_name tn c))) (d_blockIndex d)")
        (auto simp: LoadCol_def split: if_splits)
    with s show ?thesis by (simp add: pair_set_result_other)
  qed (use assms(1) in \<open>simp add: LoadCol_def\<close>)
qed

text \<open>Integers are compared as they are.\<close>

lemma num_le_int [simp]: "num_le (NInt x) (NInt y) \<longleftrightarrow> x \<le> y"
  by (auto simp: num_le_def)

lemma filter_bounds_sound:
  assumes "has_type T (NInt l)" and "has_type T (NInt h)" and "has_type U (NInt k)"
    and "f \<in> {Greater, Less, GreaterEqual, LessEqual, Equal}"
  shows "\<exists>m n. filter_bounds f T U (NInt l) (NInt h) (NInt k) = Inr (m, n)
    \<and> (\<forall>x. l \<le> x \<and> x \<le> h \<and> apply_filter f (NInt x) (NInt k) \<longrightarrow> m \<or> n)"
  using assms(4) call_filter_typed [OF assms(1,3), of f] call_filter_typed [OF assms(2,3), of f]
  by (auto simp: filter_bounds_def Let_def)

fun filter_of :: "Token \<Rightarrow> FilterConditions" where
  "filter_of GREATER = Greater" | "filter_of LESS = Less" | "filter_of GREATEREQ = GreaterEqual"
| "filter_of LESSEQ = LessEqual" | "filter_of EQUALS = Equal" | "filter_of NOTEQUALS = NotEqual"
| "filter_of NOTEQUALS_GT_LT = NotEqual" | "filter_of AND_T = LogicalAnd" | "filter_of _ = LogicalOr"

lemma int_filter: "comparison t \<Longrightarrow> apply_filter (filter_of t) (NInt x) (NInt y) = int_compare t x y"
  by (cases t) (auto simp: comparison_def)

lemma code_comparison:
  assumes "comparison t" and "ctype_of l = Some T" and "ctype_of r = Some U"
  shows "binary_code t l r = by_sides l r (filterConstConst (filter_of t) T U) (FilterConstCol (filter_of t) T U)
    (FilterColConst (filter_of t) T U) (filterColCol (filter_of t) T U)"
  using assms by (cases t) (simp_all add: comparison_def binary_code_def table_defs)

lemma code_connective:
  assumes "connective t"
  shows "binary_code t COLUMN_INT8_T COLUMN_INT8_T = LogicalColCol (filter_of t) Int8T Int8T"
  using assms by (auto simp: connective_def binary_code_def table_defs by_sides_def is_const_def less_DataType_def
      DataType_value_def DataType_enum_def)

lemma literal_operand:
  assumes "typed cs b" and "literal b" and "ctype_of (etype cs b) = Some U"
  shows "is_const (etype cs b)" and "type_of (operand_arg tn b) = operand_type U"
    and "\<exists>k. operand_num (operand_arg tn b) = NInt k \<and> has_type U (NInt k) \<and> (\<forall>i j. value_at cs i j b = Some k)"
proof -
  from assms(2) obtain s where b: "b = IntLiteral s" by (cases b) auto
  show c: "is_const (etype cs b)" using b
    by (simp add: is_const_def less_DataType_def DataType_value_def DataType_enum_def)
  show "type_of (operand_arg tn b) = operand_type U" by (rule const_operand(1) [OF assms(1) c assms(3)])
  show "\<exists>k. operand_num (operand_arg tn b) = NInt k \<and> has_type U (NInt k) \<and> (\<forall>i j. value_at cs i j b = Some k)"
    using int_literal_value(1) [of cs s tn] const_operand(2) [OF assms(1) c assms(3), of tn] assms(1) b by auto
qed

lemma cell_value_in_rows:
  "cell_value cs i j c = Some x \<Longrightarrow> \<exists>ic. cs c = Some ic \<and> Some x \<in> set (int_rows ic i)"
  by (auto simp: cell_value_def split: option.splits if_splits) (metis nth_mem)

lemma int_var_column:
  assumes "int_var cs e" and "typed cs e"
  obtains c ic T where "e = VarReference None c" "cs c = Some ic" "int_column ic" "etype cs e = GetColumnType ic"
    "ctype_of (GetColumnType ic) = Some T" "\<not> is_const (GetColumnType ic)"
proof -
  from assms obtain c ic where c: "e = VarReference None c" "cs c = Some ic" "int_column ic"
    by (cases e) (auto split: option.splits)
  moreover have "\<exists>T. ctype_of (GetColumnType ic) = Some T" "\<not> is_const (GetColumnType ic)"
    using c(3) by (cases ic; simp add: GetColumnType_def is_const_def less_DataType_def DataType_value_def DataType_enum_def)+
  ultimately show thesis using that by auto
qed

text \<open>An integer column and a literal.\<close>

lemma marks_col_const:
  assumes ok: "clause_ok db tn tab i C" and inv: "run_inv (\<lambda>c. find_column c tab) tn i C d"
    and ty: "typed (\<lambda>c. find_column c tab) a" "typed (\<lambda>c. find_column c tab) b" and C: "evars a \<subseteq> C"
    and bounds: "bounds_ok (\<lambda>c. find_column c tab) i C"
    and t: "t \<in> {GREATER, LESS, GREATEREQ, LESSEQ, EQUALS}" and ab: "int_var (\<lambda>c. find_column c tab) a" "literal b"
    and p: "pend d (operand_bytes (operand_arg tn a) @ operand_bytes (operand_arg tn b) @ operand_bytes (OString reg) @ bs)"
    and n: "n = arg_length [operand_arg tn a, operand_arg tn b, OString reg]"
  shows "marks (\<lambda>c. find_column c tab) tn i C (after n d) reg
    (\<exists>j. holds (\<lambda>c. find_column c tab) i j (BinaryOperation t a b))
    (run_function db (binary_code t (etype (\<lambda>c. find_column c tab) a) (etype (\<lambda>c. find_column c tab) b)) d)"
proof -
  let ?cs = "\<lambda>c. find_column c tab"
  obtain c ic T where a: "a = VarReference None c" "?cs c = Some ic" "int_column ic" "etype ?cs a = GetColumnType ic"
    "ctype_of (GetColumnType ic) = Some T" "\<not> is_const (GetColumnType ic)"
    by (rule int_var_column [OF ab(1) ty(1)]) blast
  obtain s where s: "b = IntLiteral s" using ab(2) by (cases b) auto
  then obtain U where U: "ctype_of (etype ?cs b) = Some U" by (cases "IsLong s = Inr True") auto
  note lit = literal_operand(1) [OF ty(2) ab(2) U] literal_operand(2,3) [OF ty(2) ab(2) U, of tn]
  from lit(3) obtain k where k: "operand_num (operand_arg tn b) = NInt k" "has_type U (NInt k)"
    "\<And>i j. value_at ?cs i j b = Some k" by blast
  have t': "comparison t" "filter_of t \<in> {Greater, Less, GreaterEqual, LessEqual, Equal}"
    "t \<noteq> AND_T" "t \<noteq> OR_T" using t by (auto simp: comparison_def)
  have c: "c \<in> C" using C a(1) by simp
  have inv': "run_inv ?cs tn i C (after n d)" using inv by (simp add: run_inv_def)
  from load_column [OF ok inv' c a(2,5)] obtain D lo hi where
    L: "LoadCol db T (column_name tn c) (after n d) = Inr (0, D)" "frame (after n d) D" "run_inv ?cs tn i C D"
      "pair_of (d_allocatedPointers D) (column_name tn c) = (Some (num_register T lo False), Some (num_register T hi False))"
      "GetBlockMin T ic i = Inr lo" "GetBlockMax T ic i = Inr hi" by blast
  have "bounds_sound ic i" using bounds c a(2) by (auto simp: bounds_ok_def)
  from int_bounds [OF a(3,5) L(5,6) this] obtain l h where
    lh: "lo = NInt l" "hi = NInt h" "\<And>x. Some x \<in> set (int_rows ic i) \<Longrightarrow> l \<le> x \<and> x \<le> h" by blast
  have "has_type T (NInt l)" "has_type T (NInt h)"
    using block_bounds_typed(1) [OF L(5)] block_bounds_typed(2) [OF L(6)] lh(1,2) by simp_all
  from filter_bounds_sound [OF this k(2) t'(2)] obtain m m' where
    fb: "filter_bounds (filter_of t) T U (NInt l) (NInt h) (NInt k) = Inr (m, m')"
      "\<And>x. l \<le> x \<Longrightarrow> x \<le> h \<Longrightarrow> apply_filter (filter_of t) (NInt x) (NInt k) \<Longrightarrow> m \<or> m'" by blast
  have sound: "m \<or> m'" if "holds ?cs i j (BinaryOperation t a b)" for j
  proof -
    from that t'(3,4) k(3) a(1) obtain x where x: "cell_value ?cs i j c = Some x" "int_compare t x k"
      by (auto split: option.splits)
    from cell_value_in_rows [OF x(1)] a(2) lh(3) fb(2) x(2) int_filter [OF t'(1)] show ?thesis by auto
  qed
  have code: "binary_code t (etype ?cs a) (etype ?cs b) = FilterColConst (filter_of t) T U"
    using code_comparison [OF t'(1) _ U, of "etype ?cs a" T] a(4-6) lit(1) by (simp add: by_sides_def)
  have tn: "table_name tn" using ok by (simp add: clause_ok_def)
  have p': "pend d (operand_bytes (OString (column_name tn c)) @ operand_bytes (operand_arg tn b) @ operand_bytes (OString reg) @ bs)"
    using p a(1) by simp
  have n': "n = arg_length [OString (column_name tn c), operand_arg tn b, OString reg]" using n a(1) by simp
  have "run_FilterColConst db (filter_of t) T U d = Inr (0, set_mask reg (m, False) (m', False) D)"
    unfolding run_FilterColConst_def read_sns [OF p' lit(2)] n' [symmetric] L(1)
    by (simp add: loaded_def fetch_num_pair [OF L(4)] k(1) lh(1,2) fb(1))
  from marksI [OF this L(2,3)] LoadCol_masks [OF L(1) tn] sound show ?thesis
    unfolding code run_function.simps by fastforce
qed

text \<open>Two columns and null tests: the result is always true.\<close>

lemma not_reg_column: "table_name tn \<Longrightarrow> \<not> is_reg (column_name tn c)"
  by (simp add: is_reg_def) (simp add: table_name_def)

lemma marks_true:
  assumes "run_inv cs tn i C d" and "r = Inr (0, set_mask reg (True, True) (True, True) d)"
  shows "marks cs tn i C d reg q r"
  using assms by (intro marksI) auto

lemma marks_col_col:
  assumes tn: "table_name tn" and inv: "run_inv (\<lambda>c. find_column c tab) tn i C d"
    and ty: "typed (\<lambda>c. find_column c tab) a" "typed (\<lambda>c. find_column c tab) b"
    and t: "comparison t" and ab: "int_var (\<lambda>c. find_column c tab) a" "int_var (\<lambda>c. find_column c tab) b"
    and p: "pend d (operand_bytes (operand_arg tn a) @ operand_bytes (operand_arg tn b) @ operand_bytes (OString reg) @ bs)"
    and n: "n = arg_length [operand_arg tn a, operand_arg tn b, OString reg]"
  shows "marks (\<lambda>c. find_column c tab) tn i C (after n d) reg q
    (run_function db (binary_code t (etype (\<lambda>c. find_column c tab) a) (etype (\<lambda>c. find_column c tab) b)) d)"
proof -
  let ?cs = "\<lambda>c. find_column c tab"
  obtain c ic T where a: "a = VarReference None c" "etype ?cs a = GetColumnType ic"
    "ctype_of (GetColumnType ic) = Some T" "\<not> is_const (GetColumnType ic)"
    by (rule int_var_column [OF ab(1) ty(1)]) blast
  obtain c' ic' U where b: "b = VarReference None c'" "etype ?cs b = GetColumnType ic'"
    "ctype_of (GetColumnType ic') = Some U" "\<not> is_const (GetColumnType ic')"
    by (rule int_var_column [OF ab(2) ty(2)]) blast
  have code: "binary_code t (etype ?cs a) (etype ?cs b) = filterColCol (filter_of t) T U"
    using code_comparison [OF t, of "etype ?cs a" T "etype ?cs b" U] a b by (simp add: by_sides_def)
  have p': "pend d (operand_bytes (OString (column_name tn c)) @ operand_bytes (OString (column_name tn c')) @ operand_bytes (OString reg) @ bs)"
    using p a(1) b(1) by simp
  show ?thesis
    unfolding code run_function.simps run_filterColCol_def read_sss [OF p']
    using inv n a(1) b(1) by (intro marks_true) (simp_all add: run_inv_def not_reg_column [OF tn])
qed

lemma marks_null:
  assumes inv: "run_inv (\<lambda>c. find_column c tab) tn i C d"
    and ty: "typed (\<lambda>c. find_column c tab) a" and t: "null_test t" and a: "int_var (\<lambda>c. find_column c tab) a"
    and p: "pend d (operand_bytes (operand_arg tn a) @ operand_bytes (OString reg) @ bs)"
    and n: "n = arg_length [operand_arg tn a, OString reg]"
  shows "marks (\<lambda>c. find_column c tab) tn i C (after n d) reg q
    (run_function db (unary_code t (etype (\<lambda>c. find_column c tab) a)) d)"
proof -
  obtain c where a: "a = VarReference None c" by (rule int_var_column [OF a ty]) blast
  have p': "pend d (operand_bytes (OString (column_name tn c)) @ operand_bytes (OString reg) @ bs)" using p a by simp
  have "unary_code t (etype (\<lambda>c. find_column c tab) a) = NullCol" using t by (auto simp: unary_code_def null_test_def)
  then show ?thesis using inv n a
    by (intro marks_true) (simp_all add: run_inv_def run_NullCol_def read_ss [OF p'])
qed

text \<open>Connectives of two results.\<close>

lemma mask_filter: "connective t \<Longrightarrow> call_filter (filter_of t) Int8T Int8T (NInt (of_bool x)) (NInt (of_bool y)) =
    Inr (if t = AND_T then x \<and> y else x \<or> y)"
  by (auto simp: connective_def call_filter_def num_true_def)

lemma marks_connective:
  assumes inv: "run_inv cs tn i C d" and t: "connective t" and op: "operator a" "operator b"
    and a: "pair_of (d_allocatedPointers d) (reg_name a) = (Some (mask_register m f), Some (mask_register m' f'))"
    and b: "pair_of (d_allocatedPointers d) (reg_name b) = (Some (mask_register n g), Some (mask_register n' g'))"
    and q: "q \<Longrightarrow> (if t = AND_T then (m \<or> m') \<and> (n \<or> n') else (m \<or> m') \<or> (n \<or> n'))"
    and p: "pend d (operand_bytes (operand_arg tn a) @ operand_bytes (operand_arg tn b) @ operand_bytes (OString reg) @ bs)"
    and k: "k = arg_length [operand_arg tn a, operand_arg tn b, OString reg]"
  shows "marks cs tn i C (after k d) reg q (run_function db (binary_code t (etype cs a) (etype cs b)) d)"
proof -
  let ?D = "after k d"
  have tx: "etype cs a = COLUMN_INT8_T" "etype cs b = COLUMN_INT8_T"
    "operand_arg tn a = OString (reg_name a)" "operand_arg tn b = OString (reg_name b)"
    using op by (cases a; cases b; simp)+
  note p' = p [unfolded tx(3,4)] and k' = k [unfolded tx(3,4)]
  have ld: "LoadCol db Int8T (reg_name e) ?D = Inr (0, ?D)" for e by (simp add: LoadCol_def to_load_def)
  have ft: "fetch (reg_name a) ?D = Inr (mask_register m f, mask_register m' f')"
      "fetch (reg_name b) ?D = Inr (mask_register n g, mask_register n' g')"
    using fetch_pair a b by simp_all
  let ?v = "if t = AND_T then (m \<or> m') \<and> (n \<or> n') else (m \<or> m') \<or> (n \<or> n')"
  have "run_LogicalColCol db (filter_of t) Int8T Int8T d = Inr (0, set_mask reg (?v, False) (?v, False) ?D)"
    unfolding run_LogicalColCol_def read_sss [OF p'] k' [symmetric]
    by (simp only: ld ft loaded_def bindR.simps prod.case is_reg_def front_reg_name not_True_eq_False if_False simp_thms
        mask_register_def either_mask mask_filter [OF t])
  moreover have "run_inv cs tn i C ?D" using inv by (simp add: run_inv_def)
  ultimately show ?thesis
    unfolding tx(1,2) code_connective [OF t] run_function.simps
    by (rule marksI [OF _ frame_refl]) (use q in simp_all)
qed

section \<open>Programs\<close>

text \<open>A register of a clause is true when some row of the block satisfies the clause.\<close>

definition sound_regs :: "columns \<Rightarrow> nat \<Rightarrow> expr set \<Rightarrow> (string \<rightharpoonup> register) \<Rightarrow> bool" where
  "sound_regs cs i S r \<longleftrightarrow>
    (\<forall>e\<in>S. \<forall>m f n g. pair_of r (reg_name e) = (Some (mask_register m f), Some (mask_register n g)) \<longrightarrow>
      (\<exists>j. holds cs i j e) \<longrightarrow> m \<or> n)"

lemma step_marks:
  assumes "marks cs tn i C (after k (next_ip d)) (reg_name e) (\<exists>j. holds cs i j e) (run_function db fn (next_ip d))"
    and "pend (after k (next_ip d)) bs" and "table_name tn" and "run_inv cs tn i C d"
    and "sound_regs cs i S (d_allocatedPointers d)" and "\<And>f. f \<in> S \<Longrightarrow> expr_text f = expr_text e \<Longrightarrow> f = e"
  shows "\<exists>d'. run_program db (fn # fs) d = run_program db fs d' \<and> run_inv cs tn i C d' \<and> pend d' bs \<and> kept d d'
    \<and> sound_regs cs i S (d_allocatedPointers d') \<and> pair_of (d_allocatedPointers d') (reg_name e) \<noteq> (None, None)"
proof -
  from assms(1) obtain D l h where
    D: "run_function db fn (next_ip d) = Inr (0, set_mask (reg_name e) l h D)" "frame (after k (next_ip d)) D" "run_inv cs tn i C D"
    and same: "\<And>s. front s = CHR ''$'' \<Longrightarrow> pair_of (d_allocatedPointers D) s = pair_of (d_allocatedPointers d) s"
    and q: "\<And>j. holds cs i j e \<Longrightarrow> fst l \<or> fst h"
    unfolding marks_def by auto
  let ?d = "set_mask (reg_name e) l h D"
  note sel = frame_sel [OF D(2)]
  have ok: "regs_ok cs tn i C (d_allocatedPointers ?d)" "pair_of (d_allocatedPointers ?d) (reg_name e) \<noteq> (None, None)"
    using regs_ok_mask [OF _ front_reg_name assms(3), of cs i C D e l h] D(3) unfolding run_inv_def by blast+
  have "d_allocatedPointers d \<subseteq>\<^sub>m d_allocatedPointers ?d"
    using D(2) map_le_trans [OF _ set_result_le] by (simp add: frame_def set_mask_def)
  then have "kept d ?d" using sel by (simp add: kept_def set_mask_def)
  moreover have "pend ?d bs" using assms(2) sel by (simp add: pend_def set_mask_def)
  moreover have "run_inv cs tn i C ?d" using ok(1) D(3) by (simp add: run_inv_def set_mask_def)
  moreover have "sound_regs cs i S (d_allocatedPointers ?d)"
    unfolding sound_regs_def
  proof (intro ballI allI impI)
    fix f m x n y assume f: "f \<in> S" "\<exists>j. holds cs i j f"
      and r: "pair_of (d_allocatedPointers ?d) (reg_name f) = (Some (mask_register m x), Some (mask_register n y))"
    show "m \<or> n"
    proof (cases "reg_name f = reg_name e \<and> pair_of (d_allocatedPointers D) (reg_name e) = (None, None)")
      case True
      with assms(6) [OF f(1)] have "f = e" by (simp add: reg_name_def)
      with True r pair_set_result_new [of D "reg_name e"] q f(2) show ?thesis
        by (auto simp: set_mask_def mask_register_def num_register_def)
    next
      case False
      have me: "mask_entry (pair_of (d_allocatedPointers D) (reg_name f))" using D(3) by (simp add: run_inv_def regs_ok_def)
      have "pair_of (d_allocatedPointers ?d) (reg_name f) = pair_of (d_allocatedPointers D) (reg_name f)"
      proof (cases "reg_name f = reg_name e")
        case True
        with False me obtain u v where "pair_of (d_allocatedPointers D) (reg_name e) = (Some u, Some v)"
          by (auto simp: mask_entry_def)
        from pair_set_result_old [OF this] this True show ?thesis by (simp add: set_mask_def)
      qed (simp add: set_mask_def pair_set_result_other)
      with r have "pair_of (d_allocatedPointers D) (reg_name f) = (Some (mask_register m x), Some (mask_register n y))" by simp
      with assms(5) f show ?thesis unfolding sound_regs_def same [OF front_reg_name] by blast
    qed
  qed
  ultimately show ?thesis using D(1) ok(2) by (intro exI [of _ ?d]) simp
qed

lemma skippable_operator: "skippable cs e \<Longrightarrow> operator e" by (cases e) simp_all

lemma clauses_self: "operator e \<Longrightarrow> e \<in> set (clauses e)" by (cases e) simp_all

text \<open>The result of a clause that was evaluated.\<close>

lemma sound_result:
  assumes "sound_regs cs i S (d_allocatedPointers d)" and "run_inv cs tn i C d" and "e \<in> S"
    and "pair_of (d_allocatedPointers d) (reg_name e) \<noteq> (None, None)"
  obtains m f n g where "pair_of (d_allocatedPointers d) (reg_name e) = (Some (mask_register m f), Some (mask_register n g))"
    "\<And>j. holds cs i j e \<Longrightarrow> m \<or> n"
proof -
  have "mask_entry (pair_of (d_allocatedPointers d) (reg_name e))" using assms(2) by (simp add: run_inv_def regs_ok_def)
  with assms(4) obtain l h where
    "pair_of (d_allocatedPointers d) (reg_name e) = (Some (mask_register (fst l) (snd l)), Some (mask_register (fst h) (snd h)))"
    by (auto simp: mask_entry_def)
  with assms(1,3) that show thesis unfolding sound_regs_def by blast
qed

lemma run_skippable:
  assumes ok: "clause_ok db tn tab i C"
    and bounds: "bounds_ok (\<lambda>c. find_column c tab) i C"
    and inj: "inj_on expr_text S"
    and "run_inv (\<lambda>c. find_column c tab) tn i C d" and "typed (\<lambda>c. find_column c tab) e" and "evars e \<subseteq> C"
    and "skippable (\<lambda>c. find_column c tab) e" and "set (clauses e) \<subseteq> S"
    and "sound_regs (\<lambda>c. find_column c tab) i S (d_allocatedPointers d)"
    and "pend d (concat (map operand_bytes (args tn e)) @ bs)"
  shows "\<exists>d'. run_program db (code (\<lambda>c. find_column c tab) e @ fs) d = run_program db fs d'
    \<and> run_inv (\<lambda>c. find_column c tab) tn i C d' \<and> pend d' bs \<and> kept d d'
    \<and> sound_regs (\<lambda>c. find_column c tab) i S (d_allocatedPointers d')
    \<and> pair_of (d_allocatedPointers d') (reg_name e) \<noteq> (None, None)"
  using assms(4-10)
proof (induction e arbitrary: d bs fs)
  case (BinaryOperation t a b)
  let ?cs = "\<lambda>c. find_column c tab"
  let ?A = "concat (map operand_bytes (args tn a))" and ?B = "concat (map operand_bytes (args tn b))"
  let ?e = "BinaryOperation t a b" and ?f = "binary_code t (etype ?cs a) (etype ?cs b)"
  let ?ops = "operand_bytes (operand_arg tn a) @ operand_bytes (operand_arg tn b) @ operand_bytes (OString (reg_name ?e)) @ bs"
  let ?n = "arg_length [operand_arg tn a, operand_arg tn b, OString (reg_name ?e)]"
  note prems = BinaryOperation.prems
  have ty: "typed ?cs a" "typed ?cs b" and C: "evars a \<subseteq> C" "evars b \<subseteq> C" using prems(2,3) by simp_all
  have tn: "table_name tn" using ok by (simp add: clause_ok_def)
  have e: "f \<in> S \<Longrightarrow> expr_text f = expr_text ?e \<Longrightarrow> f = ?e" for f using inj_onD [OF inj] prems(5) by auto
  have leaf: ?case if "code ?cs a = [] \<and> code ?cs b = []" "args tn a = [] \<and> args tn b = []"
    and m: "\<And>D. run_inv ?cs tn i C D \<Longrightarrow> pend D ?ops \<Longrightarrow>
      marks ?cs tn i C (after ?n D) (reg_name ?e) (\<exists>j. holds ?cs i j ?e) (run_function db ?f D)"
  proof -
    have p: "pend (next_ip d) ?ops" and inv: "run_inv ?cs tn i C (next_ip d)"
      using prems(1,7) that(2) by (simp_all add: pend_def run_inv_def)
    from step_marks [OF m [OF inv p] pend3(4) [OF p] tn prems(1,6) e, of fs] show ?thesis
      by (simp add: that(1) del: run_program.simps holds.simps)
  qed
  from prems(4) consider "connective t" "skippable ?cs a" "skippable ?cs b"
    | "t \<in> {GREATER, LESS, GREATEREQ, LESSEQ, EQUALS}" "int_var ?cs a" "literal b"
    | "comparison t" "int_var ?cs a" "int_var ?cs b" by auto
  then show ?case
  proof cases
    case 1
    have S: "set (clauses a) \<subseteq> S" "set (clauses b) \<subseteq> S" using prems(5) 1(1) by auto
    have op: "operator a" "operator b" using 1(2,3) skippable_operator by blast+
    have p0: "pend d (?A @ ?B @ ?ops)" using prems(7) by simp
    from BinaryOperation.IH(1) [OF prems(1) ty(1) C(1) 1(2) S(1) prems(6) p0, of "code ?cs b @ ?f # fs"] obtain d1 where
      d1: "run_program db (code ?cs a @ code ?cs b @ ?f # fs) d = run_program db (code ?cs b @ ?f # fs) d1"
        "run_inv ?cs tn i C d1" "pend d1 (?B @ ?ops)" "kept d d1" "sound_regs ?cs i S (d_allocatedPointers d1)"
        "pair_of (d_allocatedPointers d1) (reg_name a) \<noteq> (None, None)" by blast
    from BinaryOperation.IH(2) [OF d1(2) ty(2) C(2) 1(3) S(2) d1(5,3), of "?f # fs"] obtain d2 where
      d2: "run_program db (code ?cs b @ ?f # fs) d1 = run_program db (?f # fs) d2"
        "run_inv ?cs tn i C d2" "pend d2 ?ops" "kept d1 d2" "sound_regs ?cs i S (d_allocatedPointers d2)"
        "pair_of (d_allocatedPointers d2) (reg_name b) \<noteq> (None, None)" by blast
    from sound_result [OF d1(5,2) _ d1(6)] S(1) clauses_self [OF op(1)] obtain m f m' f' where
      a: "pair_of (d_allocatedPointers d1) (reg_name a) = (Some (mask_register m f), Some (mask_register m' f'))"
        "\<And>j. holds ?cs i j a \<Longrightarrow> m \<or> m'" by blast
    from pair_le [OF a(1)] d2(4) have a2:
      "pair_of (d_allocatedPointers d2) (reg_name a) = (Some (mask_register m f), Some (mask_register m' f'))"
      by (simp add: kept_def)
    from sound_result [OF d2(5,2) _ d2(6)] S(2) clauses_self [OF op(2)] obtain n g n' g' where
      b: "pair_of (d_allocatedPointers d2) (reg_name b) = (Some (mask_register n g), Some (mask_register n' g'))"
        "\<And>j. holds ?cs i j b \<Longrightarrow> n \<or> n'" by blast
    have p: "pend (next_ip d2) ?ops" and inv: "run_inv ?cs tn i C (next_ip d2)"
      using d2(2,3) by (simp_all add: pend_def run_inv_def)
    have q: "if t = AND_T then (m \<or> m') \<and> (n \<or> n') else (m \<or> m') \<or> (n \<or> n')" if "\<exists>j. holds ?cs i j ?e"
      using that 1(1) a(2) b(2) by (auto simp: connective_def split: if_splits)
    have "marks ?cs tn i C (after ?n (next_ip d2)) (reg_name ?e) (\<exists>j. holds ?cs i j ?e) (run_function db ?f (next_ip d2))"
      using a2 b(1) by (intro marks_connective [OF inv 1(1) op _ _ q p refl]) simp_all
    from step_marks [OF this pend3(4) [OF p] tn d2(2,5) e, of fs] obtain d3 where
      "run_program db (?f # fs) d2 = run_program db fs d3" "run_inv ?cs tn i C d3" "pend d3 bs" "kept d2 d3"
      "sound_regs ?cs i S (d_allocatedPointers d3)" "pair_of (d_allocatedPointers d3) (reg_name ?e) \<noteq> (None, None)"
      by blast
    with d1(1,4) d2(1,4) show ?thesis
      by (intro exI [of _ d3]) (auto simp del: run_program.simps holds.simps intro: kept_trans)
  next
    case 2
    have "code ?cs a = [] \<and> code ?cs b = []" "args tn a = [] \<and> args tn b = []"
      using 2(2,3) by (cases a; cases b; simp)+
    then show ?thesis
      by (rule leaf) (rule marks_col_const [OF ok _ ty C(1) bounds 2 _ refl])
  next
    case 3
    have "code ?cs a = [] \<and> code ?cs b = []" "args tn a = [] \<and> args tn b = []"
      using 3(2,3) by (cases a; cases b; simp)+
    then show ?thesis
      by (rule leaf) (rule marks_col_col [OF tn _ ty 3 _ refl])
  qed
next
  case (UnaryOperation t a)
  let ?cs = "\<lambda>c. find_column c tab" and ?e = "UnaryOperation t a"
  let ?ops = "operand_bytes (operand_arg tn a) @ operand_bytes (OString (reg_name ?e)) @ bs"
  note prems = UnaryOperation.prems
  have t: "null_test t" "int_var ?cs a" using prems(4) by simp_all
  have ca: "code ?cs a = []" "args tn a = []" using t(2) by (cases a; simp)+
  have p: "pend (next_ip d) ?ops" and inv: "run_inv ?cs tn i C (next_ip d)"
    using prems(1,7) ca by (simp_all add: pend_def run_inv_def)
  have tn: "table_name tn" and ty: "typed ?cs a" using ok prems(2) by (simp_all add: clause_ok_def)
  have e: "f \<in> S \<Longrightarrow> expr_text f = expr_text ?e \<Longrightarrow> f = ?e" for f using inj_onD [OF inj] prems(5) by auto
  from step_marks [OF marks_null [OF inv ty t p refl] pend2(3) [OF p] tn prems(1,6) e, where db = db and fs = fs] ca
  show ?case by (simp del: run_program.simps holds.simps)
qed simp_all

section \<open>Skipped blocks\<close>

lemma Execute_skippable:
  assumes ok: "clause_ok db tn tab i (evars e)"
    and bounds: "bounds_ok (\<lambda>c. find_column c tab) i (evars e)"
    and ty: "typed (\<lambda>c. find_column c tab) e" "skippable (\<lambda>c. find_column c tab) e" "unambiguous e"
    and r: "ready (\<lambda>c. find_column c tab) tn e d"
    and len: "length (concat (map operand_bytes (where_args tn e))) < 2 ^ 31"
  shows "\<exists>load d'. WhereEvaluation False True db i d = Inr (load, d') \<and> ready (\<lambda>c. find_column c tab) tn e d'
    \<and> ((\<exists>j. holds (\<lambda>c. find_column c tab) i j e) \<longrightarrow> load)"
proof -
  let ?cs = "\<lambda>c. find_column c tab" and ?S = "set (clauses e)"
  have op: "operator e" using ty(2) by (rule skippable_operator)
  note st = ready_start [OF ok r len]
  have inj: "inj_on expr_text ?S" using ty(3) by (auto simp: unambiguous_def inj_on_def)
  have s0: "sound_regs ?cs i ?S (d_allocatedPointers (d\<lparr>d_blockIndex := i\<rparr>))"
    using r by (simp add: sound_regs_def ready_def pair_of_def)
  from run_skippable [OF ok bounds inj st(1) ty(1) _ ty(2) _ s0 st(2), where fs = "[WhereResultCol Int8T]"] obtain D where
    D: "run_program db (code ?cs e @ [WhereResultCol Int8T]) (d\<lparr>d_blockIndex := i\<rparr>) = run_program db [WhereResultCol Int8T] D"
      "run_inv ?cs tn i (evars e) D" "pend D (operand_bytes (OString (operand_text tn e)))"
      "kept (d\<lparr>d_blockIndex := i\<rparr>) D" "sound_regs ?cs i ?S (d_allocatedPointers D)"
      "pair_of (d_allocatedPointers D) (reg_name e) \<noteq> (None, None)" by auto
  from sound_result [OF D(5,2) clauses_self [OF op] D(6)] obtain m f n g where
    m: "pair_of (d_allocatedPointers D) (reg_name e) = (Some (mask_register m f), Some (mask_register n g))"
      "\<And>j. holds ?cs i j e \<Longrightarrow> m \<or> n" by blast
  from Execute_masks [OF r op D(1,3,4) m(1)] obtain d' where
    "Execute db i d = Inr (of_bool (m \<or> f \<or> n \<or> g), d')" "ready ?cs tn e d'" by blast
  with m(2) show ?thesis by (auto simp: WhereEvaluation_def)
qed

text \<open>
  C14. For clauses over one table that are built with \<open>AND\<close> and \<open>OR\<close> from null tests of integer columns, from
  \<open><\<close>, \<open>>\<close>, \<open><=\<close>, \<open>>=\<close>, \<open>=\<close> between an integer column and a literal on its right, and from comparisons of two integer
  columns: a block that the evaluation on the CPU lets a query skip has no row that satisfies the clause. The clause is
  accepted, every block gets an answer, and the answer is to load the block whenever one of its rows satisfies
  the clause. It is assumed that the statistics of the columns bound their rows, that different parts of the clause
  have different texts without their parentheses (registers are named by the text), and that no column of the clause
  is named like another with \<open>_min\<close> or \<open>_max\<close> added. Literals on the left and \<open>!=\<close> with a literal are excluded: there the code
  skips blocks that have matching rows.
\<close>

theorem where_skip_sound:
  assumes "map_of db tn = Some tab" and "table_name tn" and "suffix_free (evars e)"
    and "\<forall>c\<in>evars e. \<exists>ic. find_column c tab = Some ic \<and> i < ic_blockCount ic \<and> bounds_sound ic i"
    and "typed (\<lambda>c. find_column c tab) e" and "skippable (\<lambda>c. find_column c tab) e" and "unambiguous e"
    and "length (concat (map operand_bytes (where_args tn e))) < 2 ^ 31"
  shows "\<exists>L. WalkSqlSelect db [(tn, None)] [] [] e (CpuWhereListener_new CpuSqlDispatcher_new) = Inr L
    \<and> ready (\<lambda>c. find_column c tab) tn e (CopyExecutionDataTo (l_dispatcher L) CpuSqlDispatcher_new)
    \<and> (\<forall>d. ready (\<lambda>c. find_column c tab) tn e d \<longrightarrow>
        (\<exists>load d'. WhereEvaluation False True db i d = Inr (load, d') \<and> ready (\<lambda>c. find_column c tab) tn e d'
          \<and> ((\<exists>j. holds (\<lambda>c. find_column c tab) i j e) \<longrightarrow> load)))"
proof -
  have ok: "clause_ok db tn tab i (evars e)" using assms(1-4) by (auto simp: clause_ok_def)
  have bounds: "bounds_ok (\<lambda>c. find_column c tab) i (evars e)"
    using assms(4) by (auto simp: bounds_ok_def)
  from Execute_skippable [OF ok bounds assms(5-7) _ assms(8)] WalkSqlSelect_ready [OF assms(2,1,5)] show ?thesis
    by blast
qed

theorem where_skip_sound_witness:
  "\<exists>L d'. WalkSqlSelect [(''T'', sample_table)] [(''T'', None)] [] [] sample_clause (CpuWhereListener_new CpuSqlDispatcher_new) = Inr L
    \<and> WhereEvaluation False True [(''T'', sample_table)] 0 (CopyExecutionDataTo (l_dispatcher L) CpuSqlDispatcher_new) = Inr (True, d')"
proof -
  let ?cs = "\<lambda>c. find_column c sample_table"
  have col: "\<forall>c\<in>evars sample_clause. \<exists>ic. ?cs c = Some ic \<and> 0 < ic_blockCount ic \<and> bounds_sound ic 0"
    using sample_block(3) by (simp add: sample_clause(2) sample_table sample_block_count bounds_sound_def block_at_def)
  have free: "suffix_free (evars sample_clause)" by (simp add: sample_clause(2,3))
  have skip: "skippable ?cs sample_clause" "unambiguous sample_clause"
    by (simp_all add: sample_clause_def sample_table(1) unambiguous_def connective_def)
  have "int_of_text ''5'' = 5" by code_simp
  then have "holds ?cs 0 0 sample_clause"
    using sample_block(4) by (simp add: sample_clause_def cell_value_def sample_table block_rows_def)
  have db: "map_of [(''T'', sample_table)] ''T'' = Some sample_table" by simp
  from where_skip_sound [OF db sample_clause(1) free col sample_clause(4) skip sample_clause(6)] obtain L where
    L: "WalkSqlSelect [(''T'', sample_table)] [(''T'', None)] [] [] sample_clause (CpuWhereListener_new CpuSqlDispatcher_new) = Inr L"
      "ready ?cs ''T'' sample_clause (CopyExecutionDataTo (l_dispatcher L) CpuSqlDispatcher_new)"
    and run: "\<forall>d. ready ?cs ''T'' sample_clause d \<longrightarrow>
      (\<exists>load d'. WhereEvaluation False True [(''T'', sample_table)] 0 d = Inr (load, d') \<and> ready ?cs ''T'' sample_clause d'
        \<and> ((\<exists>j. holds ?cs 0 j sample_clause) \<longrightarrow> load))" by (elim exE conjE)
  from run [rule_format, OF L(2)] L(1) \<open>holds _ _ _ _\<close> show ?thesis by (elim exE conjE) auto
qed

section \<open>A literal to the left of a column\<close>

text \<open>The bounds of a block as the comparison with the literal sees them.\<close>

definition swapped_test :: "Token \<Rightarrow> int \<Rightarrow> int \<Rightarrow> int \<Rightarrow> bool" where
  "swapped_test t lo hi k =
    (if t \<in> {EQUALS, NOTEQUALS, NOTEQUALS_GT_LT} then lo \<le> k \<and> k \<le> hi
     else int_compare t lo k \<or> int_compare t hi k)"

lemma filter_bounds_int32:
  assumes "in_width 32 lo" and "in_width 32 hi" and "in_width 32 k" and "comparison t"
  shows "\<exists>m n. filter_bounds (filter_of t) Int32T Int32T (NInt lo) (NInt hi) (NInt k) = Inr (m, n)
    \<and> (m \<or> n) = swapped_test t lo hi k"
  using assms(4) call_filter_typed [of Int32T "NInt lo" Int32T "NInt k"] call_filter_typed [of Int32T "NInt hi" Int32T "NInt k"]
    assms(1-3)
  by (auto simp: comparison_def filter_bounds_def Let_def swapped_test_def)

text \<open>
  C35. The answer for a comparison with a literal to the left of an integer column, such as
  \<open>9 > a\<close>, is that of the comparison with the operands exchanged: the block is loaded if the
  minimum or the maximum of the column is greater than the literal. A block whose rows are all
  smaller than the literal, so that each of them satisfies the clause, is skipped. \<open>!=\<close> tests the same
  as \<open>=\<close>, whether the literal is between the bounds, and skips a block that is outside of them.
\<close>

theorem where_literal_left_swapped:
  assumes "map_of db tn = Some tab" and "table_name tn" and "TrimDelimitedIdentifier c = c"
    and "find_column c tab = Some (ColInt col)" and "block_at col i = Inr b"
    and "comparison t" and "plain_text s" and "IsLong s = Inr False"
    and "length (concat (map operand_bytes (where_args tn (BinaryOperation t (IntLiteral s) (VarReference None c))))) < 2 ^ 31"
    and "ready (\<lambda>c. find_column c tab) tn (BinaryOperation t (IntLiteral s) (VarReference None c)) d"
  shows "\<exists>d'. WhereEvaluation False True db i d =
    Inr (swapped_test t (sint (b_min b)) (sint (b_max b)) (int_of_text s), d')"
proof -
  let ?cs = "\<lambda>c. find_column c tab" and ?v = "VarReference None c" and ?k = "IntLiteral s"
  let ?e = "BinaryOperation t ?k ?v" and ?d = "d\<lparr>d_blockIndex := i\<rparr>"
  let ?f = "FilterConstCol (filter_of t) Int32T Int32T" and ?n = "arg_length [operand_arg tn ?k, OString (column_name tn c), OString (reg_name ?e)]"
  have ty: "ctype_of (GetColumnType (ColInt col)) = Some Int32T" "etype ?cs ?k = CONST_INT" "etype ?cs ?v = COLUMN_INT"
    using assms(4,8) by (simp_all add: GetColumnType_def)
  have k: "typed ?cs ?k" using assms(7,8) by simp
  have const: "is_const CONST_INT" "\<not> is_const COLUMN_INT"
    by (simp_all add: is_const_def less_DataType_def DataType_value_def DataType_enum_def)
  have i: "i < ic_blockCount (ColInt col)" using assms(5) by (simp add: block_count block_at_def split: if_splits)
  have ok: "clause_ok db tn tab i (evars ?e)"
    using assms(1,2,4) i by (simp add: clause_ok_def suffix_free_def)
  have code: "code ?cs ?e = [?f]" using ty(2,3) code_comparison [OF assms(6), of CONST_INT Int32T COLUMN_INT Int32T] const
    by (simp add: by_sides_def)
  note st = ready_start [OF ok assms(10,9)]
  have inv: "run_inv ?cs tn i {c} (after ?n (next_ip ?d))" using st(1) by (simp add: run_inv_def)
  have p: "pend (next_ip ?d) (operand_bytes (operand_arg tn ?k) @ operand_bytes (OString (column_name tn c)) @
      operand_bytes (OString (reg_name ?e)) @ operand_bytes (OString (operand_text tn ?e)))"
    using st(2) by (simp add: pend_def)
  have ok1: "clause_ok db tn tab i {c}" using ok by simp
  from load_column [OF ok1 inv _ assms(4) ty(1)] obtain D lo hi where
    L: "LoadCol db Int32T (column_name tn c) (after ?n (next_ip ?d)) = Inr (0, D)" "frame (after ?n (next_ip ?d)) D"
      "pair_of (d_allocatedPointers D) (column_name tn c) = (Some (num_register Int32T lo False), Some (num_register Int32T hi False))"
      "GetBlockMin Int32T (ColInt col) i = Inr lo" "GetBlockMax Int32T (ColInt col) i = Inr hi" by auto
  have lh: "lo = NInt (sint (b_min b))" "hi = NInt (sint (b_max b))"
    using L(4,5) assms(5) by (simp_all add: GetBlockMin_def GetBlockMax_def)
  have kv: "operand_num (operand_arg tn ?k) = NInt (int_of_text s)" "in_width 32 (int_of_text s)"
    using int_literal_value(1) [OF k, of tn] int_literal_value(2) [OF k] assms(8) by simp_all
  from filter_bounds_int32 [OF sint_in_width(2) sint_in_width(2) kv(2) assms(6), of "b_min b" "b_max b"] obtain m n where
    fb: "filter_bounds (filter_of t) Int32T Int32T lo hi (NInt (int_of_text s)) = Inr (m, n)"
      "(m \<or> n) = swapped_test t (sint (b_min b)) (sint (b_max b)) (int_of_text s)" unfolding lh by blast
  have arg: "type_of (operand_arg tn ?k) = operand_type Int32T"
    using const_operand(1) [OF k _ ] ty(2) const(1) by simp
  let ?D = "set_mask (reg_name ?e) (m, False) (n, False) D"
  have "run_FilterConstCol db (filter_of t) Int32T Int32T (next_ip ?d) = Inr (0, ?D)"
    unfolding run_FilterConstCol_def read_nss [OF p arg] L(1)
    by (simp add: loaded_def fetch_num_pair [OF L(3)] kv(1) fb(1) del: operand_arg.simps)
  then have run: "run_program db (code ?cs ?e @ [WhereResultCol Int8T]) ?d = run_program db [WhereResultCol Int8T] ?D"
    unfolding code by simp
  note sel = frame_sel [OF L(2)]
  have "pair_of (d_allocatedPointers D) (reg_name ?e) = (None, None)"
    using LoadCol_masks [OF L(1) assms(2), of "reg_name ?e"] assms(10) by (simp add: ready_def pair_of_def)
  from pair_set_result_new [OF this] have m: "pair_of (d_allocatedPointers ?D) (reg_name ?e) =
      (Some (mask_register m False), Some (mask_register n False))" by (simp add: set_mask_def)
  have "pend ?D (operand_bytes (OString (operand_text tn ?e)))" using pend3(4) [OF p] sel by (simp add: pend_def set_mask_def)
  moreover have "d_allocatedPointers ?d \<subseteq>\<^sub>m d_allocatedPointers ?D" using assms(10) by (simp add: ready_def)
  with sel have "kept ?d ?D" by (simp add: kept_def set_mask_def)
  ultimately obtain d' where "Execute db i d = Inr (of_bool (m \<or> n), d')"
    using Execute_masks [OF assms(10) _ run _ _ m] by auto
  with fb(2) show ?thesis by (auto simp: WhereEvaluation_def)
qed

text \<open>\<open>9 > a\<close> on the rows 7 and 3.\<close>

lemma sample_bounds: "b_min sample_block = 3" "b_max sample_block = 7"
proof -
  have o: "sless 3 (7 :: int32)" "sless 7 (2147483647 :: int32)" "sless 2147483648 (7 :: int32)" "\<not> sless 7 (3 :: int32)"
    by code_simp+
  show "b_min sample_block = 3" "b_max sample_block = 7"
    by (simp_all add: sample_block_def BlockBase_data_def setBlockStatistics_def setBlockStatistics_num_def
        raw_block_def recompute_step_def copy_at_def elem_defs upt_rec Let_def is_null_def new_mask_def o)
qed

definition left_clause :: expr where
  "left_clause = BinaryOperation GREATER (IntLiteral ''9'') (VarReference None ''a'')"

theorem where_literal_left_swapped_witness:
  "\<exists>L d'. WalkSqlSelect [(''T'', sample_table)] [(''T'', None)] [] [] left_clause (CpuWhereListener_new CpuSqlDispatcher_new) = Inr L
    \<and> WhereEvaluation False True [(''T'', sample_table)] 0 (CopyExecutionDataTo (l_dispatcher L) CpuSqlDispatcher_new) = Inr (False, d')
    \<and> holds (\<lambda>c. find_column c sample_table) 0 0 left_clause \<and> holds (\<lambda>c. find_column c sample_table) 0 1 left_clause"
proof -
  let ?cs = "\<lambda>c. find_column c sample_table" and ?db = "[(''T'', sample_table)]"
  have db: "map_of ?db ''T'' = Some sample_table" by simp
  have s: "IsLong ''9'' = Inr False" "plain_text ''9''" "TrimDelimitedIdentifier ''a'' = ''a''" by code_simp+
  have ty: "typed ?cs left_clause" using s
    by (simp add: left_clause_def sample_table(1) comparison_def comparable_def numeric_def
        GetColumnType_def is_const_def floating_def less_DataType_def DataType_value_def DataType_enum_def)
  have "length (concat (map operand_bytes (where_args ''T'' left_clause))) < 100" by code_simp
  then have len: "length (concat (map operand_bytes (where_args ''T'' left_clause))) < 2 ^ 31"
    by (rule order_less_trans) simp
  have b: "block_at (sample_column\<lparr>c_blocks := [(- 1, [sample_block])]\<rparr>) 0 = Inr sample_block"
    by (simp add: block_at_def sample_table(2))
  have k: "int_of_text ''9'' = 9" by code_simp
  have test: "swapped_test GREATER (sint (b_min sample_block)) (sint (b_max sample_block)) (int_of_text ''9'') = False"
    by (simp add: swapped_test_def k sample_bounds)
  have "holds ?cs 0 0 left_clause" "holds ?cs 0 1 left_clause"
    using sample_block(4) by (simp_all add: left_clause_def cell_value_def sample_table block_rows_def k)
  moreover from WalkSqlSelect_ready [OF sample_clause(1) db ty] obtain L where
    L: "WalkSqlSelect ?db [(''T'', None)] [] [] left_clause (CpuWhereListener_new CpuSqlDispatcher_new) = Inr L"
      "ready ?cs ''T'' left_clause (CopyExecutionDataTo (l_dispatcher L) CpuSqlDispatcher_new)" by blast
  have "comparison GREATER" by (simp add: comparison_def)
  note where_literal_left_swapped [OF db sample_clause(1) s(3) sample_table(1) b this s(2,1)
      len [unfolded left_clause_def] L(2) [unfolded left_clause_def]]
  ultimately show ?thesis using L(1) unfolding test by blast
qed

end
