(* ===== verification/Column_Files.thy ===== *)
theory Column_Files
  imports Column_Mask Memory_Stream
begin

text \<open>
  Columns of numbers on disk (\<open>Database.cpp\<close>, \<open>Database.h\<close>): \<open>WriteColumn\<close> writes the blocks of a
  column one after the other to its data file and their positions to its address file,
  \<open>PersistOnlyModified\<close> rewrites or appends the blocks that changed, and \<open>LoadColumn\<close> reads the data
  file into a new column. The cases for the five number types differ in the width of the element
  only, which is the width \<open>'w\<close> of the word here. Logging is left out.

  Three things the sources read are not determined by the program and are parameters: \<open>stale\<close>, the
  contents of the freed array that \<open>GetEmptyNullmask\<close> returns, for every record of a save anew; \<open>junk\<close>, the contents of the
  uninitialised array a null mask is read into; and \<open>writable\<close>, the files that can be opened.
\<close>

section \<open>Files\<close>

type_synonym files = "string \<rightharpoonup> int8 list"

text \<open>The contents of the freed array for the record of a block and a length.\<close>

type_synonym freed = "32 word \<Rightarrow> nat \<Rightarrow> int8 list"

text \<open>\<open>std::ofstream\<close> truncates the file it opens.\<close>

definition open_out :: "(string \<Rightarrow> bool) \<Rightarrow> string \<Rightarrow> files \<Rightarrow> files" where
  "open_out writable p fs = (if writable p then fs(p \<mapsto> []) else fs)"

text \<open>\<open>seekp\<close> and \<open>write\<close>; a gap behind the end of the file is filled with zeros.\<close>

definition write_at :: "nat \<Rightarrow> int8 list \<Rightarrow> int8 list \<Rightarrow> int8 list" where
  "write_at pos bs file =
    take pos file @ replicate (pos - length file) 0 @ bs @ drop (pos + length bs) file"

text \<open>\<open>read\<close> of one value; \<open>None\<close> when the end of the file is met.\<close>

definition read_word :: "int8 list \<Rightarrow> ('w::len word \<times> int8 list) option" where
  "read_word bs =
    (if length bs < LENGTH('w) div 8 then None
     else Some (word_of_int (bytes_int (take (LENGTH('w) div 8) bs)), drop (LENGTH('w) div 8) bs))"

fun words_of :: "nat \<Rightarrow> int8 list \<Rightarrow> 'w::len word list" where
  "words_of 0 bs = []"
| "words_of (Suc n) bs =
    word_of_int (bytes_int (take (LENGTH('w) div 8) bs)) # words_of n (drop (LENGTH('w) div 8) bs)"

definition words_bytes :: "'w::len word list \<Rightarrow> int8 list" where
  "words_bytes ws = concat (map word_bytes ws)"

lemma words_bytes_simps [simp]:
  "words_bytes [] = []" "words_bytes (w # ws) = word_bytes w @ words_bytes ws"
  "words_bytes (us @ vs) = words_bytes us @ words_bytes vs"
  by (simp_all add: words_bytes_def)

lemma length_words_bytes [simp]: "length (words_bytes (ws :: 'w::len word list)) = LENGTH('w) div 8 * length ws"
  by (induction ws) simp_all

lemma read_word_bytes: "8 dvd LENGTH('w) \<Longrightarrow> read_word (word_bytes (x :: 'w::len word) @ rest) = Some (x, rest)"
  by (simp add: read_word_def word_bytes_int)

lemma words_of_bytes:
  "8 dvd LENGTH('w) \<Longrightarrow> words_of (length ws + n) (words_bytes (ws :: 'w::len word list) @ rest) = ws @ words_of n rest"
  by (induction ws) (simp_all add: word_bytes_int)

lemma length_words_of [simp]: "length (words_of n bs) = n"
  by (induction n arbitrary: bs) simp_all

lemma take_words_bytes:
  "take (LENGTH('w) div 8 * n) (words_bytes (ws :: 'w::len word list)) = words_bytes (take n ws)"
proof (induction ws arbitrary: n)
  case (Cons w ws)
  then show ?case by (cases n) simp_all
qed simp

section \<open>A stored block\<close>

text \<open>
  The mask is stored for the rows there are, not for the capacity of the block. For a column that
  is not nullable the source writes an array that is already freed.
\<close>

definition mask_bytes :: "(nat \<Rightarrow> int8 list) \<Rightarrow> bool \<Rightarrow> 'a block \<Rightarrow> int8 list result" where
  "mask_bytes stale isNullable b =
    (let n = GetNullBitMaskSizeInBytes (b_size b) in
     if isNullable then
       (case b_bitMask b of
          None \<Rightarrow> if n = 0 then Inr [] else Inl UndefinedBehaviour
        | Some m \<Rightarrow> if n \<le> 8 * length m then Inr (take n (words_bytes m)) else Inl UndefinedBehaviour)
     else Inr (stale n))"

definition block_bytes ::
  "freed \<Rightarrow> 'w::len word elem \<Rightarrow> bool \<Rightarrow> nat \<Rightarrow> 32 word \<Rightarrow> 'w word block \<Rightarrow> int8 list result" where
  "block_bytes stale E isNullable blockSize index b =
    (if blockSize < b_size b then Inl BadAlloc
     else if length (b_data b) < b_size b then Inl UndefinedBehaviour
     else mapR (\<lambda>mask.
         word_bytes index @ word_bytes (word_of_int (b_groupId b) :: int32)
         @ word_bytes (of_nat (GetNullBitMaskSizeInBytes (b_size b)) :: 32 word) @ mask
         @ word_bytes (of_nat (b_size b) :: 64 word) @ word_bytes (of_bool (b_isCompressed b) :: int8)
         @ word_bytes (b_min b) @ word_bytes (b_max b) @ word_bytes (b_avg b) @ word_bytes (b_sum b)
         @ words_bytes (take (b_size b) (b_data b)) @ words_bytes (replicate (blockSize - b_size b) (max_v E)))
       (mask_bytes (stale index) isNullable b))"

text \<open>The length of a record, as \<open>WriteColumn\<close> adds it to the position of the next block.\<close>

definition record_length :: "nat \<Rightarrow> nat \<Rightarrow> nat \<Rightarrow> nat" where
  "record_length w blockSize n =
    2 * 4 + 8 + 4 + GetNullBitMaskSizeInBytes n + 1 + 4 + 3 * w + blockSize * w"

section \<open>WriteColumn\<close>

text \<open>
  The loop over the blocks: the data, the addresses, and the blocks with their flags. The index
  \<open>UINT32_MAX\<close> is reserved for blocks that were never saved; when it is reached the rest is not saved.
\<close>

fun write_blocks ::
  "freed \<Rightarrow> 'w::len word elem \<Rightarrow> bool \<Rightarrow> nat \<Rightarrow> 32 word \<Rightarrow> nat \<Rightarrow> 'w word block list
    \<Rightarrow> (int8 list \<times> int8 list \<times> 'w word block list) result" where
  "write_blocks stale E isNullable blockSize index pos [] = Inr ([], [], [])"
| "write_blocks stale E isNullable blockSize index pos (b # bs) =
    bindR (block_bytes stale E isNullable blockSize index b) (\<lambda>r.
    if index + 1 = UINT32_MAX
    then Inr (r, word_bytes (of_nat pos :: 64 word), b\<lparr>b_saveNecessary := True\<rparr> # bs)
    else mapR (\<lambda>(d, a, bs'). (r @ d, word_bytes (of_nat pos :: 64 word) @ a, b\<lparr>b_saveNecessary := False\<rparr> # bs'))
      (write_blocks stale E isNullable blockSize (index + 1)
        (pos + record_length (LENGTH('w) div 8) blockSize (b_size b)) bs))"

text \<open>The blocks of a list put back into their groups.\<close>

fun regroup :: "(int \<times> 'b list) list \<Rightarrow> 'a list \<Rightarrow> (int \<times> 'a list) list" where
  "regroup [] xs = []"
| "regroup ((g, bs) # gs) xs = (g, take (length bs) xs) # regroup gs (drop (length bs) xs)"

definition column_path :: "string \<Rightarrow> string \<Rightarrow> string \<Rightarrow> string \<Rightarrow> string \<Rightarrow> string \<Rightarrow> string" where
  "column_path dbDir dbName tableName name given ext =
    (if given = '''' \<or> given = dbDir then dbDir @ dbName @ ''@'' @ tableName @ ''@'' @ name @ ext else given)"

definition data_path :: "string \<Rightarrow> string \<Rightarrow> string \<Rightarrow> 'a column \<Rightarrow> string" where
  "data_path dbDir dbName tableName c =
    column_path dbDir dbName tableName (c_name c) (c_fileDataPath c) ''.data''"

definition address_path :: "string \<Rightarrow> string \<Rightarrow> string \<Rightarrow> 'a column \<Rightarrow> string" where
  "address_path dbDir dbName tableName c =
    column_path dbDir dbName tableName (c_name c) (c_fileAddressPath c) ''.adrs''"

definition WriteColumn ::
  "freed \<Rightarrow> (string \<Rightarrow> bool) \<Rightarrow> string \<Rightarrow> 'w::len word elem \<Rightarrow> string \<Rightarrow> string \<Rightarrow> nat
    \<Rightarrow> 'w word column \<Rightarrow> files \<Rightarrow> ('w word column \<times> files) result" where
  "WriteColumn stale writable dbDir E dbName tableName blockSize c fs =
    (let dataPath = data_path dbDir dbName tableName c;
         addressPath = address_path dbDir dbName tableName c;
         fs1 = open_out writable dataPath (open_out writable addressPath fs)
     in if writable dataPath \<and> writable addressPath then
          mapR (\<lambda>(d, a, bs). (c\<lparr>c_blocks := regroup (c_blocks c) bs\<rparr>, fs1(dataPath \<mapsto> d, addressPath \<mapsto> a)))
            (write_blocks stale E (c_isNullable c) blockSize 0 0 (GetBlocksList c))
        else Inr (c, fs1))"

section \<open>PersistOnlyModified\<close>

text \<open>
  The loop over the blocks that need saving. A block that is new is appended; the position of one
  that was saved before is read from the address file, and its record is overwritten there. A data
  file that cannot be opened leaves the block to be saved; the end of a file that is not there is
  at position \<open>-1\<close>.
\<close>

definition data_end :: "int8 list option \<Rightarrow> 64 word" where
  "data_end data = (case data of None \<Rightarrow> - 1 | Some d \<Rightarrow> of_nat (length d))"

definition WriteBlockNumericTypes ::
  "freed \<Rightarrow> bool \<Rightarrow> 'w::len word elem \<Rightarrow> bool \<Rightarrow> nat \<Rightarrow> 64 word \<Rightarrow> 'w word block \<Rightarrow> int8 list option
    \<Rightarrow> ('w word block \<times> int8 list option) result" where
  "WriteBlockNumericTypes stale dataWritable E isNullable blockSize pos b data =
    (case data of
       Some d \<Rightarrow>
         if dataWritable then
           mapR (\<lambda>r. (b\<lparr>b_saveNecessary := (b_index b = UINT32_MAX)\<rparr>, Some (write_at (unat pos) r d)))
             (block_bytes stale E isNullable blockSize (b_index b) b)
         else Inr (b\<lparr>b_saveNecessary := True\<rparr>, data)
     | None \<Rightarrow> Inr (b\<lparr>b_saveNecessary := True\<rparr>, None))"

fun write_modified ::
  "freed \<Rightarrow> bool \<Rightarrow> bool \<Rightarrow> 'w::len word elem \<Rightarrow> bool \<Rightarrow> nat \<Rightarrow> 'w word block list \<Rightarrow> 'w word block list
    \<Rightarrow> int8 list option \<Rightarrow> int8 list \<Rightarrow> ('w word block list \<times> int8 list option \<times> int8 list) result" where
  "write_modified stale okD okA E isNullable blockSize seen [] data addr = Inr (seen, data, addr)"
| "write_modified stale okD okA E isNullable blockSize seen (b # bs) data addr =
    (if \<not> b_saveNecessary b then write_modified stale okD okA E isNullable blockSize (seen @ [b]) bs data addr
     else if b_index b = UINT32_MAX then
       (let b1 = b\<lparr>b_index := of_nat (length (filter (\<lambda>x. b_index x \<noteq> UINT32_MAX) (seen @ b # bs)))\<rparr>;
            addr1 = (if okA then addr @ word_bytes (data_end data) else addr)
        in bindR (WriteBlockNumericTypes stale okD E isNullable blockSize (data_end data) b1 data)
             (\<lambda>(b2, data1). write_modified stale okD okA E isNullable blockSize (seen @ [b2]) bs data1 addr1))
     else
       (case (if okA then read_word (drop (8 * unat (b_index b)) addr) else None) of
          None \<Rightarrow> Inl UndefinedBehaviour
        | Some (pos :: 64 word, _) \<Rightarrow>
            bindR (WriteBlockNumericTypes stale okD E isNullable blockSize pos b data)
             (\<lambda>(b2, data1). write_modified stale okD okA E isNullable blockSize (seen @ [b2]) bs data1 addr)))"

text \<open>A file that does not exist is created when it can be.\<close>

definition ensure_file :: "(string \<Rightarrow> bool) \<Rightarrow> string \<Rightarrow> files \<Rightarrow> files" where
  "ensure_file writable p fs = (if fs p = None then open_out writable p fs else fs)"

definition PersistOnlyModified ::
  "freed \<Rightarrow> (string \<Rightarrow> bool) \<Rightarrow> string \<Rightarrow> 'w::len word elem \<Rightarrow> string \<Rightarrow> string \<Rightarrow> nat
    \<Rightarrow> 'w word column \<Rightarrow> files \<Rightarrow> ('w word column \<times> files) result" where
  "PersistOnlyModified stale writable dbDir E dbName tableName blockSize c fs =
    (let dataPath = data_path dbDir dbName tableName c;
         addressPath = address_path dbDir dbName tableName c;
         fs1 = ensure_file writable dataPath (ensure_file writable addressPath fs)
     in mapR (\<lambda>(bs, d, a). (c\<lparr>c_blocks := regroup (c_blocks c) bs\<rparr>,
            (if writable addressPath then fs1(addressPath \<mapsto> a) else fs1)(dataPath := d)))
          (write_modified stale (writable dataPath) (writable addressPath) E (c_isNullable c) blockSize []
             (GetBlocksList c) (fs1 dataPath) (case fs1 addressPath of None \<Rightarrow> [] | Some a \<Rightarrow> a)))"

section \<open>LoadColumn\<close>

text \<open>
  The head of a record: index, group and null mask. The end of the file anywhere in it ends the
  loop. The mask is read into an array of \<open>alloc\<close> words whose contents are \<open>junk\<close>.
\<close>

definition load_head ::
  "(32 word \<Rightarrow> int8 list) \<Rightarrow> nat \<Rightarrow> int8 list \<Rightarrow> (32 word \<times> int32 \<times> nullmask list \<times> int8 list) option result" where
  "load_head junk alloc r0 =
    (case read_word r0 of None \<Rightarrow> Inr None | Some (index :: 32 word, r1) \<Rightarrow>
    (case read_word r1 of None \<Rightarrow> Inr None | Some (groupId :: int32, r2) \<Rightarrow>
    (case read_word r2 of None \<Rightarrow> Inr None | Some (len :: 32 word, r3) \<Rightarrow>
       if 8 * alloc < min (unat len) (length r3) then Inl UndefinedBehaviour
       else if length r3 < unat len then Inr None
       else Inr (Some (index, groupId,
              words_of alloc (take (unat len) r3 @ drop (unat len) (junk index)), drop (unat len) r3)))))"

text \<open>
  The rest of a record: the number of rows, the flag and the statistics. Values that are missing
  stay uninitialised, and a byte that is neither \<open>false\<close> nor \<open>true\<close> is no \<open>bool\<close>.
\<close>

definition load_stats ::
  "int8 list \<Rightarrow> (64 word \<times> bool \<times> 'w::len word \<times> 'w word \<times> f32 \<times> 'w word \<times> int8 list) result" where
  "load_stats r0 =
    (case read_word r0 of None \<Rightarrow> Inl UndefinedBehaviour | Some (dataLength :: 64 word, r1) \<Rightarrow>
    (case read_word r1 of None \<Rightarrow> Inl UndefinedBehaviour | Some (flag :: int8, r2) \<Rightarrow>
    (case read_word r2 of None \<Rightarrow> Inl UndefinedBehaviour | Some (mn :: 'w word, r3) \<Rightarrow>
    (case read_word r3 of None \<Rightarrow> Inl UndefinedBehaviour | Some (mx :: 'w word, r4) \<Rightarrow>
    (case read_word r4 of None \<Rightarrow> Inl UndefinedBehaviour | Some (avg :: f32, r5) \<Rightarrow>
    (case read_word r5 of None \<Rightarrow> Inl UndefinedBehaviour | Some (sm :: 'w word, r6) \<Rightarrow>
       if 1 < flag then Inl UndefinedBehaviour else Inr (dataLength, flag = 1, mn, mx, avg, sm, r6)))))))"

text \<open>The check of a unique column.\<close>

definition load_unique :: "('a \<Rightarrow> 'a \<Rightarrow> bool) \<Rightarrow> 'a list \<Rightarrow> 'a column \<Rightarrow> 'a column result" where
  "load_unique same vals c =
    (if c_isUnique c then
       if c_isNullable c then Inl RuntimeError
       else (case collect_unique same vals (c_uniqueHashmap c) of
               None \<Rightarrow> Inl RuntimeError | Some h \<Rightarrow> Inr (c\<lparr>c_uniqueHashmap := h\<rparr>))
     else Inr c)"

text \<open>The block is added without its statistics, then it gets its mask and the stored statistics.\<close>

definition add_loaded ::
  "'a compressor \<Rightarrow> 'a elem \<Rightarrow> 'a list \<Rightarrow> nat \<Rightarrow> int \<Rightarrow> bool \<Rightarrow> 32 word \<Rightarrow> nullmask list \<Rightarrow> 'a \<Rightarrow> 'a \<Rightarrow> f32 \<Rightarrow> 'a
    \<Rightarrow> 'a column \<Rightarrow> 'a column result" where
  "add_loaded cmpr E data n g isCompressed index nullBitMask mn mx avg sm c =
    bindR (AddBlock_ptr cmpr E data n (c_blockSize c) g False isCompressed False False index c) (\<lambda>c1.
    mapR (\<lambda>b. set_last g (setBlockStatistics_loaded mn mx avg sm n b) c1)
      (SetNullBitmask_ptr E (Some nullBitMask) (last (blocks_at g c1))))"

text \<open>
  One round of the loop: the record is read, its rows are checked for duplicates, and a block is
  added. The array for the missing rows is allocated before the length is checked, so a length over
  the block size raises \<open>std::bad_array_new_length\<close>.
\<close>

definition load_record ::
  "(32 word \<Rightarrow> int8 list) \<Rightarrow> 'w::len word compressor \<Rightarrow> ('w word \<Rightarrow> 'w word \<Rightarrow> bool) \<Rightarrow> 'w word elem
    \<Rightarrow> int8 list \<Rightarrow> 'w word column \<Rightarrow> ('w word column \<times> int8 list) option result" where
  "load_record junk cmpr same E r0 c =
    bindR (load_head junk (GetNullBitMaskSize (c_blockSize c)) r0) (\<lambda>h. case h of
      None \<Rightarrow> Inr None
    | Some (index, groupId, nullBitMask, r1) \<Rightarrow>
        bindR (load_stats r1) (\<lambda>(dataLength, isCompressed, mn, mx, avg, sm, r2).
        let n = unat dataLength; bytes = c_blockSize c * (LENGTH('w) div 8);
            data = words_of n r2 @ replicate (c_blockSize c - n) (uninit_v E)
        in if c_blockSize c < n then Inl BadAlloc
           else if length r2 < bytes then Inl UndefinedBehaviour
           else bindR (load_unique same (take n data) c) (\<lambda>c1.
             mapR (\<lambda>c2. Some (c2, drop bytes r2))
               (add_loaded cmpr E data n (sint groupId) isCompressed index nullBitMask mn mx avg sm c1))))"

lemma read_word_shorter: "read_word r = Some (x :: 'w::len word, r') \<Longrightarrow> length r' \<le> length r"
  by (auto simp: read_word_def split: if_splits)

lemma read_word_less: "read_word r = Some (x :: 32 word, r') \<Longrightarrow> length r' < length r"
  by (auto simp: read_word_def split: if_splits)

lemma load_head_shorter: "load_head junk alloc r = Inr (Some (i, g, m, r')) \<Longrightarrow> length r' < length r"
  by (auto simp: load_head_def split: option.splits if_splits dest!: read_word_less intro!: le_less_trans [OF diff_le_self])

lemma load_stats_shorter: "load_stats r = Inr (n, z, mn, mx, avg, sm, r') \<Longrightarrow> length r' \<le> length r"
  by (auto simp: load_stats_def split: option.splits if_splits dest!: read_word_shorter)

lemma load_record_shorter:
  fixes c :: "'w::len word column"
  assumes "load_record junk cmpr same E r c = Inr (Some (c', r'))"
  shows "length r' < length r"
proof -
  from assms obtain i g m r1 n z and mn :: "'w word" and mx avg sm r2
    where "load_head junk (GetNullBitMaskSize (c_blockSize c)) r = Inr (Some (i, g, m, r1))"
      and "load_stats r1 = Inr (n, z, mn, mx, avg, sm, r2)"
      and "r' = drop (c_blockSize c * (LENGTH('w) div 8)) r2"
    by (auto simp: load_record_def Let_def split: option.splits if_splits)
  then have "length r1 < length r" and "length r' \<le> length r1"
    using load_stats_shorter [of r1 n z mn mx avg sm r2] by (auto dest: load_head_shorter)
  then show ?thesis by simp
qed

function load_blocks ::
  "(32 word \<Rightarrow> int8 list) \<Rightarrow> 'w::len word compressor \<Rightarrow> ('w word \<Rightarrow> 'w word \<Rightarrow> bool) \<Rightarrow> 'w word elem
    \<Rightarrow> int8 list \<Rightarrow> 'w word column \<Rightarrow> 'w word column result" where
  "load_blocks junk cmpr same E r c =
    (case load_record junk cmpr same E r c of
       Inl e \<Rightarrow> Inl e
     | Inr None \<Rightarrow> Inr c
     | Inr (Some (c', r')) \<Rightarrow> load_blocks junk cmpr same E r' c')"
  by pat_completeness auto
termination
  by (relation "measure (\<lambda>(junk, cmpr, same, E, r, c). length r)") (auto dest: load_record_shorter)

declare load_blocks.simps [simp del]

text \<open>
  \<open>parse\<close> is the conversion of the stored default value (\<open>std::stoi\<close>, \<open>stol\<close>, \<open>stof\<close>, \<open>stod\<close>). The
  position at the end of a file that cannot be opened is \<open>-1\<close>, which is a size over zero; the
  loop then reads nothing and uses uninitialised values. The name of the column is a new one.
\<close>

definition LoadColumn ::
  "(32 word \<Rightarrow> int8 list) \<Rightarrow> (string \<Rightarrow> 'w::len word result) \<Rightarrow> 'w word compressor \<Rightarrow> ('w word \<Rightarrow> 'w word \<Rightarrow> bool)
    \<Rightarrow> 'w word elem \<Rightarrow> files \<Rightarrow> string \<Rightarrow> string \<Rightarrow> bool \<Rightarrow> bool \<Rightarrow> string \<Rightarrow> nat \<Rightarrow> string \<Rightarrow> 'w word column result" where
  "LoadColumn junk parse cmpr same E fs fileAddressPath fileDataPath isNullable isUnique defaultValue blockSize name =
    bindR (ColumnBase_new same E name blockSize isNullable isUnique) (\<lambda>c.
    bindR (parse defaultValue) (\<lambda>d.
    let c1 = c\<lparr>c_fileAddressPath := fileAddressPath, c_fileDataPath := fileDataPath, c_defaultValue := d\<rparr>
    in case fs fileDataPath of
         None \<Rightarrow> Inl UndefinedBehaviour
       | Some [] \<Rightarrow> Inr c1
       | Some r \<Rightarrow> load_blocks junk cmpr same E r c1))"

section \<open>The number types\<close>

text \<open>
  The cases of the three functions. \<open>u\<close> is the value of an uninitialised cell. The default value of a
  column of bytes may be the words \<open>true\<close> and \<open>false\<close>, in any case of letters.
\<close>

definition to_lower :: "string \<Rightarrow> string" where
  "to_lower s = map (\<lambda>c. if (65 :: nat) \<le> of_char c \<and> (of_char c :: nat) \<le> 90 then char_of ((of_char c :: nat) + 32) else c) s"

definition parse_bool :: "(string \<Rightarrow> int32 result) \<Rightarrow> string \<Rightarrow> int8 result" where
  "parse_bool parse s =
    (if to_lower s = ''true'' then Inr 1 else if to_lower s = ''false'' then Inr 0
     else mapR (\<lambda>i. word_of_int (sint i)) (parse s))"

definition WriteColumn_int8 where "WriteColumn_int8 stale writable dir u = WriteColumn stale writable dir (elem_int8 u)"
definition WriteColumn_int32 where "WriteColumn_int32 stale writable dir u = WriteColumn stale writable dir (elem_int32 u)"
definition WriteColumn_int64 where "WriteColumn_int64 stale writable dir u = WriteColumn stale writable dir (elem_int64 u)"
definition WriteColumn_float where "WriteColumn_float stale writable dir u = WriteColumn stale writable dir (elem_float u)"
definition WriteColumn_double where "WriteColumn_double stale writable dir u = WriteColumn stale writable dir (elem_double u)"

definition PersistOnlyModified_int8 where
  "PersistOnlyModified_int8 stale writable dir u = PersistOnlyModified stale writable dir (elem_int8 u)"
definition PersistOnlyModified_int32 where
  "PersistOnlyModified_int32 stale writable dir u = PersistOnlyModified stale writable dir (elem_int32 u)"
definition PersistOnlyModified_int64 where
  "PersistOnlyModified_int64 stale writable dir u = PersistOnlyModified stale writable dir (elem_int64 u)"
definition PersistOnlyModified_float where
  "PersistOnlyModified_float stale writable dir u = PersistOnlyModified stale writable dir (elem_float u)"
definition PersistOnlyModified_double where
  "PersistOnlyModified_double stale writable dir u = PersistOnlyModified stale writable dir (elem_double u)"

definition LoadColumn_int8 where
  "LoadColumn_int8 junk parse cmpr same u = LoadColumn junk (parse_bool parse) cmpr same (elem_int8 u)"
definition LoadColumn_int32 where
  "LoadColumn_int32 junk parse cmpr same u = LoadColumn junk parse cmpr same (elem_int32 u)"
definition LoadColumn_int64 where
  "LoadColumn_int64 junk parse cmpr same u = LoadColumn junk parse cmpr same (elem_int64 u)"
definition LoadColumn_float where
  "LoadColumn_float junk parse cmpr same u = LoadColumn junk parse cmpr same (elem_float u)"
definition LoadColumn_double where
  "LoadColumn_double junk parse cmpr same u fs fileAddressPath fileDataPath isNullable isUnique defaultValue blockSize name =
    mapR UpdateSize (LoadColumn junk parse cmpr same (elem_double u) fs fileAddressPath fileDataPath
      isNullable isUnique defaultValue blockSize name)"

end
