(* ===== verification/Column_Roundtrip.thy ===== *)
theory Column_Roundtrip
  imports Column_Files
begin

text \<open>
  What \<open>LoadColumn\<close> reads back from the files of \<open>WriteColumn\<close>, and what \<open>PersistOnlyModified\<close> does
  to the records it does not mean to touch.
\<close>

section \<open>One record\<close>

text \<open>A block as \<open>WriteColumn\<close> and \<open>LoadColumn\<close> see it.\<close>

definition stored_as :: "nat \<Rightarrow> 'a block \<Rightarrow> 'a block \<Rightarrow> bool" where
  "stored_as i b b' \<longleftrightarrow>
    rows b' = rows b \<and> b_min b' = b_min b \<and> b_max b' = b_max b \<and> b_avg b' = b_avg b \<and> b_sum b' = b_sum b \<and>
    b_size b' = b_size b \<and> block_ok b' \<and> b_capacity b' = b_capacity b \<and> b_isNullable b' = b_isNullable b \<and>
    b_groupId b' = - 1 \<and> b_index b' = of_nat i \<and> \<not> b_saveNecessary b' \<and>
    take (b_size b) (b_data b') = take (b_size b) (b_data b) \<and>
    map_option (take (GetNullBitMaskSize (b_size b))) (b_bitMask b') = map_option (take (GetNullBitMaskSize (b_size b))) (b_bitMask b)"

definition storable :: "bool \<Rightarrow> nat \<Rightarrow> 'a block \<Rightarrow> bool" where
  "storable isNullable blockSize b \<longleftrightarrow>
    block_ok b \<and> b_capacity b = blockSize \<and> b_groupId b = - 1 \<and> b_isNullable b = isNullable"

lemma storable_mask:
  assumes "storable isNullable blockSize b" and "\<forall>n. length (stale n) = n"
  obtains m where "mask_bytes stale isNullable b = Inr m" and "length m = GetNullBitMaskSizeInBytes (b_size b)"
    and "\<And>x. b_bitMask b = Some x \<Longrightarrow> m = words_bytes (take (GetNullBitMaskSize (b_size b)) x)"
proof (cases isNullable)
  case True
  with assms(1) obtain x where x: "b_bitMask b = Some x" "length x = GetNullBitMaskSize (b_capacity b)"
    by (auto simp: storable_def block_ok_def split: option.splits)
  have le: "GetNullBitMaskSize (b_size b) \<le> length x"
    using assms(1) x by (simp add: storable_def block_ok_def GetNullBitMaskSize_mono)
  have "take (8 * GetNullBitMaskSize (b_size b)) (words_bytes x) = words_bytes (take (GetNullBitMaskSize (b_size b)) x)"
    using take_words_bytes [of "GetNullBitMaskSize (b_size b)" x] by simp
  with True x le show thesis
    by (intro that) (auto simp: mask_bytes_def GetNullBitMaskSizeInBytes_def mult.commute)
next
  case False
  with assms show thesis
    by (intro that) (auto simp: mask_bytes_def storable_def block_ok_def split: option.splits)
qed

lemma load_head_bytes:
  assumes "length m = l" and "l \<le> 8 * alloc" and "l < 2 ^ 32"
  shows "load_head junk alloc (word_bytes index @ word_bytes groupId @ word_bytes (of_nat l :: 32 word) @ m @ rest)
    = Inr (Some (index, groupId, words_of alloc (m @ drop l (junk index)), rest))"
proof -
  have "unat (of_nat l :: 32 word) = l" using assms(3) by (simp add: unat_of_nat)
  with assms show ?thesis by (simp add: load_head_def read_word_bytes)
qed

lemma load_stats_bytes:
  fixes mn :: "'w::len word"
  assumes "8 dvd LENGTH('w)"
  shows "load_stats (word_bytes (n :: 64 word) @ word_bytes (of_bool z :: int8) @ word_bytes mn @ word_bytes mx
      @ word_bytes avg @ word_bytes sm @ rest) = Inr (n, z, mn, mx, avg, sm, rest)"
  using assms by (cases z) (simp_all add: load_stats_def read_word_bytes)

text \<open>The rows and the mask a block gets on loading, put beside the ones it was stored from.\<close>

lemma rows_loaded:
  assumes "b_size b' = b_size b" and "take (b_size b) (b_data b') = take (b_size b) (b_data b)"
    and "b_size b \<le> length (b_data b)" and "b_size b \<le> length (b_data b')"
    and "\<forall>i<b_size b. is_null b' i = is_null b i"
  shows "rows b' = rows b"
proof -
  have "b_data b' ! i = b_data b ! i" if "i < b_size b" for i
    using assms(2) that by (metis nth_take)
  with assms show ?thesis by (simp add: rows_def)
qed

lemma mask_bit_prefix:
  assumes "i < n" and "GetNullBitMaskSize n \<le> length x"
  shows "mask_bit (take (GetNullBitMaskSize n) x @ y) i = mask_bit x i"
proof -
  have "i div 64 < GetNullBitMaskSize n" using assms(1) by (rule GetNullBitMaskSize_bound)
  with assms(2) show ?thesis by (simp add: mask_bit_def nth_append)
qed

text \<open>The mask words of a loaded block: the stored ones and what was in the array behind them.\<close>

lemma loaded_mask:
  assumes b: "storable nul N b" and nm: "nm = words_of (GetNullBitMaskSize N) (m @ rest)"
    and m: "\<And>x. b_bitMask b = Some x \<Longrightarrow> m = words_bytes (take (GetNullBitMaskSize (b_size b)) x)"
    and b': "b_bitMask b' = (if nul then Some nm else None)"
  shows "\<And>j. j < b_size b \<Longrightarrow> is_null b' j = is_null b j"
    and "map_option (take (GetNullBitMaskSize (b_size b))) (b_bitMask b') = map_option (take (GetNullBitMaskSize (b_size b))) (b_bitMask b)"
proof (atomize (full), cases "b_bitMask b")
  case None
  then have "\<not> nul" using b by (auto simp: storable_def block_ok_def)
  with None b' show "(\<forall>j. j < b_size b \<longrightarrow> is_null b' j = is_null b j) \<and>
      map_option (take (GetNullBitMaskSize (b_size b))) (b_bitMask b') = map_option (take (GetNullBitMaskSize (b_size b))) (b_bitMask b)"
    by (simp add: is_null_def)
next
  case (Some x)
  then have x: "nul" "length x = GetNullBitMaskSize N" and n: "b_size b \<le> N"
    using b by (auto simp: storable_def block_ok_def)
  have "\<exists>y. nm = take (GetNullBitMaskSize (b_size b)) x @ y"
    using m [OF Some] x GetNullBitMaskSize_mono [OF n]
      words_of_bytes [of "take (GetNullBitMaskSize (b_size b)) x" "GetNullBitMaskSize N - GetNullBitMaskSize (b_size b)"]
    by (auto simp: nm)
  with x Some b' n GetNullBitMaskSize_mono [OF n] show "(\<forall>j. j < b_size b \<longrightarrow> is_null b' j = is_null b j) \<and>
      map_option (take (GetNullBitMaskSize (b_size b))) (b_bitMask b') = map_option (take (GetNullBitMaskSize (b_size b))) (b_bitMask b)"
    by (auto simp: is_null_def mask_bit_prefix)
qed

text \<open>The block that is added.\<close>

lemma add_loaded_eq:
  assumes "n \<le> c_blockSize c"
  obtains b' where "add_loaded cmpr E dat n g False index nm mn mx avg sm c =
      Inr ((set_blocks_at g (blocks_at g c @ [b']) c)\<lparr>c_size := c_size c + int n\<rparr>)"
    and "b_size b' = n" "b_data b' = dat" "b_capacity b' = c_blockSize c" "\<not> b_isCompressed b'"
      "b_bitMask b' = (if c_isNullable c then Some nm else None)" "b_isNullable b' = c_isNullable c"
      "b_min b' = mn" "b_max b' = mx" "b_avg b' = avg" "b_sum b' = sm" "b_groupId b' = - 1"
      "b_index b' = index" "\<not> b_saveNecessary b'"
proof -
  define b0 where "b0 = raw_block E (c_blockSize c) dat False (c_isNullable c) False index"
  define b1 where "b1 = (if c_isNullable c
    then setBlockStatistics E 0 0 (b0\<lparr>b_bitMask := Some nm, b_isNullMaskRegistered := True\<rparr>) else b0)"
  define c1 where "c1 = (set_blocks_at g (blocks_at g c @ [b0]) c)\<lparr>c_size := c_size c + int n\<rparr>"
  have 0: "b_size b0 = 0" "b_isNullable b0 = c_isNullable c" "\<not> b_isCompressed b0"
    "b_bitMask b0 = (if c_isNullable c then Some (new_mask (c_blockSize c)) else None)"
    by (simp_all add: b0_def raw_block_def)
  have "AddBlock_ptr cmpr E dat n (c_blockSize c) g False False False False index c = Inr c1"
    using assms by (simp add: AddBlock_ptr_def BlockBase_ptr_def c1_def b0_def compress_if_def)
  moreover have "last (blocks_at g c1) = b0"
    by (simp add: c1_def blocks_at_def set_blocks_at_def omap_get_set)
  moreover have "SetNullBitmask_ptr E (Some nm) b0 = Inr b1"
    using 0 by (simp add: SetNullBitmask_ptr_def b1_def stats_defined_def GetNullBitMaskSize_def)
  moreover have "set_last g x c1 = (set_blocks_at g (blocks_at g c @ [x]) c)\<lparr>c_size := c_size c + int n\<rparr>" for x
    by (simp add: set_last_def c1_def blocks_at_def set_blocks_at_def omap_get_set omap_set_set)
  ultimately have eq: "add_loaded cmpr E dat n g False index nm mn mx avg sm c =
      Inr ((set_blocks_at g (blocks_at g c @ [setBlockStatistics_loaded mn mx avg sm n b1]) c)\<lparr>c_size := c_size c + int n\<rparr>)"
    by (simp add: add_loaded_def)
  show thesis
    by (rule that [OF eq])
      (simp_all add: setBlockStatistics_loaded_def b1_def b0_def raw_block_def setBlockStatistics_def
        setBlockStatistics_num_def setBlockStatistics_byte_def update_rows_def split: stat_kind.split)
qed

lemma block_bytes_storable:
  fixes b :: "'w::len word block"
  assumes "storable nul bs b" and "\<forall>i n. length (stale i n) = n"
  obtains m where "mask_bytes (stale index) nul b = Inr m" and "length m = GetNullBitMaskSizeInBytes (b_size b)"
    and "\<And>x. b_bitMask b = Some x \<Longrightarrow> m = words_bytes (take (GetNullBitMaskSize (b_size b)) x)"
    and "block_bytes stale E nul bs index b = Inr (word_bytes index @ word_bytes (- 1 :: int32)
         @ word_bytes (of_nat (GetNullBitMaskSizeInBytes (b_size b)) :: 32 word) @ m
         @ word_bytes (of_nat (b_size b) :: 64 word) @ word_bytes (of_bool False :: int8)
         @ word_bytes (b_min b) @ word_bytes (b_max b) @ word_bytes (b_avg b) @ word_bytes (b_sum b)
         @ words_bytes (take (b_size b) (b_data b)) @ words_bytes (replicate (bs - b_size b) (max_v E)))"
proof -
  obtain m where "mask_bytes (stale index) nul b = Inr m" and "length m = GetNullBitMaskSizeInBytes (b_size b)"
    and "\<And>x. b_bitMask b = Some x \<Longrightarrow> m = words_bytes (take (GetNullBitMaskSize (b_size b)) x)"
    by (rule storable_mask [OF assms(1) spec [OF assms(2), of index]]) auto
  with assms(1) show thesis
    by (intro that [of m]) (simp_all add: block_bytes_def storable_def block_ok_def)
qed

lemma load_unique_frame:
  assumes "load_unique same vals c = Inr c1"
  shows "c_blocks c1 = c_blocks c" "c_size c1 = c_size c" "c_blockSize c1 = c_blockSize c"
    "c_isNullable c1 = c_isNullable c" "c_isUnique c1 = c_isUnique c"
  using assms by (auto simp: load_unique_def split: if_splits option.splits)

lemma load_record_block_bytes:
  fixes b :: "'w::len word block" and c :: "'w word column"
  assumes b: "storable (c_isNullable c) (c_blockSize c) b" and stale: "\<forall>i n. length (stale i n) = n"
    and w: "8 dvd LENGTH('w)" and u: "load_unique same (take (b_size b) (b_data b)) c = Inr c1"
  obtains d b' where "block_bytes stale E (c_isNullable c) (c_blockSize c) (of_nat i) b = Inr d"
    and "\<And>rest. load_record junk cmpr same E (d @ rest) c =
      Inr (Some ((set_blocks_at (- 1) (blocks_at (- 1) c @ [b']) c1)\<lparr>c_size := c_size c + int (b_size b)\<rparr>, rest))"
    and "stored_as i b b'"
proof -
  let ?n = "b_size b" and ?N = "c_blockSize c" and ?i = "of_nat i :: 32 word"
  let ?k = "GetNullBitMaskSizeInBytes ?n" and ?alloc = "GetNullBitMaskSize ?N"
  have n: "?n \<le> ?N" "?N < 2 ^ 31" and len: "length (b_data b) = ?N"
    using b by (simp_all add: storable_def block_ok_def)
  obtain m where m: "length m = ?k"
      "\<And>x. b_bitMask b = Some x \<Longrightarrow> m = words_bytes (take (GetNullBitMaskSize ?n) x)"
    and d: "block_bytes stale E (c_isNullable c) ?N ?i b = Inr (word_bytes ?i @ word_bytes (- 1 :: int32)
         @ word_bytes (of_nat ?k :: 32 word) @ m @ word_bytes (of_nat ?n :: 64 word) @ word_bytes (of_bool False :: int8)
         @ word_bytes (b_min b) @ word_bytes (b_max b) @ word_bytes (b_avg b) @ word_bytes (b_sum b)
         @ words_bytes (take ?n (b_data b)) @ words_bytes (replicate (?N - ?n) (max_v E)))"
      (is "_ = Inr ?d")
    by (rule block_bytes_storable [OF b stale, where E = E and index = ?i]) auto
  have k: "?k \<le> 8 * ?alloc" "?k < 2 ^ 32"
    using n GetNullBitMaskSize_mono [OF n(1)] by (simp_all add: GetNullBitMaskSizeInBytes_def GetNullBitMaskSize_def)
  define nm :: "nullmask list" where "nm = words_of ?alloc (m @ drop ?k (junk ?i))"
  have un: "unat (of_nat ?n :: 64 word) = ?n" using n by (simp add: unat_of_nat)
  let ?data = "take ?n (b_data b) @ replicate (?N - ?n) (uninit_v E)"
  note c1 = load_unique_frame [OF u]
  obtain b' where a: "add_loaded cmpr E ?data ?n (- 1) False ?i nm (b_min b) (b_max b) (b_avg b) (b_sum b) c1
      = Inr ((set_blocks_at (- 1) (blocks_at (- 1) c1 @ [b']) c1)\<lparr>c_size := c_size c1 + int ?n\<rparr>)"
    and b': "b_size b' = ?n" "b_data b' = ?data" "b_capacity b' = ?N" "\<not> b_isCompressed b'"
      "b_bitMask b' = (if c_isNullable c then Some nm else None)" "b_isNullable b' = c_isNullable c"
      "b_min b' = b_min b" "b_max b' = b_max b" "b_avg b' = b_avg b" "b_sum b' = b_sum b" "b_groupId b' = - 1"
      "b_index b' = ?i" "\<not> b_saveNecessary b'"
    using add_loaded_eq [of ?n c1 cmpr E ?data "- 1" ?i nm "b_min b" "b_max b" "b_avg b" "b_sum b"] n c1 by metis
  have "load_record junk cmpr same E (?d @ rest) c
      = Inr (Some ((set_blocks_at (- 1) (blocks_at (- 1) c @ [b']) c1)\<lparr>c_size := c_size c + int ?n\<rparr>, rest))" for rest
  proof -
    define tail where "tail = words_bytes (take ?n (b_data b)) @ words_bytes (replicate (?N - ?n) (max_v E)) @ rest"
    have ws: "words_of ?n tail = take ?n (b_data b)"
      using words_of_bytes [OF w, of "take ?n (b_data b)" 0] n len by (simp add: tail_def)
    have bytes: "length tail = ?N * (LENGTH('w) div 8) + length rest" "drop (?N * (LENGTH('w) div 8)) tail = rest"
    proof -
      have "tail = (words_bytes (take ?n (b_data b)) @ words_bytes (replicate (?N - ?n) (max_v E))) @ rest"
        by (simp add: tail_def)
      moreover have "length (words_bytes (take ?n (b_data b)) @ words_bytes (replicate (?N - ?n) (max_v E)))
          = ?N * (LENGTH('w) div 8)"
        using n len by (simp add: algebra_simps flip: add_mult_distrib2)
      ultimately show "length tail = ?N * (LENGTH('w) div 8) + length rest" "drop (?N * (LENGTH('w) div 8)) tail = rest"
        by (metis length_append, metis append_eq_conv_conj)
    qed
    define r1 where "r1 = word_bytes (of_nat ?n :: 64 word) @ word_bytes (of_bool False :: int8)
           @ word_bytes (b_min b) @ word_bytes (b_max b) @ word_bytes (b_avg b) @ word_bytes (b_sum b) @ tail"
    have head: "load_head junk ?alloc (?d @ rest) = Inr (Some (?i, - 1, nm, r1))"
      using load_head_bytes [OF m(1) k, of junk ?i "- 1" r1]
      unfolding r1_def tail_def nm_def append_assoc .
    have stats: "load_stats r1 = Inr (of_nat ?n, False, b_min b, b_max b, b_avg b, b_sum b, tail)"
      unfolding r1_def by (rule load_stats_bytes [OF w])
    show ?thesis
      unfolding load_record_def head
      using stats un ws bytes n len u a c1 by (simp add: blocks_at_def)
  qed
  moreover have "stored_as i b b'"
  proof -
    have nm: "length nm = ?alloc" by (simp add: nm_def)
    have msk: "is_null b' j = is_null b j" if "j < ?n" for j
      by (rule loaded_mask(1) [OF b nm_def m(2) b'(5) that])
    have words: "map_option (take (GetNullBitMaskSize ?n)) (b_bitMask b') = map_option (take (GetNullBitMaskSize ?n)) (b_bitMask b)"
      by (rule loaded_mask(2) [OF b nm_def m(2) b'(5)])
    from msk b' n len have "rows b' = rows b" by (intro rows_loaded) simp_all
    moreover have "block_ok b'" using b' n len nm by (simp add: block_ok_def)
    moreover have "take ?n (b_data b') = take ?n (b_data b)" using b' n len by simp
    ultimately show ?thesis using b b' words by (simp add: stored_as_def storable_def)
  qed
  ultimately show thesis using that [OF d] by blast
qed

section \<open>All the records\<close>

definition stored_list :: "nat \<Rightarrow> 'a block list \<Rightarrow> 'a block list \<Rightarrow> bool" where
  "stored_list i bs bs' \<longleftrightarrow> length bs' = length bs \<and> (\<forall>k<length bs. stored_as (i + k) (bs ! k) (bs' ! k))"

lemma stored_list_Cons: "stored_as i b b' \<Longrightarrow> stored_list (Suc i) bs bs' \<Longrightarrow> stored_list i (b # bs) (b' # bs')"
  by (auto simp: stored_list_def nth_Cons split: nat.split)

definition block_values :: "'a block list \<Rightarrow> 'a list" where
  "block_values bs = concat (map (\<lambda>b. take (b_size b) (b_data b)) bs)"

lemma collect_unique_append:
  "collect_unique same (xs @ ys) h = Option.bind (collect_unique same xs h) (collect_unique same ys)"
  by (induction xs arbitrary: h) simp_all

lemma load_unique_append:
  "load_unique same (xs @ ys) c = bindR (load_unique same xs c) (load_unique same ys)"
  by (auto simp: load_unique_def collect_unique_append split: option.split)

lemma load_unique_update:
  "load_unique same xs (c\<lparr>c_blocks := bs, c_size := n\<rparr>) = mapR (\<lambda>c. c\<lparr>c_blocks := bs, c_size := n\<rparr>) (load_unique same xs c)"
  by (auto simp: load_unique_def split: option.split)

lemma index_no_overflow:
  assumes "i + 1 < 2 ^ 32 - 1"
  shows "(of_nat i + 1 :: 32 word) \<noteq> UINT32_MAX"
proof
  assume "(of_nat i + 1 :: 32 word) = UINT32_MAX"
  then have "(of_nat (i + 1) :: 32 word) = - 1" by (simp add: UINT32_MAX_def add.commute)
  then have "(of_nat (i + 1) :: 32 word) = of_nat (2 ^ 32 - 1)" by (rule trans) simp
  moreover have "unat (of_nat (i + 1) :: 32 word) = i + 1"
    using assms by (simp add: unat_of_nat del: of_nat_Suc of_nat_add)
  moreover have "unat (of_nat (2 ^ 32 - 1) :: 32 word) = 2 ^ 32 - 1"
    by (simp add: unat_of_nat)
  ultimately show False using assms by simp
qed

text \<open>Writing a list of blocks succeeds, and the loop of \<open>LoadColumn\<close> over the bytes adds them.\<close>

lemma load_written_blocks:
  fixes bs :: "'w::len word block list" and c :: "'w word column"
  assumes "\<forall>b\<in>set bs. storable (c_isNullable c) (c_blockSize c) b" and "\<forall>i n. length (stale i n) = n"
    and "8 dvd LENGTH('w)" and "load_unique same (block_values bs) c = Inr c1"
    and "c_blocks c = [(- 1, prev)]" and "i + length bs < 2 ^ 32 - 1"
  shows "\<exists>d a bs'. write_blocks stale E (c_isNullable c) (c_blockSize c) (of_nat i) pos bs
        = Inr (d, a, map (\<lambda>b. b\<lparr>b_saveNecessary := False\<rparr>) bs)
    \<and> load_blocks junk cmpr same E d c = Inr (c1\<lparr>c_blocks := [(- 1, prev @ bs')], c_size := c_size c + int (sum_list (map b_size bs))\<rparr>)
    \<and> stored_list i bs bs'"
  using assms
proof (induction bs arbitrary: c c1 prev i pos)
  case Nil
  then have "c1 = c" by (auto simp: block_values_def load_unique_def split: if_splits)
  with Nil have "c1\<lparr>c_blocks := [(- 1, prev @ [])], c_size := c_size c + int (sum_list (map b_size []))\<rparr> = c"
    by simp
  moreover have "load_blocks junk cmpr same E [] c = Inr c"
    by (simp add: load_blocks.simps [of _ _ _ _ "[]"] load_record_def load_head_def read_word_def)
  ultimately show ?case
    by (intro exI [of _ "[]"]) (simp add: stored_list_def)
next
  case (Cons b bs)
  let ?vals = "take (b_size b) (b_data b)"
  from Cons.prems(4) obtain c0 where u: "load_unique same ?vals c = Inr c0"
    and u': "load_unique same (block_values bs) c0 = Inr c1"
    by (auto simp: block_values_def load_unique_append)
  have b: "storable (c_isNullable c) (c_blockSize c) b" using Cons.prems(1) by simp
  note f = load_unique_frame [OF u] load_unique_frame [OF u']
  obtain d b' where d: "block_bytes stale E (c_isNullable c) (c_blockSize c) (of_nat i) b = Inr d"
    and r: "\<And>rest. load_record junk cmpr same E (d @ rest) c =
      Inr (Some ((set_blocks_at (- 1) (blocks_at (- 1) c @ [b']) c0)\<lparr>c_size := c_size c + int (b_size b)\<rparr>, rest))"
    and s: "stored_as i b b'"
    using load_record_block_bytes [OF b Cons.prems(2,3) u, where E = E and i = i and junk = junk and cmpr = cmpr] by metis
  let ?upd = "\<lambda>c'. c'\<lparr>c_blocks := [(- 1, prev @ [b'])], c_size := c_size c + int (b_size b)\<rparr>"
  have c: "(set_blocks_at (- 1) (blocks_at (- 1) c @ [b']) c0)\<lparr>c_size := c_size c + int (b_size b)\<rparr> = ?upd c0"
    using Cons.prems(5) f by (simp add: set_blocks_at_def blocks_at_def)
  have ix: "(of_nat i :: 32 word) + 1 \<noteq> UINT32_MAX" "(of_nat i :: 32 word) + 1 = of_nat (Suc i)"
    using Cons.prems(6) by (simp_all add: index_no_overflow)
  let ?pos = "pos + record_length (LENGTH('w) div 8) (c_blockSize c) (b_size b)"
  have "load_unique same (block_values bs) (?upd c0) = Inr (?upd c1)"
    by (simp add: load_unique_update u')
  then obtain d2 a bs' where w: "write_blocks stale E (c_isNullable c) (c_blockSize c) (of_nat (Suc i)) ?pos bs
        = Inr (d2, a, map (\<lambda>b. b\<lparr>b_saveNecessary := False\<rparr>) bs)"
    and l: "load_blocks junk cmpr same E d2 (?upd c0) = Inr (c1\<lparr>c_blocks := [(- 1, (prev @ [b']) @ bs')],
        c_size := c_size c + int (b_size b) + int (sum_list (map b_size bs))\<rparr>)"
    and sl: "stored_list (Suc i) bs bs'"
    using Cons.IH [of "?upd c0" "?upd c1" "prev @ [b']" "Suc i" ?pos] Cons.prems(1,2,3,6) f by auto
  have "write_blocks stale E (c_isNullable c) (c_blockSize c) (of_nat i) pos (b # bs)
      = Inr (d @ d2, word_bytes (of_nat pos :: 64 word) @ a, map (\<lambda>b. b\<lparr>b_saveNecessary := False\<rparr>) (b # bs))"
    using d w ix by (simp del: of_nat_Suc)
  moreover have "load_blocks junk cmpr same E (d @ d2) c
      = Inr (c1\<lparr>c_blocks := [(- 1, prev @ b' # bs')], c_size := c_size c + int (sum_list (map b_size (b # bs)))\<rparr>)"
    using load_blocks.simps [of junk cmpr same E "d @ d2" c] r [of d2] l by (simp add: c add.assoc)
  moreover have "stored_list i (b # bs) (b' # bs')" using s sl by (rule stored_list_Cons)
  ultimately show ?case by blast
qed

section \<open>The files of a column\<close>

lemma regroup_map: "regroup gs (map f (concat (map snd gs))) = map (\<lambda>(g, bs). (g, map f bs)) gs"
  by (induction gs) auto

lemma WriteColumn_eq:
  assumes "writable (data_path dir db tb c)" and "writable (address_path dir db tb c)"
    and "data_path dir db tb c \<noteq> address_path dir db tb c"
    and "write_blocks stale E (c_isNullable c) n 0 0 (GetBlocksList c) = Inr (d, a, map f (GetBlocksList c))"
  shows "WriteColumn stale writable dir E db tb n c fs
    = Inr (map_blocks f c, fs(data_path dir db tb c \<mapsto> d, address_path dir db tb c \<mapsto> a))"
proof -
  have "c\<lparr>c_blocks := regroup (c_blocks c) (map f (GetBlocksList c))\<rparr> = map_blocks f c"
    by (simp add: GetBlocksList_def regroup_map map_blocks_def)
  with assms show ?thesis by (auto simp: WriteColumn_def Let_def open_out_def fun_upd_twist)
qed

text \<open>What is written, and what is loaded from any files that have it.\<close>

lemma number_io:
  fixes c :: "'w::len word column"
  assumes "8 dvd LENGTH('w)" and "\<forall>i n. length (stale i n) = n"
    and "\<forall>b\<in>set (GetBlocksList c). storable (c_isNullable c) (c_blockSize c) b"
    and "GetBlockCount c < 2 ^ 32 - 1"
    and "c_isUnique c \<longrightarrow> \<not> c_isNullable c \<and> collect_unique same (column_values c) [] = Some h"
    and "writable dataPath" and "writable addressPath" and "dataPath \<noteq> addressPath"
    and "dataPath = data_path dir db tb c" and "addressPath = address_path dir db tb c"
    and "parse dflt = Inr v"
  shows "\<exists>d a c' bs. (\<forall>fs. WriteColumn stale writable dir E db tb (c_blockSize c) c fs
        = Inr (map_blocks (\<lambda>b. b\<lparr>b_saveNecessary := False\<rparr>) c, fs(dataPath \<mapsto> d, addressPath \<mapsto> a)))
    \<and> (\<forall>fs. fs dataPath = Some d \<longrightarrow>
        LoadColumn junk parse cmpr same E fs addressPath dataPath (c_isNullable c) (c_isUnique c) dflt (c_blockSize c) (c_name c)
        = Inr c')
    \<and> c_blocks c' = [(- 1, bs)] \<and> stored_list 0 (GetBlocksList c) bs
    \<and> c_size c' = int (sum_list (map b_size (GetBlocksList c))) \<and> c_defaultValue c' = v
    \<and> (c_isUnique c \<longrightarrow> c_uniqueHashmap c' = h) \<and> c_isNullable c' = c_isNullable c \<and> c_isUnique c' = c_isUnique c"
proof -
  obtain c0 where new: "ColumnBase_new same E (c_name c) (c_blockSize c) (c_isNullable c) (c_isUnique c) = Inr c0"
    and f: "c_blocks c0 = [(- 1, [])]" "c_size c0 = 0" "c_blockSize c0 = c_blockSize c"
      "c_isNullable c0 = c_isNullable c" "c_isUnique c0 = c_isUnique c" "c_uniqueHashmap c0 = []"
    using ColumnBase_new_eq [of "c_isNullable c" "c_isUnique c" same E "c_name c" "c_blockSize c"] assms(5) by metis
  define c1 where "c1 = c0\<lparr>c_fileAddressPath := addressPath, c_fileDataPath := dataPath, c_defaultValue := v\<rparr>"
  have f1: "c_blocks c1 = [(- 1, [])]" "c_size c1 = 0" "c_blockSize c1 = c_blockSize c"
    "c_isNullable c1 = c_isNullable c" "c_isUnique c1 = c_isUnique c" "c_uniqueHashmap c1 = []" "c_defaultValue c1 = v"
    by (simp_all add: c1_def f)
  define c2 where "c2 = (if c_isUnique c then c1\<lparr>c_uniqueHashmap := h\<rparr> else c1)"
  have u: "load_unique same (block_values (GetBlocksList c)) c1 = Inr c2"
    using assms(5) f1 by (auto simp: load_unique_def c2_def column_values_def block_values_def)
  have len: "0 + length (GetBlocksList c) < 2 ^ 32 - 1"
    using assms(4) by (simp add: GetBlockCount_def GetBlocksList_def length_concat comp_def)
  obtain d a bs where w: "write_blocks stale E (c_isNullable c) (c_blockSize c) 0 0 (GetBlocksList c)
        = Inr (d, a, map (\<lambda>b. b\<lparr>b_saveNecessary := False\<rparr>) (GetBlocksList c))"
    and l: "load_blocks junk cmpr same E d c1 = Inr (c2\<lparr>c_blocks := [(- 1, [] @ bs)],
        c_size := c_size c1 + int (sum_list (map b_size (GetBlocksList c)))\<rparr>)"
    and s: "stored_list 0 (GetBlocksList c) bs"
    using load_written_blocks [of "GetBlocksList c" c1 stale same c2 "[]" 0 E 0 junk cmpr] assms(1,2,3) u f1 len by auto
  have wr: "WriteColumn stale writable dir E db tb (c_blockSize c) c fs
        = Inr (map_blocks (\<lambda>b. b\<lparr>b_saveNecessary := False\<rparr>) c, fs(dataPath \<mapsto> d, addressPath \<mapsto> a))" for fs
    using WriteColumn_eq [OF _ _ _ w, of writable dir db tb fs] assms(6-10) by simp
  have "load_blocks junk cmpr same E [] c1 = Inr c1"
    by (simp add: load_blocks.simps [of _ _ _ _ "[]"] load_record_def load_head_def read_word_def)
  then have "LoadColumn junk parse cmpr same E fs addressPath dataPath (c_isNullable c) (c_isUnique c) dflt
      (c_blockSize c) (c_name c) = load_blocks junk cmpr same E d c1" if "fs dataPath = Some d" for fs
    using new assms(11) that by (simp add: LoadColumn_def c1_def [symmetric] split: list.split)
  moreover define c' where "c' = c2\<lparr>c_blocks := [(- 1, bs)], c_size := int (sum_list (map b_size (GetBlocksList c)))\<rparr>"
  ultimately have ld: "\<forall>fs. fs dataPath = Some d \<longrightarrow> LoadColumn junk parse cmpr same E fs addressPath dataPath
      (c_isNullable c) (c_isUnique c) dflt (c_blockSize c) (c_name c) = Inr c'"
    using l f1 by simp
  have "c_blocks c' = [(- 1, bs)]" "c_size c' = int (sum_list (map b_size (GetBlocksList c)))" "c_defaultValue c' = v"
    "c_isUnique c \<longrightarrow> c_uniqueHashmap c' = h" "c_isNullable c' = c_isNullable c" "c_isUnique c' = c_isUnique c" using f1 by (simp_all add: c'_def c2_def)
  then show ?thesis using wr ld s by blast
qed

text \<open>
  C16. A column of numbers that is written to its files and loaded again has its rows, null rows
  included, block by block with the statistics, and the positions of the blocks as their indices;
  none of them needs saving. The blocks are all in the group \<open>-1\<close>, whatever group they were in.
\<close>

theorem column_file_roundtrip:
  fixes c :: "'w::len word column"
  assumes "8 dvd LENGTH('w)" and "\<forall>i n. length (stale i n) = n"
    and "\<forall>b\<in>set (GetBlocksList c). storable (c_isNullable c) (c_blockSize c) b"
    and "GetBlockCount c < 2 ^ 32 - 1"
    and "c_isUnique c \<longrightarrow> \<not> c_isNullable c \<and> collect_unique same (column_values c) [] = Some h"
    and "writable dataPath" and "writable addressPath" and "dataPath \<noteq> addressPath"
    and "dataPath = data_path dir db tb c" and "addressPath = address_path dir db tb c"
    and "parse dflt = Inr v"
  shows "\<exists>fs' c' bs. WriteColumn stale writable dir E db tb (c_blockSize c) c fs
        = Inr (map_blocks (\<lambda>b. b\<lparr>b_saveNecessary := False\<rparr>) c, fs')
    \<and> LoadColumn junk parse cmpr same E fs' addressPath dataPath (c_isNullable c) (c_isUnique c) dflt (c_blockSize c) (c_name c)
        = Inr c'
    \<and> c_blocks c' = [(- 1, bs)] \<and> stored_list 0 (GetBlocksList c) bs
    \<and> c_size c' = int (sum_list (map b_size (GetBlocksList c))) \<and> c_defaultValue c' = v
    \<and> (c_isUnique c \<longrightarrow> c_uniqueHashmap c' = h)"
proof -
  obtain d a c' bs where w: "\<forall>fs. WriteColumn stale writable dir E db tb (c_blockSize c) c fs
        = Inr (map_blocks (\<lambda>b. b\<lparr>b_saveNecessary := False\<rparr>) c, fs(dataPath \<mapsto> d, addressPath \<mapsto> a))"
    and l: "\<forall>fs. fs dataPath = Some d \<longrightarrow>
        LoadColumn junk parse cmpr same E fs addressPath dataPath (c_isNullable c) (c_isUnique c) dflt (c_blockSize c) (c_name c) = Inr c'"
    and c': "c_blocks c' = [(- 1, bs)]" "stored_list 0 (GetBlocksList c) bs"
      "c_size c' = int (sum_list (map b_size (GetBlocksList c)))" "c_defaultValue c' = v" "c_isUnique c \<longrightarrow> c_uniqueHashmap c' = h"
    using number_io [where writable = writable and parse = parse and dflt = dflt and dataPath = dataPath and addressPath = addressPath
        and junk = junk and cmpr = cmpr and E = E and c = c and stale = stale, OF assms] by blast
  define fs' where "fs' = fs(dataPath \<mapsto> d, addressPath \<mapsto> a)"
  have "fs' dataPath = Some d" using assms(8) by (simp add: fs'_def)
  then show ?thesis using w l c' by (intro exI [of _ fs'] exI [of _ c'] exI [of _ bs]) (simp add: fs'_def)
qed

definition saved_block :: "int32 block" where
  "saved_block = sample_block\<lparr>b_groupId := - 1\<rparr>"

definition saved_column :: "int32 column" where
  "saved_column = sample_column\<lparr>c_blockSize := 4, c_blocks := [(- 1, [saved_block])]\<rparr>"

lemma saved_block: "storable True 4 saved_block" "rows saved_block = [Some 7, Some 3]" "b_size saved_block = 2"
proof -
  have "is_null saved_block = is_null sample_block" by (rule ext) (simp add: saved_block_def is_null_def)
  then have "rows saved_block = rows sample_block" by (simp add: rows_def saved_block_def)
  then show "rows saved_block = [Some 7, Some 3]" using sample_block by simp
  show "storable True 4 saved_block" "b_size saved_block = 2"
    using sample_block by (auto simp: saved_block_def storable_def block_ok_def split: option.splits)
qed

lemma saved_column:
  "c_isNullable saved_column = True" "c_isUnique saved_column = False" "c_blockSize saved_column = 4"
  "c_name saved_column = ''colA''"
  "GetBlocksList saved_column = [saved_block]" "GetBlockCount saved_column = 1"
  "data_path ''/db/'' ''d'' ''t'' saved_column = ''/db/d@t@colA.data''"
  "address_path ''/db/'' ''d'' ''t'' saved_column = ''/db/d@t@colA.adrs''"
proof -
  show "c_isNullable saved_column = True" "c_isUnique saved_column = False" "c_name saved_column = ''colA''"
    "data_path ''/db/'' ''d'' ''t'' saved_column = ''/db/d@t@colA.data''"
    "address_path ''/db/'' ''d'' ''t'' saved_column = ''/db/d@t@colA.adrs''"
    by (simp_all add: saved_column_def sample_column_def ColumnBase_new_def SetIsNullable_def SetIsUnique_def
        SetIsNullableInBlocks_def map_blocks_def data_path_def address_path_def column_path_def)
qed (simp_all add: saved_column_def GetBlocksList_def GetBlockCount_def)

theorem column_file_roundtrip_witness:
  "\<exists>fs' c' bs. WriteColumn (\<lambda>_ n. replicate n 0) (\<lambda>_. True) ''/db/'' (elem_int32 0) ''d'' ''t'' 4 saved_column (\<lambda>_. None)
        = Inr (map_blocks (\<lambda>b. b\<lparr>b_saveNecessary := False\<rparr>) saved_column, fs')
    \<and> LoadColumn (\<lambda>_. [255]) (\<lambda>_. Inr 0) (\<lambda>_ _ _ _. None) (=) (elem_int32 0) fs' ''/db/d@t@colA.adrs'' ''/db/d@t@colA.data''
        True False ''0'' 4 ''colA'' = Inr c'
    \<and> c_blocks c' = [(- 1, bs)] \<and> map rows bs = [[Some 7, Some 3]] \<and> c_size c' = 2"
proof -
  note rt = column_file_roundtrip [of "\<lambda>_ n. replicate n 0" saved_column "(=)" "[]" "\<lambda>_. True" "''/db/d@t@colA.data''"
      "''/db/d@t@colA.adrs''" "''/db/''" "''d''" "''t''" "\<lambda>_. Inr 0" "''0''" 0 "elem_int32 0" "\<lambda>_. None" "\<lambda>_. [255]" "\<lambda>_ _ _ _. None",
      unfolded saved_column]
  have "\<exists>fs' c' bs. WriteColumn (\<lambda>_ n. replicate n 0) (\<lambda>_. True) ''/db/'' (elem_int32 0) ''d'' ''t'' 4 saved_column (\<lambda>_. None)
        = Inr (map_blocks (\<lambda>b. b\<lparr>b_saveNecessary := False\<rparr>) saved_column, fs')
    \<and> LoadColumn (\<lambda>_. [255]) (\<lambda>_. Inr 0) (\<lambda>_ _ _ _. None) (=) (elem_int32 0) fs' ''/db/d@t@colA.adrs'' ''/db/d@t@colA.data''
        True False ''0'' 4 ''colA'' = Inr c'
    \<and> c_blocks c' = [(- 1, bs)] \<and> stored_list 0 [saved_block] bs
    \<and> c_size c' = int (sum_list (map b_size [saved_block])) \<and> c_defaultValue c' = 0
    \<and> (False \<longrightarrow> c_uniqueHashmap c' = [])"
    by (rule rt) (simp_all add: saved_block)
  then obtain fs' c' bs where "WriteColumn (\<lambda>_ n. replicate n 0) (\<lambda>_. True) ''/db/'' (elem_int32 0) ''d'' ''t'' 4 saved_column (\<lambda>_. None)
        = Inr (map_blocks (\<lambda>b. b\<lparr>b_saveNecessary := False\<rparr>) saved_column, fs')"
    and "LoadColumn (\<lambda>_. [255]) (\<lambda>_. Inr 0) (\<lambda>_ _ _ _. None) (=) (elem_int32 0) fs' ''/db/d@t@colA.adrs'' ''/db/d@t@colA.data''
        True False ''0'' 4 ''colA'' = Inr c'"
    and c': "c_blocks c' = [(- 1, bs)]" "stored_list 0 [saved_block] bs"
      "c_size c' = int (sum_list (map b_size [saved_block]))" by blast
  moreover have "map rows bs = [[Some 7, Some 3]]"
    using c'(2) saved_block by (cases bs) (auto simp: stored_list_def stored_as_def)
  moreover have "c_size c' = 2" using c'(3) saved_block by simp
  ultimately show ?thesis by (intro exI conjI)
qed

end
