(* ===== verification/Column_Persist.thy ===== *)
theory Column_Persist
  imports Column_Roundtrip
begin

text \<open>
  Saving only the modified blocks. \<open>PersistOnlyModified\<close> overwrites records in place, so it is right
  as long as the new record of a block is as long as the old one. The length of a record depends on
  the number of words of its null mask, and that on the number of rows: within this limit the files
  are those of \<open>WriteColumn\<close>; beyond it the next record is destroyed.
\<close>

section \<open>Lists of records\<close>

fun records ::
  "freed \<Rightarrow> 'w::len word elem \<Rightarrow> bool \<Rightarrow> nat \<Rightarrow> nat \<Rightarrow> 'w word block list \<Rightarrow> int8 list list" where
  "records stale E nul N i [] = []"
| "records stale E nul N i (b # bs) =
    projr (block_bytes stale E nul N (of_nat i) b) # records stale E nul N (Suc i) bs"

fun offsets :: "nat \<Rightarrow> int8 list list \<Rightarrow> nat list" where
  "offsets pos [] = []"
| "offsets pos (r # rs) = pos # offsets (pos + length r) rs"

definition address_bytes :: "int8 list list \<Rightarrow> int8 list" where
  "address_bytes rs = words_bytes (map of_nat (offsets 0 rs) :: 64 word list)"

lemma length_offsets [simp]: "length (offsets pos rs) = length rs"
  by (induction pos rs rule: offsets.induct) simp_all

lemma length_records [simp]: "length (records stale E nul N i bs) = length bs"
  by (induction bs arbitrary: i) simp_all

lemma records_append:
  "records stale E nul N i (bs @ bs') = records stale E nul N i bs @ records stale E nul N (i + length bs) bs'"
  by (induction bs arbitrary: i) simp_all

lemma records_nth:
  "j < length bs \<Longrightarrow> records stale E nul N i bs ! j = projr (block_bytes stale E nul N (of_nat (i + j)) (bs ! j))"
  by (induction bs arbitrary: i j) (auto simp: nth_Cons simp del: of_nat_add of_nat_Suc split: nat.split)

lemma offsets_append: "offsets pos (rs @ rs') = offsets pos rs @ offsets (pos + length (concat rs)) rs'"
  by (induction rs arbitrary: pos) (simp_all add: add.assoc)

lemma offsets_nth: "k < length rs \<Longrightarrow> offsets pos rs ! k = pos + length (concat (take k rs))"
  by (induction rs arbitrary: pos k) (auto simp: nth_Cons take_Cons split: nat.split)

lemma offsets_cong: "map length rs = map length rs' \<Longrightarrow> offsets pos rs = offsets pos rs'"
proof (induction rs arbitrary: pos rs')
  case (Cons r rs)
  then obtain r' t where "rs' = r' # t" "length r = length r'" "map length rs = map length t" by (cases rs') auto
  then show ?case using Cons.IH [of t] by simp
qed simp

lemma address_bytes_cong: "map length rs = map length rs' \<Longrightarrow> address_bytes rs = address_bytes rs'"
  by (simp add: address_bytes_def offsets_cong [of rs rs'])

lemma drop_words_bytes:
  "drop (LENGTH('w) div 8 * n) (words_bytes (ws :: 'w::len word list)) = words_bytes (drop n ws)"
proof (induction ws arbitrary: n)
  case (Cons w ws)
  then show ?case by (cases n) simp_all
qed simp

lemma read_address:
  assumes "k < length rs"
  shows "\<exists>r. read_word (drop (8 * k) (address_bytes rs)) = Some (of_nat (length (concat (take k rs))) :: 64 word, r)"
proof -
  let ?ws = "map of_nat (offsets 0 rs) :: 64 word list"
  have "drop (8 * k) (address_bytes rs) = words_bytes (drop k ?ws)"
    using drop_words_bytes [of k ?ws] by (simp add: address_bytes_def)
  also have "drop k ?ws = of_nat (length (concat (take k rs))) # drop (Suc k) ?ws"
    using assms by (simp add: Cons_nth_drop_Suc [symmetric] offsets_nth)
  finally show ?thesis by (simp add: read_word_bytes)
qed

text \<open>A record written over one of the same length takes its place; a longer one runs into the next.\<close>

lemma write_at_longer:
  assumes "k < length rs" and "length (rs ! k) \<le> length r"
  shows "write_at (length (concat (take k rs))) r (concat rs) =
    concat (take k rs) @ r @ drop (length r - length (rs ! k)) (concat (drop (Suc k) rs))"
proof -
  have split: "concat rs = concat (take k rs) @ rs ! k @ concat (drop (Suc k) rs)"
    using id_take_nth_drop [OF assms(1)] by (metis concat.simps(2) concat_append)
  show ?thesis unfolding write_at_def split using assms(2) by simp
qed

lemma write_at_record:
  assumes "k < length rs" and "length r = length (rs ! k)"
  shows "write_at (length (concat (take k rs))) r (concat rs) = concat (rs[k := r])"
  using write_at_longer [of k rs r] assms by (simp add: upd_conv_take_nth_drop)

lemma write_at_end: "write_at (length f) r f = f @ r"
  by (simp add: write_at_def)

section \<open>Records of blocks\<close>

lemma block_bytes_length:
  fixes b :: "'w::len word block"
  assumes "storable nul N b" and "\<forall>i n. length (stale i n) = n"
  shows "\<exists>d. block_bytes stale E nul N i b = Inr d \<and> length d = record_length (LENGTH('w) div 8) N (b_size b)"
proof -
  obtain m where m: "mask_bytes (stale i) nul b = Inr m" "length m = GetNullBitMaskSizeInBytes (b_size b)"
    by (rule block_bytes_storable [OF assms, where E = E and index = i]) auto
  have len: "b_size b \<le> N" "length (b_data b) = N" using assms(1) by (simp_all add: storable_def block_ok_def)
  have "LENGTH('w) div 8 * b_size b + LENGTH('w) div 8 * (N - b_size b) = N * (LENGTH('w) div 8)"
    using len by (metis add_mult_distrib2 le_add_diff_inverse mult.commute)
  then show ?thesis using m len by (simp add: block_bytes_def record_length_def)
qed

lemma record_length_rows:
  "GetNullBitMaskSize m = GetNullBitMaskSize n \<Longrightarrow> record_length w N m = record_length w N n"
  by (simp add: record_length_def GetNullBitMaskSizeInBytes_def)

text \<open>The number of bytes by which a record grows with its mask.\<close>

lemma record_length_grows:
  "GetNullBitMaskSize n = GetNullBitMaskSize m + k \<Longrightarrow> record_length w N n = record_length w N m + 8 * k"
  by (simp add: record_length_def GetNullBitMaskSizeInBytes_def)

lemma block_bytes_index [simp]:
  "block_bytes stale E nul N i (b\<lparr>b_index := j\<rparr>) = block_bytes stale E nul N i b"
proof -
  have "mask_bytes (stale i) nul (b\<lparr>b_index := j\<rparr>) = mask_bytes (stale i) nul b"
    by (simp add: mask_bytes_def Let_def cong: option.case_cong)
  then show ?thesis by (simp add: block_bytes_def)
qed

lemma storable_updates [simp]:
  "storable nul N (b\<lparr>b_index := j\<rparr>) = storable nul N b"
  "storable nul N (b\<lparr>b_saveNecessary := s\<rparr>) = storable nul N b"
  by (auto simp: storable_def block_ok_def split: option.splits)

abbreviation saved_flag :: "'a block \<Rightarrow> 'a block" where
  "saved_flag b \<equiv> b\<lparr>b_saveNecessary := False\<rparr>"

lemma write_blocks_records:
  fixes bs :: "'w::len word block list"
  assumes "\<forall>b\<in>set bs. storable nul N b" and "\<forall>i n. length (stale i n) = n" and "i + length bs < 2 ^ 32 - 1"
  shows "write_blocks stale E nul N (of_nat i) pos bs =
    Inr (concat (records stale E nul N i bs),
      words_bytes (map of_nat (offsets pos (records stale E nul N i bs)) :: 64 word list), map saved_flag bs)"
  using assms
proof (induction bs arbitrary: i pos)
  case (Cons b bs)
  obtain d where d: "block_bytes stale E nul N (of_nat i) b = Inr d"
    "length d = record_length (LENGTH('w) div 8) N (b_size b)"
    using block_bytes_length [of nul N b stale E "of_nat i"] Cons.prems by auto
  have ix: "(of_nat i :: 32 word) + 1 \<noteq> UINT32_MAX" "(of_nat i :: 32 word) + 1 = of_nat (Suc i)"
    using Cons.prems(3) by (simp_all add: index_no_overflow)
  have "write_blocks stale E nul N (of_nat (Suc i)) (pos + length d) bs =
    Inr (concat (records stale E nul N (Suc i) bs),
      words_bytes (map of_nat (offsets (pos + length d) (records stale E nul N (Suc i) bs)) :: 64 word list), map saved_flag bs)"
    using Cons by (simp del: of_nat_Suc)
  then show ?case using d ix by (simp del: of_nat_Suc)
qed simp

section \<open>The loop\<close>

lemma index_ne_max:
  assumes "k < 2 ^ 32 - 1"
  shows "(of_nat k :: 32 word) \<noteq> UINT32_MAX"
proof
  assume "(of_nat k :: 32 word) = UINT32_MAX"
  then have "unat (of_nat k :: 32 word) = 2 ^ 32 - 1" by (simp add: UINT32_MAX_def unsigned_minus_1_eq_mask mask_eq_exp_minus_1)
  then show False using assms by (simp add: unat_of_nat)
qed

text \<open>The blocks that are in the files already.\<close>

lemma write_modified_old:
  fixes bs :: "'w::len word block list"
  assumes "\<forall>b\<in>set bs. storable nul N b" and "\<forall>i n. length (stale i n) = n"
    and "k + length bs \<le> length rs" and "k + length bs < 2 ^ 32 - 1" and "length (concat rs) < 2 ^ 64"
    and "\<forall>j<length bs. b_index (bs ! j) = of_nat (k + j)"
    and "\<forall>j<length bs. length (rs ! (k + j)) = record_length (LENGTH('w) div 8) N (b_size (bs ! j))"
    and "\<forall>j<length bs. b_saveNecessary (bs ! j) \<or> block_bytes stale E nul N (of_nat (k + j)) (bs ! j) = Inr (rs ! (k + j))"
  shows "write_modified stale True True E nul N seen (bs @ new) (Some (concat rs)) (address_bytes rs) =
    write_modified stale True True E nul N (seen @ map saved_flag bs) new
      (Some (concat (take k rs @ records stale E nul N k bs @ drop (k + length bs) rs))) (address_bytes rs)"
  using assms
proof (induction bs arbitrary: k rs seen)
  case (Cons b bs)
  have k: "k < length rs" "k < 2 ^ 32 - 1" using Cons.prems(3,4) by simp_all
  obtain d where d: "block_bytes stale E nul N (of_nat k) b = Inr d" "length d = length (rs ! k)"
    using block_bytes_length [of nul N b stale E "of_nat k"] Cons.prems(1,2) Cons.prems(7) [THEN spec, of 0] by auto
  have ix: "b_index b = of_nat k" using Cons.prems(6) [THEN spec, of 0] by simp
  have uix: "unat (b_index b) = k" "b_index b \<noteq> UINT32_MAX"
    using k(2) index_ne_max [of k] by (simp_all add: ix unat_of_nat)
  define rs' where "rs' = rs[k := d]"
  have step: "write_modified stale True True E nul N seen (b # bs @ new) (Some (concat rs)) (address_bytes rs) =
    write_modified stale True True E nul N (seen @ [saved_flag b]) (bs @ new) (Some (concat rs')) (address_bytes rs)"
  proof (cases "b_saveNecessary b")
    case False
    then have "rs ! k = d" using Cons.prems(8) [THEN spec, of 0] d by auto
    then have rs': "rs' = rs" by (auto simp: rs'_def)
    have flag: "saved_flag b = b" using False by simp
    show ?thesis unfolding flag rs' using False by simp
  next
    case True
    obtain r where r: "read_word (drop (8 * k) (address_bytes rs)) = Some (of_nat (length (concat (take k rs))) :: 64 word, r)"
      using read_address [OF k(1)] by blast
    have "length (concat (take k rs)) \<le> length (concat rs)"
      using append_take_drop_id [of k rs] by (metis concat_append length_append le_add1)
    then have "unat (of_nat (length (concat (take k rs))) :: 64 word) = length (concat (take k rs))"
      using Cons.prems(5) by (simp add: unat_of_nat)
    with True r uix ix d k show ?thesis
      by (simp add: WriteBlockNumericTypes_def write_at_record rs'_def)
  qed
  have lens: "map length rs' = map length rs" using d(2) k(1) by (simp add: rs'_def map_update list_update_same_conv)
  then have total: "length (concat rs') = length (concat rs)" by (simp add: length_concat)
  have addr: "address_bytes rs = address_bytes rs'" by (rule address_bytes_cong [OF lens [symmetric]])
  have nth: "rs' ! (Suc k + j) = rs ! (k + Suc j)" for j by (simp add: rs'_def)
  have sh: "b_index (bs ! j) = of_nat (Suc k + j)"
    "length (rs' ! (Suc k + j)) = record_length (LENGTH('w) div 8) N (b_size (bs ! j))"
    "b_saveNecessary (bs ! j) \<or> block_bytes stale E nul N (of_nat (Suc k + j)) (bs ! j) = Inr (rs' ! (Suc k + j))"
    if "j < length bs" for j
    using Cons.prems(6-8) [rule_format, of "Suc j"] that unfolding nth by (simp_all del: of_nat_Suc of_nat_add)
  have "write_modified stale True True E nul N (seen @ [saved_flag b]) (bs @ new) (Some (concat rs')) (address_bytes rs') =
    write_modified stale True True E nul N ((seen @ [saved_flag b]) @ map saved_flag bs) new
      (Some (concat (take (Suc k) rs' @ records stale E nul N (Suc k) bs @ drop (Suc k + length bs) rs'))) (address_bytes rs')"
  proof (rule Cons.IH)
    show "\<forall>b\<in>set bs. storable nul N b" using Cons.prems(1) by simp
    show "Suc k + length bs \<le> length rs'" using Cons.prems(3) by (simp add: rs'_def)
    show "Suc k + length bs < 2 ^ 32 - 1" using Cons.prems(4) by simp
    show "length (concat rs') < 2 ^ 64" unfolding total by (rule Cons.prems(5))
  qed (use sh Cons.prems(2) in blast)+
  moreover have "take (Suc k) rs' = take k rs @ [d]" using k(1) by (simp add: rs'_def take_Suc_conv_app_nth)
  moreover have "drop (Suc k + length bs) rs' = drop (k + length (b # bs)) rs" by (simp add: rs'_def)
  ultimately show ?case using step d addr by simp
qed simp

text \<open>The new blocks get the next indices and go to the end of the files.\<close>

fun numbered :: "nat \<Rightarrow> 'a block list \<Rightarrow> 'a block list" where
  "numbered i [] = []"
| "numbered i (b # bs) = b\<lparr>b_index := of_nat i, b_saveNecessary := False\<rparr> # numbered (Suc i) bs"

lemma write_modified_new:
  fixes bs :: "'w::len word block list"
  assumes "\<forall>b\<in>set bs. storable nul N b \<and> b_saveNecessary b \<and> b_index b = UINT32_MAX"
    and "\<forall>i n. length (stale i n) = n" and "length rs + length bs < 2 ^ 32 - 1"
    and "length (concat (rs @ records stale E nul N (length rs) bs)) < 2 ^ 64"
    and "\<forall>b\<in>set seen. b_index b \<noteq> UINT32_MAX" and "length seen = length rs"
  shows "write_modified stale True True E nul N seen bs (Some (concat rs)) (address_bytes rs) =
    Inr (seen @ numbered (length rs) bs, Some (concat (rs @ records stale E nul N (length rs) bs)),
      address_bytes (rs @ records stale E nul N (length rs) bs))"
  using assms
proof (induction bs arbitrary: seen rs)
  case (Cons b bs)
  let ?i = "length rs"
  obtain d where d: "block_bytes stale E nul N (of_nat ?i) b = Inr d"
    using block_bytes_length [of nul N b stale E "of_nat ?i"] Cons.prems(1,2) by auto
  have "filter (\<lambda>x. b_index x \<noteq> UINT32_MAX) seen = seen" "filter (\<lambda>x. b_index x \<noteq> UINT32_MAX) (b # bs) = []"
    using Cons.prems(1,5) by (auto simp: filter_empty_conv)
  then have n: "length (filter (\<lambda>x. b_index x \<noteq> UINT32_MAX) (seen @ b # bs)) = ?i"
    using Cons.prems(6) by simp
  have ix: "(of_nat ?i :: 32 word) \<noteq> UINT32_MAX" using Cons.prems(3) by (intro index_ne_max) simp
  have e: "unat (of_nat (length (concat rs)) :: 64 word) = length (concat rs)"
    using Cons.prems(4) by (simp add: unat_of_nat)
  let ?b = "b\<lparr>b_index := of_nat ?i, b_saveNecessary := False\<rparr>"
  have a: "address_bytes rs @ word_bytes (of_nat (length (concat rs)) :: 64 word) = address_bytes (rs @ [d])"
    by (simp add: address_bytes_def offsets_append)
  have "write_modified stale True True E nul N seen (b # bs) (Some (concat rs)) (address_bytes rs) =
    write_modified stale True True E nul N (seen @ [?b]) bs (Some (concat (rs @ [d]))) (address_bytes (rs @ [d]))"
    using Cons.prems(1) d n ix e a
    by (simp add: Let_def WriteBlockNumericTypes_def data_end_def write_at_end del: filter_append filter.simps)
  also have "\<dots> = Inr ((seen @ [?b]) @ numbered (length (rs @ [d])) bs,
      Some (concat ((rs @ [d]) @ records stale E nul N (length (rs @ [d])) bs)),
      address_bytes ((rs @ [d]) @ records stale E nul N (length (rs @ [d])) bs))"
    using Cons.prems d ix by (intro Cons.IH) auto
  finally show ?case using d by simp
qed simp

section \<open>The column\<close>

lemma records_lengths:
  fixes bs :: "'w::len word block list"
  assumes "\<forall>b\<in>set bs. storable nul N b" and "\<forall>i n. length (stale i n) = n"
  shows "map length (records stale E nul N i bs) = map (\<lambda>b. record_length (LENGTH('w) div 8) N (b_size b)) bs"
  using assms
proof (induction bs arbitrary: i)
  case (Cons b bs)
  then show ?case using block_bytes_length [of nul N b stale E "of_nat i"] by auto
qed simp

text \<open>
  Blocks beside the ones whose records are in the files: the blocks of the files
  come first, with their positions as indices and as many words of null mask as they had; those that
  need no saving are as they were, and the new blocks follow.
\<close>

definition records_since ::
  "freed \<Rightarrow> 'w::len word elem \<Rightarrow> bool \<Rightarrow> nat \<Rightarrow> 'w word block list \<Rightarrow> 'w word block list \<Rightarrow> bool" where
  "records_since stale E nul N old now \<longleftrightarrow> length old \<le> length now \<and>
    (\<forall>j<length old. b_index (now ! j) = of_nat j \<and>
       GetNullBitMaskSize (b_size (now ! j)) = GetNullBitMaskSize (b_size (old ! j)) \<and>
       (b_saveNecessary (now ! j) \<or>
        block_bytes stale E nul N (of_nat j) (now ! j) = block_bytes stale E nul N (of_nat j) (old ! j))) \<and>
    (\<forall>j. length old \<le> j \<and> j < length now \<longrightarrow> b_saveNecessary (now ! j) \<and> b_index (now ! j) = UINT32_MAX)"

lemma write_modified_changed:
  fixes now :: "'w::len word block list"
  assumes ch: "records_since stale E nul N old now" and stale: "\<forall>i n. length (stale i n) = n"
    and st: "\<forall>b\<in>set old. storable nul N b" "\<forall>b\<in>set now. storable nul N b"
    and cnt: "length now < 2 ^ 32 - 1"
    and bytes: "sum_list (map (\<lambda>b. record_length (LENGTH('w) div 8) N (b_size b)) now) < 2 ^ 64"
  shows "write_modified stale True True E nul N [] now (Some (concat (records stale E nul N 0 old)))
      (address_bytes (records stale E nul N 0 old)) =
    Inr (map saved_flag (take (length old) now) @ numbered (length old) (drop (length old) now),
      Some (concat (records stale E nul N 0 now)), address_bytes (records stale E nul N 0 now))"
proof -
  let ?n = "length old" and ?rs = "records stale E nul N 0 old" and ?w = "LENGTH('w) div 8"
  let ?b = "take ?n now" and ?new = "drop ?n now"
  have n: "?n \<le> length now" using ch by (simp add: records_since_def)
  have st': "\<forall>b\<in>set ?b. storable nul N b" "\<forall>b\<in>set ?new. storable nul N b"
    using st(2) by (auto dest: in_set_takeD in_set_dropD)
  have len: "length (?rs ! j) = record_length ?w N (b_size (now ! j))" if "j < ?n" for j
  proof -
    have "length (?rs ! j) = map length ?rs ! j" using that by simp
    also have "\<dots> = record_length ?w N (b_size (old ! j))" using that by (simp add: records_lengths [OF st(1) stale])
    also have "\<dots> = record_length ?w N (b_size (now ! j))"
      using ch that by (intro record_length_rows) (simp add: records_since_def)
    finally show ?thesis .
  qed
  let ?rb = "records stale E nul N 0 ?b"
  have lens: "map length ?rs = map length ?rb"
    unfolding records_lengths [OF st'(1) stale] using len n by (intro nth_equalityI) simp_all
  have now: "records stale E nul N 0 now = ?rb @ records stale E nul N ?n ?new"
    using records_append [of stale E nul N 0 ?b ?new] n by simp
  have total: "length (concat (records stale E nul N 0 now)) < 2 ^ 64"
    using bytes records_lengths [OF st(2) stale, of E 0] by (simp add: length_concat)
  moreover have "length (concat ?rs) = length (concat ?rb)" by (simp add: length_concat lens)
  ultimately have rs64: "length (concat ?rs) < 2 ^ 64" by (simp add: now)
  have old_same: "b_saveNecessary (?b ! j) \<or> block_bytes stale E nul N (of_nat (0 + j)) (?b ! j) = Inr (?rs ! (0 + j))"
    if "j < length ?b" for j
  proof -
    from that n have j: "j < ?n" by simp
    then obtain d where "block_bytes stale E nul N (of_nat j) (old ! j) = Inr d"
      using block_bytes_length [of nul N "old ! j" stale E "of_nat j"] st(1) stale by auto
    then show ?thesis using ch j by (auto simp: records_since_def records_nth)
  qed
  have "write_modified stale True True E nul N [] (?b @ ?new) (Some (concat ?rs)) (address_bytes ?rs) =
    write_modified stale True True E nul N ([] @ map saved_flag ?b) ?new
      (Some (concat (take 0 ?rs @ ?rb @ drop (0 + length ?b) ?rs))) (address_bytes ?rs)"
  proof (rule write_modified_old [OF st'(1) stale])
    show "\<forall>j<length ?b. b_index (?b ! j) = of_nat (0 + j)" using ch by (simp add: records_since_def)
    show "\<forall>j<length ?b. length (?rs ! (0 + j)) = record_length ?w N (b_size (?b ! j))" using len by simp
    show "\<forall>j<length ?b. b_saveNecessary (?b ! j) \<or> block_bytes stale E nul N (of_nat (0 + j)) (?b ! j) = Inr (?rs ! (0 + j))"
      using old_same by blast
    show "0 + length ?b \<le> length ?rs" "0 + length ?b < 2 ^ 32 - 1" using n cnt by simp_all
  qed (rule rs64)
  also have "\<dots> = write_modified stale True True E nul N (map saved_flag ?b) ?new (Some (concat ?rb)) (address_bytes ?rb)"
    unfolding address_bytes_cong [OF lens] using n by simp
  also have "\<dots> = Inr (map saved_flag ?b @ numbered (length ?rb) ?new, Some (concat (?rb @ records stale E nul N (length ?rb) ?new)),
      address_bytes (?rb @ records stale E nul N (length ?rb) ?new))"
  proof (rule write_modified_new)
    show "\<forall>b\<in>set ?new. storable nul N b \<and> b_saveNecessary b \<and> b_index b = UINT32_MAX"
      using st'(2) ch by (auto simp: records_since_def set_conv_nth)
    show "\<forall>b\<in>set (map saved_flag ?b). b_index b \<noteq> UINT32_MAX"
    proof
      fix x assume "x \<in> set (map saved_flag ?b)"
      then obtain j where "j < ?n" "x = saved_flag (now ! j)" using n by (auto simp: set_conv_nth)
      then show "b_index x \<noteq> UINT32_MAX" using ch n cnt index_ne_max [of j] by (simp add: records_since_def)
    qed
  qed (use stale n cnt total in \<open>simp_all add: now\<close>)
  finally show ?thesis using n by (simp add: now)
qed

lemma regroup_blocks: "length xs = length (concat (map snd gs)) \<Longrightarrow> concat (map snd (regroup gs xs)) = xs"
  by (induction gs xs rule: regroup.induct) auto

lemma numbered_nth:
  "j < length bs \<Longrightarrow> b_index (numbered i bs ! j) = of_nat (i + j) \<and> \<not> b_saveNecessary (numbered i bs ! j)"
  by (induction i bs arbitrary: j rule: numbered.induct)
    (auto simp: nth_Cons simp del: of_nat_add of_nat_Suc split: nat.split)

lemma length_numbered [simp]: "length (numbered i bs) = length bs"
  by (induction i bs rule: numbered.induct) simp_all

lemma WriteColumn_records:
  assumes "\<forall>b\<in>set (GetBlocksList c). storable (c_isNullable c) N b" and "\<forall>i n. length (stale i n) = n"
    and "length (GetBlocksList c) < 2 ^ 32 - 1"
    and "writable (data_path dir db tb c)" and "writable (address_path dir db tb c)"
    and "data_path dir db tb c \<noteq> address_path dir db tb c"
  shows "WriteColumn stale writable dir E db tb N c fs =
    Inr (map_blocks saved_flag c, fs(data_path dir db tb c \<mapsto> concat (records stale E (c_isNullable c) N 0 (GetBlocksList c)),
      address_path dir db tb c \<mapsto> address_bytes (records stale E (c_isNullable c) N 0 (GetBlocksList c))))"
proof -
  have "c\<lparr>c_blocks := regroup (c_blocks c) (map saved_flag (GetBlocksList c))\<rparr> = map_blocks saved_flag c"
    by (simp add: GetBlocksList_def regroup_map map_blocks_def)
  moreover have "write_blocks stale E (c_isNullable c) N 0 0 (GetBlocksList c) =
    Inr (concat (records stale E (c_isNullable c) N 0 (GetBlocksList c)),
      address_bytes (records stale E (c_isNullable c) N 0 (GetBlocksList c)), map saved_flag (GetBlocksList c))"
    using write_blocks_records [OF assms(1,2), of 0 E 0] assms(3) by (simp add: address_bytes_def)
  ultimately show ?thesis
    using assms(4-6) by (simp add: WriteColumn_def Let_def open_out_def fun_upd_twist)
qed

lemma incremental_save_records:
  fixes c :: "'w::len word column"
  assumes "WriteColumn stale writable dir E db tb N c0 fs = Inr (c1, fs1)"
    and "records_since stale E (c_isNullable c) N (GetBlocksList c0) (GetBlocksList c)"
    and "\<forall>i n. length (stale i n) = n" and "c_isNullable c0 = c_isNullable c"
    and "\<forall>b\<in>set (GetBlocksList c0). storable (c_isNullable c) N b" and "\<forall>b\<in>set (GetBlocksList c). storable (c_isNullable c) N b"
    and "length (GetBlocksList c) < 2 ^ 32 - 1"
    and "sum_list (map (\<lambda>b. record_length (LENGTH('w) div 8) N (b_size b)) (GetBlocksList c)) < 2 ^ 64"
    and "data_path dir db tb c0 = data_path dir db tb c" and "address_path dir db tb c0 = address_path dir db tb c"
    and "writable (data_path dir db tb c)" and "writable (address_path dir db tb c)"
    and "data_path dir db tb c \<noteq> address_path dir db tb c"
  shows "\<exists>c' c'' fs2. PersistOnlyModified stale writable dir E db tb N c fs1 = Inr (c', fs2)
    \<and> WriteColumn stale writable dir E db tb N c fs = Inr (c'', fs2)
    \<and> length (GetBlocksList c') = length (GetBlocksList c)
    \<and> (\<forall>i<length (GetBlocksList c'). b_index (GetBlocksList c' ! i) = of_nat i \<and> \<not> b_saveNecessary (GetBlocksList c' ! i))"
proof -
  let ?old = "GetBlocksList c0" and ?now = "GetBlocksList c"
  let ?D = "data_path dir db tb c" and ?A = "address_path dir db tb c"
  let ?rs = "records stale E (c_isNullable c) N 0 ?old" and ?rs2 = "records stale E (c_isNullable c) N 0 ?now"
  let ?bs = "map saved_flag (take (length ?old) ?now) @ numbered (length ?old) (drop (length ?old) ?now)"
  have n: "length ?old \<le> length ?now" using assms(2) by (simp add: records_since_def)
  then have fs1: "fs1 = fs(?D \<mapsto> concat ?rs, ?A \<mapsto> address_bytes ?rs)"
    using WriteColumn_records [of c0 N stale writable dir db tb E fs, unfolded assms(4,9,10)] assms(1,3,5,7,11-13) by simp
  have full: "WriteColumn stale writable dir E db tb N c fs =
      Inr (map_blocks saved_flag c, fs(?D \<mapsto> concat ?rs2, ?A \<mapsto> address_bytes ?rs2))"
    by (rule WriteColumn_records [OF assms(6,3,7,11-13)])
  have "write_modified stale True True E (c_isNullable c) N [] ?now (Some (concat ?rs)) (address_bytes ?rs) =
      Inr (?bs, Some (concat ?rs2), address_bytes ?rs2)"
    using write_modified_changed [OF assms(2,3,5,6,7,8)] .
  moreover have "fs1 ?D = Some (concat ?rs)" "fs1 ?A = Some (address_bytes ?rs)" using assms(13) by (simp_all add: fs1)
  moreover have "(fs1(?A \<mapsto> address_bytes ?rs2))(?D := Some (concat ?rs2)) = fs(?D \<mapsto> concat ?rs2, ?A \<mapsto> address_bytes ?rs2)"
    using assms(13) by (auto simp: fs1 fun_eq_iff)
  ultimately have inc: "PersistOnlyModified stale writable dir E db tb N c fs1 =
      Inr (c\<lparr>c_blocks := regroup (c_blocks c) ?bs\<rparr>, fs(?D \<mapsto> concat ?rs2, ?A \<mapsto> address_bytes ?rs2))"
    using assms(11,12) by (simp add: PersistOnlyModified_def Let_def ensure_file_def del: fun_upd_apply)
  have len: "length ?bs = length ?now" using n by simp
  then have blocks: "GetBlocksList (c\<lparr>c_blocks := regroup (c_blocks c) ?bs\<rparr>) = ?bs"
    using regroup_blocks [of ?bs "c_blocks c"] by (simp add: GetBlocksList_def)
  have ix: "b_index (?bs ! i) = of_nat i \<and> \<not> b_saveNecessary (?bs ! i)" if i: "i < length ?bs" for i
  proof (cases "i < length ?old")
    case True
    then show ?thesis using assms(2) n by (simp add: nth_append records_since_def)
  next
    case False
    then show ?thesis
      using numbered_nth [of "i - length ?old" "drop (length ?old) ?now" "length ?old"] i len n
      by (simp add: nth_append)
  qed
  show ?thesis
    by (intro exI conjI, rule inc, rule full, unfold blocks) (rule len, use ix in blast)
qed

text \<open>
  The mask of a nullable column is that of the block, so its records do not depend on freed memory.
\<close>

lemma block_bytes_nullable: "block_bytes stale E True N i b = block_bytes stale' E True N i b"
  by (simp add: block_bytes_def mask_bytes_def)

lemma write_blocks_nullable: "write_blocks stale E True N i pos bs = write_blocks stale' E True N i pos bs"
  by (induction bs arbitrary: i pos) (simp_all add: block_bytes_nullable [of stale _ _ _ _ stale'] cong: if_cong)

lemma write_modified_nullable:
  "write_modified stale okD okA E True N seen bs data addr = write_modified stale' okD okA E True N seen bs data addr"
proof -
  have "WriteBlockNumericTypes stale ok E True N pos b dat = WriteBlockNumericTypes stale' ok E True N pos b dat" for ok pos b dat
    by (simp add: WriteBlockNumericTypes_def block_bytes_nullable [of stale _ _ _ _ stale'] cong: if_cong option.case_cong)
  then show ?thesis by (induction bs arbitrary: seen data addr) (simp_all cong: if_cong option.case_cong)
qed

text \<open>
  What the operations on a column do to the blocks it was loaded with: the blocks stay in front and keep
  their indices, a block that was changed is marked for saving, no block gets more words of null mask,
  and blocks that were added are marked and have no index yet.
\<close>

definition changed_since :: "'a block list \<Rightarrow> 'a block list \<Rightarrow> bool" where
  "changed_since old now \<longleftrightarrow> length old \<le> length now \<and>
    (\<forall>j<length old. b_index (now ! j) = b_index (old ! j) \<and>
       GetNullBitMaskSize (b_size (now ! j)) = GetNullBitMaskSize (b_size (old ! j)) \<and>
       (b_saveNecessary (now ! j) \<or> now ! j = old ! j)) \<and>
    (\<forall>j. length old \<le> j \<and> j < length now \<longrightarrow> b_saveNecessary (now ! j) \<and> b_index (now ! j) = UINT32_MAX)"

lemma loaded_bytes:
  assumes "stored_as i b b'" and "storable nul N b"
  shows "block_bytes stale E nul N j b' = block_bytes stale E nul N j b"
proof -
  let ?k = "GetNullBitMaskSize (b_size b)"
  have s: "b_size b' = b_size b" "b_groupId b' = b_groupId b" "b_min b' = b_min b" "b_max b' = b_max b" "b_avg b' = b_avg b"
    "b_sum b' = b_sum b" "\<not> b_isCompressed b'" "\<not> b_isCompressed b" "b_size b \<le> length (b_data b')" "b_size b \<le> length (b_data b)"
    "take (b_size b) (b_data b') = take (b_size b) (b_data b)"
    and m: "map_option (take ?k) (b_bitMask b') = map_option (take ?k) (b_bitMask b)"
    using assms by (auto simp: stored_as_def storable_def block_ok_def)
  have le: "b_bitMask b = Some x \<Longrightarrow> ?k \<le> length x" "b_bitMask b' = Some x \<Longrightarrow> ?k \<le> length x" for x
    using assms by (auto simp: stored_as_def storable_def block_ok_def GetNullBitMaskSize_mono)
  have t: "take (8 * ?k) (words_bytes x) = words_bytes (take ?k x)" for x :: "nullmask list"
    using take_words_bytes [of ?k x] by simp
  have "mask_bytes (stale j) nul b' = mask_bytes (stale j) nul b"
    using m le by (cases "b_bitMask b"; cases "b_bitMask b'")
      (auto simp: mask_bytes_def Let_def s(1) GetNullBitMaskSizeInBytes_def mult.commute [of _ 8] t cong: if_cong)
  then show ?thesis using s by (simp add: block_bytes_def)
qed

lemma changed_since_loaded:
  assumes "stored_list 0 old loaded" and "changed_since loaded now" and "\<forall>b\<in>set old. storable nul N b"
  shows "records_since stale E nul N old now"
proof -
  have l: "length loaded = length old" "\<And>j. j < length old \<Longrightarrow> stored_as j (old ! j) (loaded ! j)"
    using assms(1) by (simp_all add: stored_list_def)
  have "b_index (loaded ! j) = of_nat j" "b_size (loaded ! j) = b_size (old ! j)"
    "block_bytes stale E nul N (of_nat j) (loaded ! j) = block_bytes stale E nul N (of_nat j) (old ! j)" if "j < length old" for j
    using l(2) [OF that] loaded_bytes [OF l(2) [OF that], of nul N] assms(3) that by (simp_all add: stored_as_def)
  then show ?thesis using assms(2) l(1) by (auto simp: changed_since_def records_since_def)
qed

lemma WriteColumn_nullable:
  "c_isNullable c \<Longrightarrow> WriteColumn stale writable dir E db tb N c fs = WriteColumn stale' writable dir E db tb N c fs"
  by (simp add: WriteColumn_def Let_def write_blocks_nullable [of stale _ _ _ _ _ stale'] cong: if_cong)

lemma PersistOnlyModified_nullable:
  "c_isNullable c \<Longrightarrow> PersistOnlyModified stale writable dir E db tb N c fs = PersistOnlyModified stale' writable dir E db tb N c fs"
  by (simp add: PersistOnlyModified_def Let_def write_modified_nullable [of stale _ _ _ _ _ _ _ _ stale'])

text \<open>
  C22. A nullable column is saved, loaded again and changed; the changes mark the blocks they touch, leave them as many
  words of null mask as they had, and add blocks behind the others. Then saving only the modified blocks leaves the
  same files as saving the whole column would, and every block has its position in the files as index and needs
  no saving. (The blocks get their indices on loading: \<open>WriteColumn\<close> does not set them. For a column that is not
  nullable the files have bytes of freed memory and no two saves need agree.)
\<close>

theorem incremental_save_eq_full_save:
  fixes c c0 :: "'w::len word column"
  assumes "8 dvd LENGTH('w)" and "c_isNullable c0" and "\<not> c_isUnique c0" and "c_isNullable c"
    and "WriteColumn s0 writable dir E db tb (c_blockSize c0) c0 fs = Inr (c1, fs1)"
    and "LoadColumn junk parse cmpr same E fs1 addressPath dataPath True False dflt (c_blockSize c0) (c_name c0) = Inr loaded"
    and "changed_since (GetBlocksList loaded) (GetBlocksList c)"
    and "\<forall>b\<in>set (GetBlocksList c0). storable True (c_blockSize c0) b" and "\<forall>b\<in>set (GetBlocksList c). storable True (c_blockSize c0) b"
    and "GetBlockCount c0 < 2 ^ 32 - 1" and "length (GetBlocksList c) < 2 ^ 32 - 1"
    and "sum_list (map (\<lambda>b. record_length (LENGTH('w) div 8) (c_blockSize c0) (b_size b)) (GetBlocksList c)) < 2 ^ 64"
    and "dataPath = data_path dir db tb c0" and "addressPath = address_path dir db tb c0"
    and "data_path dir db tb c = dataPath" and "address_path dir db tb c = addressPath"
    and "writable dataPath" and "writable addressPath" and "dataPath \<noteq> addressPath"
  shows "\<exists>c' c'' fs2. PersistOnlyModified s1 writable dir E db tb (c_blockSize c0) c fs1 = Inr (c', fs2)
    \<and> WriteColumn s2 writable dir E db tb (c_blockSize c0) c fs = Inr (c'', fs2)
    \<and> length (GetBlocksList c') = length (GetBlocksList c)
    \<and> (\<forall>i<length (GetBlocksList c'). b_index (GetBlocksList c' ! i) = of_nat i \<and> \<not> b_saveNecessary (GetBlocksList c' ! i))"
proof -
  let ?N = "c_blockSize c0" and ?z = "\<lambda>_ n. replicate n 0 :: int8 list"
  have z: "\<forall>i n. length (?z i n) = n" by simp
  obtain v where v: "parse dflt = Inr v" using assms(6) by (auto simp: LoadColumn_def)
  have st: "\<forall>b\<in>set (GetBlocksList c0). storable (c_isNullable c0) ?N b"
    "\<forall>b\<in>set (GetBlocksList c0). storable (c_isNullable c) ?N b" "\<forall>b\<in>set (GetBlocksList c). storable (c_isNullable c) ?N b"
    using assms(2,4,8,9) by simp_all
  have u: "c_isUnique c0 \<longrightarrow> \<not> c_isNullable c0 \<and> collect_unique same (column_values c0) [] = Some []" using assms(3) by simp
  obtain d a c' bs where w: "\<And>fs. WriteColumn ?z writable dir E db tb ?N c0 fs
        = Inr (map_blocks saved_flag c0, fs(dataPath \<mapsto> d, addressPath \<mapsto> a))"
    and l: "\<And>fs. fs dataPath = Some d \<Longrightarrow> LoadColumn junk parse cmpr same E fs addressPath dataPath (c_isNullable c0) (c_isUnique c0)
        dflt ?N (c_name c0) = Inr c'"
    and c': "c_blocks c' = [(- 1, bs)]" "stored_list 0 (GetBlocksList c0) bs"
    using number_io [where c = c0 and stale = ?z and parse = parse and dflt = dflt and same = same and h = "[]" and writable = writable
        and dir = dir and db = db and tb = tb and E = E and junk = junk and cmpr = cmpr,
        OF assms(1) z st(1) assms(10) u assms(17-19,13,14) v] by blast
  have w0: "WriteColumn ?z writable dir E db tb ?N c0 fs = Inr (c1, fs1)"
    using assms(5) WriteColumn_nullable [OF assms(2), of s0 writable dir E db tb ?N fs ?z] by simp
  then have "fs1 dataPath = Some d" using w [of fs] assms(19) by auto
  then have "loaded = c'" using l [of fs1] assms(2,3,6) by simp
  then have "changed_since bs (GetBlocksList c)" using assms(7) c'(1) by (simp add: GetBlocksList_def)
  then have rs: "records_since ?z E (c_isNullable c) ?N (GetBlocksList c0) (GetBlocksList c)"
    by (rule changed_since_loaded [OF c'(2) _ st(2)])
  have p: "data_path dir db tb c0 = data_path dir db tb c" "address_path dir db tb c0 = address_path dir db tb c"
    "writable (data_path dir db tb c)" "writable (address_path dir db tb c)" "data_path dir db tb c \<noteq> address_path dir db tb c"
    using assms(13-19) by simp_all
  have n: "c_isNullable c0 = c_isNullable c" using assms(2,4) by simp
  show ?thesis
    unfolding PersistOnlyModified_nullable [OF assms(4), of s1 _ _ _ _ _ _ _ ?z] WriteColumn_nullable [OF assms(4), of s2 _ _ _ _ _ _ _ ?z]
    by (rule incremental_save_records [OF w0 rs z n st(2,3) assms(11,12) p])
qed

definition changed_column :: "int32 block \<Rightarrow> int32 column" where
  "changed_column b = saved_column\<lparr>c_blocks := [(- 1,
    [b\<lparr>b_min := 2, b_saveNecessary := True\<rparr>, saved_block\<lparr>b_index := UINT32_MAX, b_saveNecessary := True\<rparr>])]\<rparr>"

lemma changed_column:
  "c_isNullable (changed_column b) = True"
  "GetBlocksList (changed_column b) =
    [b\<lparr>b_min := 2, b_saveNecessary := True\<rparr>, saved_block\<lparr>b_index := UINT32_MAX, b_saveNecessary := True\<rparr>]"
  "data_path ''/db/'' ''d'' ''t'' (changed_column b) = ''/db/d@t@colA.data''"
  "address_path ''/db/'' ''d'' ''t'' (changed_column b) = ''/db/d@t@colA.adrs''"
  using saved_column by (simp_all add: changed_column_def GetBlocksList_def data_path_def address_path_def)

lemma saved_column_io:
  obtains c1 fs1 loaded b where
    "WriteColumn (\<lambda>_ n. replicate n 0) (\<lambda>_. True) ''/db/'' (elem_int32 0) ''d'' ''t'' 4 saved_column (\<lambda>_. None) = Inr (c1, fs1)"
    "LoadColumn (\<lambda>_. [255]) (\<lambda>_. Inr 0) (\<lambda>_ _ _ _. None) (=) (elem_int32 0) fs1 ''/db/d@t@colA.adrs'' ''/db/d@t@colA.data''
      True False ''0'' 4 ''colA'' = Inr loaded"
    "GetBlocksList loaded = [b]" "stored_as 0 saved_block b"
proof -
  let ?p = "''/db/d@t@colA.data''" and ?q = "''/db/d@t@colA.adrs''"
  obtain d a c' bs where w: "\<And>fs. WriteColumn (\<lambda>_ n. replicate n 0) (\<lambda>_. True) ''/db/'' (elem_int32 0) ''d'' ''t'' 4 saved_column fs
        = Inr (map_blocks saved_flag saved_column, fs(?p \<mapsto> d, ?q \<mapsto> a))"
    and l: "\<And>fs. fs ?p = Some d \<Longrightarrow> LoadColumn (\<lambda>_. [255]) (\<lambda>_. Inr 0) (\<lambda>_ _ _ _. None) (=) (elem_int32 0) fs ?q ?p
        True False ''0'' 4 ''colA'' = Inr c'"
    and c': "c_blocks c' = [(- 1, bs)]" "stored_list 0 [saved_block] bs"
    using number_io [where c = saved_column and stale = "\<lambda>_ n. replicate n 0" and parse = "\<lambda>_. Inr 0" and dflt = "''0''" and v = 0 and same = "(=)"
        and h = "[]" and writable = "\<lambda>_. True" and dir = "''/db/''" and db = "''d''" and tb = "''t''" and E = "elem_int32 0"
        and junk = "\<lambda>_. [255]" and cmpr = "\<lambda>_ _ _ _. None" and dataPath = ?p and addressPath = ?q, unfolded saved_column]
      saved_block(1) by auto
  obtain b where b: "bs = [b]" "stored_as 0 saved_block b" using c'(2) by (cases bs) (auto simp: stored_list_def)
  show thesis
    by (rule that [OF w l _ b(2)]) (simp_all add: GetBlocksList_def c'(1) b(1))
qed

theorem incremental_save_eq_full_save_witness:
  "\<exists>c1 fs1 loaded b c' c'' fs2.
    WriteColumn (\<lambda>_ n. replicate n 0) (\<lambda>_. True) ''/db/'' (elem_int32 0) ''d'' ''t'' 4 saved_column (\<lambda>_. None) = Inr (c1, fs1)
    \<and> LoadColumn (\<lambda>_. [255]) (\<lambda>_. Inr 0) (\<lambda>_ _ _ _. None) (=) (elem_int32 0) fs1 ''/db/d@t@colA.adrs'' ''/db/d@t@colA.data''
        True False ''0'' 4 ''colA'' = Inr loaded \<and> GetBlocksList loaded = [b]
    \<and> PersistOnlyModified (\<lambda>_ n. replicate n 1) (\<lambda>_. True) ''/db/'' (elem_int32 0) ''d'' ''t'' 4 (changed_column b) fs1 = Inr (c', fs2)
    \<and> WriteColumn (\<lambda>_ n. replicate n 2) (\<lambda>_. True) ''/db/'' (elem_int32 0) ''d'' ''t'' 4 (changed_column b) (\<lambda>_. None) = Inr (c'', fs2)
    \<and> map b_index (GetBlocksList c') = [0, 1]"
proof -
  obtain c1 fs1 loaded b where w: "WriteColumn (\<lambda>_ n. replicate n 0) (\<lambda>_. True) ''/db/'' (elem_int32 0) ''d'' ''t'' 4 saved_column (\<lambda>_. None) = Inr (c1, fs1)"
    and l: "LoadColumn (\<lambda>_. [255]) (\<lambda>_. Inr 0) (\<lambda>_ _ _ _. None) (=) (elem_int32 0) fs1 ''/db/d@t@colA.adrs'' ''/db/d@t@colA.data''
      True False ''0'' 4 ''colA'' = Inr loaded" "GetBlocksList loaded = [b]" and b: "stored_as 0 saved_block b"
    by (rule saved_column_io)
  have sz: "b_size b = 2" "b_index b = 0" using b saved_block by (simp_all add: stored_as_def)
  have st: "storable True 4 b" using b saved_block(1) by (simp add: stored_as_def storable_def)
  then have st2: "\<forall>x\<in>set (GetBlocksList (changed_column b)). storable True 4 x"
    using saved_block(1) by (auto simp: changed_column storable_def block_ok_def split: option.splits)
  have ch: "changed_since (GetBlocksList loaded) (GetBlocksList (changed_column b))"
    by (simp add: l(2) changed_column changed_since_def)
  have bytes: "sum_list (map (\<lambda>x. record_length (LENGTH(32) div 8) 4 (b_size x)) (GetBlocksList (changed_column b))) < 2 ^ 64"
    using saved_block sz by (simp add: changed_column record_length_def GetNullBitMaskSizeInBytes_def GetNullBitMaskSize_def)
  have "\<exists>c' c'' fs2. PersistOnlyModified (\<lambda>_ n. replicate n 1) (\<lambda>_. True) ''/db/'' (elem_int32 0) ''d'' ''t'' (c_blockSize saved_column) (changed_column b) fs1 = Inr (c', fs2)
    \<and> WriteColumn (\<lambda>_ n. replicate n 2) (\<lambda>_. True) ''/db/'' (elem_int32 0) ''d'' ''t'' (c_blockSize saved_column) (changed_column b) (\<lambda>_. None) = Inr (c'', fs2)
    \<and> length (GetBlocksList c') = length (GetBlocksList (changed_column b))
    \<and> (\<forall>i<length (GetBlocksList c'). b_index (GetBlocksList c' ! i) = of_nat i \<and> \<not> b_saveNecessary (GetBlocksList c' ! i))"
    by (rule incremental_save_eq_full_save [where ?c0.0 = saved_column and ?s0.0 = "\<lambda>_ n. replicate n 0" and junk = "\<lambda>_. [255]" and parse = "\<lambda>_. Inr 0"
        and cmpr = "\<lambda>_ _ _ _. None" and same = "(=)" and dflt = "''0''" and dataPath = "''/db/d@t@colA.data''"
        and addressPath = "''/db/d@t@colA.adrs''" and loaded = loaded and ?c1.0 = c1, OF _ _ _ _ _ _ ch])
      (use w l(1) st2 bytes saved_block(1) in \<open>simp_all add: saved_column changed_column\<close>)
  then obtain c' c'' fs2 where p: "PersistOnlyModified (\<lambda>_ n. replicate n 1) (\<lambda>_. True) ''/db/'' (elem_int32 0) ''d'' ''t'' 4 (changed_column b) fs1 = Inr (c', fs2)"
    "WriteColumn (\<lambda>_ n. replicate n 2) (\<lambda>_. True) ''/db/'' (elem_int32 0) ''d'' ''t'' 4 (changed_column b) (\<lambda>_. None) = Inr (c'', fs2)"
    and c': "length (GetBlocksList c') = 2" "\<forall>i<length (GetBlocksList c'). b_index (GetBlocksList c' ! i) = of_nat i"
    by (auto simp: saved_column changed_column)
  have "map b_index (GetBlocksList c') = [0, 1]"
    using c' by (intro nth_equalityI) (auto simp: less_Suc_eq numeral_2_eq_2)
  then show ?thesis using w l p by (intro exI conjI)
qed

text \<open>
  C23. A block that was saved with \<open>m\<close> rows and has got rows for \<open>j\<close> more words of null mask has a longer record. Saving
  it writes the new record over the old one at its address, and the first \<open>8 * j\<close> bytes of the records behind it
  are gone.
\<close>

theorem longer_record_overruns_next:
  fixes b :: "'w::len word block"
  assumes "storable nul N b" and "\<forall>i n. length (stale i n) = n"
    and "k < length rs" and "length (rs ! k) = record_length (LENGTH('w) div 8) N m"
    and "GetNullBitMaskSize (b_size b) = GetNullBitMaskSize m + j" and "length (concat rs) < 2 ^ 64"
  shows "\<exists>b' r. WriteBlockNumericTypes stale True E nul N (of_nat (length (concat (take k rs)))) b (Some (concat rs))
    = Inr (b', Some (concat (take k rs) @ r @ drop (8 * j) (concat (drop (Suc k) rs)))) \<and> length r = length (rs ! k) + 8 * j"
proof -
  obtain r where r: "block_bytes stale E nul N (b_index b) b = Inr r" "length r = record_length (LENGTH('w) div 8) N (b_size b)"
    using block_bytes_length [OF assms(1,2)] by metis
  have len: "length r = length (rs ! k) + 8 * j"
    using r(2) assms(4) record_length_grows [OF assms(5)] by simp
  have "length (concat (take k rs)) \<le> length (concat rs)"
    using append_take_drop_id [of k rs] by (metis concat_append length_append le_add1)
  then have "unat (of_nat (length (concat (take k rs))) :: 64 word) = length (concat (take k rs))"
    using assms(6) by (simp add: unat_of_nat)
  then show ?thesis
    using r(1) write_at_longer [OF assms(3), of r] len by (auto simp: WriteBlockNumericTypes_def)
qed

theorem longer_record_overruns_next_witness:
  "\<exists>b b' r. WriteBlockNumericTypes (\<lambda>_ n. replicate n 0) True (elem_int32 0) True 128 0 b
      (Some (replicate (2 * record_length 4 128 1) 7))
    = Inr (b', Some (r @ replicate (record_length 4 128 1 - 8) 7)) \<and> length r = record_length 4 128 1 + 8"
proof -
  let ?L = "record_length 4 128 1"
  obtain b :: "int32 block" where b: "block_ok b" "b_capacity b = 128" "b_isNullable b = True" "b_size b = length (replicate 65 (0 :: int32))"
    by (rule int32_block.BlockBase_data_ok [where data = "replicate 65 0" and bs = 128 and u = 0 and nul = True and sv = True and ix = 0]) simp_all
  let ?b = "b\<lparr>b_groupId := - 1\<rparr>"
  have st: "storable True 128 ?b" using b by (auto simp: storable_def block_ok_def split: option.splits)
  have "\<exists>b' r. WriteBlockNumericTypes (\<lambda>_ n. replicate n 0) True (elem_int32 0) True 128
      (of_nat (length (concat (take 0 [replicate ?L (7 :: int8), replicate ?L 7])))) ?b (Some (concat [replicate ?L 7, replicate ?L 7]))
    = Inr (b', Some (concat (take 0 [replicate ?L 7, replicate ?L 7]) @ r @ drop (8 * 1) (concat (drop (Suc 0) [replicate ?L 7, replicate ?L 7]))))
    \<and> length r = length ([replicate ?L (7 :: int8), replicate ?L 7] ! 0) + 8 * 1"
    by (rule longer_record_overruns_next [OF st, where m = 1])
      (use b(4) in \<open>simp_all add: GetNullBitMaskSize_def record_length_def GetNullBitMaskSizeInBytes_def\<close>)
  moreover have "replicate (2 * ?L) (7 :: int8) = replicate ?L 7 @ replicate ?L 7" by (simp add: mult_2 replicate_add)
  ultimately show ?thesis by auto
qed

end
