(* ===== verification/Column_Resize.thy ===== *)
theory Column_Resize
  imports Column_Mask Block_Position
begin

text \<open>
  Copying the rows of a column to one with another block size (\<open>ColumnBase::ResizeColumn\<close>, used by
  \<open>Database::CopyBlocksOfColumn\<close> when the block size of a table is changed): empty blocks are added
  to group \<open>-1\<close> and filled in order, row by row when the column is nullable, in intervals otherwise.
\<close>

section \<open>The operation\<close>

fun add_blocks :: "'a elem \<Rightarrow> nat \<Rightarrow> 'a column \<Rightarrow> 'a column" where
  "add_blocks E 0 c = c"
| "add_blocks E (Suc n) c = add_blocks E n (AddBlock_empty E (- 1) True UINT32_MAX c)"

text \<open>
  The loop over the rows of a nullable column. \<open>sr\<close> is \<open>srcRowIndex\<close>, \<open>db\<close> and \<open>dr\<close> are \<open>dstBlockIndex\<close> and
  \<open>dstRowIndex\<close>; the source blocks from \<open>srcBlockIndex\<close> on are the list.
\<close>

function resize_rows ::
  "int option \<Rightarrow> 'a elem \<Rightarrow> 'a block list \<Rightarrow> nat \<Rightarrow> nat \<Rightarrow> nat \<Rightarrow> 'a column \<Rightarrow> 'a column result" where
  "resize_rows limit E [] sr db dr c = Inr c"
| "resize_rows limit E (s # ss) sr db dr c =
    (case b_bitMask s of
       None \<Rightarrow> Inl UndefinedBehaviour
     | Some m \<Rightarrow>
         if length m \<le> GetBitMaskIdx sr \<or> length (b_data s) \<le> sr then Inl UndefinedBehaviour
         else
           (case InsertDataOnSpecificPositionResizing limit E db dr (b_data s ! sr) (- 1)
                   (GetConcreteBitFromBitmask m sr \<noteq> 0) c of
              Inl e \<Rightarrow> Inl e
            | Inr c' \<Rightarrow>
                let db' = (if Suc dr = c_blockSize c then Suc db else db);
                    dr' = (if Suc dr = c_blockSize c then 0 else Suc dr)
                in if Suc sr = b_size s then resize_rows limit E ss 0 db' dr' c'
                   else resize_rows limit E (s # ss) (Suc sr) db' dr' c'))"
  by pat_completeness auto
termination
  by (relation "measures [\<lambda>(limit, E, src, sr, db, dr, c). length src,
      \<lambda>(limit, E, src, sr, db, dr, c). length (b_data (hd src)) - sr]") auto

declare resize_rows.simps [simp del]

text \<open>One call of \<open>InsertDataInterval\<close> on a block of the destination.\<close>

definition insert_interval ::
  "'a elem \<Rightarrow> 'a block \<Rightarrow> nat \<Rightarrow> nat \<Rightarrow> nat \<Rightarrow> 'a column \<Rightarrow> 'a column result" where
  "insert_interval E s sr n db c =
    (if length (blocks_at (- 1) c) \<le> db then Inl UndefinedBehaviour
     else mapR (\<lambda>b. set_blocks_at (- 1) ((blocks_at (- 1) c)[db := b]) (c\<lparr>c_size := c_size c + int n\<rparr>))
       (InsertDataInterval E (b_data s) sr n True (blocks_at (- 1) c ! db)))"

lemma insert_interval_length:
  "insert_interval E s sr n db c = Inr c' \<Longrightarrow> db < length (blocks_at (- 1) c) \<and>
    length (blocks_at (- 1) c') = length (blocks_at (- 1) c)"
  by (auto simp: insert_interval_def split: if_splits)

function resize_intervals :: "'a elem \<Rightarrow> 'a block list \<Rightarrow> nat \<Rightarrow> nat \<Rightarrow> nat \<Rightarrow> 'a column \<Rightarrow> 'a column result" where
  "resize_intervals E [] sr db dr c = Inr c"
| "resize_intervals E (s # ss) sr db dr c =
    (if c_blockSize c - dr < b_size s - sr then
       (case insert_interval E s sr (c_blockSize c - dr) db c of
          Inl e \<Rightarrow> Inl e
        | Inr c' \<Rightarrow> resize_intervals E (s # ss) (sr + (c_blockSize c - dr)) (Suc db) 0 c')
     else if b_size s - sr < c_blockSize c - dr then
       (case insert_interval E s sr (b_size s - sr) db c of
          Inl e \<Rightarrow> Inl e | Inr c' \<Rightarrow> resize_intervals E ss 0 db (dr + (b_size s - sr)) c')
     else
       (case insert_interval E s sr (c_blockSize c - dr) db c of
          Inl e \<Rightarrow> Inl e | Inr c' \<Rightarrow> resize_intervals E ss 0 (Suc db) 0 c'))"
  by pat_completeness auto
termination
  by (relation "measures [\<lambda>(E, src, sr, db, dr, c). length src,
      \<lambda>(E, src, sr, db, dr, c). length (blocks_at (- 1) c) - db]") (auto dest: insert_interval_length)

declare resize_intervals.simps [simp del]

text \<open>The number of new blocks is computed in 64 bits and stored in 32.\<close>

definition new_block_count :: "nat \<Rightarrow> int \<Rightarrow> nat" where
  "new_block_count blockSize rowCount = nat (to_int32 ((rowCount + int blockSize - 1) sdiv int blockSize))"

definition ResizeColumn :: "int option \<Rightarrow> 'a elem \<Rightarrow> 'a column \<Rightarrow> 'a column \<Rightarrow> 'a column result" where
  "ResizeColumn limit E src c =
    (if c_blockSize c = 0 then Inl UndefinedBehaviour
     else
       (let c1 = add_blocks E (new_block_count (c_blockSize c) (c_size src)) c in
        if c_isNullable c then resize_rows limit E (GetBlocksList src) 0 0 0 c1
        else resize_intervals E (GetBlocksList src) 0 0 0 c1))"

section \<open>Filling blocks in order\<close>

text \<open>
  The destination with \<open>nb\<close> blocks, filled up to row \<open>dr\<close> of block \<open>db\<close> with the rows \<open>rs\<close>.
\<close>

definition filled :: "'a elem \<Rightarrow> nat \<Rightarrow> 'a option list \<Rightarrow> 'a column \<Rightarrow> bool" where
  "filled E nb rs c \<longleftrightarrow> col_ok E c \<and> length (blocks_at (- 1) c) = nb \<and> c_size c = int (length rs) \<and>
    concat (map rows (blocks_at (- 1) c)) = rs \<and>
    (\<forall>i<nb. b_size (blocks_at (- 1) c ! i) =
       (if i < length rs div c_blockSize c then c_blockSize c
        else if i = length rs div c_blockSize c then length rs mod c_blockSize c else 0))"

definition same_rest :: "'a column \<Rightarrow> 'a column \<Rightarrow> bool" where
  "same_rest c c' \<longleftrightarrow> col_frame c' = col_frame c \<and> (\<forall>h. h \<noteq> - 1 \<longrightarrow> blocks_at h c' = blocks_at h c)"

lemma same_rest_trans: "same_rest c c' \<Longrightarrow> same_rest c' c'' \<Longrightarrow> same_rest c c''"
  by (simp add: same_rest_def)

definition put :: "nat \<Rightarrow> 'a block \<Rightarrow> nat \<Rightarrow> 'a column \<Rightarrow> 'a column" where
  "put db b n c = set_blocks_at (- 1) ((blocks_at (- 1) c)[db := b]) (c\<lparr>c_size := c_size c + int n\<rparr>)"

lemma put_same_rest: "same_rest c (put db b n c)"
  by (simp add: same_rest_def put_def)

lemma put_frame [simp]:
  "c_blockSize (put db b n c) = c_blockSize c" "c_isNullable (put db b n c) = c_isNullable c"
  by (simp_all add: put_def)

lemma div_mod_fill:
  fixes n k N :: nat
  assumes "n mod N + k \<le> N" and "0 < N"
  shows "(n + k) div N = (if n mod N + k = N then Suc (n div N) else n div N)"
    and "(n + k) mod N = (if n mod N + k = N then 0 else n mod N + k)"
proof -
  have n: "n + k = (n mod N + k) + N * (n div N)" by (simp add: add.commute)
  show "(n + k) div N = (if n mod N + k = N then Suc (n div N) else n div N)"
    unfolding n div_mult_self2 [OF assms(2) [THEN less_imp_neq, symmetric]] using assms by auto
  show "(n + k) mod N = (if n mod N + k = N then 0 else n mod N + k)"
    unfolding n mod_mult_self2 using assms by auto
qed

lemma filled_put:
  assumes f: "filled E nb rs c" and k: "length rs mod c_blockSize c + length xs \<le> c_blockSize c"
    and db: "length rs div c_blockSize c < nb"
    and b: "col_block_ok E c b" "rows b = rows (blocks_at (- 1) c ! (length rs div c_blockSize c)) @ xs"
  shows "filled E nb (rs @ xs) (put (length rs div c_blockSize c) b (length xs) c)"
proof -
  let ?N = "c_blockSize c" and ?bs = "blocks_at (- 1) c"
  let ?db = "length rs div ?N"
  let ?bs' = "?bs[?db := b]"
  have ok: "col_ok E c" and len: "length ?bs = nb" and size: "c_size c = int (length rs)"
    and rs: "concat (map rows ?bs) = rs"
    and sz: "\<And>i. i < nb \<Longrightarrow> b_size (?bs ! i) = (if i < ?db then ?N else if i = ?db then length rs mod ?N else 0)"
    using f by (auto simp: filled_def)
  have N: "0 < ?N" using ok by (simp add: col_ok_def)
  have bsz: "b_size b = length rs mod ?N + length xs"
    using arg_cong [OF b(2), of length] sz [OF db] by simp
  have split: "?bs = take ?db ?bs @ ?bs ! ?db # drop (Suc ?db) ?bs" "?bs' = take ?db ?bs @ b # drop (Suc ?db) ?bs"
    using db len by (simp_all add: id_take_nth_drop upd_conv_take_nth_drop)
  have "rows x = []" if "x \<in> set (drop (Suc ?db) ?bs)" for x
  proof -
    from that obtain i where "i < length (drop (Suc ?db) ?bs)" "x = drop (Suc ?db) ?bs ! i" by (metis in_set_conv_nth)
    then have "Suc ?db + i < nb" "x = ?bs ! (Suc ?db + i)" using len db by simp_all
    then show ?thesis using sz [of "Suc ?db + i"] by (simp add: rows_def)
  qed
  then have rest: "concat (map rows (drop (Suc ?db) ?bs)) = []" by simp
  have "concat (map rows ?bs) = concat (map rows (take ?db ?bs)) @ rows (?bs ! ?db)"
    by (subst split(1)) (simp add: rest)
  moreover have "concat (map rows ?bs') = concat (map rows (take ?db ?bs)) @ rows b"
    by (subst split(2)) (simp add: rest)
  ultimately have rs': "concat (map rows ?bs') = rs @ xs" using rs b(2) by simp
  have "sum_list (map b_size ?bs') = length (concat (map rows ?bs'))" "sum_list (map b_size ?bs) = length (concat (map rows ?bs))"
    by (simp_all add: length_concat comp_def)
  then have total: "int (sum_list (map b_size ?bs')) - int (sum_list (map b_size ?bs)) = int (length xs)"
    using rs rs' by simp
  have "put ?db b (length xs) c = (set_blocks_at (- 1) ?bs' c)\<lparr>c_size := c_size c + int (length xs)\<rparr>"
    by (simp add: put_def set_blocks_at_def)
  moreover have "col_ok E ((set_blocks_at (- 1) ?bs' c)\<lparr>c_size := c_size c + int (length xs)\<rparr>)"
  proof (rule col_ok_set_blocks_at [OF ok])
    show "col_block_ok E c x" if "x \<in> set ?bs'" for x
      using that b(1) col_ok_block [OF ok] set_update_subset_insert [of ?bs ?db b] by auto
    show "c_size c + int (length xs) = c_size c + int (sum_list (map b_size ?bs')) - int (sum_list (map b_size ?bs))"
      using total by simp
  qed
  ultimately have "col_ok E (put ?db b (length xs) c)" by simp
  moreover have "b_size (?bs' ! i) = (if i < (length rs + length xs) div ?N then ?N
      else if i = (length rs + length xs) div ?N then (length rs + length xs) mod ?N else 0)" if "i < nb" for i
    using that sz [OF that] bsz db len div_mod_fill [OF k N] by (auto simp: nth_list_update)
  ultimately show ?thesis using rs' size len by (simp add: filled_def put_def)
qed

section \<open>The loops\<close>

text \<open>A row that is inserted at the end of a block.\<close>

lemma resizing_step:
  assumes be: "block_elem E" and f: "filled E nb rs c" and db: "length rs div c_blockSize c < nb"
    and nul: "c_isNullable c" and lim: "CheckRowsLimit limit (int (length rs)) = Inr ()"
  shows "\<exists>b. InsertDataOnSpecificPositionResizing limit E (length rs div c_blockSize c) (length rs mod c_blockSize c) x (- 1) isNull c
      = Inr (put (length rs div c_blockSize c) b 1 c)
    \<and> filled E nb (rs @ [if isNull then None else Some x]) (put (length rs div c_blockSize c) b 1 c)"
proof -
  let ?N = "c_blockSize c"
  let ?db = "length rs div ?N" and ?dr = "length rs mod ?N" and ?n = "of_bool isNull :: nullmask"
  let ?b = "blocks_at (- 1) c ! ?db"
  have ok: "col_ok E c" and len: "length (blocks_at (- 1) c) = nb" and size: "c_size c = int (length rs)"
    and sz: "b_size ?b = ?dr" using f db by (auto simp: filled_def)
  then have N: "0 < ?N" by (simp add: col_ok_def)
  have bok: "col_block_ok E c ?b" using ok db len by (intro col_ok_block [where g = "- 1"]) auto
  have "b_size ?b < b_capacity ?b" using bok sz N by (simp add: col_block_ok_def)
  then obtain b where b: "InsertDataOnSpecificPosition_block E ?dr x ?n True ?b = Inr b"
    and bk: "block_ok b" "mask_clean b" "stats_sound E b" "b_capacity b = b_capacity ?b" "b_isNullable b = b_isNullable ?b"
    and r: "rows b = insert_at ?dr (if ?n \<noteq> 0 then None else Some x) (rows ?b)"
    using InsertPosition_spec [of ?b ?dr ?n E x True] bok be nul sz by (auto simp: col_block_ok_def)
  have "rows b = rows ?b @ [if isNull then None else Some x]"
    using r sz by (simp add: insert_at_def)
  moreover have "col_block_ok E c b" using bk bok by (simp add: col_block_ok_def)
  ultimately have "filled E nb (rs @ [if isNull then None else Some x]) (put ?db b 1 c)"
    using filled_put [OF f, of "[if isNull then None else Some x]" b] db N by (simp add: Suc_leI)
  then show ?thesis
    using b lim size len db by (auto simp: InsertDataOnSpecificPositionResizing_def put_def)
qed

abbreviation rows_left :: "'a block list \<Rightarrow> nat \<Rightarrow> 'a option list" where
  "rows_left src sr \<equiv> drop sr (concat (map rows src))"

lemma below_capacity:
  fixes n k nb N :: nat
  shows "n + k \<le> nb * N \<Longrightarrow> 0 < k \<Longrightarrow> n div N < nb"
  by (simp add: less_mult_imp_div_less)

lemma resize_rows_ok:
  assumes be: "block_elem E" and "filled E nb rs c" and "c_isNullable c"
    and "\<forall>s\<in>set src. block_ok s \<and> b_isNullable s \<and> 0 < b_size s"
    and "src \<noteq> [] \<longrightarrow> sr < b_size (hd src)" and "src = [] \<longrightarrow> sr = 0"
    and "length rs + length (rows_left src sr) \<le> nb * c_blockSize c"
    and "\<forall>l. limit = Some l \<longrightarrow> int (length rs + length (rows_left src sr)) \<le> l"
  shows "\<exists>c'. resize_rows limit E src sr (length rs div c_blockSize c) (length rs mod c_blockSize c) c = Inr c'
    \<and> filled E nb (rs @ rows_left src sr) c' \<and> same_rest c c'"
  using assms(2-)
proof (induction "length (rows_left src sr)" arbitrary: src sr rs c)
  case 0
  then have "src = []" by (cases src) auto
  with 0 show ?case by (simp add: resize_rows.simps same_rest_def)
next
  case (Suc n)
  let ?N = "c_blockSize c"
  from Suc.hyps(2) obtain s ss where src: "src = s # ss" by (cases src) auto
  have s: "block_ok s" "b_isNullable s" and sr: "sr < b_size s" using Suc.prems(3,4) by (simp_all add: src)
  obtain m where m: "b_bitMask s = Some m" "length m = GetNullBitMaskSize (b_capacity s)"
    using s by (auto simp: block_ok_def split: option.splits)
  have in_data: "sr < length (b_data s)" "sr < b_capacity s" using s sr by (auto simp: block_ok_def)
  then have word: "sr div 64 < length m" using m(2) GetNullBitMaskSize_bound by simp
  let ?null = "mask_bit m sr" and ?x = "b_data s ! sr"
  have row: "rows s ! sr = (if ?null then None else Some ?x)" using sr m by (simp add: rows_def is_null_def)
  then have left: "rows_left src sr = (if ?null then None else Some ?x) # rows_left src (Suc sr)"
    using sr by (simp add: src Cons_nth_drop_Suc [symmetric])
  then have n: "n = length (rows_left src (Suc sr))" using Suc.hyps(2) by simp
  have "length rs div ?N < nb" using Suc.prems(6) left by (intro below_capacity [where k = "length (rows_left src sr)"]) simp_all
  moreover have "CheckRowsLimit limit (int (length rs)) = Inr ()"
    using Suc.prems(7) left by (auto simp: CheckRowsLimit_def split: option.split)
  ultimately obtain b where ins: "InsertDataOnSpecificPositionResizing limit E (length rs div ?N) (length rs mod ?N) ?x (- 1) ?null c
      = Inr (put (length rs div ?N) b 1 c)"
    and f: "filled E nb (rs @ [if ?null then None else Some ?x]) (put (length rs div ?N) b 1 c)"
    using resizing_step [OF be Suc.prems(1) _ Suc.prems(2)] by metis
  let ?c = "put (length rs div ?N) b 1 c" and ?rs = "rs @ [if ?null then None else Some ?x]"
  have N: "0 < ?N" using Suc.prems(1) by (simp add: filled_def col_ok_def)
  have pos: "(if Suc (length rs mod ?N) = ?N then Suc (length rs div ?N) else length rs div ?N) = length ?rs div c_blockSize ?c"
    "(if Suc (length rs mod ?N) = ?N then 0 else Suc (length rs mod ?N)) = length ?rs mod c_blockSize ?c"
    using div_mod_fill [of "length rs" ?N 1] N by (simp_all add: Suc_leI)
  let ?src = "if Suc sr = b_size s then ss else src" and ?sr = "if Suc sr = b_size s then 0 else Suc sr"
  have left': "rows_left ?src ?sr = rows_left src (Suc sr)" by (simp add: src)
  have "resize_rows limit E src sr (length rs div ?N) (length rs mod ?N) c =
      resize_rows limit E ?src ?sr (length ?rs div c_blockSize ?c) (length ?rs mod c_blockSize ?c) ?c"
    unfolding pos [symmetric]
    using m word in_data ins
    by (simp add: src resize_rows.simps(2) [of limit E s ss sr "length rs div ?N"] GetBitMaskIdx_def Let_def)
  moreover have "\<exists>c'. resize_rows limit E ?src ?sr (length ?rs div c_blockSize ?c) (length ?rs mod c_blockSize ?c) ?c = Inr c'
    \<and> filled E nb (?rs @ rows_left ?src ?sr) c' \<and> same_rest ?c c'"
  proof (rule Suc.hyps(1))
    show "n = length (rows_left ?src ?sr)" using n left' by simp
    show "filled E nb ?rs ?c" by (rule f)
    show "c_isNullable ?c" using Suc.prems(2) by simp
    show "\<forall>s\<in>set ?src. block_ok s \<and> b_isNullable s \<and> 0 < b_size s" using Suc.prems(3) by (simp add: src)
    show "?src \<noteq> [] \<longrightarrow> ?sr < b_size (hd ?src)" using Suc.prems(3) sr by (auto simp: src)
    show "?src = [] \<longrightarrow> ?sr = 0" by (simp add: src)
    show "length ?rs + length (rows_left ?src ?sr) \<le> nb * c_blockSize ?c" using Suc.prems(6) left left' by simp
    show "\<forall>l. limit = Some l \<longrightarrow> int (length ?rs + length (rows_left ?src ?sr)) \<le> l" using Suc.prems(7) left left' by simp
  qed
  ultimately show ?case using put_same_rest same_rest_trans left left' by (metis append_Cons append_Nil append_assoc)
qed

text \<open>An interval of rows that is appended to a block.\<close>

lemma insert_interval_ok:
  assumes be: "block_elem E" and f: "filled E nb rs c" and db: "length rs div c_blockSize c < nb"
    and k: "length rs mod c_blockSize c + n \<le> c_blockSize c"
    and s: "block_ok s" "\<not> b_isNullable s" "sr + n \<le> b_size s"
  shows "\<exists>b. insert_interval E s sr n (length rs div c_blockSize c) c = Inr (put (length rs div c_blockSize c) b n c)
    \<and> filled E nb (rs @ take n (drop sr (rows s))) (put (length rs div c_blockSize c) b n c)"
proof -
  let ?N = "c_blockSize c"
  let ?db = "length rs div ?N" and ?dr = "length rs mod ?N"
  let ?b = "blocks_at (- 1) c ! ?db" and ?data = "take n (drop sr (b_data s))"
  have ok: "col_ok E c" and len: "length (blocks_at (- 1) c) = nb" and sz: "b_size ?b = ?dr"
    using f db by (auto simp: filled_def)
  have bok: "col_block_ok E c ?b" using ok db len by (intro col_ok_block [where g = "- 1"]) auto
  then have b0: "block_ok ?b" "mask_clean ?b" "stats_sound E ?b" and cap: "b_capacity ?b = ?N"
    by (simp_all add: col_block_ok_def)
  have dl: "length ?data = n" "sr + n \<le> length (b_data s)" using s by (auto simp: block_ok_def)
  have fits: "length ?data \<le> b_capacity ?b - b_size ?b" using k dl cap sz by simp
  have "InsertDataInterval E (b_data s) sr n True ?b = InsertData_block E ?data True ?b"
    using dl by (simp add: InsertDataInterval_def InsertData_block_def)
  moreover obtain b where b: "InsertData_block E ?data True ?b = Inr b"
    using InsertData_block_eq [OF b0(1) fits, of E True] by auto
  ultimately have "insert_interval E s sr n ?db c = Inr (put ?db b n c)"
    using len db by (simp add: insert_interval_def put_def)
  moreover have "rows b = rows ?b @ map Some ?data" by (rule InsertData_block_rows_clean [OF b0(1) b b0(2)])
  moreover have "map Some ?data = take n (drop sr (rows s))"
  proof -
    have "rows s = map Some (take (b_size s) (b_data s))"
      using s by (intro nth_equalityI) (auto simp: rows_def is_null_def block_ok_def split: option.splits)
    then show ?thesis using s(3) by (simp add: take_map drop_map drop_take)
  qed
  moreover have "col_block_ok E c b"
    using bok InsertData_block_ok [OF b0(1) b] block_elem.InsertData_block_sound [OF be b0(1) b b0(3)]
      InsertData_block_frame [OF b0(1) b] b0(2) by (auto simp: col_block_ok_def mask_clean_def)
  moreover have xs: "length (take n (drop sr (rows s))) = n" using s(3) by simp
  ultimately show ?thesis
    using filled_put [OF f, of "take n (drop sr (rows s))" b, unfolded xs] k db by auto
qed

lemma resize_intervals_ok:
  assumes be: "block_elem E" and "filled E nb rs c"
    and "\<forall>s\<in>set src. block_ok s \<and> \<not> b_isNullable s \<and> 0 < b_size s"
    and "src \<noteq> [] \<longrightarrow> sr < b_size (hd src)" and "src = [] \<longrightarrow> sr = 0"
    and "length rs + length (rows_left src sr) \<le> nb * c_blockSize c"
  shows "\<exists>c'. resize_intervals E src sr (length rs div c_blockSize c) (length rs mod c_blockSize c) c = Inr c'
    \<and> filled E nb (rs @ rows_left src sr) c' \<and> same_rest c c'"
  using assms(2-)
proof (induction "length (rows_left src sr)" arbitrary: src sr rs c rule: less_induct)
  case less
  show ?case
  proof (cases src)
    case Nil
    with less.prems show ?thesis by (simp add: resize_intervals.simps same_rest_def)
  next
    case (Cons s ss)
    let ?N = "c_blockSize c"
    let ?db = "length rs div ?N" and ?dr = "length rs mod ?N"
    let ?left = "b_size s - sr" and ?room = "?N - ?dr"
    define n where "n = min ?left ?room"
    let ?src = "if n = ?left then ss else src" and ?sr = "if n = ?left then 0 else sr + n"
    have s: "block_ok s" "\<not> b_isNullable s" and sr: "sr < b_size s" using less.prems(2,3) by (simp_all add: Cons)
    have N: "0 < ?N" using less.prems(1) by (simp add: filled_def col_ok_def)
    have dr: "?dr < ?N" using N by simp
    then have n: "0 < n" "n \<le> ?left" "?dr + n \<le> ?N" using sr by (auto simp: n_def)
    have left: "rows_left src sr = take n (drop sr (rows s)) @ rows_left ?src ?sr"
    proof -
      have "drop sr (rows s) = take n (drop sr (rows s)) @ drop (sr + n) (rows s)"
        by (metis append_take_drop_id drop_drop add.commute)
      moreover have "drop (sr + n) (rows s) = []" if "n = ?left" using that sr by simp
      moreover have "sr + n \<le> length (rows s)" using n(2) sr by simp
      ultimately show ?thesis using sr by (auto simp: Cons)
    qed
    have len: "length (take n (drop sr (rows s))) = n" using n(2) by simp
    have db: "?db < nb"
      using less.prems(5) left len n(1) by (intro below_capacity [where k = "length (rows_left src sr)"]) simp_all
    have in_block: "sr + n \<le> b_size s" using n(2) sr by simp
    obtain b where ins: "insert_interval E s sr n ?db c = Inr (put ?db b n c)"
      and f: "filled E nb (rs @ take n (drop sr (rows s))) (put ?db b n c)"
      using insert_interval_ok [OF be less.prems(1) db n(3) s, of sr, OF in_block] by blast
    let ?c = "put ?db b n c" and ?rs = "rs @ take n (drop sr (rows s))"
    have pos: "length ?rs div c_blockSize ?c = (if n = ?room then Suc ?db else ?db)"
      "length ?rs mod c_blockSize ?c = (if n = ?room then 0 else ?dr + n)"
      unfolding length_append len put_frame using div_mod_fill [OF n(3) N] dr by auto
    have "resize_intervals E src sr ?db ?dr c =
        resize_intervals E ?src ?sr (length ?rs div c_blockSize ?c) (length ?rs mod c_blockSize ?c) ?c"
      unfolding pos using ins n_def resize_intervals.simps(2) [of E s ss sr ?db ?dr c]
      by (cases "?room < ?left"; cases "?left < ?room") (auto simp: Cons)
    moreover have "\<exists>c'. resize_intervals E ?src ?sr (length ?rs div c_blockSize ?c) (length ?rs mod c_blockSize ?c) ?c = Inr c'
      \<and> filled E nb (?rs @ rows_left ?src ?sr) c' \<and> same_rest ?c c'"
    proof (rule less.hyps)
      show "length (rows_left ?src ?sr) < length (rows_left src sr)" using left len n(1) by simp
      show "filled E nb ?rs ?c" by (rule f)
      show "\<forall>s\<in>set ?src. block_ok s \<and> \<not> b_isNullable s \<and> 0 < b_size s" using less.prems(2) by (simp add: Cons)
      show "?src \<noteq> [] \<longrightarrow> ?sr < b_size (hd ?src)" using less.prems(2) n(2) by (auto simp: Cons)
      show "?src = [] \<longrightarrow> ?sr = 0" by (simp add: Cons)
      show "length ?rs + length (rows_left ?src ?sr) \<le> nb * c_blockSize ?c" using less.prems(5) left len by simp
    qed
    ultimately show ?thesis using put_same_rest same_rest_trans left by (metis append_assoc)
  qed
qed

section \<open>The whole operation\<close>

lemma add_blocks_group:
  "blocks_at (- 1) (add_blocks E n c) =
    blocks_at (- 1) c @ replicate n (BlockBase_empty E (c_blockSize c) (c_isNullable c) True UINT32_MAX)"
  by (induction n arbitrary: c) (simp_all add: AddBlock_empty_def replicate_append_same [symmetric])

lemma add_blocks_frame:
  "same_rest c (add_blocks E n c)" "c_size (add_blocks E n c) = c_size c"
  by (induction n arbitrary: c) (auto simp: AddBlock_empty_def same_rest_def)

lemma same_rest_frame:
  "same_rest c c' \<Longrightarrow> c_blockSize c' = c_blockSize c" "same_rest c c' \<Longrightarrow> c_isNullable c' = c_isNullable c"
  using col_frame_eqD by (auto simp: same_rest_def)

lemma add_blocks_ok: "block_elem E \<Longrightarrow> col_ok E c \<Longrightarrow> col_ok E (add_blocks E n c)"
proof (induction n arbitrary: c)
  case (Suc n)
  let ?b = "BlockBase_empty E (c_blockSize c) (c_isNullable c) True UINT32_MAX"
  have bs: "c_blockSize c < 2 ^ 31" using Suc.prems(2) by (simp add: col_ok_def)
  have b: "col_block_ok E c ?b" using BlockBase_empty_ok [OF bs, of E] by (simp add: col_block_ok_def)
  have "b_size ?b = 0" by (simp add: BlockBase_empty_def raw_block_def)
  note b = b this
  have "col_ok E ((set_blocks_at (- 1) (blocks_at (- 1) c @ [?b]) c)\<lparr>c_size := c_size c\<rparr>)"
    using b Suc.prems(2) by (intro col_ok_set_blocks_at) (auto intro: col_ok_block)
  moreover have "(set_blocks_at (- 1) (blocks_at (- 1) c @ [?b]) c)\<lparr>c_size := c_size c\<rparr> = AddBlock_empty E (- 1) True UINT32_MAX c"
    by (simp add: AddBlock_empty_def set_blocks_at_def)
  ultimately show ?case using Suc.IH [OF Suc.prems(1)] by simp
qed simp

lemma add_blocks_filled:
  assumes "block_elem E" and "col_ok E c" and "blocks_at (- 1) c = []" and "c_size c = 0"
  shows "filled E n [] (add_blocks E n c)"
proof -
  have "rows (BlockBase_empty E N nul sv ix) = []" "b_size (BlockBase_empty E N nul sv ix) = 0" for N nul sv ix
    by (simp_all add: BlockBase_empty_def raw_block_def rows_def)
  then show ?thesis
    using add_blocks_ok [OF assms(1,2), of n] assms(3,4) by (simp add: filled_def add_blocks_group add_blocks_frame map_replicate_const)
qed

lemma blocks_needed:
  fixes n N :: nat
  assumes "0 < N"
  shows "n \<le> (n + N - 1) div N * N" and "(n + N - 1) div N = n div N + (if n mod N = 0 then 0 else 1)"
proof -
  have n: "n + N - 1 = (n mod N + N - 1) + N * (n div N)" using assms mult_div_mod_eq [of N n] by linarith
  have "(n + N - 1) div N = ((n mod N + N - 1) + N * (n div N)) div N" by (simp only: n [symmetric])
  also have "\<dots> = n div N + (n mod N + N - 1) div N" using assms by (intro div_mult_self2) simp
  finally have "(n + N - 1) div N = (n mod N + N - 1) div N + n div N" by (simp only: add.commute)
  moreover have "(n mod N + N - 1) div N = (if n mod N = 0 then 0 else 1)"
  proof (cases "n mod N = 0")
    case False
    then have e: "n mod N + N - 1 = (n mod N - 1) + N" by simp
    have "n mod N - 1 < N" using mod_less_divisor [OF assms, of n] by simp
    then have "((n mod N - 1) + N) div N = 1" using assms by simp
    then show ?thesis unfolding e using False by simp
  qed (use assms in simp)
  ultimately show q: "(n + N - 1) div N = n div N + (if n mod N = 0 then 0 else 1)" by simp
  have "n \<le> N * (n div N) + (if n mod N = 0 then 0 else N)"
  proof (cases "n mod N = 0")
    case False
    have "n = N * (n div N) + n mod N" by simp
    then have "n \<le> N * (n div N) + N" using mod_less_divisor [OF assms, of n] by linarith
    with False show ?thesis by simp
  qed (use mult_div_mod_eq [of N n] in simp)
  then show "n \<le> (n + N - 1) div N * N" unfolding q by (simp add: algebra_simps split: if_splits)
qed

lemma new_block_count_eq:
  assumes "0 < N" and "n < 2 ^ 31"
  shows "new_block_count N (int n) = (n + N - 1) div N"
proof -
  have "(n + N - 1) div N \<le> n"
  proof (cases n)
    case (Suc m)
    have "(n + N - 1) div N = Suc (m div N)" using assms(1) Suc by simp
    then show ?thesis using Suc div_le_dividend [of m N] by simp
  qed (use assms(1) in simp)
  then have "int ((n + N - 1) div N) < 2 ^ 31" using assms(2) by simp
  moreover have "(int n + int N - 1) sdiv int N = int ((n + N - 1) div N)"
    using assms(1) by (simp add: signed_divide_int_def sgn_if zdiv_int of_nat_diff Suc_leI)
  ultimately show ?thesis by (simp add: new_block_count_def to_int32_id)
qed

text \<open>
  C29. Copying a column to one with another block size gives it the same rows in the same order, null
  rows included, packed into group \<open>-1\<close>: every block but the last is full and there is no block too
  many. Everything else of the destination is as before, its set of unique values included.
\<close>

theorem ResizeColumn_correct:
  fixes c :: "'a column"
  assumes "block_elem E" and "col_ok E src" and "col_ok E c" and "c_isNullable c = c_isNullable src"
    and "\<forall>b\<in>set (GetBlocksList src). 0 < b_size b" and "c_size src < 2 ^ 31"
    and "c_size c = 0" and "blocks_at (- 1) c = []" and "\<forall>l. limit = Some l \<longrightarrow> c_size src \<le> l"
  shows "\<exists>c'. ResizeColumn limit E src c = Inr c' \<and> col_ok E c' \<and>
    group_rows (- 1) c' = concat (map rows (GetBlocksList src)) \<and> c_size c' = c_size src \<and>
    (\<forall>i. Suc i < length (blocks_at (- 1) c') \<longrightarrow> b_size (blocks_at (- 1) c' ! i) = c_blockSize c) \<and>
    (\<forall>b\<in>set (blocks_at (- 1) c'). 0 < b_size b) \<and>
    (\<forall>h. h \<noteq> - 1 \<longrightarrow> blocks_at h c' = blocks_at h c) \<and> col_frame c' = col_frame c"
proof -
  let ?N = "c_blockSize c" and ?src = "GetBlocksList src"
  define rs where "rs = concat (map rows ?src)"
  have N: "0 < ?N" using assms(3) by (simp add: col_ok_def)
  have size: "c_size src = int (length rs)"
    using assms(2) by (simp add: col_ok_def rs_def length_concat comp_def)
  have len: "length rs < 2 ^ 31" using assms(6) size by simp
  define nb where "nb = (length rs + ?N - 1) div ?N"
  have count: "new_block_count ?N (c_size src) = nb" unfolding size nb_def by (rule new_block_count_eq [OF N len])
  have nb: "length rs \<le> nb * ?N" and nb': "nb = length rs div ?N + (if length rs mod ?N = 0 then 0 else 1)"
    unfolding nb_def by (rule blocks_needed [OF N])+
  let ?c1 = "add_blocks E nb c" and ?e = "[] :: 'a option list"
  have f: "filled E nb [] ?c1" by (rule add_blocks_filled [OF assms(1,3,8,7)])
  note fr = same_rest_frame [OF add_blocks_frame(1) [of c E nb]]
  have src: "block_ok s" "b_isNullable s = c_isNullable c" "0 < b_size s" if "s \<in> set ?src" for s
    using that assms(2,4,5) by (auto simp: col_ok_def col_block_ok_def)
  obtain c' where run: "ResizeColumn limit E src c = Inr c'" and f': "filled E nb rs c'" and rest: "same_rest ?c1 c'"
  proof (cases "c_isNullable c")
    case True
    have "\<exists>c'. resize_rows limit E ?src 0 (length ?e div c_blockSize ?c1) (length ?e mod c_blockSize ?c1) ?c1 = Inr c'
        \<and> filled E nb (?e @ rows_left ?src 0) c' \<and> same_rest ?c1 c'"
      using True src nb fr f size assms(9) by (intro resize_rows_ok [OF assms(1)]) (auto simp: rs_def [symmetric])
    then show thesis using that N True by (auto simp: ResizeColumn_def count rs_def)
  next
    case False
    have "\<exists>c'. resize_intervals E ?src 0 (length ?e div c_blockSize ?c1) (length ?e mod c_blockSize ?c1) ?c1 = Inr c'
        \<and> filled E nb (?e @ rows_left ?src 0) c' \<and> same_rest ?c1 c'"
      using False src nb fr f by (intro resize_intervals_ok [OF assms(1)]) (auto simp: rs_def [symmetric])
    then show thesis using that N False by (auto simp: ResizeColumn_def count rs_def)
  qed
  have same: "same_rest c c'" using add_blocks_frame(1) rest by (rule same_rest_trans)
  have sz: "b_size (blocks_at (- 1) c' ! i) = (if i < length rs div ?N then ?N else length rs mod ?N)" if "i < nb" for i
    using that f' same_rest_frame [OF same] nb' by (auto simp: filled_def split: if_splits)
  have "0 < b_size b" if b: "b \<in> set (blocks_at (- 1) c')" for b
  proof -
    from b obtain i where "i < nb" "b = blocks_at (- 1) c' ! i" using f' by (auto simp: filled_def in_set_conv_nth)
    then show ?thesis using sz [of i] N nb' by (auto split: if_splits)
  qed
  moreover have "b_size (blocks_at (- 1) c' ! i) = ?N" if "Suc i < nb" for i
    using that sz [of i] nb' by (auto split: if_splits)
  ultimately show ?thesis
    using run f' same size by (auto simp: filled_def group_rows_def rs_def same_rest_def)
qed

text \<open>A column of two blocks of four cells with two rows each, copied to blocks of two cells.\<close>

definition two_blocks :: "int32 column" where
  "two_blocks = sample_column\<lparr>c_blockSize := 4, c_size := 4, c_blocks := [(- 1, [sample_block, sample_block])]\<rparr>"

lemma two_blocks:
  "col_ok (elem_int32 0) two_blocks" "GetBlocksList two_blocks = [sample_block, sample_block]"
  "c_size two_blocks = 4" "c_isNullable two_blocks"
  using sample_block sample_column
  by (simp_all add: two_blocks_def col_ok_def col_block_ok_def GetBlocksList_def)

theorem ResizeColumn_correct_witness:
  "\<exists>c'. ResizeColumn None (elem_int32 0) two_blocks sample_column = Inr c' \<and>
    group_rows (- 1) c' = [Some 7, Some 3, Some 7, Some 3] \<and> length (blocks_at (- 1) c') \<ge> 1"
proof -
  have "c_isNullable sample_column = c_isNullable two_blocks" "blocks_at (- 1) sample_column = []"
    using sample_column two_blocks
    by (simp_all add: sample_column_def ColumnBase_new_def SetIsNullable_def SetIsUnique_def
        SetIsNullableInBlocks_def map_blocks_def blocks_at_def)
  then obtain c' where "ResizeColumn None (elem_int32 0) two_blocks sample_column = Inr c'"
    and r: "group_rows (- 1) c' = concat (map rows (GetBlocksList two_blocks))"
    using ResizeColumn_correct [of "elem_int32 0" two_blocks sample_column None]
      int32_block.block_elem_axioms two_blocks sample_column sample_block by auto
  moreover have "group_rows (- 1) c' = [Some 7, Some 3, Some 7, Some 3]"
    using r sample_block by (simp add: two_blocks)
  moreover have "length (blocks_at (- 1) c') \<ge> 1"
    using calculation(3) by (cases "blocks_at (- 1) c'") (auto simp: group_rows_def)
  ultimately show ?thesis by blast
qed

end
