(* ===== verification/Geo_Text.thy ===== *)
theory Geo_Text
  imports Column_Stats Conversions
begin

text \<open>
  Points and polygons as well-known text (\<open>PointFactory.cpp\<close>, \<open>ComplexPolygonFactory.cpp\<close>) and the
  arrays a polygon column is passed to the GPU with. Numbers are printed as an output stream prints
  them: six significant digits, with an exponent for small and large ones. They are read as an input
  stream reads them. The regular expression for the points of a polygon is matched by its derivatives.
\<close>

section \<open>Printing numbers\<close>

definition round_even :: "nat \<Rightarrow> nat \<Rightarrow> nat" where
  "round_even a b =
    (let q = a div b; r = a mod b in if 2 * r > b \<or> (2 * r = b \<and> odd q) then q + 1 else q)"

text \<open>The decimal exponent of a positive fraction: \<open>10 powr x \<le> a / b < 10 powr (x + 1)\<close>.\<close>

function dec_shift :: "nat \<Rightarrow> nat \<Rightarrow> nat" where
  "dec_shift a b = (if a = 0 \<or> b \<le> a then 0 else Suc (dec_shift (10 * a) b))"
  by pat_completeness auto
termination
  by (relation "measure (\<lambda>(a, b). b - a)") auto

declare dec_shift.simps [simp del]

definition dec_exponent :: "nat \<Rightarrow> nat \<Rightarrow> int" where
  "dec_exponent a b = (if b \<le> a then int (length (show_nat (a div b))) - 1 else - int (dec_shift a b))"

definition strip_zeros :: "string \<Rightarrow> string" where
  "strip_zeros s = rev (dropWhile (\<lambda>c. c = CHR ''0'') (rev s))"

definition with_point :: "string \<Rightarrow> string \<Rightarrow> string" where
  "with_point i f = (if f = [] then i else i @ ''.'' @ f)"

definition show_exponent :: "int \<Rightarrow> string" where
  "show_exponent x =
    (let s = show_nat (nat \<bar>x\<bar>) in (if x < 0 then ''e-'' else ''e+'') @ (if length s < 2 then ''0'' @ s else s))"

text \<open>The six digits \<open>ds\<close> with the exponent \<open>x\<close> of the first one, as \<open>%g\<close> writes them.\<close>

definition layout_g :: "string \<Rightarrow> int \<Rightarrow> string" where
  "layout_g ds x =
    (if 0 \<le> x \<and> x < 6 then with_point (take (nat x + 1) ds) (strip_zeros (drop (nat x + 1) ds))
     else if - 4 \<le> x \<and> x < 0 then with_point ''0'' (replicate (nat (- x) - 1) (CHR ''0'') @ strip_zeros ds)
     else with_point (take 1 ds) (strip_zeros (drop 1 ds)) @ show_exponent x)"

fun show_g :: "fval \<Rightarrow> string" where
  "show_g FNaN = ''nan''"
| "show_g (FInf s) = (if s then ''-inf'' else ''inf'')"
| "show_g (FFin s m e) =
    (if s then ''-'' else []) @
    (if m = 0 then ''0''
     else let (a, b) = f_scale m 1 (- e); x = dec_exponent a b;
              n = (if x \<le> 5 then round_even (a * 10 ^ nat (5 - x)) b else round_even a (b * 10 ^ nat (x - 5)))
          in if n = 1000000 then layout_g (show_nat 100000) (x + 1) else layout_g (show_nat n) x)"

text \<open>With \<open>std::fixed\<close> and a precision of four digits.\<close>

definition pad4 :: "nat \<Rightarrow> string" where
  "pad4 n = (let s = show_nat n in replicate (4 - length s) (CHR ''0'') @ s)"

fun show_fixed4 :: "fval \<Rightarrow> string" where
  "show_fixed4 FNaN = ''nan''"
| "show_fixed4 (FInf s) = (if s then ''-inf'' else ''inf'')"
| "show_fixed4 (FFin s m e) =
    (let (a, b) = f_scale (m * 10000) 1 (- e); v = round_even a b
     in (if s then ''-'' else []) @ show_nat (v div 10000) @ ''.'' @ pad4 (v mod 10000))"

definition show_coord :: "bool \<Rightarrow> f32 \<Rightarrow> string" where
  "show_coord fixedPrecision x = (if fixedPrecision then show_fixed4 (f32_dec x) else show_g (f32_dec x))"

section \<open>Reading numbers\<close>

text \<open>
  \<open>operator>>\<close> of a stream for a \<open>float\<close>: white space is skipped, digits with an optional point and exponent
  are taken, and the value is rounded. No digits, an exponent without digits and a number that is
  too large set the fail bit.
\<close>

definition dec_value :: "nat \<Rightarrow> int \<Rightarrow> nat \<times> nat" where
  "dec_value n x = (if 0 \<le> x then (n * 10 ^ nat x, 1) else (n, 10 ^ nat (- x)))"

definition float_of_digits :: "bool \<Rightarrow> string \<Rightarrow> string \<Rightarrow> int \<Rightarrow> f32 option" where
  "float_of_digits neg ip fp x =
    (let (a, b) = dec_value (read_nat (ip @ fp)) (x - int (length fp)); v = f_round 24 8 neg a b
     in if ip @ fp = [] \<or> v mod 2 ^ 31 = f_inf 24 8 then None else Some (of_nat v))"

definition split_fraction :: "string \<Rightarrow> string \<times> string" where
  "split_fraction t =
    (case t of [] \<Rightarrow> ([], []) | c # cs \<Rightarrow>
      if c = CHR ''.'' then (takeWhile is_digit cs, dropWhile is_digit cs) else ([], t))"

definition extract_float :: "string \<Rightarrow> (f32 \<times> string) option" where
  "extract_float s =
    (let (neg, t1) = split_sign (dropWhile is_space s);
         ip = takeWhile is_digit t1; (fp, t3) = split_fraction (dropWhile is_digit t1)
     in case t3 of
          c # cs \<Rightarrow>
            if (c = CHR ''e'' \<or> c = CHR ''E'') \<and> ip @ fp \<noteq> [] then
              (let (xneg, t4) = split_sign cs; xd = takeWhile is_digit t4;
                   x = (if xneg then - int (read_nat xd) else int (read_nat xd))
               in if xd = [] then None
                  else map_option (\<lambda>v. (v, dropWhile is_digit t4)) (float_of_digits neg ip fp x))
            else map_option (\<lambda>v. (v, t3)) (float_of_digits neg ip fp 0)
        | [] \<Rightarrow> map_option (\<lambda>v. (v, [])) (float_of_digits neg ip fp 0))"

definition read_coords :: "string \<Rightarrow> Point option" where
  "read_coords s =
    (case extract_float s of None \<Rightarrow> None
     | Some (lat, r) \<Rightarrow> (case extract_float r of None \<Rightarrow> None | Some (lon, _) \<Rightarrow> Some (lat, lon)))"

section \<open>Points\<close>

definition FromLatLon :: "f32 \<Rightarrow> f32 \<Rightarrow> Point" where
  "FromLatLon latitude longitude = (latitude, longitude)"

definition FromGPUPoint :: "f32 \<times> f32 \<Rightarrow> Point" where
  "FromGPUPoint p = FromLatLon (fst p) (snd p)"

definition WktFromPoint :: "Point \<Rightarrow> bool \<Rightarrow> string" where
  "WktFromPoint p fixedPrecision =
    ''POINT('' @ show_coord fixedPrecision (fst p) @ '' '' @ show_coord fixedPrecision (snd p) @ '')''"

text \<open>A closing bracket in front of the opening one only makes the iterator point before the string.\<close>

definition FromWkt_point :: "string \<Rightarrow> Point result" where
  "FromWkt_point wkt =
    (if CHR ''('' \<notin> set wkt \<or> CHR '')'' \<notin> set wkt then Inl InvalidArgument
     else
       (let t = tl (dropWhile (\<lambda>c. c \<noteq> CHR ''('') wkt) in
        if CHR '')'' \<notin> set t then Inl UndefinedBehaviour
        else case read_coords (takeWhile (\<lambda>c. c \<noteq> CHR '')'') t) of
          None \<Rightarrow> Inl InvalidArgument | Some p \<Rightarrow> Inr p))"

section \<open>Regular expressions\<close>

datatype rx = RNone | REps | RDigit | RChar char | RAlt rx rx | RSeq rx rx | RStar rx

primrec rx_empty :: "rx \<Rightarrow> bool" where
  "rx_empty RNone = False"
| "rx_empty REps = True"
| "rx_empty RDigit = False"
| "rx_empty (RChar d) = False"
| "rx_empty (RAlt r q) = (rx_empty r \<or> rx_empty q)"
| "rx_empty (RSeq r q) = (rx_empty r \<and> rx_empty q)"
| "rx_empty (RStar r) = True"

primrec rx_step :: "char \<Rightarrow> rx \<Rightarrow> rx" where
  "rx_step c RNone = RNone"
| "rx_step c REps = RNone"
| "rx_step c RDigit = (if is_digit c then REps else RNone)"
| "rx_step c (RChar d) = (if d = c then REps else RNone)"
| "rx_step c (RAlt r q) = RAlt (rx_step c r) (rx_step c q)"
| "rx_step c (RSeq r q) =
    RAlt (RSeq (rx_step c r) q) (if rx_empty r then rx_step c q else RNone)"
| "rx_step c (RStar r) = RSeq (rx_step c r) (RStar r)"

definition regex_match :: "rx \<Rightarrow> string \<Rightarrow> bool" where
  "regex_match r s = rx_empty (fold rx_step s r)"

definition rx_opt :: "rx \<Rightarrow> rx" where
  "rx_opt r = RAlt r REps"

definition rx_plus :: "rx \<Rightarrow> rx" where
  "rx_plus r = RSeq r (RStar r)"

text \<open>\<^verbatim>\<open>((-?[0-9]+(\.[0-9]+)?) (-?[0-9]+(\.[0-9]+)?)(, ?)?)+\<close>\<close>

definition rx_number :: rx where
  "rx_number = RSeq (rx_opt (RChar CHR ''-'')) (RSeq (rx_plus RDigit) (rx_opt (RSeq (RChar CHR ''.'') (rx_plus RDigit))))"

definition wktRegex :: rx where
  "wktRegex = rx_plus (RSeq rx_number (RSeq (RChar CHR '' '') (RSeq rx_number
    (rx_opt (RSeq (RChar CHR '','') (rx_opt (RChar CHR '' '')))))))"

section \<open>Polygons\<close>

fun find_sub :: "string \<Rightarrow> string \<Rightarrow> nat option" where
  "find_sub p [] = (if p = [] then Some 0 else None)"
| "find_sub p (c # s) = (if take (length p) (c # s) = p then Some 0 else map_option Suc (find_sub p s))"

lemma find_sub_le: "find_sub p s = Some i \<Longrightarrow> i + length p \<le> length s"
proof (induction p s arbitrary: i rule: find_sub.induct)
  case (2 p c s)
  show ?case
  proof (cases "take (length p) (c # s) = p")
    case True
    then have "length p \<le> length (c # s)" by (metis length_take min.cobounded1 min.absorb_iff2 min.commute)
    with True 2(2) show ?thesis by simp
  qed (use 2 in auto)
qed (auto split: if_splits)

text \<open>Spaces behind commas are erased, one at a time.\<close>

function erase_comma_space :: "string \<Rightarrow> string" where
  "erase_comma_space s =
    (case find_sub '', '' s of None \<Rightarrow> s | Some i \<Rightarrow> erase_comma_space (take (i + 1) s @ drop (i + 2) s))"
  by pat_completeness auto
termination
  by (relation "measure length") (auto dest: find_sub_le)

declare erase_comma_space.simps [simp del]

function split_by :: "string \<Rightarrow> string \<Rightarrow> string list" where
  "split_by p s =
    (case find_sub p s of None \<Rightarrow> [s]
     | Some i \<Rightarrow> if p = [] then [s] else take i s # split_by p (drop (i + length p) s))"
  by pat_completeness auto
termination
  by (relation "measure (\<lambda>(p, s). length s)") (auto simp: neq_Nil_conv dest!: find_sub_le)

declare split_by.simps [simp del]

definition erase_sub :: "string \<Rightarrow> string \<Rightarrow> string" where
  "erase_sub p s = (case find_sub p s of None \<Rightarrow> s | Some i \<Rightarrow> take i s @ drop (i + length p) s)"

definition erase_tail :: "string \<Rightarrow> string \<Rightarrow> string" where
  "erase_tail p s = (case find_sub p s of None \<Rightarrow> s | Some i \<Rightarrow> take i s)"

definition MAX_POLYGONS_NUMBER :: nat where
  "MAX_POLYGONS_NUMBER = 8"

definition read_point :: "string \<Rightarrow> Point result" where
  "read_point s =
    (if count_list s (CHR '' '') + 1 \<noteq> 2 then Inl InvalidArgument
     else case read_coords s of None \<Rightarrow> Inl InvalidArgument | Some p \<Rightarrow> Inr p)"

definition read_polygon :: "string \<Rightarrow> Point list result" where
  "read_polygon s =
    (if CHR '')'' \<in> set s \<or> CHR ''('' \<in> set s then Inl InvalidArgument
     else if \<not> regex_match wktRegex s then Inl InvalidArgument
     else if length (split_by '','' s) < 2 then Inl InvalidArgument
     else bindR (traverseR read_point (split_by '','' s)) (\<lambda>ps.
       if f32_ge_tol (f32_abs (f32_sub (fst (hd ps)) (fst (last ps)))) \<or>
          f32_ge_tol (f32_abs (f32_sub (snd (hd ps)) (snd (last ps))))
       then Inl InvalidArgument else Inr ps))"

definition polygon_parts :: "string \<Rightarrow> string list" where
  "polygon_parts wkt =
    (let ps = split_by ''),('' (erase_comma_space wkt);
         ps1 = ps[0 := erase_sub ''POLYGON (('' (erase_sub ''POLYGON(('' (hd ps))]
     in ps1[length ps1 - 1 := erase_tail ''))'' (last ps1)])"

definition FromWkt_polygon :: "string \<Rightarrow> ComplexPolygon result" where
  "FromWkt_polygon wkt =
    (if MAX_POLYGONS_NUMBER < length (polygon_parts wkt) then Inl InvalidArgument
     else traverseR read_polygon (polygon_parts wkt))"

fun join_with :: "string \<Rightarrow> string list \<Rightarrow> string" where
  "join_with p [] = []"
| "join_with p [s] = s"
| "join_with p (s # t # ss) = s @ p @ join_with p (t # ss)"

definition show_ring :: "bool \<Rightarrow> Point list \<Rightarrow> string" where
  "show_ring fixedPrecision ps =
    ''('' @ join_with '', '' (map (\<lambda>p. show_coord fixedPrecision (fst p) @ '' '' @ show_coord fixedPrecision (snd p)) ps) @ '')''"

definition WktFromPolygon :: "ComplexPolygon \<Rightarrow> bool \<Rightarrow> string" where
  "WktFromPolygon p fixedPrecision = ''POLYGON('' @ join_with '', '' (map (show_ring fixedPrecision) p) @ '')''"

definition POLYGON_DEFAULT_VALUE :: string where
  "POLYGON_DEFAULT_VALUE = ''POLYGON((0 0, 1 1, 2 2, 0 0))''"

section \<open>Polygons for the GPU\<close>

record gpu_polygon =
  polyPoints :: "(f32 \<times> f32) list"
  pointIdx :: "int list"
  polyIdx :: "int list"

text \<open>The last point of a ring repeats the first and is left out. The entries of the index arrays are ends.\<close>

definition add_ring :: "Point list \<Rightarrow> gpu_polygon \<Rightarrow> gpu_polygon" where
  "add_ring ring g =
    (let pts = polyPoints g @ butlast ring
     in g\<lparr>polyPoints := pts, pointIdx := pointIdx g @ [to_int32 (int (length pts))]\<rparr>)"

definition add_polygon :: "ComplexPolygon \<Rightarrow> gpu_polygon \<Rightarrow> gpu_polygon" where
  "add_polygon p g =
    (let g' = fold add_ring p g in g'\<lparr>polyIdx := polyIdx g' @ [to_int32 (int (length (pointIdx g')))]\<rparr>)"

definition PrepareGPUPolygon :: "ComplexPolygon list \<Rightarrow> gpu_polygon" where
  "PrepareGPUPolygon ps = fold add_polygon ps \<lparr>polyPoints = [], pointIdx = [], polyIdx = []\<rparr>"

end
