(* ===== verification/Geo_Correct.thy ===== *)
theory Geo_Correct
  imports Geo_Text
begin

text \<open>
  Well-known text: the matcher accepts the language of its expression, and a polygon is read back from
  its text when its coordinates are printed as plain decimal numbers that read back. The arrays for the
  GPU determine the polygons.
\<close>

section \<open>The language of a regular expression\<close>

inductive rx_in :: "rx \<Rightarrow> string \<Rightarrow> bool" where
  eps: "rx_in REps []"
| digit: "is_digit c \<Longrightarrow> rx_in RDigit [c]"
| char: "rx_in (RChar c) [c]"
| altl: "rx_in r s \<Longrightarrow> rx_in (RAlt r q) s"
| altr: "rx_in q s \<Longrightarrow> rx_in (RAlt r q) s"
| seq: "rx_in r s \<Longrightarrow> rx_in q t \<Longrightarrow> rx_in (RSeq r q) (s @ t)"
| star_nil: "rx_in (RStar r) []"
| star_cons: "rx_in r s \<Longrightarrow> rx_in (RStar r) t \<Longrightarrow> rx_in (RStar r) (s @ t)"

inductive_simps rx_in_simps [simp]:
  "rx_in RNone s" "rx_in REps s" "rx_in RDigit s" "rx_in (RChar c) s" "rx_in (RAlt r q) s"

inductive_simps rx_in_seq: "rx_in (RSeq r q) s"

lemma rx_empty_iff: "rx_empty r \<longleftrightarrow> rx_in r []"
  by (induction r) (auto simp: rx_in_seq intro: star_nil)

lemma star_Cons:
  assumes "rx_in (RStar r) (c # s)"
  shows "\<exists>t u. s = t @ u \<and> rx_in r (c # t) \<and> rx_in (RStar r) u"
  using assms
proof (induction "RStar r" "c # s" arbitrary: s rule: rx_in.induct)
  case (star_cons s' t)
  then show ?case by (cases s') auto
qed

lemma rx_step_iff: "rx_in (rx_step c r) s \<longleftrightarrow> rx_in r (c # s)"
proof (induction r arbitrary: s)
  case (RSeq r q)
  have "rx_in (rx_step c (RSeq r q)) s \<longleftrightarrow> (\<exists>t u. s = t @ u \<and> rx_in r (c # t) \<and> rx_in q u) \<or> rx_in r [] \<and> rx_in q (c # s)"
    using RSeq by (auto simp: rx_in_seq rx_empty_iff)
  also have "\<dots> \<longleftrightarrow> rx_in (RSeq r q) (c # s)"
    by (auto simp: rx_in_seq Cons_eq_append_conv)
  finally show ?case .
next
  case (RStar r)
  show ?case
    using RStar star_Cons [of r c s] star_cons [of r "c # _" _] by (auto simp: rx_in_seq)
qed auto

lemma regex_match_iff: "regex_match r s \<longleftrightarrow> rx_in r s"
  unfolding regex_match_def
  by (induction s arbitrary: r) (simp_all add: rx_empty_iff rx_step_iff)

lemma rx_opt_nil: "rx_in (rx_opt r) []"
  by (simp add: rx_opt_def)

lemma rx_opt_some: "rx_in r s \<Longrightarrow> rx_in (rx_opt r) s"
  by (simp add: rx_opt_def)

lemma rx_plus_Cons: "rx_in r s \<Longrightarrow> rx_in (RStar r) t \<Longrightarrow> rx_in (rx_plus r) (s @ t)"
  by (auto simp: rx_plus_def intro: seq)

lemma rx_digits: "list_all is_digit ds \<Longrightarrow> rx_in (RStar RDigit) ds"
proof (induction ds)
  case (Cons d ds)
  then show ?case using star_cons [of RDigit "[d]" ds] by simp
qed (simp add: star_nil)

section \<open>Plain numbers\<close>

definition number_text :: "bool \<Rightarrow> string \<Rightarrow> string \<Rightarrow> string" where
  "number_text neg ip fp = (if neg then ''-'' else []) @ ip @ (if fp = [] then [] else ''.'' @ fp)"

text \<open>A coordinate that is printed as a decimal number without an exponent and is read back as itself.\<close>

definition plain :: "f32 \<Rightarrow> bool" where
  "plain x \<longleftrightarrow> (\<exists>neg ip fp. show_coord False x = number_text neg ip fp \<and> ip \<noteq> [] \<and> list_all is_digit ip \<and>
    list_all is_digit fp \<and> float_of_digits neg ip fp 0 = Some x)"

lemma number_text_regex:
  assumes "ip \<noteq> []" and "list_all is_digit ip" and "list_all is_digit fp"
  shows "rx_in rx_number (number_text neg ip fp)"
proof -
  have plus: "rx_in (rx_plus RDigit) ds" if "ds \<noteq> []" "list_all is_digit ds" for ds
    using that rx_plus_Cons [of RDigit "[hd ds]" "tl ds"] rx_digits [of "tl ds"] by (cases ds) simp_all
  have "rx_in (rx_opt (RChar CHR ''-'')) (if neg then ''-'' else [])" by (simp add: rx_opt_def)
  moreover have "rx_in (rx_opt (RSeq (RChar CHR ''.'') (rx_plus RDigit))) (if fp = [] then [] else ''.'' @ fp)"
    using seq [of "RChar CHR ''.''" "''.''" "rx_plus RDigit" fp] plus [of fp] assms(3) by (auto simp: rx_opt_def)
  ultimately show ?thesis
    unfolding rx_number_def number_text_def using plus [OF assms(1,2)] by (intro seq)
qed

lemma number_text_chars:
  assumes "list_all is_digit ip" and "list_all is_digit fp" and "c \<in> set (number_text neg ip fp)"
  shows "is_digit c \<or> c = CHR ''-'' \<or> c = CHR ''.''"
  using assms by (auto simp: number_text_def list_all_iff split: if_splits)

lemma takeWhile_digits: "list_all is_digit ds \<Longrightarrow> r = [] \<or> \<not> is_digit (hd r) \<Longrightarrow>
    takeWhile is_digit (ds @ r) = ds \<and> dropWhile is_digit (ds @ r) = r"
  by (induction ds) (auto simp: neq_Nil_conv takeWhile_eq_Nil_iff dropWhile_eq_self_iff)

lemma extract_number:
  assumes "ip \<noteq> []" and "list_all is_digit ip" and "list_all is_digit fp" and "r = [] \<or> hd r = CHR '' ''"
  shows "extract_float (number_text neg ip fp @ r) = map_option (\<lambda>v. (v, r)) (float_of_digits neg ip fp 0)"
proof -
  define f where "f = (if fp = [] then [] else ''.'' @ fp)"
  have nd: "\<not> is_digit CHR '' ''" "\<not> is_digit CHR ''.''" by (simp_all add: is_digit_def)
  then have "f @ r = [] \<or> \<not> is_digit (hd (f @ r))" using assms(4) by (cases r) (auto simp: f_def)
  then have ip: "takeWhile is_digit (ip @ f @ r) = ip" "dropWhile is_digit (ip @ f @ r) = f @ r"
    using takeWhile_digits [OF assms(2)] by blast+
  have "r = [] \<or> \<not> is_digit (hd r)" using assms(4) nd by auto
  then have fr: "split_fraction (f @ r) = (fp, r)"
    using takeWhile_digits [OF assms(3), of r] assms(4) by (cases r) (auto simp: split_fraction_def f_def)
  have d: "is_digit (hd ip)" using assms(1,2) by (cases ip) auto
  have t: "number_text neg ip fp @ r = (if neg then ''-'' else []) @ ip @ f @ r" by (simp add: number_text_def f_def)
  have "dropWhile is_space (number_text neg ip fp @ r) = number_text neg ip fp @ r"
    using assms(1) digit_not_special [OF d] unfolding t by (cases ip) (auto simp: is_space_def)
  moreover have "split_sign (number_text neg ip fp @ r) = (neg, ip @ f @ r)"
    using assms(1) digit_not_special [OF d] unfolding t by (cases ip) (auto simp: split_sign_def)
  moreover obtain u where u: "u = ip @ f @ r" by simp
  ultimately show ?thesis
    using assms(4) ip fr unfolding u [symmetric]
    by (cases r) (simp_all add: extract_float_def Let_def)
qed

section \<open>Searching and splitting\<close>

lemma find_sub_skip: "c \<notin> set u \<Longrightarrow> find_sub (c # q) (u @ s) = map_option ((+) (length u)) (find_sub (c # q) s)"
proof (induction u)
  case Nil
  then show ?case by (cases "find_sub (c # q) s") simp_all
next
  case (Cons a u)
  then show ?case by (cases "find_sub (c # q) s") auto
qed

lemma find_sub_here: "find_sub p (p @ s) = Some 0"
proof (cases "p @ s")
  case (Cons a t)
  then have "take (length p) (a # t) = p" by (metis append_eq_conv_conj)
  then show ?thesis by (simp add: Cons)
qed simp

lemma find_sub_absent: "c \<notin> set s \<Longrightarrow> find_sub (c # q) s = None"
  using find_sub_skip [of c s q "[]"] by simp

lemma split_by_last: "find_sub p s = None \<Longrightarrow> split_by p s = [s]"
  by (simp add: split_by.simps)

lemma split_by_step: "c \<notin> set u \<Longrightarrow> split_by (c # q) (u @ (c # q) @ s) = u # split_by (c # q) s"
  using find_sub_skip [of c u q "(c # q) @ s"] find_sub_here [of "c # q" s]
  by (simp add: split_by.simps [of "c # q" "u @ c # q @ s"])

lemma split_by_join:
  assumes "\<forall>x\<in>set xs. c \<notin> set x" and "find_sub (c # q) y = None"
  shows "split_by (c # q) (join_with (c # q) (xs @ [y])) = xs @ [y]"
  using assms(1)
proof (induction xs)
  case Nil
  then show ?case using assms(2) by (simp add: split_by_last)
next
  case (Cons x xs)
  then have "join_with (c # q) ((x # xs) @ [y]) = x @ (c # q) @ join_with (c # q) (xs @ [y])"
    by (cases xs) simp_all
  with Cons show ?case using split_by_step [of c x q] by simp
qed

text \<open>Erasing the spaces behind commas in one pass.\<close>

fun strip_spaces :: "bool \<Rightarrow> string \<Rightarrow> string" where
  "strip_spaces b [] = []"
| "strip_spaces b (c # s) = (if b \<and> c = CHR '' '' then strip_spaces b s else c # strip_spaces (c = CHR '','') s)"

lemma strip_spaces_erase:
  "strip_spaces b (u @ CHR '','' # CHR '' '' # v) = strip_spaces b (u @ CHR '','' # v)"
  by (induction u arbitrary: b) simp_all

lemma find_sub_split: "find_sub p s = Some i \<Longrightarrow> s = take i s @ p @ drop (i + length p) s"
proof (induction p s arbitrary: i rule: find_sub.induct)
  case (2 p c s)
  show ?case
  proof (cases "take (length p) (c # s) = p")
    case True
    then have "i = 0" using 2(2) by simp
    then show ?thesis using True by (metis append_Nil append_take_drop_id add_0 take_0)
  qed (use 2 in auto)
qed (auto split: if_splits)

lemma strip_spaces_clean:
  "find_sub '', '' s = None \<Longrightarrow> b \<longrightarrow> s = [] \<or> hd s \<noteq> CHR '' '' \<Longrightarrow> strip_spaces b s = s"
proof (induction b s rule: strip_spaces.induct)
  case (2 b c s)
  have "find_sub '', '' s = None" using 2(3) by (auto split: if_splits)
  moreover have "c = CHR '','' \<longrightarrow> s = [] \<or> hd s \<noteq> CHR '' ''" using 2(3) by (cases s) (auto split: if_splits)
  ultimately show ?case using 2 by auto
qed simp

lemma erase_comma_space_eq: "erase_comma_space s = strip_spaces False s"
proof (induction s rule: erase_comma_space.induct)
  case (1 s)
  show ?case
  proof (cases "find_sub '', '' s")
    case None
    then show ?thesis using strip_spaces_clean [of s False] by (simp add: erase_comma_space.simps [of s])
  next
    case (Some i)
    define u where "u = take i s"
    define v where "v = drop (i + 2) s"
    have s: "s = u @ CHR '','' # CHR '' '' # v" using find_sub_split [OF Some] by (simp add: u_def v_def)
    have "length u = i" using find_sub_le [OF Some] by (simp add: u_def)
    then have "take (i + 1) s = u @ '',''" by (simp add: s)
    then have "erase_comma_space s = strip_spaces False (u @ CHR '','' # v)"
      using 1 [OF Some] Some by (simp add: erase_comma_space.simps [of s] v_def)
    then show ?thesis using strip_spaces_erase [of False u v] s by simp
  qed
qed

definition chunk :: "string \<Rightarrow> bool" where
  "chunk s \<longleftrightarrow> s \<noteq> [] \<and> hd s \<noteq> CHR '' '' \<and> CHR '','' \<notin> set s"

lemma strip_chunk_False: "CHR '','' \<notin> set s \<Longrightarrow> strip_spaces False (s @ t) = s @ strip_spaces False t"
  by (induction s) auto

lemma strip_chunk: "chunk s \<Longrightarrow> strip_spaces b (s @ t) = s @ strip_spaces False t"
  by (cases s) (auto simp: chunk_def strip_chunk_False)

definition strips :: "string \<Rightarrow> string \<Rightarrow> bool" where
  "strips x y \<longleftrightarrow> (\<forall>b t. strip_spaces b (x @ t) = y @ strip_spaces False t)"

lemma strips_chunk: "chunk s \<Longrightarrow> strips s s"
  by (simp add: strips_def strip_chunk)

lemma strips_append: "strips x y \<Longrightarrow> strips x' y' \<Longrightarrow> strips (x @ x') (y @ y')"
  by (simp add: strips_def)

lemma strips_join: "xs \<noteq> [] \<Longrightarrow> \<forall>x\<in>set xs. strips (f x) (g x) \<Longrightarrow> strips (join_with '', '' (map f xs)) (join_with '','' (map g xs))"
proof (induction xs rule: induct_list012)
  case (3 x y xs)
  have "strips (f x) (g x)" "strips (join_with '', '' (map f (y # xs))) (join_with '','' (map g (y # xs)))"
    using 3 by simp_all
  then show ?case by (simp add: strips_def)
qed simp_all

lemma erase_strips: "strips x y \<Longrightarrow> erase_comma_space x = y"
proof -
  assume "strips x y"
  then have "strip_spaces False (x @ []) = y @ strip_spaces False []" unfolding strips_def by blast
  then show "erase_comma_space x = y" by (simp add: erase_comma_space_eq)
qed

section \<open>The text of a polygon\<close>

text \<open>What a printed number consists of, exponents and special values included.\<close>

definition word_char :: "char \<Rightarrow> bool" where
  "word_char c \<longleftrightarrow> is_digit c \<or> c \<in> set ''-+.einaf''"

lemma word_char_not: "\<not> word_char CHR '' ''" "\<not> word_char CHR '',''" "\<not> word_char CHR ''(''" "\<not> word_char CHR '')''"
    "\<not> word_char CHR ''P''"
  by (simp_all add: word_char_def is_digit_def)

lemma word_digits [simp]: "list_all word_char (show_nat n)" "word_char CHR ''0''"
  using show_nat_digits by (auto simp: list_all_iff word_char_def is_digit_def)

lemma word_strip [simp]: "list_all word_char s \<Longrightarrow> list_all word_char (strip_zeros s)"
  by (auto simp: strip_zeros_def list_all_iff dest: set_dropWhileD)

lemma word_take [simp]: "list_all word_char s \<Longrightarrow> list_all word_char (take n s)"
    "list_all word_char s \<Longrightarrow> list_all word_char (drop n s)"
  by (auto simp: list_all_iff dest: in_set_takeD in_set_dropD)

lemma word_replicate [simp]: "list_all word_char (replicate n CHR ''0'')"
  by (simp add: list_all_iff)

lemma word_point [simp]: "list_all word_char s \<Longrightarrow> list_all word_char t \<Longrightarrow> list_all word_char (with_point s t)"
  by (simp add: with_point_def word_char_def)

lemma word_exponent [simp]: "list_all word_char (show_exponent x)"
  by (simp add: show_exponent_def Let_def) (simp add: word_char_def)

lemma word_layout: "list_all word_char s \<Longrightarrow> list_all word_char (layout_g s x)"
  by (simp add: layout_g_def)

lemma layout_nonempty: "s \<noteq> [] \<Longrightarrow> layout_g s x \<noteq> []"
  by (simp add: layout_g_def with_point_def)

lemma show_g_word: "list_all word_char (show_g v) \<and> show_g v \<noteq> []"
proof (cases v)
  case (FFin sg m e)
  have "list_all word_char (layout_g (show_nat n) x)" "layout_g (show_nat n) x \<noteq> []" for n x
    by (simp_all add: word_layout layout_nonempty)
  then show ?thesis by (simp add: FFin Let_def split: prod.split) (simp add: word_char_def)
qed (auto simp: word_char_def)

lemma show_coord_word: "list_all word_char (show_coord False x)" "show_coord False x \<noteq> []"
  using show_g_word [of "f32_dec x"] by (simp_all add: show_coord_def)

definition point_text :: "Point \<Rightarrow> string" where
  "point_text p = show_coord False (fst p) @ '' '' @ show_coord False (snd p)"

definition plain_point :: "Point \<Rightarrow> bool" where
  "plain_point p \<longleftrightarrow> plain (fst p) \<and> plain (snd p)"

definition coord_char :: "char \<Rightarrow> bool" where
  "coord_char c \<longleftrightarrow> is_digit c \<or> c = CHR ''-'' \<or> c = CHR ''.''"

lemma plain_text:
  assumes "plain x"
  shows "show_coord False x \<noteq> []" and "list_all coord_char (show_coord False x)" and "rx_in rx_number (show_coord False x)"
    and "r = [] \<or> hd r = CHR '' '' \<Longrightarrow> extract_float (show_coord False x @ r) = Some (x, r)"
proof -
  from assms obtain neg ip fp where t: "show_coord False x = number_text neg ip fp"
    and ip: "ip \<noteq> []" "list_all is_digit ip" "list_all is_digit fp" and v: "float_of_digits neg ip fp 0 = Some x"
    by (auto simp: plain_def)
  show "show_coord False x \<noteq> []" using ip(1) by (simp add: t number_text_def)
  show "list_all coord_char (show_coord False x)"
    using number_text_chars [OF ip(2,3)] by (auto simp: list_all_iff t coord_char_def)
  show "rx_in rx_number (show_coord False x)" unfolding t by (rule number_text_regex [OF ip])
  show "extract_float (show_coord False x @ r) = Some (x, r)" if "r = [] \<or> hd r = CHR '' ''"
    unfolding t using extract_number [OF ip that] v by simp
qed

lemma extract_skip_space: "extract_float (CHR '' '' # s) = extract_float s"
  by (simp add: extract_float_def is_space_def)

lemma coord_char_word: "coord_char c \<Longrightarrow> word_char c"
  by (auto simp: coord_char_def word_char_def)

lemma point_text_chars: "c \<in> set (point_text p) \<Longrightarrow> word_char c \<or> c = CHR '' ''"
  using show_coord_word(1) [of "fst p"] show_coord_word(1) [of "snd p"] by (auto simp: point_text_def list_all_iff)

lemma point_text_chunk: "chunk (point_text p)"
proof -
  have "hd (point_text p) \<noteq> CHR '' ''" "point_text p \<noteq> []"
    using show_coord_word [of "fst p"] word_char_not(1) by (auto simp: point_text_def neq_Nil_conv)
  then show ?thesis using point_text_chars [of "CHR '',''" p] word_char_not by (auto simp: chunk_def)
qed

lemma count_none: "list_all word_char s \<Longrightarrow> count_list s (CHR '' '') = 0"
  using word_char_not(1) by (auto simp: list_all_iff count_list_0_iff)

lemma read_point_text:
  assumes "plain_point p"
  shows "read_point (point_text p) = Inr p"
proof -
  have pl: "plain (fst p)" "plain (snd p)" using assms by (simp_all add: plain_point_def)
  have "count_list (point_text p) (CHR '' '') = 1"
    using count_none [OF show_coord_word(1)] by (simp add: point_text_def)
  moreover have "read_coords (point_text p) = Some p"
    using plain_text(4) [OF pl(1), of "CHR '' '' # show_coord False (snd p)"] plain_text(4) [OF pl(2), of "[]"]
    by (simp add: read_coords_def point_text_def extract_skip_space)
  ultimately show ?thesis by (simp add: read_point_def)
qed

definition rx_item :: rx where
  "rx_item = RSeq rx_number (RSeq (RChar CHR '' '') (RSeq rx_number
    (rx_opt (RSeq (RChar CHR '','') (rx_opt (RChar CHR '' ''))))))"

lemma rx_item_text:
  assumes "plain_point p" and "t = [] \<or> t = '',''"
  shows "rx_in rx_item (point_text p @ t)"
proof -
  have n: "rx_in rx_number (show_coord False (fst p))" "rx_in rx_number (show_coord False (snd p))"
    using assms(1) plain_text(3) by (simp_all add: plain_point_def)
  have "rx_in (rx_opt (RSeq (RChar CHR '','') (rx_opt (RChar CHR '' '')))) t"
    using assms(2) seq [OF char [of "CHR '',''"] rx_opt_nil [of "RChar CHR '' ''"]] rx_opt_nil rx_opt_some by auto
  from seq [OF n(1) seq [OF char seq [OF n(2) this]]] show ?thesis by (simp add: rx_item_def point_text_def)
qed

lemma points_star: "\<forall>p\<in>set ps. plain_point p \<Longrightarrow> rx_in (RStar rx_item) (join_with '','' (map point_text ps))"
proof (induction ps rule: induct_list012)
  case (2 p)
  then show ?case using star_cons [OF rx_item_text [of p "[]"] star_nil] by simp
next
  case (3 p q ps)
  then have "rx_in rx_item (point_text p @ '','')" "rx_in (RStar rx_item) (join_with '','' (map point_text (q # ps)))"
    using rx_item_text [of p "'',''"] by simp_all
  from star_cons [OF this] show ?case by simp
qed (simp add: star_nil)

lemma points_regex:
  assumes "ps \<noteq> []" and "\<forall>p\<in>set ps. plain_point p"
  shows "rx_in wktRegex (join_with '','' (map point_text ps))"
proof -
  obtain p qs where ps: "ps = p # qs" using assms(1) by (cases ps) auto
  have "rx_in (rx_plus rx_item) ((point_text p @ (if qs = [] then [] else '','')) @ join_with '','' (map point_text qs))"
    using assms(2) by (intro rx_plus_Cons rx_item_text points_star) (simp_all add: ps)
  moreover have "(point_text p @ (if qs = [] then [] else '','')) @ join_with '','' (map point_text qs) = join_with '','' (map point_text ps)"
    by (cases qs) (simp_all add: ps)
  ultimately show ?thesis by (simp only: wktRegex_def rx_item_def)
qed

section \<open>Reading a polygon\<close>

text \<open>A number is never further than the tolerance from itself, and the test is false for NaN.\<close>

lemma same_within_tolerance: "\<not> f32_ge_tol (f32_abs (f32_sub x x))"
proof (cases "f32_dec x")
  case (FFin sg m e)
  then have "f32_sub x x = 0"
    by (simp add: f32_sub_def f_signed_def f32_enc_def f_scale_def f_round_def f_sign_def)
  then show ?thesis
    by (simp add: f32_abs_def f32_ge_tol_def f32_less_def f_less_def f_isnan_def f_key_def f_inf_def f_signed_def)
next
  case (FInf sg)
  then show ?thesis
    by (cases sg) (simp_all add: f32_sub_def f32_enc_def f_nan_def f_inf_def f32_abs_def f32_ge_tol_def f32_isnan_def f_isnan_def)
qed (simp add: f32_sub_def f32_enc_def f_nan_def f_inf_def f32_abs_def f32_ge_tol_def f32_isnan_def f_isnan_def)

definition ring :: "Point list \<Rightarrow> bool" where
  "ring ps \<longleftrightarrow> 2 \<le> length ps \<and> hd ps = last ps \<and> (\<forall>p\<in>set ps. plain_point p)"

definition ring_text :: "Point list \<Rightarrow> string" where
  "ring_text ps = join_with '','' (map point_text ps)"

lemma set_join: "set (join_with p xs) \<subseteq> set p \<union> \<Union> (set ` set xs)"
  by (induction p xs rule: join_with.induct) auto

lemma ring_text_chars: "c \<in> set (ring_text ps) \<Longrightarrow> word_char c \<or> c = CHR '' '' \<or> c = CHR '',''"
proof -
  assume "c \<in> set (ring_text ps)"
  with set_join [of "'',''" "map point_text ps"]
  have "c = CHR '','' \<or> (\<exists>p\<in>set ps. c \<in> set (point_text p))" by (auto simp: ring_text_def)
  then show ?thesis using point_text_chars [of c] by blast
qed

lemma ring_text_no: "c \<in> {CHR ''('', CHR '')'', CHR ''P''} \<Longrightarrow> c \<notin> set (ring_text ps)"
  using ring_text_chars [of c ps] word_char_not by auto

lemma read_ring:
  assumes "ring ps"
  shows "read_polygon (ring_text ps) = Inr ps"
proof -
  have ps: "ps \<noteq> []" "\<forall>p\<in>set ps. plain_point p" "2 \<le> length ps" "hd ps = last ps"
    using assms by (auto simp: ring_def)
  have comma: "CHR '','' \<notin> set (point_text p)" if "p \<in> set ps" for p
    using point_text_chunk [of p] by (simp add: chunk_def)
  obtain qs q where qs: "ps = qs @ [q]" using ps(1) by (cases ps rule: rev_cases) auto
  have "split_by '','' (ring_text ps) = map point_text ps"
    using split_by_join [of "map point_text qs" "CHR '',''" "[]" "point_text q"] comma
    by (simp add: ring_text_def qs find_sub_absent)
  moreover have "traverseR read_point (map point_text ps) = Inr ps"
    using ps(2) read_point_text by (intro traverse_map) simp
  moreover have "regex_match wktRegex (ring_text ps)"
    using points_regex [OF ps(1,2)] by (simp add: regex_match_iff ring_text_def)
  ultimately show ?thesis
    using ps(3,4) ring_text_no [of _ ps] same_within_tolerance by (simp add: read_polygon_def)
qed

lemma join_brackets:
  "rs \<noteq> [] \<Longrightarrow> join_with '','' (map (\<lambda>r. ''('' @ r @ '')'') rs) = ''('' @ join_with ''),('' rs @ '')''"
  by (induction rs rule: induct_list012) simp_all

lemma join_first: "join_with p ((u @ x) # xs) = u @ join_with p (x # xs)"
  by (cases xs) simp_all

lemma join_last: "join_with p (xs @ [y @ v]) = join_with p (xs @ [y]) @ v"
proof (induction xs)
  case (Cons x xs)
  then show ?case by (cases xs) simp_all
qed simp

lemma erase_first: "CHR ''P'' \<notin> set s \<Longrightarrow> erase_sub ''POLYGON (('' (erase_sub ''POLYGON(('' (''POLYGON(('' @ s)) = s"
  using find_sub_here [of "''POLYGON((''" s] find_sub_absent [of "CHR ''P''" s "''OLYGON ((''"]
  by (simp add: erase_sub_def)

lemma erase_last: "CHR '')'' \<notin> set s \<Longrightarrow> erase_tail ''))'' (s @ ''))'') = s"
  using find_sub_skip [of "CHR '')''" s "'')''" "''))''"] by (simp add: erase_tail_def)

lemma polygon_parts_text:
  assumes "rs \<noteq> []" and "\<forall>r\<in>set rs. CHR '')'' \<notin> set r \<and> CHR ''P'' \<notin> set r"
    and "erase_comma_space wkt = ''POLYGON(('' @ join_with ''),('' rs @ ''))''"
  shows "polygon_parts wkt = rs"
proof -
  have tail: "find_sub ''),('' (s @ ''))'') = None" if "CHR '')'' \<notin> set s" for s
    using find_sub_skip [OF that, of "'',(''" "''))''"] by simp
  show ?thesis
  proof (cases rs)
    case (Cons a xs)
    show ?thesis
    proof (cases xs rule: rev_cases)
      case Nil
      have "split_by ''),('' (''POLYGON(('' @ a @ ''))'') = [''POLYGON(('' @ a @ ''))'']"
        using tail [of "''POLYGON(('' @ a"] assms(2) Cons by (intro split_by_last) simp
      then show ?thesis using assms Cons Nil erase_first [of "a @ ''))''"] erase_last [of a] by (simp add: polygon_parts_def Let_def)
    next
      case (snoc ys y)
      have "erase_comma_space wkt = join_with ''),('' (((''POLYGON(('' @ a) # ys) @ [y @ ''))''])"
        unfolding join_last assms(3) Cons snoc using join_first [of "''),(''" "''POLYGON((''" a "ys @ [y]"] by simp
      moreover have "split_by ''),('' (join_with ''),('' (((''POLYGON(('' @ a) # ys) @ [y @ ''))''])) = ((''POLYGON(('' @ a) # ys) @ [y @ ''))'']"
        using tail [of y] assms(2) by (intro split_by_join) (auto simp: Cons snoc)
      ultimately show ?thesis
        using assms(2) Cons snoc erase_first [of a] erase_last [of y] by (simp add: polygon_parts_def Let_def)
    qed
  qed (use assms(1) in simp)
qed

lemma polygon_parts_wkt:
  assumes "p \<noteq> []" and "\<forall>ps\<in>set p. ps \<noteq> []"
  shows "polygon_parts (WktFromPolygon p False) = map ring_text p"
proof -
  have point: "show_ring False ps = ''('' @ join_with '', '' (map point_text ps) @ '')''" for ps
    by (simp add: show_ring_def point_text_def [abs_def])
  have chunk: "chunk s" if "s \<in> {''('', '')'', ''POLYGON(''}" for s using that by (auto simp: chunk_def)
  have "strips (show_ring False ps) (''('' @ ring_text ps @ '')'')" if "ps \<in> set p" for ps
  proof -
    have "strips (join_with '', '' (map point_text ps)) (ring_text ps)"
      unfolding ring_text_def using strips_chunk point_text_chunk assms(2) that by (intro strips_join) auto
    then show ?thesis unfolding point by (intro strips_append strips_chunk chunk) simp_all
  qed
  then have "strips (join_with '', '' (map (show_ring False) p)) (join_with '','' (map (\<lambda>ps. ''('' @ ring_text ps @ '')'') p))"
    using assms(1) by (intro strips_join) auto
  then have "strips (WktFromPolygon p False) (''POLYGON('' @ join_with '','' (map (\<lambda>ps. ''('' @ ring_text ps @ '')'') p) @ '')'')"
    unfolding WktFromPolygon_def by (intro strips_append strips_chunk chunk) simp_all
  then have "erase_comma_space (WktFromPolygon p False) = ''POLYGON(('' @ join_with ''),('' (map ring_text p) @ ''))''"
    using join_brackets [of "map ring_text p"] assms(1) by (simp add: erase_strips comp_def)
  then show ?thesis using assms(1) ring_text_no by (intro polygon_parts_text) auto
qed

lemma wkt_roundtrip:
  assumes "p \<noteq> []" and "length p \<le> MAX_POLYGONS_NUMBER" and "\<forall>ps\<in>set p. ring ps"
  shows "FromWkt_polygon (WktFromPolygon p False) = Inr p"
proof -
  have "\<forall>ps\<in>set p. ps \<noteq> []" using assms(3) by (auto simp: ring_def)
  then have "polygon_parts (WktFromPolygon p False) = map ring_text p" using assms(1) by (intro polygon_parts_wkt)
  moreover have "traverseR read_polygon (map ring_text p) = Inr p"
    using assms(3) read_ring by (intro traverse_map) simp
  ultimately show ?thesis using assms(2) by (simp add: FromWkt_polygon_def)
qed

text \<open>
  C20. A polygon of one to eight closed rings is read back from its well-known text, when its coordinates
  are printed as plain decimal numbers that are read back as themselves.
\<close>

theorem polygon_text_roundtrip:
  assumes "p \<noteq> []" and "length p \<le> MAX_POLYGONS_NUMBER" and "\<forall>ps\<in>set p. ring ps"
  shows "FromWkt_polygon (WktFromPolygon p False) = Inr p"
  using assms by (rule wkt_roundtrip)

lemma wkt_chars:
  assumes "c \<in> set (WktFromPolygon p False)"
  shows "word_char c \<or> c \<in> set ''POLYGON(), ''"
proof -
  have ring: "c \<in> set (show_ring False ps) \<Longrightarrow> word_char c \<or> c \<in> set ''(), ''" for ps
    using set_join [of "'', ''" "map point_text ps"] point_text_chars [of c]
    by (fastforce simp: show_ring_def point_text_def [abs_def])
  from assms have "c \<in> set ''POLYGON(), '' \<or> (\<exists>ps\<in>set p. c \<in> set (show_ring False ps))"
    using set_join [of "'', ''" "map (show_ring False) p"] by (fastforce simp: WktFromPolygon_def)
  then show ?thesis using ring by fastforce
qed

section \<open>Coordinates with an exponent\<close>

primrec rx_within :: "(char \<Rightarrow> bool) \<Rightarrow> rx \<Rightarrow> bool" where
  "rx_within P RNone \<longleftrightarrow> True"
| "rx_within P REps \<longleftrightarrow> True"
| "rx_within P RDigit \<longleftrightarrow> (\<forall>c. is_digit c \<longrightarrow> P c)"
| "rx_within P (RChar c) \<longleftrightarrow> P c"
| "rx_within P (RAlt r q) \<longleftrightarrow> rx_within P r \<and> rx_within P q"
| "rx_within P (RSeq r q) \<longleftrightarrow> rx_within P r \<and> rx_within P q"
| "rx_within P (RStar r) \<longleftrightarrow> rx_within P r"

lemma rx_within_chars: "rx_in r s \<Longrightarrow> rx_within P r \<Longrightarrow> list_all P s"
  by (induction rule: rx_in.induct) auto

lemma wktRegex_chars: "rx_in wktRegex s \<Longrightarrow> c \<in> set s \<Longrightarrow> coord_char c \<or> c = CHR '' '' \<or> c = CHR '',''"
proof -
  have "rx_within (\<lambda>c. coord_char c \<or> c = CHR '' '' \<or> c = CHR '','') wktRegex"
    by (simp add: wktRegex_def rx_plus_def rx_opt_def rx_number_def coord_char_def)
  then show "rx_in wktRegex s \<Longrightarrow> c \<in> set s \<Longrightarrow> ?thesis" using rx_within_chars by (fastforce simp: list_all_iff)
qed

lemma traverse_error:
  assumes "\<And>x e. f x = Inl e \<Longrightarrow> e = d" and "x \<in> set xs" and "f x = Inl d"
  shows "traverseR f xs = Inl d"
  using assms(2)
proof (induction xs)
  case (Cons y ys)
  then show ?case using assms(1) [of y] assms(3) by (cases "f y") auto
qed simp

lemma read_point_error: "read_point s = Inl e \<Longrightarrow> e = InvalidArgument"
  by (auto simp: read_point_def split: if_splits option.splits)

lemma traverse_only: "(\<And>x e. f x = Inl e \<Longrightarrow> e = d) \<Longrightarrow> traverseR f xs = Inl e \<Longrightarrow> e = d"
proof (induction xs arbitrary: e)
  case (Cons x xs)
  then show ?case by (cases "f x"; cases "traverseR f xs") auto
qed simp

lemma read_polygon_error: "read_polygon s = Inl e \<Longrightarrow> e = InvalidArgument"
proof -
  assume e: "read_polygon s = Inl e"
  show "e = InvalidArgument"
  proof (cases "traverseR read_point (split_by '','' s)")
    case (Inl d)
    then have "d = InvalidArgument" using traverse_only [of read_point InvalidArgument] read_point_error by blast
    then show ?thesis using e Inl by (auto simp: read_polygon_def split: if_splits)
  next
    case (Inr ps)
    then show ?thesis using e by (auto simp: read_polygon_def split: if_splits)
  qed
qed

text \<open>
  C37. A polygon with a coordinate that is not printed as a plain decimal number, as are the numbers
  below \<open>0.0001\<close> and from a million on, is written to text that cannot be read again.
\<close>

theorem polygon_exponent_unreadable:
  assumes "\<forall>ps\<in>set p. ps \<noteq> []" and "ps \<in> set p" and "(x, y) \<in> set ps"
    and "\<not> list_all coord_char (show_coord False x) \<or> \<not> list_all coord_char (show_coord False y)"
  shows "FromWkt_polygon (WktFromPolygon p False) = Inl InvalidArgument"
proof -
  obtain c where c: "c \<in> set (point_text (x, y))" "\<not> coord_char c" "word_char c"
    using assms(4) show_coord_word(1) [of x] show_coord_word(1) [of y] by (auto simp: point_text_def list_all_iff)
  have sub: "q \<in> set qs \<Longrightarrow> set (point_text q) \<subseteq> set (join_with '','' (map point_text qs))" for q qs
    by (induction qs rule: induct_list012) auto
  then have "c \<in> set (ring_text ps)" using c(1) assms(3) unfolding ring_text_def by blast
  then have "\<not> regex_match wktRegex (ring_text ps)"
    using wktRegex_chars [of "ring_text ps" c] c(2,3) word_char_not by (auto simp: regex_match_iff)
  then have "read_polygon (ring_text ps) = Inl InvalidArgument" by (simp add: read_polygon_def)
  then have "traverseR read_polygon (map ring_text p) = Inl InvalidArgument"
    using assms(2) read_polygon_error by (intro traverse_error [of read_polygon _ "ring_text ps"]) auto
  then show ?thesis
    using polygon_parts_wkt [of p] assms(1,2) by (cases p) (simp_all add: FromWkt_polygon_def)
qed

section \<open>Polygons for the GPU\<close>

text \<open>The pieces of a list between consecutive ends.\<close>

fun cut_at :: "nat \<Rightarrow> nat list \<Rightarrow> 'a list \<Rightarrow> 'a list list" where
  "cut_at a [] xs = []"
| "cut_at a (e # es) xs = take (e - a) (drop a xs) # cut_at e es xs"

fun ends :: "nat \<Rightarrow> 'a list list \<Rightarrow> nat list" where
  "ends a [] = []"
| "ends a (xs # xss) = (a + length xs) # ends (a + length xs) xss"

lemma cut_ends: "cut_at (length zs) (ends (length zs) xss) (zs @ concat xss) = xss"
proof (induction xss arbitrary: zs)
  case (Cons xs xss)
  then show ?case using Cons [of "zs @ xs"] by simp
qed simp

lemma ends_bound: "e \<in> set (ends a xss) \<Longrightarrow> e \<le> a + length (concat xss)"
  by (induction a xss rule: ends.induct) auto

lemma ends_append: "ends a (xss @ yss) = ends a xss @ ends (a + length (concat xss)) yss"
  by (induction a xss rule: ends.induct) (simp_all add: add.assoc)

definition int_ends :: "nat list \<Rightarrow> int list" where
  "int_ends = map (\<lambda>n. to_int32 (int n))"

lemma add_rings:
  assumes "g = \<lparr>polyPoints = concat (map butlast rs), pointIdx = int_ends (ends 0 (map butlast rs)), polyIdx = is\<rparr>"
  shows "fold add_ring qs g = \<lparr>polyPoints = concat (map butlast (rs @ qs)),
      pointIdx = int_ends (ends 0 (map butlast (rs @ qs))), polyIdx = is\<rparr>"
  using assms
proof (induction qs arbitrary: rs g)
  case (Cons q qs)
  have "add_ring q g = \<lparr>polyPoints = concat (map butlast (rs @ [q])),
      pointIdx = int_ends (ends 0 (map butlast (rs @ [q]))), polyIdx = is\<rparr>"
    using Cons.prems by (simp add: add_ring_def Let_def int_ends_def ends_append)
  then show ?case using Cons.IH [of _ "rs @ [q]"] by simp
qed simp

lemma add_polygons:
  "fold add_polygon ps \<lparr>polyPoints = concat (map butlast (concat rs)), pointIdx = int_ends (ends 0 (map butlast (concat rs))),
      polyIdx = int_ends (ends 0 rs)\<rparr>
    = \<lparr>polyPoints = concat (map butlast (concat (rs @ ps))), pointIdx = int_ends (ends 0 (map butlast (concat (rs @ ps)))),
       polyIdx = int_ends (ends 0 (rs @ ps))\<rparr>"
proof (induction ps arbitrary: rs)
  case (Cons p ps)
  have len: "length (ends a xss) = length xss" for a and xss :: "'b list list" by (induction a xss rule: ends.induct) simp_all
  have "add_polygon p \<lparr>polyPoints = concat (map butlast (concat rs)), pointIdx = int_ends (ends 0 (map butlast (concat rs))),
      polyIdx = int_ends (ends 0 rs)\<rparr>
    = \<lparr>polyPoints = concat (map butlast (concat (rs @ [p]))), pointIdx = int_ends (ends 0 (map butlast (concat (rs @ [p])))),
       polyIdx = int_ends (ends 0 (rs @ [p]))\<rparr>"
    using add_rings [of _ "concat rs" _ p] by (simp add: add_polygon_def Let_def int_ends_def ends_append len)
  then show ?case using Cons.IH [of "rs @ [p]"] by simp
qed simp

lemma nat_int_ends: "\<forall>n\<in>set ns. n < 2 ^ 31 \<Longrightarrow> map nat (int_ends ns) = ns"
  by (induction ns) (simp_all add: int_ends_def to_int32_id)

text \<open>
  C21. The arrays for the GPU determine the polygons, each ring without its last point: cutting the points
  at the ends in \<open>pointIdx\<close> gives the rings, and cutting the rings at the ends in \<open>polyIdx\<close> gives the polygons.
\<close>

theorem PrepareGPUPolygon_roundtrip:
  assumes "length (concat (map butlast (concat ps))) < 2 ^ 31" and "length (concat ps) < 2 ^ 31"
  shows "cut_at 0 (map nat (polyIdx (PrepareGPUPolygon ps)))
      (cut_at 0 (map nat (pointIdx (PrepareGPUPolygon ps))) (polyPoints (PrepareGPUPolygon ps)))
    = map (map butlast) ps"
proof -
  have g: "PrepareGPUPolygon ps = \<lparr>polyPoints = concat (map butlast (concat ps)),
      pointIdx = int_ends (ends 0 (map butlast (concat ps))), polyIdx = int_ends (ends 0 ps)\<rparr>"
    using add_polygons [of ps "[]"] by (simp add: PrepareGPUPolygon_def int_ends_def)
  have "map nat (int_ends (ends 0 (map butlast (concat ps)))) = ends 0 (map butlast (concat ps))"
    "map nat (int_ends (ends 0 ps)) = ends 0 ps"
    using assms le_less_trans [OF ends_bound [of _ 0 "map butlast (concat ps)"]] le_less_trans [OF ends_bound [of _ 0 ps]]
    by (intro nat_int_ends ballI; simp)+
  moreover have "ends a ps = ends a (map (map butlast) ps)" for a
    by (induction a ps rule: ends.induct) simp_all
  ultimately show ?thesis
    using cut_ends [of "[]" "map butlast (concat ps)"] cut_ends [of "[]" "map (map butlast) ps"] by (simp add: g map_concat)
qed

section \<open>Sample polygons\<close>

lemmas show_eval = show_coord_def f32_dec_def f_decode_def f_emin_def f_inf_def f_scale_def dec_exponent_def dec_shift.simps
  show_nat.simps digit_char_def round_even_def layout_g_def with_point_def strip_zeros_def show_exponent_def Let_def
  char_of_def bit_Suc_0_iff

lemma floorlog_numeral:
  "floorlog 2 (numeral (Num.Bit0 n)) = Suc (floorlog 2 (numeral n))"
  "floorlog 2 (numeral (Num.Bit1 n)) = Suc (floorlog 2 (numeral n))" "floorlog 2 1 = 1" "floorlog 2 (Suc 0) = 1"
  by (simp_all add: compute_floorlog)

lemmas round_eval = f_round_def f_exponent_def floorlog_numeral f_sign_def f_emin_def f_scale_def f_inf_def Let_def

lemma plainI:
  "show_coord False x = number_text neg ip fp \<Longrightarrow> ip \<noteq> [] \<Longrightarrow> list_all is_digit ip \<Longrightarrow> list_all is_digit fp \<Longrightarrow>
    dec_value (read_nat (ip @ fp)) (- int (length fp)) = (a, b) \<Longrightarrow> f_round 24 8 neg a b = n \<Longrightarrow> n mod 2 ^ 31 \<noteq> f_inf 24 8 \<Longrightarrow>
    of_nat n = x \<Longrightarrow> plain x"
  unfolding plain_def by (intro exI [of _ neg] exI [of _ ip] exI [of _ fp]) (simp add: float_of_digits_def)

lemmas read_eval = dec_value_def read_nat_def digit_val_def is_digit_def number_text_def

lemma plain_0: "plain 0"
  by (rule plainI [where neg = False and ip = "''0''" and fp = "[]" and a = 0 and b = 1 and n = 0])
    (simp_all add: read_eval show_eval f_round_def f_sign_def)

lemma plain_minus_48_125: "plain 0xC2408000"
  by (rule plainI [where neg = True and ip = "''48''" and fp = "''125''" and a = 48125 and b = 1000 and n = "0xC2408000"])
    (simp_all add: read_eval round_eval, simp_all add: show_eval)

theorem polygon_text_roundtrip_witness:
  "FromWkt_polygon (WktFromPolygon [[(0, 0xC2408000), (0, 0), (0, 0xC2408000)], [(0, 0), (0, 0)]] False)
    = Inr [[(0, 0xC2408000), (0, 0), (0, 0xC2408000)], [(0, 0), (0, 0)]]"
  by (rule polygon_text_roundtrip) (simp_all add: ring_def plain_point_def plain_0 plain_minus_48_125 MAX_POLYGONS_NUMBER_def)

theorem polygon_exponent_unreadable_witness:
  "FromWkt_polygon (WktFromPolygon [[(0x3727C5AC, 0), (0, 0), (0x3727C5AC, 0)]] False) = Inl InvalidArgument"
proof -
  have "show_coord False 0x3727C5AC = ''1e-05''" by (simp add: show_eval)
  then have "\<not> list_all coord_char (show_coord False 0x3727C5AC)" by (simp add: coord_char_def is_digit_def)
  then show ?thesis by (intro polygon_exponent_unreadable [where x = "0x3727C5AC" and y = 0]) auto
qed

theorem PrepareGPUPolygon_roundtrip_witness:
  "cut_at 0 (map nat (polyIdx (PrepareGPUPolygon [[[(1, 2), (3, 4), (1, 2)]]])))
      (cut_at 0 (map nat (pointIdx (PrepareGPUPolygon [[[(1, 2), (3, 4), (1, 2)]]])))
        (polyPoints (PrepareGPUPolygon [[[(1, 2), (3, 4), (1, 2)]]])))
    = [[[(1, 2), (3, 4)]]]"
  using PrepareGPUPolygon_roundtrip [of "[[[(1, 2), (3, 4), (1, 2)]]]"] by simp

end
