(* ===== verification/Column_Text.thy ===== *)
theory Column_Text
  imports Column_Roundtrip Geo_Correct
begin

text \<open>
  Columns of strings and polygons on disk (\<open>WriteColumn\<close> and \<open>LoadColumn\<close> of \<open>Database.cpp\<close>). The data file
  holds a record per block, without the rows. The rows are in the fragment file as text, polygons as
  well-known text; it consists of fragments of a fixed number of bytes, and the address file holds,
  fragment by fragment, the index of the block the fragment belongs to. The cases of the two types
  differ in the conversion to and from text and in the element type, which are the fields of \<open>text_type\<close>.
  The size of a fragment is the parameter \<open>F\<close> of the loops, \<open>FRAGMENT_SIZE_BYTES\<close> in the program; \<open>stale\<close>,
  \<open>junk\<close> and \<open>writable\<close> are as in \<open>Column_Files\<close>.
\<close>

record 'a text_type =
  to_text :: "'a \<Rightarrow> string"
  of_text :: "string \<Rightarrow> 'a result"
  same_value :: "'a \<Rightarrow> 'a \<Rightarrow> bool"
  text_elem :: "'a elem"

definition string_type :: "string text_type" where
  "string_type = \<lparr>to_text = (\<lambda>s. s), of_text = Inr, same_value = (=), text_elem = elem_string\<rparr>"

text \<open>An empty polygon, which is what a null row may hold, is stored as the default polygon.\<close>

definition polygon_text :: "ComplexPolygon \<Rightarrow> string" where
  "polygon_text p =
    (if WktFromPolygon p False = WktFromPolygon [] False then POLYGON_DEFAULT_VALUE else WktFromPolygon p False)"

definition polygon_type :: "(ComplexPolygon \<Rightarrow> ComplexPolygon \<Rightarrow> bool) \<Rightarrow> ComplexPolygon text_type" where
  "polygon_type same = \<lparr>to_text = polygon_text, of_text = FromWkt_polygon, same_value = same, text_elem = elem_Polygon\<rparr>"

definition FRAGMENT_SIZE_BYTES :: nat where
  "FRAGMENT_SIZE_BYTES = 1048576"

section \<open>Writing\<close>

text \<open>A string is stored with its length and a final zero byte.\<close>

definition entry_size :: "string \<Rightarrow> nat" where
  "entry_size s = length s + 1 + 4"

definition entry_bytes :: "string \<Rightarrow> int8 list" where
  "entry_bytes s = word_bytes (of_nat (length s + 1) :: int32) @ map byte_of_char s @ [0]"

text \<open>The rest of a fragment: a negative length and as many stars, or stars only when there is no room.\<close>

definition padding :: "nat \<Rightarrow> int8 list" where
  "padding free =
    (if 4 \<le> free then word_bytes (- of_nat (free - 4) :: int32) @ replicate (free - 4) (byte_of_char CHR ''*'')
     else replicate free (byte_of_char CHR ''*''))"

text \<open>
  The loop over the strings of a block: what goes to the fragment file and to the address file.
  \<open>used\<close> is \<open>dataByteSize\<close>, \<open>nf\<close> is \<open>newFragment\<close>. A last string that does not fit into a fragment of its own
  makes the length of the padding negative, and constructing the padding throws.
\<close>

fun write_entries :: "nat \<Rightarrow> 32 word \<Rightarrow> string list \<Rightarrow> nat \<Rightarrow> bool \<Rightarrow> (int8 list \<times> int8 list) result" where
  "write_entries F index [] used nf = Inr ([], [])"
| "write_entries F index (s # ss) used nf =
    (let fits = (used + entry_size s \<le> F);
         pad = (if fits \<or> F \<le> used then [] else padding (F - used));
         used' = (if fits then used + entry_size s else entry_size s)
     in if ss = [] \<and> F < used' then Inl LengthError
        else mapR (\<lambda>(d, a). (pad @ entry_bytes s @ (if ss = [] then padding (F - used') else []) @ d,
               (if nf then word_bytes index else []) @ a))
          (write_entries F index ss used' (\<not> fits)))"

definition text_record :: "freed \<Rightarrow> bool \<Rightarrow> 32 word \<Rightarrow> 'a block \<Rightarrow> int8 list result" where
  "text_record stale isNullable index b =
    (if length (b_data b) < b_size b then Inl UndefinedBehaviour
     else mapR (\<lambda>m. word_bytes index @ word_bytes (word_of_int (b_groupId b) :: int32)
         @ word_bytes (of_nat (GetNullBitMaskSizeInBytes (b_size b)) :: 32 word) @ m
         @ word_bytes (of_nat (b_size b) :: 64 word))
       (mask_bytes (stale index) isNullable b))"

text \<open>The loop over the blocks: data file, address file, fragment file and the blocks with their flags.\<close>

fun write_text_blocks ::
  "'a text_type \<Rightarrow> freed \<Rightarrow> nat \<Rightarrow> bool \<Rightarrow> bool \<Rightarrow> 32 word \<Rightarrow> 'a block list
    \<Rightarrow> (int8 list \<times> int8 list \<times> int8 list \<times> 'a block list) result" where
  "write_text_blocks T stale F isNullable fragOpen index [] = Inr ([], [], [], [])"
| "write_text_blocks T stale F isNullable fragOpen index (b # bs) =
    bindR (text_record stale isNullable index b) (\<lambda>r.
    bindR (if fragOpen then write_entries F index (map (to_text T) (take (b_size b) (b_data b))) 0 True else Inr ([], [])) (\<lambda>(f, a).
    if index + 1 = UINT32_MAX then Inr (r, a, f, b\<lparr>b_saveNecessary := True\<rparr> # bs)
    else mapR (\<lambda>(d, a', f', bs'). (r @ d, a @ a', f @ f', b\<lparr>b_saveNecessary := \<not> fragOpen\<rparr> # bs'))
      (write_text_blocks T stale F isNullable fragOpen (index + 1) bs)))"

definition fragment_path :: "string \<Rightarrow> string \<Rightarrow> string \<Rightarrow> 'a column \<Rightarrow> string" where
  "fragment_path dbDir dbName tableName c =
    column_path dbDir dbName tableName (c_name c) (c_fileFragmentPath c) ''.fragdata''"

definition WriteColumn_text ::
  "'a text_type \<Rightarrow> freed \<Rightarrow> nat \<Rightarrow> (string \<Rightarrow> bool) \<Rightarrow> string \<Rightarrow> string \<Rightarrow> string
    \<Rightarrow> 'a column \<Rightarrow> files \<Rightarrow> ('a column \<times> files) result" where
  "WriteColumn_text T stale F writable dbDir dbName tableName c fs =
    (let dataPath = data_path dbDir dbName tableName c;
         addressPath = address_path dbDir dbName tableName c;
         fragmentPath = fragment_path dbDir dbName tableName c;
         fs1 = open_out writable dataPath (open_out writable addressPath fs)
     in if writable dataPath \<and> writable addressPath then
          mapR (\<lambda>(d, a, f, bs). (c\<lparr>c_blocks := regroup (c_blocks c) bs\<rparr>,
              (if writable fragmentPath then fs1(fragmentPath \<mapsto> f) else fs1)(dataPath \<mapsto> d, addressPath \<mapsto> a)))
            (write_text_blocks T stale F (c_isNullable c) (writable fragmentPath) 0 (GetBlocksList c))
        else Inr (c, fs1))"

section \<open>Loading\<close>

text \<open>
  The loop over the entries of a fragment; \<open>k\<close> is \<open>readBytes\<close>. The bytes of an entry are read as a C
  string, up to the first zero byte.
\<close>

function read_entries :: "nat \<Rightarrow> nat \<Rightarrow> int8 list \<Rightarrow> string list result" where
  "read_entries F k r =
    (if F \<le> k \<or> F < k + 4 then Inr []
     else
       (case read_word r of
          None \<Rightarrow> Inl UndefinedBehaviour
        | Some (len :: int32, r1) \<Rightarrow>
            let n = nat \<bar>sint len\<bar> in
            if 0 < sint len then
              (if length r1 < n \<or> 0 \<notin> set (take n r1) then Inl UndefinedBehaviour
               else mapR (Cons (map char_of_byte (takeWhile (\<lambda>b. b \<noteq> 0) (take n r1))))
                 (read_entries F (k + 4 + n) (drop n r1)))
            else if sint len = - (2 ^ 31) then Inl UndefinedBehaviour
            else read_entries F (k + 4 + n) (drop n r1)))"
  by pat_completeness auto
termination
  by (relation "measure (\<lambda>(F, k, r). F - k)") auto

declare read_entries.simps [simp del]

text \<open>The fragments of the block with the index \<open>index\<close>; \<open>i\<close> is \<open>fragIdx\<close>.\<close>

fun read_fragments :: "nat \<Rightarrow> int8 list \<Rightarrow> 32 word \<Rightarrow> nat \<Rightarrow> 32 word list \<Rightarrow> string list result" where
  "read_fragments F frag index i [] = Inr []"
| "read_fragments F frag index i (j # js) =
    (if index = j then
       bindR (read_entries F 0 (drop (i * F) frag)) (\<lambda>ss. mapR ((@) ss) (read_fragments F frag index (Suc i) js))
     else read_fragments F frag index (Suc i) js)"

text \<open>The new block is filled with the values of its fragments and gets its mask.\<close>

definition add_loaded_values ::
  "'a elem \<Rightarrow> 'a list \<Rightarrow> int \<Rightarrow> 32 word \<Rightarrow> nullmask list \<Rightarrow> 'a column \<Rightarrow> 'a column result" where
  "add_loaded_values E vals g index nullBitMask c =
    (let c1 = AddBlock_empty E g False index c in
     bindR (InsertData_block E vals False (last (blocks_at g c1))) (\<lambda>b.
     mapR (\<lambda>b'. set_last g b' c1) (SetNullBitmask_ptr E (Some nullBitMask) b)))"

definition load_text_record ::
  "'a text_type \<Rightarrow> (32 word \<Rightarrow> int8 list) \<Rightarrow> nat \<Rightarrow> int8 list \<Rightarrow> 32 word list \<Rightarrow> int8 list \<Rightarrow> 'a column
    \<Rightarrow> ('a column \<times> int8 list) option result" where
  "load_text_record T junk F frag js r0 c =
    bindR (load_head junk (GetNullBitMaskSize (c_blockSize c)) r0) (\<lambda>h. case h of
      None \<Rightarrow> Inr None
    | Some (index, groupId, nullBitMask, r1) \<Rightarrow>
        (case read_word r1 of
           None \<Rightarrow> Inl UndefinedBehaviour
         | Some (dataLength :: 64 word, r2) \<Rightarrow>
             bindR (read_fragments F frag index 0 js) (\<lambda>ss.
             bindR (traverseR (of_text T) ss) (\<lambda>vals.
             bindR (load_unique (same_value T) vals c) (\<lambda>c1.
             mapR (\<lambda>c2. Some (c2, r2)) (add_loaded_values (text_elem T) vals (sint groupId) index nullBitMask c1))))))"

lemma load_text_record_shorter:
  assumes "load_text_record T junk F frag js r c = Inr (Some (c', r'))"
  shows "length r' < length r"
proof -
  from assms obtain i g m r1 where h: "load_head junk (GetNullBitMaskSize (c_blockSize c)) r = Inr (Some (i, g, m, r1))"
    by (cases "load_head junk (GetNullBitMaskSize (c_blockSize c)) r") (auto simp: load_text_record_def split: option.splits)
  moreover from assms h obtain n where "read_word r1 = Some (n :: 64 word, r')"
    by (cases "read_word r1 :: (64 word \<times> int8 list) option") (auto simp: load_text_record_def)
  ultimately have "length r1 < length r" and "length r' \<le> length r1"
    by (auto dest: load_head_shorter read_word_shorter)
  then show ?thesis by simp
qed

function load_text_blocks ::
  "'a text_type \<Rightarrow> (32 word \<Rightarrow> int8 list) \<Rightarrow> nat \<Rightarrow> int8 list \<Rightarrow> 32 word list \<Rightarrow> int8 list \<Rightarrow> 'a column \<Rightarrow> 'a column result" where
  "load_text_blocks T junk F frag js r c =
    (case load_text_record T junk F frag js r c of
       Inl e \<Rightarrow> Inl e
     | Inr None \<Rightarrow> Inr c
     | Inr (Some (c', r')) \<Rightarrow> load_text_blocks T junk F frag js r' c')"
  by pat_completeness auto
termination
  by (relation "measure (\<lambda>(T, junk, F, frag, js, r, c). length r)") (auto dest: load_text_record_shorter)

declare load_text_blocks.simps [simp del]

text \<open>
  The address file is read to its end. Reading from a file that is not there gives uninitialised
  values; for the fragment file this matters only when a fragment is read.
\<close>

definition LoadColumn_text ::
  "'a text_type \<Rightarrow> (32 word \<Rightarrow> int8 list) \<Rightarrow> nat \<Rightarrow> files \<Rightarrow> string \<Rightarrow> string \<Rightarrow> string \<Rightarrow> string \<Rightarrow> bool \<Rightarrow> bool \<Rightarrow> string \<Rightarrow> nat \<Rightarrow> string
    \<Rightarrow> 'a column result" where
  "LoadColumn_text T junk F fs fileAddressPath fileDataPath fileFragmentPath encoding isNullable isUnique defaultValue blockSize name =
    bindR (ColumnBase_new (same_value T) (text_elem T) name blockSize isNullable isUnique) (\<lambda>c.
    bindR (of_text T defaultValue) (\<lambda>d.
    let c1 = c\<lparr>c_fileAddressPath := fileAddressPath, c_fileDataPath := fileDataPath,
               c_fileFragmentPath := fileFragmentPath, c_encoding := encoding, c_defaultValue := d\<rparr>
    in case (fs fileAddressPath, fs fileDataPath) of
         (Some addr, Some []) \<Rightarrow> Inr c1
       | (Some addr, Some r) \<Rightarrow>
           load_text_blocks T junk F (case fs fileFragmentPath of None \<Rightarrow> [] | Some f \<Rightarrow> f)
             (words_of (length addr div 4) addr) r c1
       | _ \<Rightarrow> Inl UndefinedBehaviour))"

section \<open>Strings and polygons\<close>

definition WriteColumn_string where "WriteColumn_string = WriteColumn_text string_type"
definition WriteColumn_polygon where "WriteColumn_polygon same = WriteColumn_text (polygon_type same)"
definition LoadColumn_string where "LoadColumn_string = LoadColumn_text string_type"
definition LoadColumn_polygon where "LoadColumn_polygon same = LoadColumn_text (polygon_type same)"

end
