(* ===== verification/Column_Fragments.thy ===== *)
theory Column_Fragments
  imports Column_Text
begin

text \<open>
  The fragments of a column of strings or polygons: how \<open>WriteColumn\<close> packs the texts of a block into
  fragments of a fixed size, that \<open>LoadColumn\<close> reads them back, and what goes wrong with a last text
  that starts a new fragment.
\<close>

section \<open>Packing\<close>

definition total_size :: "string list \<Rightarrow> nat" where
  "total_size g = sum_list (map entry_size g)"

lemma total_size_simps [simp]:
  "total_size [] = 0" "total_size (s # g) = entry_size s + total_size g"
  "total_size (g @ h) = total_size g + total_size h"
  by (simp_all add: total_size_def)

text \<open>The strings of a block in fragments, the first of which has \<open>g\<close> already.\<close>

fun pack :: "nat \<Rightarrow> string list \<Rightarrow> string list \<Rightarrow> string list list" where
  "pack F g [] = [g]"
| "pack F g (s # ss) = (if total_size g + entry_size s \<le> F then pack F (g @ [s]) ss else g # pack F [s] ss)"

text \<open>The last string goes to the fragment of the string before it, or is the only one.\<close>

fun last_joins :: "nat \<Rightarrow> string list \<Rightarrow> string list \<Rightarrow> bool" where
  "last_joins F g [] = True"
| "last_joins F g (s # ss) =
    (if total_size g + entry_size s \<le> F then last_joins F (g @ [s]) ss else ss \<noteq> [] \<and> last_joins F [s] ss)"

definition fragment :: "nat \<Rightarrow> string list \<Rightarrow> int8 list" where
  "fragment F g = concat (map entry_bytes g) @ padding (F - total_size g)"

lemma length_entry_bytes [simp]: "length (entry_bytes s) = entry_size s"
  by (simp add: entry_bytes_def entry_size_def)

lemma length_padding [simp]: "length (padding n) = n"
  by (simp add: padding_def)

lemma padding_0 [simp]: "padding 0 = []"
  by (simp add: padding_def)

lemma write_entries_Cons:
  "write_entries F ix (s # ss) used nf =
    (if used + entry_size s \<le> F then
       mapR (\<lambda>(d, a). (entry_bytes s @ (if ss = [] then padding (F - (used + entry_size s)) else []) @ d,
           (if nf then word_bytes ix else []) @ a))
         (write_entries F ix ss (used + entry_size s) False)
     else if ss = [] \<and> F < entry_size s then Inl LengthError
     else mapR (\<lambda>(d, a). (padding (F - used) @ entry_bytes s @ (if ss = [] then padding (F - entry_size s) else []) @ d,
           (if nf then word_bytes ix else []) @ a))
         (write_entries F ix ss (entry_size s) True))"
  by (auto simp: Let_def)

lemma length_fragment: "total_size g \<le> F \<Longrightarrow> length (fragment F g) = F"
  by (simp add: fragment_def length_concat comp_def total_size_def)

lemma concat_pack: "concat (pack F g ss) = g @ ss"
  by (induction F g ss rule: pack.induct) simp_all

lemma pack_fits:
  assumes "total_size g \<le> F" and "\<forall>s\<in>set ss. entry_size s \<le> F"
  shows "\<forall>p\<in>set (pack F g ss). total_size p \<le> F"
  using assms by (induction F g ss rule: pack.induct) auto

lemma pack_not_Nil: "pack F g ss \<noteq> []"
  by (induction F g ss rule: pack.induct) auto

text \<open>The bytes of the fragments, behind those of the strings that are in the first one already.\<close>

lemma write_entries_pack:
  assumes "total_size g \<le> F" and "\<forall>s\<in>set ss. entry_size s \<le> F" and "ss \<noteq> []"
  shows "\<exists>d n. write_entries F ix ss (total_size g) nf = Inr (d, concat (replicate n (word_bytes ix)))
    \<and> concat (map entry_bytes g) @ d = concat (map (fragment F) (pack F g ss))
    \<and> Suc (n + of_bool (\<not> last_joins F g ss)) = of_bool nf + length (pack F g ss)"
  using assms
proof (induction F g ss arbitrary: nf rule: pack.induct)
  case (2 F g s ss)
  show ?case
  proof (cases "ss = []")
    case True
    let ?d = "if total_size g + entry_size s \<le> F then entry_bytes s @ padding (F - (total_size g + entry_size s))
      else padding (F - total_size g) @ entry_bytes s @ padding (F - entry_size s)"
    show ?thesis using True 2(3,4)
      by (intro exI [of _ ?d] exI [of _ "of_bool nf"])
        (cases nf; simp add: write_entries_Cons fragment_def del: write_entries.simps(2))
  next
    case False
    have sizes: "\<forall>s\<in>set ss. entry_size s \<le> F" "entry_size s \<le> F" using 2(4) by simp_all
    show ?thesis
    proof (cases "total_size g + entry_size s \<le> F")
      case fits: True
      then obtain d n where "write_entries F ix ss (total_size (g @ [s])) False = Inr (d, concat (replicate n (word_bytes ix)))"
        "concat (map entry_bytes (g @ [s])) @ d = concat (map (fragment F) (pack F (g @ [s]) ss))"
        "Suc (n + of_bool (\<not> last_joins F (g @ [s]) ss)) = length (pack F (g @ [s]) ss)"
        using 2(1) [OF fits _ sizes(1) False, of False] by auto
      then show ?thesis using fits False
        by (intro exI [of _ "entry_bytes s @ d"] exI [of _ "of_bool nf + n"])
          (cases nf; simp add: write_entries_Cons del: write_entries.simps(2))
    next
      case nofit: False
      then obtain d n where "write_entries F ix ss (entry_size s) True = Inr (d, concat (replicate n (word_bytes ix)))"
        "entry_bytes s @ d = concat (map (fragment F) (pack F [s] ss))"
        "Suc (n + of_bool (\<not> last_joins F [s] ss)) = Suc (length (pack F [s] ss))"
        using 2(2) [OF nofit _ sizes(1) False, of True] sizes(2) by auto
      then show ?thesis using nofit False 2(3)
        by (intro exI [of _ "padding (F - total_size g) @ entry_bytes s @ d"] exI [of _ "of_bool nf + n"])
          (cases nf; simp add: write_entries_Cons fragment_def [of F g] del: write_entries.simps(2))
    qed
  qed
qed simp

section \<open>Reading a fragment\<close>

definition stored_string :: "string \<Rightarrow> bool" where
  "stored_string s \<longleftrightarrow> CHR 0x00 \<notin> set s"

lemma byte_of_char_nonzero: "c \<noteq> CHR 0x00 \<Longrightarrow> byte_of_char c \<noteq> 0"
proof
  assume c: "c \<noteq> CHR 0x00" and "byte_of_char c = 0"
  then have "c = char_of_byte 0" using char_of_byte_of_char [of c] by simp
  also have "char_of_byte 0 = CHR 0x00" by code_simp
  finally show False using c by simp
qed

lemma c_string:
  assumes "stored_string s"
  shows "map char_of_byte (takeWhile (\<lambda>b. b \<noteq> 0) (map byte_of_char s @ [0])) = s"
proof -
  have "b \<noteq> 0" if "b \<in> set (map byte_of_char s)" for b
    using that assms byte_of_char_nonzero unfolding stored_string_def by (metis imageE set_map)
  then have "takeWhile (\<lambda>b. b \<noteq> 0) (map byte_of_char s @ [0]) = map byte_of_char s @ takeWhile (\<lambda>b. b \<noteq> 0) [0]"
    by (rule takeWhile_append2)
  then show ?thesis by (simp add: comp_def)
qed

lemma sint_of_nat_word: "n < 2 ^ 31 \<Longrightarrow> sint (of_nat n :: int32) = int n"
  using to_int32_id [of "int n"] by (simp add: to_int32_def)

lemma sint_neg_word: "n < 2 ^ 31 \<Longrightarrow> sint (- of_nat n :: int32) = - int n"
  using to_int32_id [of "- int n"] by (simp add: to_int32_def)

lemma read_entries_string:
  assumes "k + 4 \<le> F" and "read_word r = Some (len :: int32, r1)" and "sint len = int n" and "0 < n"
    and "n \<le> length r1" and "0 \<in> set (take n r1)"
  shows "read_entries F k r = mapR (Cons (map char_of_byte (takeWhile (\<lambda>b. b \<noteq> 0) (take n r1))))
    (read_entries F (k + 4 + n) (drop n r1))"
  using assms by (simp add: read_entries.simps [of F k] Let_def)

lemma read_entries_skip:
  assumes "k + 4 \<le> F" and "read_word r = Some (len :: int32, r1)" and "sint len = - int n" and "n < 2 ^ 31"
  shows "read_entries F k r = read_entries F (k + 4 + n) (drop n r1)"
  using assms by (simp add: read_entries.simps [of F k] Let_def)

lemma read_padding:
  assumes "k \<le> F" and "F < 2 ^ 31"
  shows "read_entries F k (padding (F - k) @ rest) = Inr []"
proof (cases "k + 4 \<le> F")
  case True
  define m where "m = F - k - 4"
  have m: "m < 2 ^ 31" using assms by (simp add: m_def)
  have "padding (F - k) = word_bytes (- of_nat m :: int32) @ replicate m (byte_of_char CHR ''*'')"
    using True by (simp only: padding_def m_def if_True le_diff_conv2 [OF assms(1)] add.commute)
  then have "read_word (padding (F - k) @ rest) = Some (- of_nat m :: int32, replicate m (byte_of_char CHR ''*'') @ rest)"
    by (simp add: read_word_bytes)
  then have "read_entries F k (padding (F - k) @ rest) = read_entries F (k + 4 + m) (drop m (replicate m (byte_of_char CHR ''*'') @ rest))"
    using True sint_neg_word [OF m] m by (intro read_entries_skip)
  moreover have "F = k + 4 + m" using True by (simp add: m_def)
  moreover have "read_entries j j r = Inr []" for j r by (simp add: read_entries.simps)
  ultimately show ?thesis by simp
next
  case False
  then show ?thesis by (simp add: read_entries.simps [of F k])
qed

lemma read_entry:
  assumes "stored_string s" and "k + entry_size s \<le> F" and "F < 2 ^ 31"
  shows "read_entries F k (entry_bytes s @ rest) = mapR (Cons s) (read_entries F (k + entry_size s) rest)"
proof -
  define n where "n = length s + 1"
  have n: "n < 2 ^ 31" "0 < n" using assms(2,3) by (simp_all add: entry_size_def n_def)
  have r: "read_word (entry_bytes s @ rest) = Some (of_nat n :: int32, (map byte_of_char s @ [0]) @ rest)"
    unfolding entry_bytes_def n_def [symmetric] by (simp add: read_word_bytes)
  have take: "take n ((map byte_of_char s @ [0]) @ rest) = map byte_of_char s @ [0]"
    "drop n ((map byte_of_char s @ [0]) @ rest) = rest" by (simp_all add: n_def)
  have "k + 4 \<le> F" "k + entry_size s = k + 4 + n" using assms(2) by (simp_all add: entry_size_def n_def)
  then show ?thesis
    using read_entries_string [OF _ r sint_of_nat_word [OF n(1)] n(2), of k F, unfolded take c_string [OF assms(1)]]
    by (simp add: n_def ac_simps)
qed

lemma read_entries_fragment:
  assumes "k + total_size g \<le> F" and "F < 2 ^ 31" and "\<forall>s\<in>set g. stored_string s"
  shows "read_entries F k (concat (map entry_bytes g) @ padding (F - (k + total_size g)) @ rest) = Inr g"
  using assms
proof (induction g arbitrary: k)
  case Nil
  then show ?case by (simp add: read_padding)
next
  case (Cons s g)
  then have "k + entry_size s \<le> F" by simp
  with Cons.prems have "read_entries F k (entry_bytes s @ r) = mapR (Cons s) (read_entries F (k + entry_size s) r)" for r
    by (intro read_entry) simp_all
  with Cons.IH [of "k + entry_size s"] Cons.prems show ?case by (simp add: add.assoc)
qed

lemma read_fragment:
  "total_size g \<le> F \<Longrightarrow> F < 2 ^ 31 \<Longrightarrow> \<forall>s\<in>set g. stored_string s \<Longrightarrow> read_entries F 0 (fragment F g @ rest) = Inr g"
  using read_entries_fragment [of 0 g F rest] by (simp add: fragment_def)

text \<open>Fragments with the index of their block, as they are in the fragment and the address file.\<close>

lemma read_tagged_fragments_prefix:
  assumes "\<forall>x\<in>set ts. total_size (snd x) \<le> F \<and> (\<forall>s\<in>set (snd x). stored_string s)" and "F < 2 ^ 31"
    and "drop (i * F) frag = concat (map (\<lambda>x. fragment F (snd x)) ts) @ z"
  shows "read_fragments F frag ix i (map fst ts) = Inr (concat (map snd (filter (\<lambda>x. fst x = ix) ts)))"
  using assms(1,3)
proof (induction ts arbitrary: i)
  case (Cons x ts)
  have x: "total_size (snd x) \<le> F" "\<forall>s\<in>set (snd x). stored_string s" using Cons.prems(1) by simp_all
  have "drop (Suc i * F) frag = drop F (drop (i * F) frag)" by (simp add: add.commute)
  also have "\<dots> = concat (map (\<lambda>x. fragment F (snd x)) ts) @ z" using Cons.prems(2) length_fragment [OF x(1)] by simp
  finally have "read_fragments F frag ix (Suc i) (map fst ts) = Inr (concat (map snd (filter (\<lambda>x. fst x = ix) ts)))"
    using Cons.prems(1) by (intro Cons.IH) simp_all
  moreover have "read_entries F 0 (drop (i * F) frag) = Inr (snd x)"
    using read_fragment [OF x(1) assms(2) x(2)] Cons.prems(2) by simp
  ultimately show ?case by auto
qed simp

lemmas read_tagged_fragments = read_tagged_fragments_prefix [where z = "[]", unfolded append_Nil2]

section \<open>The fragments of a column\<close>

definition values_of :: "'a block \<Rightarrow> 'a list" where
  "values_of b = take (b_size b) (b_data b)"

definition texts_of :: "'a text_type \<Rightarrow> 'a block \<Rightarrow> string list" where
  "texts_of T b = map (to_text T) (values_of b)"

definition fragments_of :: "'a text_type \<Rightarrow> nat \<Rightarrow> 'a block \<Rightarrow> string list list" where
  "fragments_of T F b = (if texts_of T b = [] then [] else pack F [] (texts_of T b))"

fun tagged :: "nat \<Rightarrow> 'a list list \<Rightarrow> (32 word \<times> 'a) list" where
  "tagged i [] = []"
| "tagged i (p # ps) = map (Pair (of_nat i)) p @ tagged (Suc i) ps"

lemma concat_fragments_of: "concat (fragments_of T F b) = texts_of T b"
  by (simp add: fragments_of_def concat_pack)

lemma set_tagged: "snd ` set (tagged i ps) = \<Union> (set ` set ps)"
  by (induction i ps rule: tagged.induct) (auto simp: image_Un image_image)

lemma of_nat_inj32: "m < 2 ^ 32 \<Longrightarrow> n < 2 ^ 32 \<Longrightarrow> (of_nat m :: 32 word) = of_nat n \<Longrightarrow> m = n"
proof -
  assume "m < 2 ^ 32" and "n < 2 ^ 32" and "(of_nat m :: 32 word) = of_nat n"
  then have "unat (of_nat m :: 32 word) = unat (of_nat n :: 32 word)" and "m < 2 ^ 32" "n < 2 ^ 32" by simp_all
  then show "m = n" by (simp add: unat_of_nat)
qed

lemma filter_tagged_none:
  "k < i \<Longrightarrow> i + length ps \<le> 2 ^ 32 \<Longrightarrow> filter (\<lambda>x. fst x = of_nat k) (tagged i ps) = []"
proof (induction i ps rule: tagged.induct)
  case (2 i p ps)
  then have "(of_nat i :: 32 word) \<noteq> of_nat k" using of_nat_inj32 [of i k] by auto
  with 2 show ?case by (simp add: filter_empty_conv)
qed simp

lemma filter_tagged:
  "k < length ps \<Longrightarrow> i + length ps \<le> 2 ^ 32 \<Longrightarrow>
    map snd (filter (\<lambda>x. fst x = of_nat (i + k)) (tagged i ps)) = ps ! k"
proof (induction i ps arbitrary: k rule: tagged.induct)
  case (2 i p ps)
  show ?case
  proof (cases k)
    case 0
    then show ?thesis using 2(3) filter_tagged_none [of i "Suc i" ps] by (simp add: filter_True comp_def)
  next
    case (Suc j)
    then have "(of_nat i :: 32 word) \<noteq> of_nat (i + k)" using 2(2,3) of_nat_inj32 [of i "i + k"] by auto
    then have "filter (\<lambda>x. fst x = (of_nat (i + k) :: 32 word)) (map (Pair (of_nat i)) p) = []"
      by (simp add: filter_empty_conv del: of_nat_add)
    then show ?thesis using Suc 2(1) [of j] 2(2,3) by (simp del: of_nat_add of_nat_Suc)
  qed
qed simp

section \<open>Writing and loading\<close>

text \<open>
  A block that the fragments can hold: no text is longer than a fragment or contains a zero byte, the
  texts give their values back, and the last one does not start a fragment.
\<close>

definition packable :: "'a text_type \<Rightarrow> nat \<Rightarrow> 'a block \<Rightarrow> bool" where
  "packable T F b \<longleftrightarrow>
    (\<forall>x\<in>set (values_of b). entry_size (to_text T x) \<le> F \<and> stored_string (to_text T x) \<and> of_text T (to_text T x) = Inr x) \<and>
    last_joins F [] (texts_of T b)"

lemma packable_texts: "packable T F b \<Longrightarrow> \<forall>s\<in>set (texts_of T b). entry_size s \<le> F \<and> stored_string s"
  by (simp add: packable_def texts_of_def)

lemma write_packable:
  assumes "packable T F b"
  shows "write_entries F ix (texts_of T b) 0 True =
    Inr (concat (map (fragment F) (fragments_of T F b)), concat (replicate (length (fragments_of T F b)) (word_bytes ix)))"
proof (cases "texts_of T b = []")
  case False
  have "\<forall>s\<in>set (texts_of T b). entry_size s \<le> F" "last_joins F [] (texts_of T b)"
    using assms packable_texts [OF assms] by (simp_all add: packable_def)
  then show ?thesis
    using write_entries_pack [of "[]" F "texts_of T b" ix True] False by (auto simp: fragments_of_def)
qed (simp add: fragments_of_def)

lemma fragments_of_ok:
  assumes "packable T F b" and "g \<in> set (fragments_of T F b)"
  shows "total_size g \<le> F \<and> (\<forall>s\<in>set g. stored_string s)"
proof -
  have "set g \<subseteq> set (texts_of T b)" using assms(2) concat_fragments_of [of T F b] by (metis UN_upper set_concat)
  moreover have "total_size g \<le> F"
    using assms packable_texts [OF assms(1)] pack_fits [of "[]" F "texts_of T b"] by (auto simp: fragments_of_def split: if_splits)
  ultimately show ?thesis using packable_texts [OF assms(1)] by auto
qed

text \<open>What the loop over the blocks writes.\<close>

definition text_records ::
  "freed \<Rightarrow> bool \<Rightarrow> nat \<Rightarrow> 'a block list \<Rightarrow> int8 list" where
  "text_records stale nul i bs =
    concat (map (\<lambda>(j, b). projr (text_record stale nul (of_nat j) b)) (enumerate i bs))"

lemma text_record_storable:
  assumes "storable nul N b" and "\<forall>i n. length (stale i n) = n"
  obtains m where "length m = GetNullBitMaskSizeInBytes (b_size b)"
    and "\<And>x. b_bitMask b = Some x \<Longrightarrow> m = words_bytes (take (GetNullBitMaskSize (b_size b)) x)"
    and "text_record stale nul index b = Inr (word_bytes index @ word_bytes (- 1 :: int32)
         @ word_bytes (of_nat (GetNullBitMaskSizeInBytes (b_size b)) :: 32 word) @ m @ word_bytes (of_nat (b_size b) :: 64 word))"
proof -
  obtain m where "mask_bytes (stale index) nul b = Inr m" and "length m = GetNullBitMaskSizeInBytes (b_size b)"
    and "\<And>x. b_bitMask b = Some x \<Longrightarrow> m = words_bytes (take (GetNullBitMaskSize (b_size b)) x)"
    by (rule storable_mask [OF assms(1) spec [OF assms(2), of index]]) auto
  with assms(1) show thesis
    by (intro that [of m]) (simp_all add: text_record_def storable_def block_ok_def)
qed

lemma write_text_blocks_eq:
  assumes "\<forall>b\<in>set bs. storable nul N b \<and> packable T F b" and "\<forall>i n. length (stale i n) = n" and "i + length bs < 2 ^ 32 - 1"
  shows "write_text_blocks T stale F nul True (of_nat i) bs =
    Inr (text_records stale nul i bs,
      words_bytes (map fst (tagged i (map (fragments_of T F) bs))),
      concat (map (\<lambda>x. fragment F (snd x)) (tagged i (map (fragments_of T F) bs))),
      map (\<lambda>b. b\<lparr>b_saveNecessary := False\<rparr>) bs)"
  using assms
proof (induction bs arbitrary: i)
  case Nil
  then show ?case by (simp add: text_records_def)
next
  case (Cons b bs)
  obtain r where r: "text_record stale nul (of_nat i) b = Inr r"
    using text_record_storable [of nul N b stale "of_nat i"] Cons.prems(1,2) by (metis list.set_intros(1))
  have w: "write_entries F (of_nat i) (map (to_text T) (take (b_size b) (b_data b))) 0 True =
    Inr (concat (map (fragment F) (fragments_of T F b)), concat (replicate (length (fragments_of T F b)) (word_bytes (of_nat i :: 32 word))))"
    using write_packable [of T F b "of_nat i"] Cons.prems(1) by (simp add: texts_of_def values_of_def)
  have ix: "(of_nat i :: 32 word) + 1 \<noteq> UINT32_MAX" "(of_nat i :: 32 word) + 1 = of_nat (Suc i)"
    using Cons.prems(3) by (simp_all add: index_no_overflow)
  have a: "words_bytes (map fst (map (Pair ix) p)) = concat (replicate (length p) (word_bytes ix))"
    for ix :: "32 word" and p :: "string list list"
    by (induction p) simp_all
  have "write_text_blocks T stale F nul True (of_nat (Suc i)) bs =
    Inr (text_records stale nul (Suc i) bs, words_bytes (map fst (tagged (Suc i) (map (fragments_of T F) bs))),
      concat (map (\<lambda>x. fragment F (snd x)) (tagged (Suc i) (map (fragments_of T F) bs))), map (\<lambda>b. b\<lparr>b_saveNecessary := False\<rparr>) bs)"
    using Cons.prems by (intro Cons.IH) auto
  then show ?case
    using r w ix a [of "of_nat i" "fragments_of T F b"] by (simp add: text_records_def comp_def del: of_nat_Suc)
qed

text \<open>What the fragment and the address file give back for a block.\<close>

lemma read_written_fragments:
  assumes "\<forall>b\<in>set bs. packable T F b" and "F < 2 ^ 31" and "length bs < 2 ^ 32 - 1" and "k < length bs"
  shows "read_fragments F (concat (map (\<lambda>x. fragment F (snd x)) (tagged 0 (map (fragments_of T F) bs)))) (of_nat k) 0
    (map fst (tagged 0 (map (fragments_of T F) bs))) = Inr (texts_of T (bs ! k))"
proof -
  let ?ts = "tagged 0 (map (fragments_of T F) bs)"
  have "total_size (snd x) \<le> F \<and> (\<forall>s\<in>set (snd x). stored_string s)" if "x \<in> set ?ts" for x
  proof -
    have "snd x \<in> \<Union> (set ` set (map (fragments_of T F) bs))"
      using that set_tagged [of 0 "map (fragments_of T F) bs"] by blast
    then obtain b where "b \<in> set bs" "snd x \<in> set (fragments_of T F b)" by auto
    then show ?thesis using assms(1) fragments_of_ok by blast
  qed
  then have "read_fragments F (concat (map (\<lambda>x. fragment F (snd x)) ?ts)) (of_nat k) 0 (map fst ?ts) =
      Inr (concat (map snd (filter (\<lambda>x. fst x = of_nat k) ?ts)))"
    using assms(2) by (intro read_tagged_fragments) simp_all
  also have "map snd (filter (\<lambda>x. fst x = of_nat k) ?ts) = fragments_of T F (bs ! k)"
    using filter_tagged [of k "map (fragments_of T F) bs" 0] assms(3,4) by simp
  finally show ?thesis by (simp add: concat_fragments_of)
qed

definition text_block_as :: "nat \<Rightarrow> 'a block \<Rightarrow> 'a block \<Rightarrow> bool" where
  "text_block_as i b b' \<longleftrightarrow> rows b' = rows b \<and> b_size b' = b_size b \<and> block_ok b' \<and> b_capacity b' = b_capacity b \<and>
    b_isNullable b' = b_isNullable b \<and> b_index b' = of_nat i \<and> \<not> b_saveNecessary b'"

lemma add_loaded_values_eq:
  assumes k: "kind E = StringStats \<or> kind E = GeoStats" and "length ss \<le> c_blockSize c" and "c_blockSize c < 2 ^ 31" and "length nm = GetNullBitMaskSize (c_blockSize c)"
  obtains b' where "add_loaded_values E ss g index nm c = Inr (set_blocks_at g (blocks_at g c @ [b']) c)"
    and "b_size b' = length ss" "take (length ss) (b_data b') = ss" "block_ok b'" "b_capacity b' = c_blockSize c"
      "b_bitMask b' = (if c_isNullable c then Some nm else None)" "b_isNullable b' = c_isNullable c"
      "b_index b' = index" "\<not> b_saveNecessary b'"
proof -
  let ?e = "BlockBase_empty E (c_blockSize c) (c_isNullable c) False index"
  have e: "block_ok ?e" "b_capacity ?e = c_blockSize c" "b_isNullable ?e = c_isNullable c"
    using BlockBase_empty_ok [OF assms(3), of E] by simp_all
  have e0: "b_size ?e = 0" "b_index ?e = index" "b_bitMask ?e = (if c_isNullable c then Some (new_mask (c_blockSize c)) else None)"
    by (simp_all add: BlockBase_empty_def raw_block_def)
  have "length ss \<le> b_capacity ?e - b_size ?e" using assms(2) e e0 by simp
  note eq = InsertData_block_eq [OF e(1) this, of E False]
  then obtain b where b: "InsertData_block E ss False ?e = Inr b" by blast
  note fr = InsertData_block_frame [OF e(1) b]
  have ok: "block_ok b" by (rule InsertData_block_ok [OF e(1) b])
  have data: "take (length ss) (b_data b) = ss"
    using b eq e e0 assms(2) by (auto simp: copy_at_def block_ok_def)
  define b' where "b' = (if c_isNullable c then b\<lparr>b_bitMask := Some nm, b_isNullMaskRegistered := True\<rparr> else b)"
  have "SetNullBitmask_ptr E (Some nm) b = Inr b'"
    using k fr e e0 by (auto simp: SetNullBitmask_ptr_def b'_def stats_defined_def setBlockStatistics_def update_rows_def)
  then have "add_loaded_values E ss g index nm c = Inr (set_blocks_at g (blocks_at g c @ [b']) c)"
    using b by (simp add: add_loaded_values_def AddBlock_empty_def set_last_def set_blocks_at_def blocks_at_def omap_get_set omap_set_set)
  moreover have "block_ok b'" using ok fr e assms(4) by (auto simp: b'_def block_ok_def split: option.splits)
  ultimately show thesis
    using fr e e0 data by (intro that [of b']) (simp_all add: b'_def)
qed

lemma load_text_record_eq:
  assumes b: "storable (c_isNullable c) (c_blockSize c) b" and stale: "\<forall>i n. length (stale i n) = n"
    and f: "read_fragments F frag (of_nat i) 0 js = Inr (texts_of T b)"
    and v: "traverseR (of_text T) (texts_of T b) = Inr (values_of b)" and u: "load_unique (same_value T) (values_of b) c = Inr c1"
    and kind: "kind (text_elem T) = StringStats \<or> kind (text_elem T) = GeoStats"
  obtains d b' where "text_record stale (c_isNullable c) (of_nat i) b = Inr d"
    and "\<And>rest. load_text_record T junk F frag js (d @ rest) c =
      Inr (Some (set_blocks_at (- 1) (blocks_at (- 1) c @ [b']) c1, rest))"
    and "text_block_as i b b'"
proof -
  let ?n = "b_size b" and ?N = "c_blockSize c" and ?i = "of_nat i :: 32 word"
  let ?k = "GetNullBitMaskSizeInBytes ?n" and ?alloc = "GetNullBitMaskSize ?N"
  have n: "?n \<le> ?N" "?N < 2 ^ 31" and len: "length (b_data b) = ?N"
    using b by (simp_all add: storable_def block_ok_def)
  obtain m where m: "length m = ?k"
      "\<And>x. b_bitMask b = Some x \<Longrightarrow> m = words_bytes (take (GetNullBitMaskSize ?n) x)"
    and d: "text_record stale (c_isNullable c) ?i b = Inr (word_bytes ?i @ word_bytes (- 1 :: int32)
         @ word_bytes (of_nat ?k :: 32 word) @ m @ word_bytes (of_nat ?n :: 64 word))" (is "_ = Inr ?d")
    by (rule text_record_storable [OF b stale, where index = ?i]) auto
  have k: "?k \<le> 8 * ?alloc" "?k < 2 ^ 32"
    using n GetNullBitMaskSize_mono [OF n(1)] by (simp_all add: GetNullBitMaskSizeInBytes_def GetNullBitMaskSize_def)
  define nm :: "nullmask list" where "nm = words_of ?alloc (m @ drop ?k (junk ?i))"
  note c1 = load_unique_frame [OF u]
  have sl: "length (values_of b) = ?n" using n len by (simp add: values_of_def)
  obtain b' where a: "add_loaded_values (text_elem T) (values_of b) (- 1) ?i nm c1 = Inr (set_blocks_at (- 1) (blocks_at (- 1) c1 @ [b']) c1)"
    and b': "b_size b' = ?n" "take ?n (b_data b') = values_of b" "block_ok b'" "b_capacity b' = ?N"
      "b_bitMask b' = (if c_isNullable c then Some nm else None)" "b_isNullable b' = c_isNullable c"
      "b_index b' = ?i" "\<not> b_saveNecessary b'"
    using add_loaded_values_eq [OF kind, of "values_of b" c1 nm "- 1" ?i] n c1 sl by (metis nm_def length_words_of)
  have run: "load_text_record T junk F frag js (?d @ rest) c =
      Inr (Some (set_blocks_at (- 1) (blocks_at (- 1) c @ [b']) c1, rest))" for rest
  proof -
    have "load_head junk ?alloc (?d @ rest) = Inr (Some (?i, - 1, nm, word_bytes (of_nat ?n :: 64 word) @ rest))"
      using load_head_bytes [OF m(1) k, of junk ?i "- 1" "word_bytes (of_nat ?n :: 64 word) @ rest"]
      unfolding nm_def append_assoc .
    then show ?thesis
      unfolding load_text_record_def using f v u a c1 by (simp add: read_word_bytes blocks_at_def)
  qed
  have "is_null b' j = is_null b j" if "j < ?n" for j
    using loaded_mask(1) [OF b nm_def m(2) _ that] b' by simp
  then have "rows b' = rows b"
    using b' n len by (intro rows_loaded) (auto simp: values_of_def block_ok_def)
  then have "text_block_as i b b'" using b b' by (simp add: text_block_as_def storable_def)
  with d run show thesis using that by blast
qed

definition text_blocks_as :: "nat \<Rightarrow> 'a block list \<Rightarrow> 'a block list \<Rightarrow> bool" where
  "text_blocks_as i bs bs' \<longleftrightarrow> length bs' = length bs \<and> (\<forall>k<length bs. text_block_as (i + k) (bs ! k) (bs' ! k))"

lemma text_blocks_as_Cons:
  "text_block_as i b b' \<Longrightarrow> text_blocks_as (Suc i) bs bs' \<Longrightarrow> text_blocks_as i (b # bs) (b' # bs')"
  by (auto simp: text_blocks_as_def nth_Cons split: nat.split)

lemma load_unique_blocks:
  "load_unique same xs (c\<lparr>c_blocks := bs\<rparr>) = mapR (\<lambda>c. c\<lparr>c_blocks := bs\<rparr>) (load_unique same xs c)"
  by (auto simp: load_unique_def split: option.split)

lemma load_text_records:
  assumes "\<forall>b\<in>set bs. storable (c_isNullable c) (c_blockSize c) b" and "\<forall>i n. length (stale i n) = n"
    and "\<forall>k<length bs. read_fragments F frag (of_nat (i + k)) 0 js = Inr (texts_of T (bs ! k))"
    and "load_unique (same_value T) (block_values bs) c = Inr c1" and "c_blocks c = [(- 1, prev)]"
    and vals: "\<forall>b\<in>set bs. traverseR (of_text T) (texts_of T b) = Inr (values_of b)"
    and kind: "kind (text_elem T) = StringStats \<or> kind (text_elem T) = GeoStats"
  shows "\<exists>bs'. load_text_blocks T junk F frag js (text_records stale (c_isNullable c) i bs) c =
      Inr (c1\<lparr>c_blocks := [(- 1, prev @ bs')]\<rparr>) \<and> text_blocks_as i bs bs'"
  using assms
proof (induction bs arbitrary: c c1 prev i)
  case Nil
  have "c1 = c" using Nil.prems(4) by (auto simp: block_values_def load_unique_def split: if_splits)
  moreover have "load_text_blocks T junk F frag js [] c = Inr c"
    by (simp add: load_text_blocks.simps [of T junk F frag js "[]" c] load_text_record_def load_head_def read_word_def)
  moreover have "c = c\<lparr>c_blocks := [(- 1, prev @ [])]\<rparr>" using Nil.prems(5) by simp
  ultimately show ?case
    by (intro exI [of _ "[]"]) (simp add: text_records_def text_blocks_as_def)
next
  case (Cons b bs)
  let ?nul = "c_isNullable c"
  have "block_values (b # bs) = values_of b @ block_values bs" by (simp add: block_values_def values_of_def)
  then have "bindR (load_unique (same_value T) (values_of b) c) (load_unique (same_value T) (block_values bs)) = Inr c1"
    using Cons.prems(4) by (simp only: load_unique_append)
  then obtain c0 where u: "load_unique (same_value T) (values_of b) c = Inr c0"
    and u': "load_unique (same_value T) (block_values bs) c0 = Inr c1"
    by (cases "load_unique (same_value T) (values_of b) c") simp_all
  note f = load_unique_frame [OF u]
  have b: "storable ?nul (c_blockSize c) b" using Cons.prems(1) by simp
  have vb: "traverseR (of_text T) (texts_of T b) = Inr (values_of b)" using Cons.prems(6) by simp
  have rf: "read_fragments F frag (of_nat i) 0 js = Inr (texts_of T b)" using Cons.prems(3) [rule_format, of 0] by simp
  obtain d b' where d: "text_record stale ?nul (of_nat i) b = Inr d"
    and r: "\<And>rest. load_text_record T junk F frag js (d @ rest) c =
      Inr (Some (set_blocks_at (- 1) (blocks_at (- 1) c @ [b']) c0, rest))"
    and s: "text_block_as i b b'"
    using load_text_record_eq [OF b Cons.prems(2) rf vb u kind, where junk = junk] by metis
  let ?upd = "\<lambda>c'. c'\<lparr>c_blocks := [(- 1, prev @ [b'])]\<rparr>"
  have c: "set_blocks_at (- 1) (blocks_at (- 1) c @ [b']) c0 = ?upd c0"
    using Cons.prems(5) f by (simp add: set_blocks_at_def blocks_at_def)
  have fr: "\<forall>k<length bs. read_fragments F frag (of_nat (Suc i + k)) 0 js = Inr (texts_of T (bs ! k))"
    using Cons.prems(3) [rule_format, of "Suc _"] by (simp del: of_nat_Suc of_nat_add)
  have un: "load_unique (same_value T) (block_values bs) (?upd c0) = Inr (?upd c1)"
    by (simp add: load_unique_blocks u')
  have st: "\<forall>b\<in>set bs. storable (c_isNullable (?upd c0)) (c_blockSize (?upd c0)) b" "c_blocks (?upd c0) = [(- 1, prev @ [b'])]"
    "\<forall>b\<in>set bs. traverseR (of_text T) (texts_of T b) = Inr (values_of b)"
    using Cons.prems(1,6) f by simp_all
  obtain bs' where l: "load_text_blocks T junk F frag js (text_records stale ?nul (Suc i) bs) (?upd c0) =
      Inr (c1\<lparr>c_blocks := [(- 1, (prev @ [b']) @ bs')]\<rparr>)" and sl: "text_blocks_as (Suc i) bs bs'"
    using Cons.IH [OF st(1) Cons.prems(2) fr un st(2,3) kind] f by auto
  have "text_records stale ?nul i (b # bs) = d @ text_records stale ?nul (Suc i) bs"
    using d by (simp add: text_records_def)
  then have "load_text_blocks T junk F frag js (text_records stale ?nul i (b # bs)) c =
      Inr (c1\<lparr>c_blocks := [(- 1, prev @ b' # bs')]\<rparr>)"
    using load_text_blocks.simps [of T junk F frag js "d @ text_records stale ?nul (Suc i) bs" c] r l by (simp add: c)
  moreover have "text_blocks_as i (b # bs) (b' # bs')" using s sl by (rule text_blocks_as_Cons)
  ultimately show ?case by blast
qed

lemma packable_values: "packable T F b \<Longrightarrow> traverseR (of_text T) (texts_of T b) = Inr (values_of b)"
  unfolding texts_of_def by (rule traverse_map) (simp add: packable_def)

text \<open>What is written for a column of either type, and what is loaded from any files that have it.\<close>

lemma text_io:
  assumes "0 < F" and "F < 2 ^ 31" and "\<forall>i n. length (stale i n) = n"
    and "\<forall>b\<in>set (GetBlocksList c). storable (c_isNullable c) (c_blockSize c) b \<and> packable T F b"
    and "GetBlockCount c < 2 ^ 32 - 1"
    and "c_isUnique c \<longrightarrow> \<not> c_isNullable c \<and> collect_unique (same_value T) (column_values c) [] = Some h"
    and "dataPath = data_path dir db tb c" and "addressPath = address_path dir db tb c" and "fragmentPath = fragment_path dir db tb c"
    and "of_text T dflt = Inr dv" and "kind (text_elem T) = StringStats \<or> kind (text_elem T) = GeoStats"
    and "distinct [dataPath, addressPath, fragmentPath]" and "\<forall>p\<in>{dataPath, addressPath, fragmentPath}. writable p"
  shows "\<exists>d a f c' bs. (\<forall>fs. WriteColumn_text T stale F writable dir db tb c fs
        = Inr (map_blocks (\<lambda>b. b\<lparr>b_saveNecessary := False\<rparr>) c, fs(fragmentPath \<mapsto> f, dataPath \<mapsto> d, addressPath \<mapsto> a)))
    \<and> (\<forall>fs. fs dataPath = Some d \<and> fs addressPath = Some a \<and> fs fragmentPath = Some f \<longrightarrow>
        LoadColumn_text T junk F fs addressPath dataPath fragmentPath enc (c_isNullable c) (c_isUnique c) dflt (c_blockSize c) (c_name c)
        = Inr c')
    \<and> c_blocks c' = [(- 1, bs)] \<and> text_blocks_as 0 (GetBlocksList c) bs \<and> c_size c' = 0 \<and> c_defaultValue c' = dv
    \<and> (c_isUnique c \<longrightarrow> c_uniqueHashmap c' = h) \<and> c_isNullable c' = c_isNullable c \<and> c_isUnique c' = c_isUnique c"
proof -
  let ?bs = "GetBlocksList c" and ?nul = "c_isNullable c"
  let ?ts = "tagged 0 (map (fragments_of T F) ?bs)"
  let ?d = "text_records stale ?nul 0 ?bs" and ?a = "words_bytes (map fst ?ts)" and ?f = "concat (map (\<lambda>x. fragment F (snd x)) ?ts)"
  have len: "length ?bs < 2 ^ 32 - 1"
    using assms(5) by (simp add: GetBlockCount_def GetBlocksList_def length_concat comp_def)
  have w: "write_text_blocks T stale F ?nul True 0 ?bs = Inr (?d, ?a, ?f, map (\<lambda>b. b\<lparr>b_saveNecessary := False\<rparr>) ?bs)"
    using write_text_blocks_eq [of ?bs ?nul "c_blockSize c" T F stale 0] assms(3,4) len by simp
  have "c\<lparr>c_blocks := regroup (c_blocks c) (map (\<lambda>b. b\<lparr>b_saveNecessary := False\<rparr>) ?bs)\<rparr>
      = map_blocks (\<lambda>b. b\<lparr>b_saveNecessary := False\<rparr>) c"
    by (simp add: GetBlocksList_def regroup_map map_blocks_def)
  moreover have ne: "fragmentPath \<noteq> addressPath" "fragmentPath \<noteq> dataPath" "dataPath \<noteq> addressPath" "addressPath \<noteq> dataPath"
    using assms(12) by auto
  ultimately have wr: "WriteColumn_text T stale F writable dir db tb c fs
        = Inr (map_blocks (\<lambda>b. b\<lparr>b_saveNecessary := False\<rparr>) c, fs(fragmentPath \<mapsto> ?f, dataPath \<mapsto> ?d, addressPath \<mapsto> ?a))" for fs
    using w ne assms(7-9,13) by (auto simp: WriteColumn_text_def Let_def open_out_def fun_upd_twist)
  obtain c0 where new: "ColumnBase_new (same_value T) (text_elem T) (c_name c) (c_blockSize c) ?nul (c_isUnique c) = Inr c0"
    and c0: "c_blocks c0 = [(- 1, [])]" "c_size c0 = 0" "c_blockSize c0 = c_blockSize c"
      "c_isNullable c0 = ?nul" "c_isUnique c0 = c_isUnique c" "c_uniqueHashmap c0 = []"
    using ColumnBase_new_eq [of ?nul "c_isUnique c" "same_value T" "text_elem T" "c_name c" "c_blockSize c"] assms(6) by metis
  define c1 where "c1 = c0\<lparr>c_fileAddressPath := addressPath, c_fileDataPath := dataPath,
    c_fileFragmentPath := fragmentPath, c_encoding := enc, c_defaultValue := dv\<rparr>"
  have c1: "c_blocks c1 = [(- 1, [])]" "c_size c1 = 0" "c_blockSize c1 = c_blockSize c"
    "c_isNullable c1 = ?nul" "c_isUnique c1 = c_isUnique c" "c_uniqueHashmap c1 = []" "c_defaultValue c1 = dv" by (simp_all add: c1_def c0)
  define c2 where "c2 = (if c_isUnique c then c1\<lparr>c_uniqueHashmap := h\<rparr> else c1)"
  have u: "load_unique (same_value T) (block_values ?bs) c1 = Inr c2"
    using assms(6) c1 by (auto simp: load_unique_def c2_def column_values_def block_values_def)
  have frags: "\<forall>k<length ?bs. read_fragments F ?f (of_nat (0 + k)) 0 (map fst ?ts) = Inr (texts_of T (?bs ! k))"
    using read_written_fragments [of ?bs T F] assms(2,4) len by simp
  have vals: "\<forall>b\<in>set ?bs. traverseR (of_text T) (texts_of T b) = Inr (values_of b)"
    using assms(4) packable_values by blast
  obtain bs where l: "load_text_blocks T junk F ?f (map fst ?ts) ?d c1 = Inr (c2\<lparr>c_blocks := [(- 1, [] @ bs)]\<rparr>)"
    and s: "text_blocks_as 0 ?bs bs"
    using load_text_records [of ?bs c1 stale F ?f 0 "map fst ?ts" T c2 "[]" junk] assms(3,4,11) vals frags u c1 by auto
  have js: "words_of (length ?a div 4) ?a = map fst ?ts"
    using words_of_bytes [of "map fst ?ts" 0 "[]"] by simp
  have "load_text_blocks T junk F ?f (map fst ?ts) [] c1 = Inr c1"
    by (simp add: load_text_blocks.simps load_text_record_def load_head_def read_word_def)
  then have "LoadColumn_text T junk F fs addressPath dataPath fragmentPath enc ?nul (c_isUnique c) dflt (c_blockSize c) (c_name c)
      = load_text_blocks T junk F ?f (map fst ?ts) ?d c1"
    if "fs dataPath = Some ?d \<and> fs addressPath = Some ?a \<and> fs fragmentPath = Some ?f" for fs
    using new that js assms(10) by (simp add: LoadColumn_text_def c1_def [symmetric] split: list.split)
  moreover define c' where "c' = c2\<lparr>c_blocks := [(- 1, bs)]\<rparr>"
  ultimately have ld: "\<forall>fs. fs dataPath = Some ?d \<and> fs addressPath = Some ?a \<and> fs fragmentPath = Some ?f \<longrightarrow>
      LoadColumn_text T junk F fs addressPath dataPath fragmentPath enc ?nul (c_isUnique c) dflt (c_blockSize c) (c_name c) = Inr c'"
    using l by simp
  have "c_blocks c' = [(- 1, bs)]" "c_size c' = 0" "c_defaultValue c' = dv" "c_isUnique c \<longrightarrow> c_uniqueHashmap c' = h"
    "c_isNullable c' = c_isNullable c" "c_isUnique c' = c_isUnique c"
    using c1 by (simp_all add: c'_def c2_def)
  then show ?thesis using wr ld s by blast
qed

lemma text_file_roundtrip:
  assumes "0 < F" and "F < 2 ^ 31" and "\<forall>i n. length (stale i n) = n"
    and "\<forall>b\<in>set (GetBlocksList c). storable (c_isNullable c) (c_blockSize c) b \<and> packable T F b"
    and "GetBlockCount c < 2 ^ 32 - 1"
    and "c_isUnique c \<longrightarrow> \<not> c_isNullable c \<and> collect_unique (same_value T) (column_values c) [] = Some h"
    and "dataPath = data_path dir db tb c" and "addressPath = address_path dir db tb c" and "fragmentPath = fragment_path dir db tb c"
    and "of_text T dflt = Inr d" and "kind (text_elem T) = StringStats \<or> kind (text_elem T) = GeoStats"
    and "distinct [dataPath, addressPath, fragmentPath]" and "\<forall>p\<in>{dataPath, addressPath, fragmentPath}. writable p"
  shows "\<exists>fs' c' bs. WriteColumn_text T stale F writable dir db tb c fs
        = Inr (map_blocks (\<lambda>b. b\<lparr>b_saveNecessary := False\<rparr>) c, fs')
    \<and> LoadColumn_text T junk F fs' addressPath dataPath fragmentPath enc (c_isNullable c) (c_isUnique c) dflt (c_blockSize c) (c_name c)
        = Inr c'
    \<and> c_blocks c' = [(- 1, bs)] \<and> text_blocks_as 0 (GetBlocksList c) bs \<and> c_size c' = 0 \<and> c_defaultValue c' = d
    \<and> (c_isUnique c \<longrightarrow> c_uniqueHashmap c' = h)"
proof -
  obtain x a f c' bs where w: "\<forall>fs. WriteColumn_text T stale F writable dir db tb c fs
        = Inr (map_blocks (\<lambda>b. b\<lparr>b_saveNecessary := False\<rparr>) c, fs(fragmentPath \<mapsto> f, dataPath \<mapsto> x, addressPath \<mapsto> a))"
    and l: "\<forall>fs. fs dataPath = Some x \<and> fs addressPath = Some a \<and> fs fragmentPath = Some f \<longrightarrow>
        LoadColumn_text T junk F fs addressPath dataPath fragmentPath enc (c_isNullable c) (c_isUnique c) dflt (c_blockSize c) (c_name c) = Inr c'"
    and c': "c_blocks c' = [(- 1, bs)]" "text_blocks_as 0 (GetBlocksList c) bs" "c_size c' = 0" "c_defaultValue c' = d"
      "c_isUnique c \<longrightarrow> c_uniqueHashmap c' = h"
    using text_io [where T = T and dflt = dflt and writable = writable and stale = stale and dataPath = dataPath
        and addressPath = addressPath and fragmentPath = fragmentPath and c = c and junk = junk and enc = enc, OF assms] by blast
  define fs' where "fs' = fs(fragmentPath \<mapsto> f, dataPath \<mapsto> x, addressPath \<mapsto> a)"
  have "fs' dataPath = Some x \<and> fs' addressPath = Some a \<and> fs' fragmentPath = Some f" using assms(12) by (auto simp: fs'_def)
  then show ?thesis using w l c' by (intro exI [of _ fs'] exI [of _ c'] exI [of _ bs]) (simp add: fs'_def)
qed

text \<open>
  C17. A column of strings that is written to its three files and loaded again has the same rows, null
  rows included, block by block, for blocks whose strings fit into a fragment, contain no zero byte,
  and whose last string does not start a fragment. The number of rows of the column is not restored.
\<close>

theorem string_file_roundtrip:
  assumes "0 < F" and "F < 2 ^ 31" and "\<forall>i n. length (stale i n) = n"
    and "\<forall>b\<in>set (GetBlocksList c). storable (c_isNullable c) (c_blockSize c) b \<and>
      (\<forall>s\<in>set (values_of b). entry_size s \<le> F \<and> stored_string s) \<and> last_joins F [] (values_of b)"
    and "GetBlockCount c < 2 ^ 32 - 1"
    and "c_isUnique c \<longrightarrow> \<not> c_isNullable c \<and> collect_unique (=) (column_values c) [] = Some h"
    and "dataPath = data_path dir db tb c" and "addressPath = address_path dir db tb c" and "fragmentPath = fragment_path dir db tb c"
    and "distinct [dataPath, addressPath, fragmentPath]" and "\<forall>p\<in>{dataPath, addressPath, fragmentPath}. writable p"
  shows "\<exists>fs' c' bs. WriteColumn_string stale F writable dir db tb c fs
        = Inr (map_blocks (\<lambda>b. b\<lparr>b_saveNecessary := False\<rparr>) c, fs')
    \<and> LoadColumn_string junk F fs' addressPath dataPath fragmentPath enc (c_isNullable c) (c_isUnique c) dflt (c_blockSize c) (c_name c)
        = Inr c'
    \<and> c_blocks c' = [(- 1, bs)] \<and> text_blocks_as 0 (GetBlocksList c) bs \<and> c_size c' = 0 \<and> c_defaultValue c' = dflt
    \<and> (c_isUnique c \<longrightarrow> c_uniqueHashmap c' = h)"
proof -
  have T: "same_value string_type = (=)" "of_text string_type = Inr" "kind (text_elem string_type) = StringStats"
    by (simp_all add: string_type_def elem_string_def)
  have "\<forall>b\<in>set (GetBlocksList c). storable (c_isNullable c) (c_blockSize c) b \<and> packable string_type F b"
    using assms(4) by (simp add: packable_def texts_of_def string_type_def)
  then show ?thesis
    unfolding WriteColumn_string_def LoadColumn_string_def
    using assms by (intro text_file_roundtrip) (simp_all add: T)
qed

text \<open>A polygon that is stored and read back as it is.\<close>

definition stored_polygon :: "nat \<Rightarrow> ComplexPolygon \<Rightarrow> bool" where
  "stored_polygon F p \<longleftrightarrow> p \<noteq> [] \<and> length p \<le> MAX_POLYGONS_NUMBER \<and> (\<forall>ps\<in>set p. ring ps) \<and> entry_size (WktFromPolygon p False) \<le> F"

lemma polygon_text_eq: "p \<noteq> [] \<Longrightarrow> polygon_text p = WktFromPolygon p False"
proof -
  assume "p \<noteq> []"
  then have "join_with '', '' (map (show_ring False) p) \<noteq> []"
    by (cases p rule: remdups_adj.cases) (simp_all add: show_ring_def)
  then show ?thesis by (auto simp: polygon_text_def WktFromPolygon_def neq_Nil_conv)
qed

lemma stored_polygon_text:
  assumes "stored_polygon F p"
  shows "entry_size (polygon_text p) \<le> F \<and> stored_string (polygon_text p) \<and> FromWkt_polygon (polygon_text p) = Inr p"
proof -
  have "\<not> word_char CHR 0x00" by (simp add: word_char_def is_digit_def)
  then have "stored_string (WktFromPolygon p False)" using wkt_chars [of "CHR 0x00" p] by (auto simp: stored_string_def)
  then show ?thesis using assms wkt_roundtrip [of p] by (simp add: stored_polygon_def polygon_text_eq)
qed

text \<open>
  C18. A column of polygons that is written to its three files and loaded again has the same rows, null
  rows included, block by block, when its polygons have one to eight closed rings of coordinates that are
  printed as plain decimal numbers, their texts fit into a fragment, and the last text of a block does
  not start a fragment.
\<close>

theorem polygon_file_roundtrip:
  assumes "0 < F" and "F < 2 ^ 31" and "\<forall>i n. length (stale i n) = n"
    and "\<forall>b\<in>set (GetBlocksList c). storable (c_isNullable c) (c_blockSize c) b \<and>
      (\<forall>p\<in>set (values_of b). stored_polygon F p) \<and> last_joins F [] (map polygon_text (values_of b))"
    and "GetBlockCount c < 2 ^ 32 - 1"
    and "c_isUnique c \<longrightarrow> \<not> c_isNullable c \<and> collect_unique same (column_values c) [] = Some h"
    and "dataPath = data_path dir db tb c" and "addressPath = address_path dir db tb c" and "fragmentPath = fragment_path dir db tb c"
    and "FromWkt_polygon dflt = Inr d"
    and "distinct [dataPath, addressPath, fragmentPath]" and "\<forall>p\<in>{dataPath, addressPath, fragmentPath}. writable p"
  shows "\<exists>fs' c' bs. WriteColumn_polygon same stale F writable dir db tb c fs
        = Inr (map_blocks (\<lambda>b. b\<lparr>b_saveNecessary := False\<rparr>) c, fs')
    \<and> LoadColumn_polygon same junk F fs' addressPath dataPath fragmentPath enc (c_isNullable c) (c_isUnique c) dflt (c_blockSize c) (c_name c)
        = Inr c'
    \<and> c_blocks c' = [(- 1, bs)] \<and> text_blocks_as 0 (GetBlocksList c) bs \<and> c_size c' = 0 \<and> c_defaultValue c' = d
    \<and> (c_isUnique c \<longrightarrow> c_uniqueHashmap c' = h)"
proof -
  have T: "same_value (polygon_type same) = same" "of_text (polygon_type same) = FromWkt_polygon"
    "kind (text_elem (polygon_type same)) = GeoStats"
    by (simp_all add: polygon_type_def elem_Polygon_def)
  have "\<forall>b\<in>set (GetBlocksList c). storable (c_isNullable c) (c_blockSize c) b \<and> packable (polygon_type same) F b"
    using assms(4) stored_polygon_text [of F] by (simp add: packable_def texts_of_def polygon_type_def)
  then show ?thesis
    unfolding WriteColumn_polygon_def LoadColumn_polygon_def
    using assms by (intro text_file_roundtrip) (simp_all add: T)
qed

text \<open>A string that starts the last fragment of a block alone.\<close>

lemma pack_last_alone: "\<not> last_joins F g ss \<Longrightarrow> pack F g ss = butlast (pack F g ss) @ [[last ss]]"
proof (induction F g ss rule: pack.induct)
  case (2 F g s ss)
  then show ?case by (cases "ss = []") (auto split: if_splits simp: pack_not_Nil)
qed simp

lemma concat_pack_butlast:
  assumes "\<not> last_joins F [] ss"
  shows "concat (butlast (pack F [] ss)) = butlast ss"
proof -
  have "ss = concat (butlast (pack F [] ss)) @ [last ss]"
    using concat_pack [of F "[]" ss] pack_last_alone [OF assms] by (metis append_Nil concat.simps concat_append append_Nil2)
  then show ?thesis by (metis butlast_snoc)
qed

text \<open>
  C36. Where the last string of a block does not fit into the fragment of the string before it, the
  address file gets one entry fewer than the fragment file has fragments, and the last string of the
  block is not read again.
\<close>

theorem string_last_fragment_lost:
  assumes "F < 2 ^ 31" and "\<forall>s\<in>set ss. entry_size s \<le> F \<and> stored_string s" and "\<not> last_joins F [] ss"
  shows "\<exists>d js. write_entries F index ss 0 True = Inr (d, words_bytes js)
    \<and> length d = Suc (length js) * F \<and> read_fragments F d index 0 js = Inr (butlast ss)"
proof -
  let ?ps = "pack F [] ss"
  have "ss \<noteq> []" using assms(3) by auto
  then obtain d n where w: "write_entries F index ss 0 True = Inr (d, concat (replicate n (word_bytes index)))"
    and d: "d = concat (map (fragment F) ?ps)" and n: "Suc n = length ?ps"
    using write_entries_pack [of "[]" F ss index True] assms(2,3) by auto
  define ts where "ts = map (Pair index) (butlast ?ps)"
  have ok: "total_size p \<le> F \<and> (\<forall>s\<in>set p. stored_string s)" if "p \<in> set ?ps" for p
  proof -
    have "set p \<subseteq> set ss" using that concat_pack [of F "[]" ss] by (metis UN_upper append_Nil set_concat)
    then show ?thesis using that assms(2) pack_fits [of "[]" F ss] by auto
  qed
  define z where "z = fragment F [last ss]"
  have d': "d = concat (map (\<lambda>x. fragment F (snd x)) ts) @ z"
    using d arg_cong [OF pack_last_alone [OF assms(3)], of "\<lambda>x. concat (map (fragment F) x)"] by (simp add: ts_def comp_def z_def)
  have "read_fragments F d index 0 (map fst ts) = Inr (concat (map snd (filter (\<lambda>x. fst x = index) ts)))"
    using ok assms(1) d' by (intro read_tagged_fragments_prefix [of ts F 0 d z]) (auto simp: ts_def dest: in_set_butlastD)
  moreover have "map snd (filter (\<lambda>x. fst x = index) ts) = butlast ?ps" by (simp add: ts_def filter_True comp_def)
  moreover have "map fst ts = replicate n index" using n by (simp add: ts_def comp_def map_replicate_const)
  moreover have "sum_list (map (\<lambda>p. length (fragment F p)) ps) = length ps * F" if "set ps \<subseteq> set ?ps" for ps
    using that by (induction ps) (use ok in \<open>auto simp: length_fragment\<close>)
  then have "length d = Suc n * F" using d n by (simp add: length_concat comp_def)
  ultimately show ?thesis
    using w concat_pack_butlast [OF assms(3)]
    by (intro exI [of _ d] exI [of _ "replicate n index"]) (simp add: words_bytes_def)
qed

section \<open>A column of three strings\<close>

definition string_sample_block :: "string block" where
  "string_sample_block =
    (projr (BlockBase_data elem_string 4 [''ab'', ''c'', ''d''] False True True True 0))\<lparr>b_groupId := - 1\<rparr>"

definition string_sample :: "string column" where
  "string_sample = (projr (ColumnBase_new (=) elem_string ''s'' 4 True False))\<lparr>c_blocks := [(- 1, [string_sample_block])]\<rparr>"

lemma string_sample_block:
  "storable True 4 string_sample_block" "rows string_sample_block = [Some ''ab'', Some ''c'', Some ''d'']"
  "b_size string_sample_block = 3" "values_of string_sample_block = [''ab'', ''c'', ''d'']"
proof -
  obtain b where b: "BlockBase_data elem_string 4 [''ab'', ''c'', ''d''] False True True True 0 = Inr b" "block_ok b"
    "rows b = map Some [''ab'', ''c'', ''d'']" "b_capacity b = 4" "b_isNullable b = True" "b_size b = length [''ab'', ''c'', ''d'']"
    by (rule string_block.BlockBase_data_ok [of "[''ab'', ''c'', ''d'']" 4 True True 0]) simp_all
  have s: "string_sample_block = b\<lparr>b_groupId := - 1\<rparr>" by (simp add: string_sample_block_def b(1))
  have "is_null string_sample_block = is_null b" by (rule ext) (simp add: s is_null_def)
  then show "rows string_sample_block = [Some ''ab'', Some ''c'', Some ''d'']" using b(3) by (simp add: rows_def s cong: if_cong)
  show "storable True 4 string_sample_block" "b_size string_sample_block = 3"
    using b by (auto simp: s storable_def block_ok_def split: option.splits)
  show "values_of string_sample_block = [''ab'', ''c'', ''d'']"
    using b(2,3,4,6) by (auto simp: s values_of_def rows_def block_ok_def take_Suc_conv_app_nth split: if_splits)
qed

theorem string_last_fragment_lost_witness:
  "\<exists>d js. write_entries 16 5 [''ab'', ''c'', ''d''] 0 True = Inr (d, words_bytes js)
    \<and> length d = Suc (length js) * 16 \<and> read_fragments 16 d 5 0 js = Inr [''ab'', ''c'']"
  using string_last_fragment_lost [of 16 "[''ab'', ''c'', ''d'']" 5]
  by (simp add: entry_size_def stored_string_def)

lemma string_sample:
  "c_isNullable string_sample = True" "c_isUnique string_sample = False" "c_blockSize string_sample = 4"
  "c_name string_sample = ''s''" "GetBlocksList string_sample = [string_sample_block]" "GetBlockCount string_sample = 1"
  "data_path ''/db/'' ''d'' ''t'' string_sample = ''/db/d@t@s.data''"
  "address_path ''/db/'' ''d'' ''t'' string_sample = ''/db/d@t@s.adrs''"
  "fragment_path ''/db/'' ''d'' ''t'' string_sample = ''/db/d@t@s.fragdata''"
  by (simp_all add: string_sample_def ColumnBase_new_def SetIsNullable_def SetIsUnique_def SetIsNullableInBlocks_def
      map_blocks_def data_path_def address_path_def fragment_path_def column_path_def GetBlocksList_def GetBlockCount_def)

theorem string_file_roundtrip_witness:
  "\<exists>fs' c' bs. WriteColumn_string (\<lambda>_ n. replicate n 0) 32 (\<lambda>_. True) ''/db/'' ''d'' ''t'' string_sample (\<lambda>_. None)
        = Inr (map_blocks (\<lambda>b. b\<lparr>b_saveNecessary := False\<rparr>) string_sample, fs')
    \<and> LoadColumn_string (\<lambda>_. [255]) 32 fs' ''/db/d@t@s.adrs'' ''/db/d@t@s.data'' ''/db/d@t@s.fragdata'' ''enc'' True False ''x'' 4 ''s''
        = Inr c'
    \<and> c_blocks c' = [(- 1, bs)] \<and> map rows bs = [[Some ''ab'', Some ''c'', Some ''d'']]"
proof -
  note rt = string_file_roundtrip [of 32 "\<lambda>_ n. replicate n 0" string_sample "[]" "''/db/d@t@s.data''" "''/db/''" "''d''" "''t''"
      "''/db/d@t@s.adrs''" "''/db/d@t@s.fragdata''" "\<lambda>_. True" "\<lambda>_. None" "\<lambda>_. [255]" "''enc''" "''x''", unfolded string_sample]
  have "\<forall>s\<in>set (values_of string_sample_block). entry_size s \<le> 32 \<and> stored_string s"
    "last_joins 32 [] (values_of string_sample_block)"
    by (simp_all add: string_sample_block entry_size_def stored_string_def)
  then obtain fs' c' bs where "WriteColumn_string (\<lambda>_ n. replicate n 0) 32 (\<lambda>_. True) ''/db/'' ''d'' ''t'' string_sample (\<lambda>_. None)
        = Inr (map_blocks (\<lambda>b. b\<lparr>b_saveNecessary := False\<rparr>) string_sample, fs')"
    and "LoadColumn_string (\<lambda>_. [255]) 32 fs' ''/db/d@t@s.adrs'' ''/db/d@t@s.data'' ''/db/d@t@s.fragdata'' ''enc'' True False ''x'' 4 ''s''
        = Inr c'"
    and c': "c_blocks c' = [(- 1, bs)]" "text_blocks_as 0 [string_sample_block] bs"
    using rt by (simp add: string_sample_block) blast
  moreover have "map rows bs = [[Some ''ab'', Some ''c'', Some ''d'']]"
    using c'(2) string_sample_block by (cases bs) (auto simp: text_blocks_as_def text_block_as_def)
  ultimately show ?thesis by (intro exI conjI)
qed

definition polygon_sample_block :: "ComplexPolygon block" where
  "polygon_sample_block =
    (projr (BlockBase_data elem_Polygon 4 [[[(0, 0), (0, 0)]]] False True True True 0))\<lparr>b_groupId := - 1\<rparr>"

definition polygon_sample :: "ComplexPolygon column" where
  "polygon_sample =
    (projr (ColumnBase_new (\<lambda>_ _. False) elem_Polygon ''p'' 4 True False))\<lparr>c_blocks := [(- 1, [polygon_sample_block])]\<rparr>"

lemma polygon_sample_block:
  "storable True 4 polygon_sample_block" "rows polygon_sample_block = [Some [[(0, 0), (0, 0)]]]"
  "b_size polygon_sample_block = 1" "values_of polygon_sample_block = [[[(0, 0), (0, 0)]]]"
proof -
  obtain b where b: "BlockBase_data elem_Polygon 4 [[[(0, 0), (0, 0)]]] False True True True 0 = Inr b" "block_ok b"
    "rows b = map Some [[[(0, 0), (0, 0)]]]" "b_capacity b = 4" "b_isNullable b = True" "b_size b = length [[[(0 :: f32, 0 :: f32), (0, 0)]]]"
    by (rule Polygon_block.BlockBase_data_ok [of "[[[(0, 0), (0, 0)]]]" 4 True True 0]) simp_all
  have s: "polygon_sample_block = b\<lparr>b_groupId := - 1\<rparr>" by (simp add: polygon_sample_block_def b(1))
  have "is_null polygon_sample_block = is_null b" by (rule ext) (simp add: s is_null_def)
  then show "rows polygon_sample_block = [Some [[(0, 0), (0, 0)]]]" using b(3) by (simp add: rows_def s cong: if_cong)
  show "storable True 4 polygon_sample_block" "b_size polygon_sample_block = 1"
    using b by (auto simp: s storable_def block_ok_def split: option.splits)
  show "values_of polygon_sample_block = [[[(0, 0), (0, 0)]]]"
    using b(2,3,4,6) by (auto simp: s values_of_def rows_def block_ok_def take_Suc_conv_app_nth split: if_splits)
qed

lemma polygon_sample:
  "c_isNullable polygon_sample = True" "c_isUnique polygon_sample = False" "c_blockSize polygon_sample = 4"
  "c_name polygon_sample = ''p''" "GetBlocksList polygon_sample = [polygon_sample_block]" "GetBlockCount polygon_sample = 1"
  "data_path ''/db/'' ''d'' ''t'' polygon_sample = ''/db/d@t@p.data''"
  "address_path ''/db/'' ''d'' ''t'' polygon_sample = ''/db/d@t@p.adrs''"
  "fragment_path ''/db/'' ''d'' ''t'' polygon_sample = ''/db/d@t@p.fragdata''"
  by (simp_all add: polygon_sample_def ColumnBase_new_def SetIsNullable_def SetIsUnique_def SetIsNullableInBlocks_def
      map_blocks_def data_path_def address_path_def fragment_path_def column_path_def GetBlocksList_def GetBlockCount_def)

lemma stored_polygon_sample: "stored_polygon 64 [[(0, 0), (0, 0)]]"
proof -
  have "show_coord False 0 = ''0''" by (simp add: show_eval)
  then show ?thesis
    by (simp add: stored_polygon_def MAX_POLYGONS_NUMBER_def ring_def plain_point_def plain_0 entry_size_def WktFromPolygon_def show_ring_def)
qed

theorem polygon_file_roundtrip_witness:
  "\<exists>fs' c' bs. WriteColumn_polygon (\<lambda>_ _. False) (\<lambda>_ n. replicate n 0) 64 (\<lambda>_. True) ''/db/'' ''d'' ''t'' polygon_sample (\<lambda>_. None)
        = Inr (map_blocks (\<lambda>b. b\<lparr>b_saveNecessary := False\<rparr>) polygon_sample, fs')
    \<and> LoadColumn_polygon (\<lambda>_ _. False) (\<lambda>_. [255]) 64 fs' ''/db/d@t@p.adrs'' ''/db/d@t@p.data'' ''/db/d@t@p.fragdata'' ''enc'' True False
        (WktFromPolygon [[(0, 0), (0, 0)]] False) 4 ''p'' = Inr c'
    \<and> c_blocks c' = [(- 1, bs)] \<and> map rows bs = [[Some [[(0, 0), (0, 0)]]]]"
proof -
  note rt = polygon_file_roundtrip [of 64 "\<lambda>_ n. replicate n 0" polygon_sample "\<lambda>_ _. False" "[]" "''/db/d@t@p.data''" "''/db/''" "''d''" "''t''"
      "''/db/d@t@p.adrs''" "''/db/d@t@p.fragdata''" "WktFromPolygon [[(0, 0), (0, 0)]] False" "[[(0, 0), (0, 0)]]" "\<lambda>_. True" "\<lambda>_. None"
      "\<lambda>_. [255]" "''enc''", unfolded polygon_sample]
  have "FromWkt_polygon (WktFromPolygon [[(0, 0), (0, 0)]] False) = Inr [[(0, 0), (0, 0)]]" "entry_size (polygon_text [[(0, 0), (0, 0)]]) \<le> 64"
    using stored_polygon_text [OF stored_polygon_sample] by (simp_all add: polygon_text_eq)
  then obtain fs' c' bs where "WriteColumn_polygon (\<lambda>_ _. False) (\<lambda>_ n. replicate n 0) 64 (\<lambda>_. True) ''/db/'' ''d'' ''t'' polygon_sample (\<lambda>_. None)
        = Inr (map_blocks (\<lambda>b. b\<lparr>b_saveNecessary := False\<rparr>) polygon_sample, fs')"
    and "LoadColumn_polygon (\<lambda>_ _. False) (\<lambda>_. [255]) 64 fs' ''/db/d@t@p.adrs'' ''/db/d@t@p.data'' ''/db/d@t@p.fragdata'' ''enc'' True False
        (WktFromPolygon [[(0, 0), (0, 0)]] False) 4 ''p'' = Inr c'"
    and c': "c_blocks c' = [(- 1, bs)]" "text_blocks_as 0 [polygon_sample_block] bs"
    using rt by (simp add: polygon_sample_block stored_polygon_sample) blast
  moreover have "map rows bs = [[Some [[(0, 0), (0, 0)]]]]"
    using c'(2) polygon_sample_block by (cases bs) (auto simp: text_blocks_as_def text_block_as_def)
  ultimately show ?thesis by (intro exI conjI)
qed

end
