(* ===== verification/Column_Points.thy ===== *)
theory Column_Points
  imports Column_Fragments
begin

text \<open>
  Columns of points on disk (\<open>WriteColumn\<close> and \<open>LoadColumn\<close> of \<open>Database.cpp\<close>): a record per block with the
  latitudes and longitudes of its rows, padded to the size of a block. Writing and loading is a round trip.
\<close>

section \<open>Writing\<close>

definition point_bytes :: "Point \<Rightarrow> int8 list" where
  "point_bytes p = word_bytes (fst p) @ word_bytes (snd p)"

definition point_record :: "freed \<Rightarrow> bool \<Rightarrow> nat \<Rightarrow> 32 word \<Rightarrow> Point block \<Rightarrow> int8 list result" where
  "point_record stale isNullable blockSize index b =
    (if length (b_data b) < b_size b then Inl UndefinedBehaviour
     else mapR (\<lambda>m. word_bytes index @ word_bytes (word_of_int (b_groupId b) :: int32)
         @ word_bytes (of_nat (GetNullBitMaskSizeInBytes (b_size b)) :: 32 word) @ m
         @ word_bytes (of_nat (b_size b) :: 64 word) @ word_bytes (of_bool (b_isCompressed b) :: int8)
         @ concat (map point_bytes (take (b_size b) (b_data b)))
         @ concat (replicate (blockSize - b_size b) (point_bytes (f32_max, f32_max))))
       (mask_bytes (stale index) isNullable b))"

definition point_record_length :: "nat \<Rightarrow> nat \<Rightarrow> nat" where
  "point_record_length blockSize n = 2 * 4 + 8 + 4 + GetNullBitMaskSizeInBytes n + 1 + 2 * blockSize * 4"

fun write_point_blocks ::
  "freed \<Rightarrow> bool \<Rightarrow> nat \<Rightarrow> 32 word \<Rightarrow> nat \<Rightarrow> Point block list
    \<Rightarrow> (int8 list \<times> int8 list \<times> Point block list) result" where
  "write_point_blocks stale isNullable blockSize index pos [] = Inr ([], [], [])"
| "write_point_blocks stale isNullable blockSize index pos (b # bs) =
    bindR (point_record stale isNullable blockSize index b) (\<lambda>r.
    if index + 1 = UINT32_MAX
    then Inr (r, word_bytes (of_nat pos :: 64 word), b\<lparr>b_saveNecessary := True\<rparr> # bs)
    else mapR (\<lambda>(d, a, bs'). (r @ d, word_bytes (of_nat pos :: 64 word) @ a, b\<lparr>b_saveNecessary := False\<rparr> # bs'))
      (write_point_blocks stale isNullable blockSize (index + 1) (pos + point_record_length blockSize (b_size b)) bs))"

definition WriteColumn_point ::
  "freed \<Rightarrow> (string \<Rightarrow> bool) \<Rightarrow> string \<Rightarrow> string \<Rightarrow> string \<Rightarrow> nat
    \<Rightarrow> Point column \<Rightarrow> files \<Rightarrow> (Point column \<times> files) result" where
  "WriteColumn_point stale writable dbDir dbName tableName blockSize c fs =
    (let dataPath = data_path dbDir dbName tableName c;
         addressPath = address_path dbDir dbName tableName c;
         fs1 = open_out writable dataPath (open_out writable addressPath fs)
     in if writable dataPath \<and> writable addressPath then
          mapR (\<lambda>(d, a, bs). (c\<lparr>c_blocks := regroup (c_blocks c) bs\<rparr>, fs1(dataPath \<mapsto> d, addressPath \<mapsto> a)))
            (write_point_blocks stale (c_isNullable c) blockSize 0 0 (GetBlocksList c))
        else Inr (c, fs1))"

section \<open>Loading\<close>

fun read_points :: "nat \<Rightarrow> int8 list \<Rightarrow> (Point list \<times> int8 list) result" where
  "read_points 0 r = Inr ([], r)"
| "read_points (Suc n) r0 =
    (case read_word r0 of None \<Rightarrow> Inl UndefinedBehaviour | Some (latitude :: f32, r1) \<Rightarrow>
    (case read_word r1 of None \<Rightarrow> Inl UndefinedBehaviour | Some (longitude :: f32, r2) \<Rightarrow>
       mapR (\<lambda>(ps, r). (FromLatLon latitude longitude # ps, r)) (read_points n r2)))"

text \<open>The new block gets the stored flag before it is filled.\<close>

definition add_loaded_points ::
  "Point list \<Rightarrow> bool \<Rightarrow> int \<Rightarrow> 32 word \<Rightarrow> nullmask list \<Rightarrow> Point column \<Rightarrow> Point column result" where
  "add_loaded_points ps isCompressed g index nullBitMask c =
    (let c1 = AddBlock_empty elem_Point g False index c in
     bindR (InsertData_block elem_Point ps False ((last (blocks_at g c1))\<lparr>b_isCompressed := isCompressed\<rparr>)) (\<lambda>b.
     mapR (\<lambda>b'. set_last g b' c1) (SetNullBitmask_ptr elem_Point (Some nullBitMask) b)))"

definition load_point_record ::
  "(32 word \<Rightarrow> int8 list) \<Rightarrow> (Point \<Rightarrow> Point \<Rightarrow> bool) \<Rightarrow> int8 list \<Rightarrow> Point column
    \<Rightarrow> (Point column \<times> int8 list) option result" where
  "load_point_record junk same r0 c =
    bindR (load_head junk (GetNullBitMaskSize (c_blockSize c)) r0) (\<lambda>h. case h of
      None \<Rightarrow> Inr None
    | Some (index, groupId, nullBitMask, r1) \<Rightarrow>
        (case read_word r1 of None \<Rightarrow> Inl UndefinedBehaviour | Some (dataLength :: 64 word, r2) \<Rightarrow>
        (case read_word r2 of None \<Rightarrow> Inl UndefinedBehaviour | Some (flag :: int8, r3) \<Rightarrow>
           let n = unat dataLength in
           if 1 < flag then Inl UndefinedBehaviour
           else if c_blockSize c < n then Inl RuntimeError
           else bindR (read_points n r3) (\<lambda>(ps, r4).
             bindR (load_unique same ps c) (\<lambda>c1.
             mapR (\<lambda>c2. Some (c2, drop ((c_blockSize c - n) * 2 * 4) r4))
               (add_loaded_points ps (flag = 1) (sint groupId) index nullBitMask c1))))))"

lemma read_points_shorter: "read_points n r = Inr (ps, r') \<Longrightarrow> length r' \<le> length r"
proof (induction n arbitrary: r ps)
  case (Suc n)
  then obtain x y :: f32 and r1 r2 qs where "read_word r = Some (x, r1)" "read_word r1 = Some (y, r2)" "read_points n r2 = Inr (qs, r')"
    by (cases "read_word r :: (f32 \<times> int8 list) option") (auto split: option.splits elim!: mapR.elims)
  then show ?case using Suc.IH [of r2 qs] by (auto dest!: read_word_shorter)
qed simp

lemma load_point_record_shorter:
  assumes "load_point_record junk same r c = Inr (Some (c', r'))"
  shows "length r' < length r"
proof -
  from assms obtain i g m r1 where h: "load_head junk (GetNullBitMaskSize (c_blockSize c)) r = Inr (Some (i, g, m, r1))"
    by (cases "load_head junk (GetNullBitMaskSize (c_blockSize c)) r") (auto simp: load_point_record_def split: option.splits)
  moreover from assms h obtain n r2 where n: "read_word r1 = Some (n :: 64 word, r2)"
    by (cases "read_word r1 :: (64 word \<times> int8 list) option") (auto simp: load_point_record_def)
  moreover from assms h n obtain z r3 where z: "read_word r2 = Some (z :: int8, r3)"
    by (cases "read_word r2 :: (int8 \<times> int8 list) option") (auto simp: load_point_record_def)
  moreover from assms h n z obtain ps r4 where "read_points (unat n) r3 = Inr (ps, r4)" "length r' \<le> length r4"
    by (cases "read_points (unat n) r3") (auto simp: load_point_record_def Let_def split: if_splits)
  ultimately show ?thesis using read_points_shorter [of "unat n" r3 ps r4] by (auto dest!: load_head_shorter read_word_shorter)
qed

function load_point_blocks ::
  "(32 word \<Rightarrow> int8 list) \<Rightarrow> (Point \<Rightarrow> Point \<Rightarrow> bool) \<Rightarrow> int8 list \<Rightarrow> Point column \<Rightarrow> Point column result" where
  "load_point_blocks junk same r c =
    (case load_point_record junk same r c of
       Inl e \<Rightarrow> Inl e
     | Inr None \<Rightarrow> Inr c
     | Inr (Some (c', r')) \<Rightarrow> load_point_blocks junk same r' c')"
  by pat_completeness auto
termination
  by (relation "measure (\<lambda>(junk, same, r, c). length r)") (auto dest: load_point_record_shorter)

declare load_point_blocks.simps [simp del]

definition LoadColumn_point ::
  "(32 word \<Rightarrow> int8 list) \<Rightarrow> (Point \<Rightarrow> Point \<Rightarrow> bool) \<Rightarrow> files \<Rightarrow> string \<Rightarrow> string \<Rightarrow> bool \<Rightarrow> bool \<Rightarrow> string \<Rightarrow> nat \<Rightarrow> string
    \<Rightarrow> Point column result" where
  "LoadColumn_point junk same fs fileAddressPath fileDataPath isNullable isUnique defaultValue blockSize name =
    bindR (ColumnBase_new same elem_Point name blockSize isNullable isUnique) (\<lambda>c.
    bindR (FromWkt_point defaultValue) (\<lambda>d.
    let c1 = c\<lparr>c_fileAddressPath := fileAddressPath, c_fileDataPath := fileDataPath, c_defaultValue := d\<rparr>
    in case fs fileDataPath of
         None \<Rightarrow> Inl UndefinedBehaviour
       | Some [] \<Rightarrow> Inr c1
       | Some r \<Rightarrow> load_point_blocks junk same r c1))"

section \<open>Round trip\<close>

lemma length_point_bytes [simp]: "length (point_bytes p) = 8"
  by (simp add: point_bytes_def)

lemma read_written_points: "read_points (length ps) (concat (map point_bytes ps) @ r) = Inr (ps, r)"
  by (induction ps) (simp_all add: point_bytes_def read_word_bytes FromLatLon_def)

lemma add_loaded_points_eq: "add_loaded_points ps False g index nm c = add_loaded_values elem_Point ps g index nm c"
proof -
  have "b\<lparr>b_isCompressed := False\<rparr> = b" if "\<not> b_isCompressed b" for b :: "Point block" using that by simp
  moreover have "\<not> b_isCompressed (last (blocks_at g (AddBlock_empty elem_Point g False index c)))"
    by (simp add: AddBlock_empty_def set_blocks_at_def blocks_at_def omap_get_set BlockBase_empty_def raw_block_def)
  ultimately have "(last (blocks_at g (AddBlock_empty elem_Point g False index c)))\<lparr>b_isCompressed := False\<rparr>
      = last (blocks_at g (AddBlock_empty elem_Point g False index c))" by blast
  then show ?thesis unfolding add_loaded_points_def add_loaded_values_def Let_def by (simp only:)
qed

lemma load_point_record_eq:
  assumes b: "storable (c_isNullable c) (c_blockSize c) b" and stale: "\<forall>i n. length (stale i n) = n"
    and u: "load_unique same (values_of b) c = Inr c1"
  obtains d b' where "point_record stale (c_isNullable c) (c_blockSize c) (of_nat i) b = Inr d"
    and "\<And>rest. load_point_record junk same (d @ rest) c =
      Inr (Some (set_blocks_at (- 1) (blocks_at (- 1) c @ [b']) c1, rest))"
    and "text_block_as i b b'"
proof -
  let ?n = "b_size b" and ?N = "c_blockSize c" and ?i = "of_nat i :: 32 word"
  let ?k = "GetNullBitMaskSizeInBytes ?n" and ?alloc = "GetNullBitMaskSize ?N"
  let ?pad = "concat (replicate (?N - ?n) (point_bytes (f32_max, f32_max)))"
  have n: "?n \<le> ?N" "?N < 2 ^ 31" and len: "length (b_data b) = ?N" and z: "\<not> b_isCompressed b" "b_groupId b = - 1"
    using b by (simp_all add: storable_def block_ok_def)
  obtain m where m: "length m = ?k" "mask_bytes (stale ?i) (c_isNullable c) b = Inr m"
      "\<And>x. b_bitMask b = Some x \<Longrightarrow> m = words_bytes (take (GetNullBitMaskSize ?n) x)"
    by (rule storable_mask [OF b spec [OF stale, of ?i]]) auto
  define tl where "tl = word_bytes (of_nat ?n :: 64 word) @ word_bytes (0 :: int8) @ concat (map point_bytes (values_of b)) @ ?pad"
  define d where "d = word_bytes ?i @ word_bytes (- 1 :: int32) @ word_bytes (of_nat ?k :: 32 word) @ m @ tl"
  have d: "point_record stale (c_isNullable c) ?N ?i b = Inr d"
    using n len z m by (simp add: point_record_def d_def tl_def values_of_def)
  have k: "?k \<le> 8 * ?alloc" "?k < 2 ^ 32"
    using n GetNullBitMaskSize_mono [OF n(1)] by (simp_all add: GetNullBitMaskSizeInBytes_def GetNullBitMaskSize_def)
  define nm :: "nullmask list" where "nm = words_of ?alloc (m @ drop ?k (junk ?i))"
  note c1 = load_unique_frame [OF u]
  have sl: "length (values_of b) = ?n" using n len by (simp add: values_of_def)
  have kind: "kind elem_Point = StringStats \<or> kind elem_Point = GeoStats" by (simp add: elem_Point_def)
  obtain b' where a: "add_loaded_values elem_Point (values_of b) (- 1) ?i nm c1 = Inr (set_blocks_at (- 1) (blocks_at (- 1) c1 @ [b']) c1)"
    and b': "b_size b' = ?n" "take ?n (b_data b') = values_of b" "block_ok b'" "b_capacity b' = ?N"
      "b_bitMask b' = (if c_isNullable c then Some nm else None)" "b_isNullable b' = c_isNullable c"
      "b_index b' = ?i" "\<not> b_saveNecessary b'"
    using add_loaded_values_eq [OF kind, of "values_of b" c1 nm "- 1" ?i] n c1 sl by (metis nm_def length_words_of)
  have run: "load_point_record junk same (d @ rest) c =
      Inr (Some (set_blocks_at (- 1) (blocks_at (- 1) c @ [b']) c1, rest))" for rest
  proof -
    have h: "load_head junk ?alloc (d @ rest) = Inr (Some (?i, - 1, nm, tl @ rest))"
      using load_head_bytes [OF m(1) k, of junk ?i "- 1" "tl @ rest"] unfolding d_def nm_def append_assoc .
    have "unat (of_nat ?n :: 64 word) = ?n" using n by (simp add: unat_of_nat)
    moreover have "read_points ?n (concat (map point_bytes (values_of b)) @ ?pad @ rest) = Inr (values_of b, ?pad @ rest)"
      using read_written_points [of "values_of b" "?pad @ rest"] sl by simp
    moreover have "drop ((?N - ?n) * 2 * 4) (?pad @ rest) = rest"
      by (simp add: length_concat sum_list_replicate)
    ultimately show ?thesis
      unfolding load_point_record_def h using u a c1 n
      by (simp add: tl_def read_word_bytes blocks_at_def Let_def add_loaded_points_eq)
  qed
  have "is_null b' j = is_null b j" if "j < ?n" for j
    using loaded_mask(1) [OF b nm_def m(3) _ that] b' by simp
  then have "rows b' = rows b"
    using b' n len by (intro rows_loaded) (auto simp: values_of_def block_ok_def)
  then have "text_block_as i b b'" using b b' by (simp add: text_block_as_def storable_def)
  with d run show thesis using that by blast
qed

lemma load_point_records:
  assumes "\<forall>b\<in>set bs. storable (c_isNullable c) (c_blockSize c) b" and "\<forall>i n. length (stale i n) = n"
    and "load_unique same (block_values bs) c = Inr c1" and "c_blocks c = [(- 1, prev)]" and "i + length bs < 2 ^ 32 - 1"
  shows "\<exists>d a bs'. write_point_blocks stale (c_isNullable c) (c_blockSize c) (of_nat i) pos bs
        = Inr (d, a, map (\<lambda>b. b\<lparr>b_saveNecessary := False\<rparr>) bs)
    \<and> load_point_blocks junk same d c = Inr (c1\<lparr>c_blocks := [(- 1, prev @ bs')]\<rparr>) \<and> text_blocks_as i bs bs'"
  using assms
proof (induction bs arbitrary: c c1 prev i pos)
  case Nil
  have "c1 = c" using Nil.prems(3) by (auto simp: block_values_def load_unique_def split: if_splits)
  moreover have "load_point_blocks junk same [] c = Inr c"
    by (simp add: load_point_blocks.simps [of junk same "[]" c] load_point_record_def load_head_def read_word_def)
  moreover have "c = c\<lparr>c_blocks := [(- 1, prev @ [])]\<rparr>" using Nil.prems(4) by simp
  ultimately show ?case
    by (intro exI [of _ "[]"]) (simp add: text_blocks_as_def)
next
  case (Cons b bs)
  let ?nul = "c_isNullable c" and ?N = "c_blockSize c"
  have "block_values (b # bs) = values_of b @ block_values bs" by (simp add: block_values_def values_of_def)
  then have "bindR (load_unique same (values_of b) c) (load_unique same (block_values bs)) = Inr c1"
    using Cons.prems(3) by (simp only: load_unique_append)
  then obtain c0 where u: "load_unique same (values_of b) c = Inr c0" and u': "load_unique same (block_values bs) c0 = Inr c1"
    by (cases "load_unique same (values_of b) c") simp_all
  note f = load_unique_frame [OF u]
  have b: "storable ?nul ?N b" using Cons.prems(1) by simp
  obtain d b' where d: "point_record stale ?nul ?N (of_nat i) b = Inr d"
    and r: "\<And>rest. load_point_record junk same (d @ rest) c =
      Inr (Some (set_blocks_at (- 1) (blocks_at (- 1) c @ [b']) c0, rest))"
    and s: "text_block_as i b b'"
    using load_point_record_eq [OF b Cons.prems(2) u, where junk = junk] by metis
  let ?upd = "\<lambda>c'. c'\<lparr>c_blocks := [(- 1, prev @ [b'])]\<rparr>" and ?pos = "pos + point_record_length ?N (b_size b)"
  have c: "set_blocks_at (- 1) (blocks_at (- 1) c @ [b']) c0 = ?upd c0"
    using Cons.prems(4) f by (simp add: set_blocks_at_def blocks_at_def)
  have ix: "(of_nat i :: 32 word) + 1 \<noteq> UINT32_MAX" "(of_nat i :: 32 word) + 1 = of_nat (Suc i)"
    using Cons.prems(5) by (simp_all add: index_no_overflow)
  have un: "load_unique same (block_values bs) (?upd c0) = Inr (?upd c1)" by (simp add: load_unique_blocks u')
  have st: "\<forall>b\<in>set bs. storable (c_isNullable (?upd c0)) (c_blockSize (?upd c0)) b" "c_blocks (?upd c0) = [(- 1, prev @ [b'])]"
    "Suc i + length bs < 2 ^ 32 - 1"
    using Cons.prems(1,5) f by simp_all
  obtain d2 a bs' where w: "write_point_blocks stale ?nul ?N (of_nat (Suc i)) ?pos bs = Inr (d2, a, map (\<lambda>b. b\<lparr>b_saveNecessary := False\<rparr>) bs)"
    and l: "load_point_blocks junk same d2 (?upd c0) = Inr (c1\<lparr>c_blocks := [(- 1, (prev @ [b']) @ bs')]\<rparr>)"
    and sl: "text_blocks_as (Suc i) bs bs'"
    using Cons.IH [OF st(1) Cons.prems(2) un st(2,3), of ?pos] f by auto
  have "write_point_blocks stale ?nul ?N (of_nat i) pos (b # bs)
      = Inr (d @ d2, word_bytes (of_nat pos :: 64 word) @ a, map (\<lambda>b. b\<lparr>b_saveNecessary := False\<rparr>) (b # bs))"
    using d w ix by (simp del: of_nat_Suc)
  moreover have "load_point_blocks junk same (d @ d2) c = Inr (c1\<lparr>c_blocks := [(- 1, prev @ b' # bs')]\<rparr>)"
    using load_point_blocks.simps [of junk same "d @ d2" c] r [of d2] l by (simp add: c)
  moreover have "text_blocks_as i (b # bs) (b' # bs')" using s sl by (rule text_blocks_as_Cons)
  ultimately show ?case by blast
qed

text \<open>What is written for a column of points, and what is loaded from any files that have it.\<close>

lemma point_io:
  assumes "\<forall>i n. length (stale i n) = n"
    and "\<forall>b\<in>set (GetBlocksList c). storable (c_isNullable c) (c_blockSize c) b"
    and "GetBlockCount c < 2 ^ 32 - 1"
    and "c_isUnique c \<longrightarrow> \<not> c_isNullable c \<and> collect_unique same (column_values c) [] = Some h"
    and "writable dataPath" and "writable addressPath" and "dataPath \<noteq> addressPath"
    and "dataPath = data_path dir db tb c" and "addressPath = address_path dir db tb c"
    and "FromWkt_point dflt = Inr v"
  shows "\<exists>d a c' bs. (\<forall>fs. WriteColumn_point stale writable dir db tb (c_blockSize c) c fs
        = Inr (map_blocks (\<lambda>b. b\<lparr>b_saveNecessary := False\<rparr>) c, fs(dataPath \<mapsto> d, addressPath \<mapsto> a)))
    \<and> (\<forall>fs. fs dataPath = Some d \<longrightarrow>
        LoadColumn_point junk same fs addressPath dataPath (c_isNullable c) (c_isUnique c) dflt (c_blockSize c) (c_name c) = Inr c')
    \<and> c_blocks c' = [(- 1, bs)] \<and> text_blocks_as 0 (GetBlocksList c) bs \<and> c_size c' = 0 \<and> c_defaultValue c' = v
    \<and> (c_isUnique c \<longrightarrow> c_uniqueHashmap c' = h) \<and> c_isNullable c' = c_isNullable c \<and> c_isUnique c' = c_isUnique c"
proof -
  let ?bs = "GetBlocksList c" and ?nul = "c_isNullable c"
  have len: "0 + length ?bs < 2 ^ 32 - 1"
    using assms(3) by (simp add: GetBlockCount_def GetBlocksList_def length_concat comp_def)
  obtain c0 where new: "ColumnBase_new same elem_Point (c_name c) (c_blockSize c) ?nul (c_isUnique c) = Inr c0"
    and c0: "c_blocks c0 = [(- 1, [])]" "c_size c0 = 0" "c_blockSize c0 = c_blockSize c"
      "c_isNullable c0 = ?nul" "c_isUnique c0 = c_isUnique c" "c_uniqueHashmap c0 = []"
    using ColumnBase_new_eq [of ?nul "c_isUnique c" same elem_Point "c_name c" "c_blockSize c"] assms(4) by metis
  define c1 where "c1 = c0\<lparr>c_fileAddressPath := addressPath, c_fileDataPath := dataPath, c_defaultValue := v\<rparr>"
  have c1: "c_blocks c1 = [(- 1, [])]" "c_size c1 = 0" "c_blockSize c1 = c_blockSize c"
    "c_isNullable c1 = ?nul" "c_isUnique c1 = c_isUnique c" "c_uniqueHashmap c1 = []" "c_defaultValue c1 = v" by (simp_all add: c1_def c0)
  define c2 where "c2 = (if c_isUnique c then c1\<lparr>c_uniqueHashmap := h\<rparr> else c1)"
  have u: "load_unique same (block_values ?bs) c1 = Inr c2"
    using assms(4) c1 by (auto simp: load_unique_def c2_def column_values_def block_values_def)
  obtain d a bs where w: "write_point_blocks stale ?nul (c_blockSize c) 0 0 ?bs = Inr (d, a, map (\<lambda>b. b\<lparr>b_saveNecessary := False\<rparr>) ?bs)"
    and l: "load_point_blocks junk same d c1 = Inr (c2\<lparr>c_blocks := [(- 1, [] @ bs)]\<rparr>)" and s: "text_blocks_as 0 ?bs bs"
    using load_point_records [of ?bs c1 stale same c2 "[]" 0 0 junk] assms(1,2) u c1 len by auto
  have "c\<lparr>c_blocks := regroup (c_blocks c) (map (\<lambda>b. b\<lparr>b_saveNecessary := False\<rparr>) ?bs)\<rparr> = map_blocks (\<lambda>b. b\<lparr>b_saveNecessary := False\<rparr>) c"
    by (simp add: GetBlocksList_def regroup_map map_blocks_def)
  then have wr: "WriteColumn_point stale writable dir db tb (c_blockSize c) c fs
        = Inr (map_blocks (\<lambda>b. b\<lparr>b_saveNecessary := False\<rparr>) c, fs(dataPath \<mapsto> d, addressPath \<mapsto> a))" for fs
    using w assms(5-9) by (auto simp: WriteColumn_point_def Let_def open_out_def fun_upd_twist)
  have "load_point_blocks junk same [] c1 = Inr c1"
    by (simp add: load_point_blocks.simps [of junk same "[]"] load_point_record_def load_head_def read_word_def)
  then have "LoadColumn_point junk same fs addressPath dataPath ?nul (c_isUnique c) dflt (c_blockSize c) (c_name c)
      = load_point_blocks junk same d c1" if "fs dataPath = Some d" for fs
    using new assms(10) that by (simp add: LoadColumn_point_def c1_def [symmetric] split: list.split)
  moreover define c' where "c' = c2\<lparr>c_blocks := [(- 1, bs)]\<rparr>"
  ultimately have ld: "\<forall>fs. fs dataPath = Some d \<longrightarrow>
      LoadColumn_point junk same fs addressPath dataPath ?nul (c_isUnique c) dflt (c_blockSize c) (c_name c) = Inr c'"
    using l by simp
  have "c_blocks c' = [(- 1, bs)]" "c_size c' = 0" "c_defaultValue c' = v" "c_isUnique c \<longrightarrow> c_uniqueHashmap c' = h"
    "c_isNullable c' = c_isNullable c" "c_isUnique c' = c_isUnique c"
    using c1 by (simp_all add: c'_def c2_def)
  then show ?thesis using wr ld s by blast
qed

text \<open>
  C19. A column of points that is written to its files and loaded again has its rows, nulls included, block by
  block, with the positions of the blocks as their indices; none of them needs saving. The size of the loaded column
  is not counted: it stays 0.
\<close>

theorem point_file_roundtrip:
  assumes "\<forall>i n. length (stale i n) = n"
    and "\<forall>b\<in>set (GetBlocksList c). storable (c_isNullable c) (c_blockSize c) b"
    and "GetBlockCount c < 2 ^ 32 - 1"
    and "c_isUnique c \<longrightarrow> \<not> c_isNullable c \<and> collect_unique same (column_values c) [] = Some h"
    and "writable dataPath" and "writable addressPath" and "dataPath \<noteq> addressPath"
    and "dataPath = data_path dir db tb c" and "addressPath = address_path dir db tb c"
    and "FromWkt_point dflt = Inr v"
  shows "\<exists>fs' c' bs. WriteColumn_point stale writable dir db tb (c_blockSize c) c fs
        = Inr (map_blocks (\<lambda>b. b\<lparr>b_saveNecessary := False\<rparr>) c, fs')
    \<and> LoadColumn_point junk same fs' addressPath dataPath (c_isNullable c) (c_isUnique c) dflt (c_blockSize c) (c_name c) = Inr c'
    \<and> c_blocks c' = [(- 1, bs)] \<and> text_blocks_as 0 (GetBlocksList c) bs \<and> c_size c' = 0 \<and> c_defaultValue c' = v
    \<and> (c_isUnique c \<longrightarrow> c_uniqueHashmap c' = h)"
proof -
  obtain d a c' bs where w: "\<forall>fs. WriteColumn_point stale writable dir db tb (c_blockSize c) c fs
        = Inr (map_blocks (\<lambda>b. b\<lparr>b_saveNecessary := False\<rparr>) c, fs(dataPath \<mapsto> d, addressPath \<mapsto> a))"
    and l: "\<forall>fs. fs dataPath = Some d \<longrightarrow>
        LoadColumn_point junk same fs addressPath dataPath (c_isNullable c) (c_isUnique c) dflt (c_blockSize c) (c_name c) = Inr c'"
    and c': "c_blocks c' = [(- 1, bs)]" "text_blocks_as 0 (GetBlocksList c) bs" "c_size c' = 0" "c_defaultValue c' = v"
      "c_isUnique c \<longrightarrow> c_uniqueHashmap c' = h"
    using point_io [where writable = writable and dflt = dflt and dataPath = dataPath and addressPath = addressPath
        and junk = junk and c = c and stale = stale and same = same, OF assms] by blast
  define fs' where "fs' = fs(dataPath \<mapsto> d, addressPath \<mapsto> a)"
  have "fs' dataPath = Some d" using assms(7) by (simp add: fs'_def)
  then show ?thesis using w l c' by (intro exI [of _ fs'] exI [of _ c'] exI [of _ bs]) (simp add: fs'_def)
qed

definition point_sample_block :: "Point block" where
  "point_sample_block =
    (projr (BlockBase_data elem_Point 4 [(1, 2), (3, 4)] False True True True 0))\<lparr>b_groupId := - 1\<rparr>"

definition point_sample :: "Point column" where
  "point_sample = (projr (ColumnBase_new (\<lambda>_ _. False) elem_Point ''q'' 4 True False))\<lparr>c_blocks := [(- 1, [point_sample_block])]\<rparr>"

lemma point_sample_block: "storable True 4 point_sample_block" "rows point_sample_block = [Some (1, 2), Some (3, 4)]"
proof -
  obtain b where b: "BlockBase_data elem_Point 4 [(1, 2), (3, 4)] False True True True 0 = Inr b" "block_ok b"
    "rows b = map Some [(1, 2), (3, 4)]" "b_capacity b = 4" "b_isNullable b = True"
    by (rule Point_block.BlockBase_data_ok [of "[(1, 2), (3, 4)]" 4 True True 0]) simp_all
  have s: "point_sample_block = b\<lparr>b_groupId := - 1\<rparr>" by (simp add: point_sample_block_def b(1))
  have "is_null point_sample_block = is_null b" by (rule ext) (simp add: s is_null_def)
  then show "rows point_sample_block = [Some (1, 2), Some (3, 4)]" using b(3) by (simp add: rows_def s cong: if_cong)
  show "storable True 4 point_sample_block" using b by (auto simp: s storable_def block_ok_def split: option.splits)
qed

lemma point_sample:
  "c_isNullable point_sample = True" "c_isUnique point_sample = False" "c_blockSize point_sample = 4"
  "c_name point_sample = ''q''" "GetBlocksList point_sample = [point_sample_block]" "GetBlockCount point_sample = 1"
  "data_path ''/db/'' ''d'' ''t'' point_sample = ''/db/d@t@q.data''"
  "address_path ''/db/'' ''d'' ''t'' point_sample = ''/db/d@t@q.adrs''"
  by (simp_all add: point_sample_def ColumnBase_new_def SetIsNullable_def SetIsUnique_def SetIsNullableInBlocks_def
      map_blocks_def data_path_def address_path_def column_path_def GetBlocksList_def GetBlockCount_def)

theorem point_file_roundtrip_witness:
  "\<exists>fs' c' bs. WriteColumn_point (\<lambda>_ n. replicate n 0) (\<lambda>_. True) ''/db/'' ''d'' ''t'' 4 point_sample (\<lambda>_. None)
        = Inr (map_blocks (\<lambda>b. b\<lparr>b_saveNecessary := False\<rparr>) point_sample, fs')
    \<and> LoadColumn_point (\<lambda>_. [255]) (\<lambda>_ _. False) fs' ''/db/d@t@q.adrs'' ''/db/d@t@q.data'' True False ''POINT(0 0)'' 4 ''q'' = Inr c'
    \<and> c_blocks c' = [(- 1, bs)] \<and> map rows bs = [[Some (1, 2), Some (3, 4)]]"
proof -
  note rt = point_file_roundtrip [of "\<lambda>_ n. replicate n 0" point_sample "\<lambda>_ _. False" "[]" "\<lambda>_. True" "''/db/d@t@q.data''"
      "''/db/d@t@q.adrs''" "''/db/''" "''d''" "''t''" "''POINT(0 0)''" "(0, 0)" "\<lambda>_. None" "\<lambda>_. [255]", unfolded point_sample]
  have z: "show_coord False 0 = ''0''" by (simp add: show_eval)
  have e: "extract_float ''0 0'' = Some (0, '' 0'')" "extract_float ''0'' = Some (0, [])"
    using plain_text(4) [OF plain_0, of "'' 0''"] plain_text(4) [OF plain_0, of "[]"] by (simp_all add: z)
  moreover have "extract_float '' 0'' = extract_float ''0''" by (simp add: extract_float_def is_space_def)
  ultimately have "FromWkt_point ''POINT(0 0)'' = Inr (0, 0)" by (simp add: FromWkt_point_def read_coords_def)
  then obtain fs' c' bs where "WriteColumn_point (\<lambda>_ n. replicate n 0) (\<lambda>_. True) ''/db/'' ''d'' ''t'' 4 point_sample (\<lambda>_. None)
        = Inr (map_blocks (\<lambda>b. b\<lparr>b_saveNecessary := False\<rparr>) point_sample, fs')"
    and "LoadColumn_point (\<lambda>_. [255]) (\<lambda>_ _. False) fs' ''/db/d@t@q.adrs'' ''/db/d@t@q.data'' True False ''POINT(0 0)'' 4 ''q'' = Inr c'"
    and c': "c_blocks c' = [(- 1, bs)]" "text_blocks_as 0 [point_sample_block] bs"
    using rt point_sample_block(1) by (simp add: option.split_sel) blast
  moreover have "map rows bs = [[Some (1, 2), Some (3, 4)]]"
    using c'(2) point_sample_block by (cases bs) (auto simp: text_blocks_as_def text_block_as_def)
  ultimately show ?thesis by (intro exI conjI)
qed

end
