(* ===== verification/Database_File.thy ===== *)
theory Database_File
  imports Column_Points Tables "HOL-Library.AList"
begin

text \<open>
  A database and its files (\<open>Database.cpp\<close>): \<open>PersistOnlyDbFile\<close> writes the names, types and paths of all tables and
  columns to one JSON document, \<open>Persist\<close> also writes every column, and \<open>LoadDatabase\<close> reads the document and
  loads the columns it names. JSON values and their text are those of the library \<open>jsoncpp\<close>, whose operations
  are the fields of \<open>json_ops\<close>.
\<close>

section \<open>Parameters\<close>

record 'j json_ops =
  j_null :: 'j
  j_array :: 'j
  j_string :: "string \<Rightarrow> 'j"
  j_int :: "int \<Rightarrow> 'j"
  j_bool :: "bool \<Rightarrow> 'j"
  j_put :: "'j \<Rightarrow> string \<Rightarrow> 'j \<Rightarrow> 'j"
  j_append :: "'j \<Rightarrow> 'j \<Rightarrow> 'j"
  j_get :: "'j \<Rightarrow> string \<Rightarrow> 'j"
  j_items :: "'j \<Rightarrow> 'j list"
  j_asString :: "'j \<Rightarrow> string result"
  j_asInt :: "'j \<Rightarrow> int result"
  j_asBool :: "'j \<Rightarrow> bool result"
  j_write :: "'j \<Rightarrow> int8 list"
  j_parse :: "int8 list \<Rightarrow> 'j option"

text \<open>
  The directory of the databases, the files that can be opened, the contents of freed arrays (for a table, a column
  and a record) and of uninitialised ones, the size of a fragment, \<open>std::stof\<close> and \<open>std::stod\<close>, the save interval of a new table and the limit on
  the number of tables.
\<close>

record io =
  io_dir :: string
  io_writable :: "string \<Rightarrow> bool"
  io_stale :: "string \<Rightarrow> string \<Rightarrow> freed"
  io_junk :: "32 word \<Rightarrow> int8 list"
  io_frag :: nat
  io_stof :: "string \<Rightarrow> f32 result"
  io_stod :: "string \<Rightarrow> f64 result"
  io_saveInterval :: int
  io_tables :: "int option"

record database =
  db_name :: string
  db_blockSize :: nat
  db_tables :: "(string \<times> table) list"

definition Database_new :: "string \<Rightarrow> nat \<Rightarrow> database" where
  "Database_new name blockSize = \<lparr>db_name = name, db_blockSize = blockSize, db_tables = []\<rparr>"

section \<open>Columns through their base class\<close>

definition ic_fileAddressPath :: "icolumn \<Rightarrow> string" where
  "ic_fileAddressPath c = case_icolumn c_fileAddressPath c_fileAddressPath c_fileAddressPath c_fileAddressPath
    c_fileAddressPath c_fileAddressPath c_fileAddressPath c_fileAddressPath c"

definition ic_fileDataPath :: "icolumn \<Rightarrow> string" where
  "ic_fileDataPath c = case_icolumn c_fileDataPath c_fileDataPath c_fileDataPath c_fileDataPath
    c_fileDataPath c_fileDataPath c_fileDataPath c_fileDataPath c"

definition ic_fileFragmentPath :: "icolumn \<Rightarrow> string" where
  "ic_fileFragmentPath c = case_icolumn c_fileFragmentPath c_fileFragmentPath c_fileFragmentPath c_fileFragmentPath
    c_fileFragmentPath c_fileFragmentPath c_fileFragmentPath c_fileFragmentPath c"

definition ic_encoding :: "icolumn \<Rightarrow> string" where
  "ic_encoding c = case_icolumn c_encoding c_encoding c_encoding c_encoding c_encoding c_encoding c_encoding c_encoding c"

text \<open>The default value of a column as text. That of a polygon column is not looked at.\<close>

definition default_text :: "icolumn \<Rightarrow> string" where
  "default_text c =
    (case c of
       ColPolygon d \<Rightarrow> POLYGON_DEFAULT_VALUE
     | ColPoint d \<Rightarrow> WktFromPoint (c_defaultValue d) False
     | ColString d \<Rightarrow> c_defaultValue d
     | ColInt8 d \<Rightarrow> show_int (sint (c_defaultValue d))
     | ColInt d \<Rightarrow> show_int (sint (c_defaultValue d))
     | ColLong d \<Rightarrow> show_int (sint (c_defaultValue d))
     | ColFloat d \<Rightarrow> show_fv (f32_dec (c_defaultValue d))
     | ColDouble d \<Rightarrow> show_fv (f64_dec (c_defaultValue d)))"

definition WriteColumn_ic :: "env \<Rightarrow> io \<Rightarrow> string \<Rightarrow> string \<Rightarrow> nat \<Rightarrow> icolumn \<Rightarrow> files \<Rightarrow> (icolumn \<times> files) result" where
  "WriteColumn_ic v w dbName tableName blockSize c fs =
    (case c of
       ColPolygon d \<Rightarrow> mapR (apfst ColPolygon)
         (WriteColumn_polygon (e_samePolygon v) (io_stale w tableName (c_name d)) (io_frag w) (io_writable w) (io_dir w) dbName tableName d fs)
     | ColPoint d \<Rightarrow> mapR (apfst ColPoint)
         (WriteColumn_point (io_stale w tableName (c_name d)) (io_writable w) (io_dir w) dbName tableName blockSize d fs)
     | ColString d \<Rightarrow> mapR (apfst ColString)
         (WriteColumn_string (io_stale w tableName (c_name d)) (io_frag w) (io_writable w) (io_dir w) dbName tableName d fs)
     | ColInt8 d \<Rightarrow> mapR (apfst ColInt8) (WriteColumn (io_stale w tableName (c_name d)) (io_writable w) (io_dir w) (E_int8 v) dbName tableName blockSize d fs)
     | ColInt d \<Rightarrow> mapR (apfst ColInt) (WriteColumn (io_stale w tableName (c_name d)) (io_writable w) (io_dir w) (E_int v) dbName tableName blockSize d fs)
     | ColLong d \<Rightarrow> mapR (apfst ColLong) (WriteColumn (io_stale w tableName (c_name d)) (io_writable w) (io_dir w) (E_long v) dbName tableName blockSize d fs)
     | ColFloat d \<Rightarrow> mapR (apfst ColFloat) (WriteColumn (io_stale w tableName (c_name d)) (io_writable w) (io_dir w) (E_float v) dbName tableName blockSize d fs)
     | ColDouble d \<Rightarrow> mapR (apfst ColDouble) (WriteColumn (io_stale w tableName (c_name d)) (io_writable w) (io_dir w) (E_double v) dbName tableName blockSize d fs))"

text \<open>\<open>std::stoi\<close> and \<open>std::stol\<close> on the stored default value.\<close>

definition stoi :: "string \<Rightarrow> int32 result" where
  "stoi s = bindR (stol s) (\<lambda>i. if - (2 ^ 31) \<le> i \<and> i < 2 ^ 31 then Inr (word_of_int i) else Inl OutOfRange)"

definition LoadColumn_ic ::
  "env \<Rightarrow> io \<Rightarrow> files \<Rightarrow> string \<Rightarrow> string \<Rightarrow> string \<Rightarrow> string \<Rightarrow> int \<Rightarrow> bool \<Rightarrow> bool \<Rightarrow> string \<Rightarrow> nat \<Rightarrow> string \<Rightarrow> icolumn result" where
  "LoadColumn_ic v w fs fileAddressPath fileDataPath fileFragmentPath encoding type isNullable isUnique defaultValue blockSize name =
    (if type = DataType_value COLUMN_POLYGON then
       mapR ColPolygon (LoadColumn_polygon (e_samePolygon v) (io_junk w) (io_frag w) fs fileAddressPath fileDataPath
         fileFragmentPath encoding isNullable isUnique defaultValue blockSize name)
     else if type = DataType_value COLUMN_POINT then
       mapR ColPoint (LoadColumn_point (io_junk w) (e_samePoint v) fs fileAddressPath fileDataPath isNullable isUnique defaultValue blockSize name)
     else if type = DataType_value COLUMN_STRING then
       mapR ColString (LoadColumn_string (io_junk w) (io_frag w) fs fileAddressPath fileDataPath
         fileFragmentPath encoding isNullable isUnique defaultValue blockSize name)
     else if type = DataType_value COLUMN_INT8_T then
       mapR ColInt8 (LoadColumn_int8 (io_junk w) stoi (e_cInt8 v) (=) (int_cast (e_uninit v)) fs fileAddressPath fileDataPath
         isNullable isUnique defaultValue blockSize name)
     else if type = DataType_value COLUMN_INT then
       mapR ColInt (LoadColumn_int32 (io_junk w) stoi (e_cInt v) (=) (int_cast (e_uninit v)) fs fileAddressPath fileDataPath
         isNullable isUnique defaultValue blockSize name)
     else if type = DataType_value COLUMN_LONG then
       mapR ColLong (LoadColumn_int64 (io_junk w) (\<lambda>s. mapR word_of_int (stol s)) (e_cLong v) (=) (e_uninit v) fs fileAddressPath fileDataPath
         isNullable isUnique defaultValue blockSize name)
     else if type = DataType_value COLUMN_FLOAT then
       mapR ColFloat (LoadColumn_float (io_junk w) (io_stof w) (e_cFloat v) (e_sameFloat v) (int_cast (e_uninit v)) fs fileAddressPath fileDataPath
         isNullable isUnique defaultValue blockSize name)
     else if type = DataType_value COLUMN_DOUBLE then
       mapR ColDouble (LoadColumn_double (io_junk w) (io_stod w) (e_cDouble v) (e_sameDouble v) (e_uninit v) fs fileAddressPath fileDataPath
         isNullable isUnique defaultValue blockSize name)
     else Inl DomainError)"

section \<open>The JSON document\<close>

text \<open>The members of a value are assigned one after the other.\<close>

definition j_object :: "'j json_ops \<Rightarrow> (string \<times> 'j) list \<Rightarrow> 'j" where
  "j_object J kvs = fold (\<lambda>(k, x) ob. j_put J ob k x) kvs (j_null J)"

definition j_list :: "'j json_ops \<Rightarrow> 'j list \<Rightarrow> 'j" where
  "j_list J xs = fold (\<lambda>x a. j_append J a x) xs (j_array J)"

definition has_fragments :: "DataType \<Rightarrow> bool" where
  "has_fragments t \<longleftrightarrow> t = COLUMN_STRING \<or> t = COLUMN_POLYGON"

definition column_json :: "'j json_ops \<Rightarrow> string \<Rightarrow> string \<Rightarrow> string \<Rightarrow> string \<times> icolumn \<Rightarrow> 'j" where
  "column_json J dir dbName tableName col =
    (let columnName = fst col; c = snd col; columnType = GetColumnType c in
     j_object J
      ([(''column_name'', j_string J columnName),
        (''column_type'', j_int J (DataType_value columnType)),
        (''file_path_address_file'', j_string J (column_path dir dbName tableName columnName (ic_fileAddressPath c) ''.adrs'')),
        (''file_path_data_file'', j_string J (column_path dir dbName tableName columnName (ic_fileDataPath c) ''.data''))] @
       (if has_fragments columnType then
         [(''file_path_string_data_file'',
            j_string J (column_path dir dbName tableName columnName (ic_fileFragmentPath c) ''.fragdata'')),
          (''encoding'', j_string J (if ic_encoding c = [] then ''undefined'' else ic_encoding c))]
        else []) @
       [(''default_entry_value'', j_string J (default_text c)),
        (''nullable'', j_bool J (ic_isNullable c)),
        (''unique'', j_bool J (ic_isUnique c)),
        (''hidden'', j_bool J False)]))"

definition table_json :: "'j json_ops \<Rightarrow> string \<Rightarrow> string \<Rightarrow> table \<Rightarrow> 'j" where
  "table_json J dir dbName t =
    j_object J
      [(''table_name'', j_string J (t_name t)),
       (''table_block_size'', j_int J (int (t_blockSize t))),
       (''start_up_loading'', j_bool J True),
       (''save_interval_ms'', j_int J (t_saveInterval t)),
       (''index_columns'', j_list J (map (\<lambda>s. j_object J [(''index_column_name'', j_string J s)]) (t_sortingColumns t))),
       (''columns'', j_list J (map (column_json J dir dbName (t_name t)) (t_columns t)))]"

definition PERSISTENCE_FORMAT_VERSION :: int where
  "PERSISTENCE_FORMAT_VERSION = 1"

definition database_json :: "'j json_ops \<Rightarrow> string \<Rightarrow> database \<Rightarrow> 'j" where
  "database_json J dir db =
    j_object J
      [(''persistence_format_version'', j_int J PERSISTENCE_FORMAT_VERSION),
       (''database_name'', j_string J (db_name db)),
       (''database_default_block_size'', j_int J (int (db_blockSize db))),
       (''tables'', j_list J (map (\<lambda>(_, t). table_json J dir (db_name db) t) (db_tables db)))]"

definition db_path :: "string \<Rightarrow> string \<Rightarrow> string" where
  "db_path dir name = dir @ name @ ''.db''"

definition PersistOnlyDbFile :: "'j json_ops \<Rightarrow> io \<Rightarrow> database \<Rightarrow> files \<Rightarrow> files" where
  "PersistOnlyDbFile J w db fs =
    (let filePath = db_path (io_dir w) (db_name db) in
     if io_writable w filePath then fs(filePath \<mapsto> j_write J (database_json J (io_dir w) db)) else fs)"

section \<open>Persist\<close>

fun write_columns ::
  "env \<Rightarrow> io \<Rightarrow> string \<Rightarrow> string \<Rightarrow> nat \<Rightarrow> (string \<times> icolumn) list \<Rightarrow> files \<Rightarrow> ((string \<times> icolumn) list \<times> files) result" where
  "write_columns v w dbName tableName blockSize [] fs = Inr ([], fs)"
| "write_columns v w dbName tableName blockSize ((k, c) # cs) fs =
    bindR (WriteColumn_ic v w dbName tableName blockSize c fs) (\<lambda>(c', fs1).
    mapR (\<lambda>(cs', fs2). ((k, c') # cs', fs2)) (write_columns v w dbName tableName blockSize cs fs1))"

fun write_tables ::
  "env \<Rightarrow> io \<Rightarrow> string \<Rightarrow> (string \<times> table) list \<Rightarrow> files \<Rightarrow> ((string \<times> table) list \<times> files) result" where
  "write_tables v w dbName [] fs = Inr ([], fs)"
| "write_tables v w dbName ((k, t) # ts) fs =
    bindR (write_columns v w dbName (t_name t) (t_blockSize t) (t_columns t) fs) (\<lambda>(cs, fs1).
    mapR (\<lambda>(ts', fs2). ((k, t\<lparr>t_columns := cs\<rparr>) # ts', fs2)) (write_tables v w dbName ts fs1))"

definition Persist :: "'j json_ops \<Rightarrow> env \<Rightarrow> io \<Rightarrow> database \<Rightarrow> files \<Rightarrow> (database \<times> files) result" where
  "Persist J v w db fs =
    mapR (\<lambda>(ts, fs'). (db\<lparr>db_tables := ts\<rparr>, fs')) (write_tables v w (db_name db) (db_tables db) (PersistOnlyDbFile J w db fs))"

section \<open>LoadDatabase\<close>

text \<open>
  A column is created in the table and loaded. A document in which two columns of a table have one name
  would load the second into the first; the model reports it.
\<close>

definition loadable_types :: "DataType list" where
  "loadable_types =
    [COLUMN_POLYGON, COLUMN_POINT, COLUMN_STRING, COLUMN_INT8_T, COLUMN_INT, COLUMN_LONG, COLUMN_FLOAT, COLUMN_DOUBLE]"

definition load_column_json :: "'j json_ops \<Rightarrow> env \<Rightarrow> io \<Rightarrow> files \<Rightarrow> 'j \<Rightarrow> table \<Rightarrow> table result" where
  "load_column_json J v w fs j t =
    bindR (j_asString J (j_get J j ''column_name'')) (\<lambda>columnName.
    bindR (j_asInt J (j_get J j ''column_type'')) (\<lambda>columnType.
    bindR (j_asString J (j_get J j ''file_path_address_file'')) (\<lambda>filePathAddressFile.
    bindR (j_asString J (j_get J j ''file_path_data_file'')) (\<lambda>filePathDataFile.
    let frags = (columnType = DataType_value COLUMN_STRING \<or> columnType = DataType_value COLUMN_POLYGON) in
    bindR (if frags then j_asString J (j_get J j ''file_path_string_data_file'') else Inr []) (\<lambda>filePathStrDataFile.
    bindR (if frags then j_asString J (j_get J j ''encoding'') else Inr []) (\<lambda>encoding.
    bindR (j_asString J (j_get J j ''default_entry_value'')) (\<lambda>defaultValue.
    bindR (j_asBool J (j_get J j ''nullable'')) (\<lambda>isNullable.
    bindR (j_asBool J (j_get J j ''unique'')) (\<lambda>isUnique.
    bindR (j_asBool J (j_get J j ''hidden'')) (\<lambda>_.
    if columnType \<notin> DataType_value ` set loadable_types then Inl DomainError
    else bindR (CheckColumnsLimit (e_columns v) (int (length (t_columns t)) - 1)) (\<lambda>_.
    if ContainsColumn columnName t then Inl UndefinedBehaviour
    else mapR (\<lambda>c. t\<lparr>t_columns := t_columns t @ [(columnName, c)]\<rparr>)
      (LoadColumn_ic v w fs filePathAddressFile filePathDataFile filePathStrDataFile encoding columnType
        isNullable isUnique defaultValue (t_blockSize t) columnName))))))))))))"

definition load_index_json :: "'j json_ops \<Rightarrow> env \<Rightarrow> 'j \<Rightarrow> string result" where
  "load_index_json J v j =
    bindR (j_asString J (j_get J j ''index_column_name'')) (\<lambda>s. mapR (\<lambda>_. s) (CheckColumnsLimit (e_columns v) 0))"

definition CheckTablesLimit :: "int option \<Rightarrow> int \<Rightarrow> unit result" where
  "CheckTablesLimit limit tablesCount =
    (case limit of None \<Rightarrow> Inr () | Some l \<Rightarrow> if tablesCount \<ge> l then Inl RuntimeError else Inr ())"

text \<open>\<open>emplace\<close> keeps a table that has the name already.\<close>

definition load_table_json :: "'j json_ops \<Rightarrow> env \<Rightarrow> io \<Rightarrow> files \<Rightarrow> 'j \<Rightarrow> database \<Rightarrow> database result" where
  "load_table_json J v w fs j db =
    bindR (j_asString J (j_get J j ''table_name'')) (\<lambda>tableName.
    bindR (j_asInt J (j_get J j ''table_block_size'')) (\<lambda>tableBlockSize.
    bindR (j_asInt J (j_get J j ''save_interval_ms'')) (\<lambda>tableSaveInterval.
    bindR (CheckTablesLimit (io_tables w) (int (length (db_tables db)))) (\<lambda>_.
    bindR (traverseR (load_index_json J v) (j_items J (j_get J j ''index_columns''))) (\<lambda>sortingColumnNames.
    let t0 = (case map_of (db_tables db) tableName of Some t \<Rightarrow> t
              | None \<Rightarrow> Table_new (db_blockSize db) (io_saveInterval w) tableName tableBlockSize) in
    mapR (\<lambda>t. db\<lparr>db_tables := AList.update tableName t (db_tables db)\<rparr>)
      (foldR (load_column_json J v w fs) (j_items J (j_get J j ''columns''))
        (SetSaveInterval tableSaveInterval (SetSortingColumns sortingColumnNames t0))))))))"

definition LoadDatabase :: "'j json_ops \<Rightarrow> env \<Rightarrow> io \<Rightarrow> string \<Rightarrow> string \<Rightarrow> files \<Rightarrow> database option result" where
  "LoadDatabase J v w fileDbName path fs =
    (if fs (db_path path fileDbName) = Some [] then Inr None
     else
       (case j_parse J (case fs (db_path path fileDbName) of None \<Rightarrow> [] | Some bs \<Rightarrow> bs) of
          None \<Rightarrow> Inr None
        | Some rootJSON \<Rightarrow>
            bindR (j_asInt J (j_get J rootJSON ''persistence_format_version'')) (\<lambda>_.
            bindR (j_asString J (j_get J rootJSON ''database_name'')) (\<lambda>dbName.
            bindR (j_asInt J (j_get J rootJSON ''database_default_block_size'')) (\<lambda>databaseBlockSize.
            mapR Some (foldR (load_table_json J v w fs) (j_items J (j_get J rootJSON ''tables''))
              (Database_new dbName (nat databaseBlockSize))))))))"

end
