(* ===== verification/Database_Roundtrip.thy ===== *)
theory Database_Roundtrip
  imports Database_File
begin

text \<open>
  Saving a whole database and loading it again: the columns are written to different files, the JSON document
  names these files, and loading the document restores tables and columns.
\<close>

section \<open>The JSON library\<close>

text \<open>
  What the document relies on: members and items are found again, and a document of ASCII texts is parsed to the
  value it was written from. For other texts, which need not be valid UTF-8, nothing is assumed.
\<close>

definition ascii :: "string \<Rightarrow> bool" where
  "ascii s \<longleftrightarrow> (\<forall>c\<in>set s. (of_char c :: nat) < 128)"

text \<open>The documents: values built from ASCII texts, 32-bit integers and truth values.\<close>

inductive json_doc :: "'j json_ops \<Rightarrow> 'j \<Rightarrow> bool" for J where
  json_string: "ascii s \<Longrightarrow> json_doc J (j_string J s)"
| json_int: "- (2 ^ 31) \<le> i \<Longrightarrow> i < 2 ^ 31 \<Longrightarrow> json_doc J (j_int J i)"
| json_bool: "json_doc J (j_bool J b)"
| json_list: "\<forall>x\<in>set xs. json_doc J x \<Longrightarrow> json_doc J (j_list J xs)"
| json_object: "kvs \<noteq> [] \<Longrightarrow> distinct (map fst kvs) \<Longrightarrow> \<forall>p\<in>set kvs. ascii (fst p) \<and> json_doc J (snd p) \<Longrightarrow> json_doc J (j_object J kvs)"

definition json_laws :: "'j json_ops \<Rightarrow> bool" where
  "json_laws J \<longleftrightarrow>
    (\<forall>kvs k x. distinct (map fst kvs) \<and> (k, x) \<in> set kvs \<longrightarrow> j_get J (j_object J kvs) k = x) \<and>
    (\<forall>xs. j_items J (j_list J xs) = xs) \<and>
    (\<forall>s. j_asString J (j_string J s) = Inr s) \<and>
    (\<forall>i. - (2 ^ 31) \<le> i \<and> i < 2 ^ 31 \<longrightarrow> j_asInt J (j_int J i) = Inr i) \<and>
    (\<forall>b. j_asBool J (j_bool J b) = Inr b) \<and>
    (\<forall>j. json_doc J j \<longrightarrow> j_write J j \<noteq> [] \<and> j_parse J (j_write J j) = Some j)"

lemma j_get_member: "json_laws J \<Longrightarrow> distinct (map fst kvs) \<Longrightarrow> map_of kvs k = Some x \<Longrightarrow> j_get J (j_object J kvs) k = x"
  unfolding json_laws_def by (metis map_of_SomeD)

lemma json_values:
  assumes "json_laws J"
  shows "j_items J (j_list J xs) = xs" "j_asString J (j_string J s) = Inr s" "j_asBool J (j_bool J b) = Inr b"
    "- (2 ^ 31) \<le> i \<Longrightarrow> i < 2 ^ 31 \<Longrightarrow> j_asInt J (j_int J i) = Inr i"
  using assms unfolding json_laws_def by blast+

section \<open>Columns\<close>

definition col_stored :: "('a \<Rightarrow> 'a \<Rightarrow> bool) \<Rightarrow> nat \<Rightarrow> 'a column \<Rightarrow> bool" where
  "col_stored same n c \<longleftrightarrow>
    c_blockSize c = n \<and> (\<forall>b\<in>set (GetBlocksList c). storable (c_isNullable c) n b) \<and> GetBlockCount c < 2 ^ 32 - 1 \<and>
    (c_isUnique c \<longrightarrow> \<not> c_isNullable c \<and> collect_unique same (column_values c) [] \<noteq> None)"

text \<open>
  A column that can be saved and loaded: for texts that fit into the fragments, and with a default value whose
  text can be read.
\<close>

definition stored_ic :: "env \<Rightarrow> io \<Rightarrow> nat \<Rightarrow> icolumn \<Rightarrow> bool" where
  "stored_ic v w n c \<longleftrightarrow>
    (case c of
       ColInt d \<Rightarrow> col_stored (=) n d
     | ColLong d \<Rightarrow> col_stored (=) n d
     | ColInt8 d \<Rightarrow> col_stored (=) n d
     | ColFloat d \<Rightarrow> col_stored (e_sameFloat v) n d \<and> (\<exists>x. io_stof w (default_text c) = Inr x)
     | ColDouble d \<Rightarrow> col_stored (e_sameDouble v) n d \<and> (\<exists>x. io_stod w (default_text c) = Inr x)
     | ColPoint d \<Rightarrow> col_stored (e_samePoint v) n d \<and> (\<exists>x. FromWkt_point (default_text c) = Inr x)
     | ColString d \<Rightarrow> col_stored (=) n d \<and> (\<forall>b\<in>set (GetBlocksList d). packable string_type (io_frag w) b)
     | ColPolygon d \<Rightarrow> col_stored (e_samePolygon v) n d \<and>
         (\<forall>b\<in>set (GetBlocksList d). packable (polygon_type (e_samePolygon v)) (io_frag w) b))"

definition same_col :: "'a column \<Rightarrow> 'a column \<Rightarrow> bool" where
  "same_col c c' \<longleftrightarrow> map rows (GetBlocksList c') = map rows (GetBlocksList c) \<and>
    c_isNullable c' = c_isNullable c \<and> c_isUnique c' = c_isUnique c"

fun same_ic :: "icolumn \<Rightarrow> icolumn \<Rightarrow> bool" where
  "same_ic (ColInt c) (ColInt c') = same_col c c'"
| "same_ic (ColLong c) (ColLong c') = same_col c c'"
| "same_ic (ColFloat c) (ColFloat c') = same_col c c'"
| "same_ic (ColDouble c) (ColDouble c') = same_col c c'"
| "same_ic (ColPoint c) (ColPoint c') = same_col c c'"
| "same_ic (ColPolygon c) (ColPolygon c') = same_col c c'"
| "same_ic (ColString c) (ColString c') = same_col c c'"
| "same_ic (ColInt8 c) (ColInt8 c') = same_col c c'"
| "same_ic _ _ = False"

definition adrs_path :: "io \<Rightarrow> string \<Rightarrow> string \<Rightarrow> icolumn \<Rightarrow> string" where
  "adrs_path w dbName tableName c = column_path (io_dir w) dbName tableName (ic_name c) (ic_fileAddressPath c) ''.adrs''"

definition rows_path :: "io \<Rightarrow> string \<Rightarrow> string \<Rightarrow> icolumn \<Rightarrow> string" where
  "rows_path w dbName tableName c = column_path (io_dir w) dbName tableName (ic_name c) (ic_fileDataPath c) ''.data''"

definition frag_path :: "io \<Rightarrow> string \<Rightarrow> string \<Rightarrow> icolumn \<Rightarrow> string" where
  "frag_path w dbName tableName c =
    (if has_fragments (GetColumnType c) then column_path (io_dir w) dbName tableName (ic_name c) (ic_fileFragmentPath c) ''.fragdata'' else [])"

definition ic_paths :: "io \<Rightarrow> string \<Rightarrow> string \<Rightarrow> icolumn \<Rightarrow> string list" where
  "ic_paths w dbName tableName c = [adrs_path w dbName tableName c, rows_path w dbName tableName c] @
    (if has_fragments (GetColumnType c) then [frag_path w dbName tableName c] else [])"

definition agrees :: "files \<Rightarrow> (string \<times> int8 list) list \<Rightarrow> bool" where
  "agrees fs outs \<longleftrightarrow> (\<forall>x\<in>set outs. fs (fst x) = Some (snd x))"

text \<open>The conditions under which files are written.\<close>

definition io_ok :: "io \<Rightarrow> bool" where
  "io_ok w \<longleftrightarrow> (\<forall>tb k i n. length (io_stale w tb k i n) = n) \<and> 0 < io_frag w \<and> io_frag w < 2 ^ 31"

lemma stored_list_rows: "stored_list i bs bs' \<Longrightarrow> map rows bs' = map rows bs"
  by (auto simp: stored_list_def stored_as_def intro: nth_equalityI)

lemma text_blocks_rows: "text_blocks_as i bs bs' \<Longrightarrow> map rows bs' = map rows bs"
  by (auto simp: text_blocks_as_def text_block_as_def intro: nth_equalityI)

lemma same_colI:
  "c_blocks c' = [(- 1, bs)] \<Longrightarrow> map rows bs = map rows (GetBlocksList c) \<Longrightarrow> c_isNullable c' = c_isNullable c \<Longrightarrow>
    c_isUnique c' = c_isUnique c \<Longrightarrow> same_col c c'"
  by (simp add: same_col_def GetBlocksList_def)

lemma number_stored:
  fixes c :: "'w::len word column"
  assumes "8 dvd LENGTH('w)" and "io_ok w" and "col_stored same n c" and "parse dflt = Inr x"
    and "data_path (io_dir w) db tb c \<noteq> address_path (io_dir w) db tb c"
    and "io_writable w (data_path (io_dir w) db tb c)" and "io_writable w (address_path (io_dir w) db tb c)"
  shows "\<exists>outs c1 c'. map fst outs = [address_path (io_dir w) db tb c, data_path (io_dir w) db tb c]
    \<and> (\<forall>fs. WriteColumn (io_stale w tb (c_name c)) (io_writable w) (io_dir w) E db tb n c fs = Inr (c1, fs ++ map_of outs))
    \<and> (\<forall>fs. agrees fs outs \<longrightarrow> LoadColumn (io_junk w) parse cmpr same E fs (address_path (io_dir w) db tb c) (data_path (io_dir w) db tb c)
        (c_isNullable c) (c_isUnique c) dflt n (c_name c) = Inr c') \<and> same_col c c'"
proof -
  have s: "c_blockSize c = n" "\<forall>b\<in>set (GetBlocksList c). storable (c_isNullable c) (c_blockSize c) b" "GetBlockCount c < 2 ^ 32 - 1"
    using assms(3) by (simp_all add: col_stored_def)
  obtain h where u: "c_isUnique c \<longrightarrow> \<not> c_isNullable c \<and> collect_unique same (column_values c) [] = Some h"
    using assms(3) by (auto simp: col_stored_def)
  obtain d a c' bs where w: "\<And>fs. WriteColumn (io_stale w tb (c_name c)) (io_writable w) (io_dir w) E db tb (c_blockSize c) c fs
        = Inr (map_blocks (\<lambda>b. b\<lparr>b_saveNecessary := False\<rparr>) c, fs(data_path (io_dir w) db tb c \<mapsto> d, address_path (io_dir w) db tb c \<mapsto> a))"
    and l: "\<And>fs. fs (data_path (io_dir w) db tb c) = Some d \<Longrightarrow> LoadColumn (io_junk w) parse cmpr same E fs (address_path (io_dir w) db tb c)
        (data_path (io_dir w) db tb c) (c_isNullable c) (c_isUnique c) dflt (c_blockSize c) (c_name c) = Inr c'"
    and c': "c_blocks c' = [(- 1, bs)]" "stored_list 0 (GetBlocksList c) bs" "c_isNullable c' = c_isNullable c" "c_isUnique c' = c_isUnique c"
    using number_io [where c = c and parse = parse and dflt = dflt and same = same and h = h and stale = "io_stale w tb (c_name c)" and writable = "io_writable w"
        and dir = "io_dir w" and db = db and tb = tb and E = E and junk = "io_junk w" and cmpr = cmpr, OF assms(1) _ s(2,3) u assms(6,7,5) refl refl assms(4)]
      assms(2) unfolding io_ok_def by blast
  show ?thesis
    using w l s(1) same_colI [OF c'(1) stored_list_rows [OF c'(2)] c'(3,4)]
    by (intro exI [of _ "[(address_path (io_dir w) db tb c, a), (data_path (io_dir w) db tb c, d)]"]
        exI [of _ "map_blocks (\<lambda>b. b\<lparr>b_saveNecessary := False\<rparr>) c"] exI [of _ c']) (simp add: agrees_def)
qed

lemma text_stored:
  assumes "io_ok w" and "col_stored (same_value T) n c" and "\<forall>b\<in>set (GetBlocksList c). packable T (io_frag w) b"
    and "of_text T dflt = Inr x" and "kind (text_elem T) = StringStats \<or> kind (text_elem T) = GeoStats"
    and "distinct [data_path (io_dir w) db tb c, address_path (io_dir w) db tb c, fragment_path (io_dir w) db tb c]"
    and "\<forall>p\<in>{data_path (io_dir w) db tb c, address_path (io_dir w) db tb c, fragment_path (io_dir w) db tb c}. io_writable w p"
  shows "\<exists>outs c1 c'. map fst outs = [address_path (io_dir w) db tb c, data_path (io_dir w) db tb c, fragment_path (io_dir w) db tb c]
    \<and> (\<forall>fs. WriteColumn_text T (io_stale w tb (c_name c)) (io_frag w) (io_writable w) (io_dir w) db tb c fs = Inr (c1, fs ++ map_of outs))
    \<and> (\<forall>fs. agrees fs outs \<longrightarrow> LoadColumn_text T (io_junk w) (io_frag w) fs (address_path (io_dir w) db tb c) (data_path (io_dir w) db tb c)
        (fragment_path (io_dir w) db tb c) enc (c_isNullable c) (c_isUnique c) dflt n (c_name c) = Inr c') \<and> same_col c c'"
proof -
  let ?d = "data_path (io_dir w) db tb c" and ?a = "address_path (io_dir w) db tb c" and ?f = "fragment_path (io_dir w) db tb c"
  have s: "c_blockSize c = n" "GetBlockCount c < 2 ^ 32 - 1"
    "\<forall>b\<in>set (GetBlocksList c). storable (c_isNullable c) (c_blockSize c) b \<and> packable T (io_frag w) b"
    using assms(2,3) by (simp_all add: col_stored_def)
  obtain h where u: "c_isUnique c \<longrightarrow> \<not> c_isNullable c \<and> collect_unique (same_value T) (column_values c) [] = Some h"
    using assms(2) by (auto simp: col_stored_def)
  have w: "0 < io_frag w" "io_frag w < 2 ^ 31" "\<forall>i n. length (io_stale w tb (c_name c) i n) = n" using assms(1) by (simp_all add: io_ok_def)
  obtain d a f c' bs where wr: "\<And>fs. WriteColumn_text T (io_stale w tb (c_name c)) (io_frag w) (io_writable w) (io_dir w) db tb c fs
        = Inr (map_blocks (\<lambda>b. b\<lparr>b_saveNecessary := False\<rparr>) c, fs(?f \<mapsto> f, ?d \<mapsto> d, ?a \<mapsto> a))"
    and l: "\<And>fs. fs ?d = Some d \<and> fs ?a = Some a \<and> fs ?f = Some f \<Longrightarrow> LoadColumn_text T (io_junk w) (io_frag w) fs ?a ?d ?f enc
        (c_isNullable c) (c_isUnique c) dflt (c_blockSize c) (c_name c) = Inr c'"
    and c': "c_blocks c' = [(- 1, bs)]" "text_blocks_as 0 (GetBlocksList c) bs" "c_isNullable c' = c_isNullable c" "c_isUnique c' = c_isUnique c"
    using text_io [where c = c and T = T and dflt = dflt and h = h and stale = "io_stale w tb (c_name c)" and writable = "io_writable w"
        and dir = "io_dir w" and db = db and tb = tb and junk = "io_junk w" and enc = enc, OF w s(3,2) u refl refl refl assms(4-7)] by blast
  have "fs(?f \<mapsto> f, ?d \<mapsto> d, ?a \<mapsto> a) = fs ++ map_of [(?a, a), (?d, d), (?f, f)]" for fs by simp
  then show ?thesis
    using wr l s(1) same_colI [OF c'(1) text_blocks_rows [OF c'(2)] c'(3,4)]
    by (intro exI [of _ "[(?a, a), (?d, d), (?f, f)]"] exI [of _ "map_blocks (\<lambda>b. b\<lparr>b_saveNecessary := False\<rparr>) c"] exI [of _ c'])
      (simp add: agrees_def)
qed

lemma point_stored:
  assumes "io_ok w" and "col_stored same n c" and "FromWkt_point dflt = Inr x"
    and "data_path (io_dir w) db tb c \<noteq> address_path (io_dir w) db tb c"
    and "io_writable w (data_path (io_dir w) db tb c)" and "io_writable w (address_path (io_dir w) db tb c)"
  shows "\<exists>outs c1 c'. map fst outs = [address_path (io_dir w) db tb c, data_path (io_dir w) db tb c]
    \<and> (\<forall>fs. WriteColumn_point (io_stale w tb (c_name c)) (io_writable w) (io_dir w) db tb n c fs = Inr (c1, fs ++ map_of outs))
    \<and> (\<forall>fs. agrees fs outs \<longrightarrow> LoadColumn_point (io_junk w) same fs (address_path (io_dir w) db tb c) (data_path (io_dir w) db tb c)
        (c_isNullable c) (c_isUnique c) dflt n (c_name c) = Inr c') \<and> same_col c c'"
proof -
  let ?d = "data_path (io_dir w) db tb c" and ?a = "address_path (io_dir w) db tb c"
  have s: "c_blockSize c = n" "\<forall>b\<in>set (GetBlocksList c). storable (c_isNullable c) (c_blockSize c) b" "GetBlockCount c < 2 ^ 32 - 1"
    using assms(2) by (simp_all add: col_stored_def)
  obtain h where u: "c_isUnique c \<longrightarrow> \<not> c_isNullable c \<and> collect_unique same (column_values c) [] = Some h"
    using assms(2) by (auto simp: col_stored_def)
  have w: "\<forall>i n. length (io_stale w tb (c_name c) i n) = n" using assms(1) by (simp add: io_ok_def)
  obtain d a c' bs where wr: "\<And>fs. WriteColumn_point (io_stale w tb (c_name c)) (io_writable w) (io_dir w) db tb (c_blockSize c) c fs
        = Inr (map_blocks (\<lambda>b. b\<lparr>b_saveNecessary := False\<rparr>) c, fs(?d \<mapsto> d, ?a \<mapsto> a))"
    and l: "\<And>fs. fs ?d = Some d \<Longrightarrow> LoadColumn_point (io_junk w) same fs ?a ?d (c_isNullable c) (c_isUnique c) dflt (c_blockSize c) (c_name c) = Inr c'"
    and c': "c_blocks c' = [(- 1, bs)]" "text_blocks_as 0 (GetBlocksList c) bs" "c_isNullable c' = c_isNullable c" "c_isUnique c' = c_isUnique c"
    using point_io [where c = c and dflt = dflt and same = same and h = h and stale = "io_stale w tb (c_name c)" and writable = "io_writable w"
        and dir = "io_dir w" and db = db and tb = tb and junk = "io_junk w", OF w s(2,3) u assms(5,6,4) refl refl assms(3)] by blast
  have "fs(?d \<mapsto> d, ?a \<mapsto> a) = fs ++ map_of [(?a, a), (?d, d)]" for fs by simp
  then show ?thesis
    using wr l s(1) same_colI [OF c'(1) text_blocks_rows [OF c'(2)] c'(3,4)]
    by (intro exI [of _ "[(?a, a), (?d, d)]"] exI [of _ "map_blocks (\<lambda>b. b\<lparr>b_saveNecessary := False\<rparr>) c"] exI [of _ c'])
      (simp add: agrees_def)
qed

section \<open>Columns of any type\<close>

text \<open>What is written for a column, and what loading restores from any files that have it.\<close>

definition column_io :: "env \<Rightarrow> io \<Rightarrow> string \<Rightarrow> string \<Rightarrow> nat \<Rightarrow> string \<Rightarrow> icolumn \<Rightarrow> (string \<times> int8 list) list \<Rightarrow> icolumn \<Rightarrow> icolumn \<Rightarrow> bool" where
  "column_io v w db tb n enc c outs c1 c' \<longleftrightarrow>
    map fst outs = ic_paths w db tb c \<and> same_ic c c' \<and>
    (\<forall>fs. WriteColumn_ic v w db tb n c fs = Inr (c1, fs ++ map_of outs)) \<and>
    (\<forall>fs. agrees fs outs \<longrightarrow> LoadColumn_ic v w fs (adrs_path w db tb c) (rows_path w db tb c) (frag_path w db tb c) enc
      (DataType_value (GetColumnType c)) (ic_isNullable c) (ic_isUnique c) (default_text c) n (ic_name c) = Inr c')"

lemma column_ioI:
  assumes "\<exists>outs d1 d'. map fst outs = ic_paths w db tb (K d) \<and> (\<forall>fs. W fs = Inr (d1, fs ++ map_of outs))
      \<and> (\<forall>fs. agrees fs outs \<longrightarrow> L fs = Inr d') \<and> same_col d d'"
    and "\<And>fs. WriteColumn_ic v w db tb n (K d) fs = mapR (apfst K) (W fs)"
    and "\<And>fs. LoadColumn_ic v w fs (adrs_path w db tb (K d)) (rows_path w db tb (K d)) (frag_path w db tb (K d)) enc
      (DataType_value (GetColumnType (K d))) (ic_isNullable (K d)) (ic_isUnique (K d)) (default_text (K d)) n (ic_name (K d))
      = mapR (\<lambda>x. K (f x)) (L fs)"
    and "\<And>d'. same_col d d' \<Longrightarrow> same_ic (K d) (K (f d'))"
  shows "\<exists>outs c1 c'. column_io v w db tb n enc (K d) outs c1 c'"
proof -
  obtain outs d1 d' where o: "map fst outs = ic_paths w db tb (K d)" "\<And>fs. W fs = Inr (d1, fs ++ map_of outs)"
    "\<And>fs. agrees fs outs \<Longrightarrow> L fs = Inr d'" "same_col d d'"
    using assms(1) by blast
  then have "column_io v w db tb n enc (K d) outs (K d1) (K (f d'))"
    unfolding column_io_def assms(2,3) by (simp add: assms(4))
  then show ?thesis by blast
qed

lemmas ic_accessors = GetColumnType_def ic_name_def ic_isNullable_def ic_isUnique_def

lemma path_eqs [simp]:
  "adrs_path w db tb (ColInt c1) = address_path (io_dir w) db tb c1" "rows_path w db tb (ColInt c1) = data_path (io_dir w) db tb c1"
  "adrs_path w db tb (ColLong c2) = address_path (io_dir w) db tb c2" "rows_path w db tb (ColLong c2) = data_path (io_dir w) db tb c2"
  "adrs_path w db tb (ColFloat c3) = address_path (io_dir w) db tb c3" "rows_path w db tb (ColFloat c3) = data_path (io_dir w) db tb c3"
  "adrs_path w db tb (ColDouble c4) = address_path (io_dir w) db tb c4" "rows_path w db tb (ColDouble c4) = data_path (io_dir w) db tb c4"
  "adrs_path w db tb (ColPoint c5) = address_path (io_dir w) db tb c5" "rows_path w db tb (ColPoint c5) = data_path (io_dir w) db tb c5"
  "adrs_path w db tb (ColPolygon c6) = address_path (io_dir w) db tb c6" "rows_path w db tb (ColPolygon c6) = data_path (io_dir w) db tb c6"
  "adrs_path w db tb (ColString c7) = address_path (io_dir w) db tb c7" "rows_path w db tb (ColString c7) = data_path (io_dir w) db tb c7"
  "adrs_path w db tb (ColInt8 c8) = address_path (io_dir w) db tb c8" "rows_path w db tb (ColInt8 c8) = data_path (io_dir w) db tb c8"
  "frag_path w db tb (ColPolygon c6) = fragment_path (io_dir w) db tb c6" "frag_path w db tb (ColString c7) = fragment_path (io_dir w) db tb c7"
  by (simp_all add: adrs_path_def rows_path_def frag_path_def has_fragments_def GetColumnType_def ic_name_def
      ic_fileAddressPath_def ic_fileDataPath_def ic_fileFragmentPath_def data_path_def address_path_def fragment_path_def)

lemma stoll_show_sint: "stoll (show_int (sint (x :: int64))) = Inr (sint x)"
  by (rule stoll_show_int)

lemma show_in_64:
  assumes "- (2 ^ 63) \<le> i" and "i < 2 ^ 63"
  shows "stoll (show_int i) = Inr i"
proof -
  have "sint (word_of_int i :: int64) = i" using assms by (simp add: sint_sbintrunc' signed_take_bit_int_eq_self)
  then show ?thesis using stoll_show_int [of "word_of_int i"] by simp
qed

lemma stoi_show: "- (2 ^ 31) \<le> i \<Longrightarrow> i < 2 ^ 31 \<Longrightarrow> stoi (show_int i) = Inr (word_of_int i)"
  using show_in_64 [of i] by (simp add: stoi_def stol_def)

lemma show_int_not_word: "to_lower (show_int i) \<noteq> ''true'' \<and> to_lower (show_int i) \<noteq> ''false''"
proof -
  obtain c s where c: "show_int i = c # s" "is_digit c \<or> c = CHR ''-''"
    using show_nat_digits [of "hd (show_nat (nat i))" "nat i"]
    by (cases "i < 0"; cases "show_nat (nat i)") (auto simp: show_int_def)
  then have "(of_char c :: nat) \<le> 57" by (auto simp: is_digit_def)
  then have "hd (to_lower (show_int i)) = c" by (simp add: c to_lower_def)
  then show ?thesis using c(2) by (auto simp: is_digit_def)
qed

lemma parse_bool_show: "parse_bool stoi (show_int (sint (x :: int8))) = Inr x"
proof -
  have r: "- (2 ^ 31) \<le> sint x" "sint x < 2 ^ 31" using sint_greater_eq [of x] sint_less [of x] by simp_all
  have e: "sint (word_of_int (sint x) :: int32) = sint x" using to_int32_id [OF r] by (simp add: to_int32_def)
  have "(word_of_int (sint (word_of_int (sint x) :: int32)) :: int8) = x" unfolding e by simp
  then show ?thesis using show_int_not_word [of "sint x"] stoi_show [OF r] by (simp only: parse_bool_def mapR.simps if_False)
qed

lemma mapR_mapR: "mapR f (mapR g r) = mapR (\<lambda>x. f (g x)) r"
  by (cases r) simp_all

lemma same_col_UpdateSize: "same_col d d' \<Longrightarrow> same_col d (UpdateSize d')"
  by (simp add: same_col_def UpdateSize_def GetBlocksList_def)

lemma POLYGON_DEFAULT_VALUE_readable: "\<exists>p. FromWkt_polygon POLYGON_DEFAULT_VALUE = Inr p"
proof -
  have p: "plain 0x3F800000"
    by (rule plainI [where neg = False and ip = "''1''" and fp = "[]" and a = 1 and b = 1 and n = "0x3F800000"])
      (simp_all add: read_eval round_eval, simp_all add: show_eval)
  have q: "plain 0x40000000"
    by (rule plainI [where neg = False and ip = "''2''" and fp = "[]" and a = 2 and b = 1 and n = "0x40000000"])
      (simp_all add: read_eval round_eval, simp_all add: show_eval)
  let ?p = "[[(0, 0), (0x3F800000, 0x3F800000), (0x40000000, 0x40000000), (0, 0)]] :: ComplexPolygon"
  have "show_coord False 0 = ''0''" "show_coord False 0x3F800000 = ''1''" "show_coord False 0x40000000 = ''2''"
    by (simp_all add: show_eval)
  then have "POLYGON_DEFAULT_VALUE = WktFromPolygon ?p False"
    by (simp add: POLYGON_DEFAULT_VALUE_def WktFromPolygon_def show_ring_def)
  moreover have "FromWkt_polygon (WktFromPolygon ?p False) = Inr ?p"
    using p q plain_0 by (intro wkt_roundtrip) (simp_all add: ring_def plain_point_def MAX_POLYGONS_NUMBER_def)
  ultimately show ?thesis by auto
qed

lemma column_io_ex:
  assumes "io_ok w" and "stored_ic v w n c" and "distinct (ic_paths w db tb c)" and "\<forall>p\<in>set (ic_paths w db tb c). io_writable w p"
  shows "\<exists>outs c1 c'. column_io v w db tb n enc c outs c1 c'"
proof (cases c)
  case (ColInt d)
  have "stoi (default_text c) = Inr (c_defaultValue d)"
    using stoi_show [of "sint (c_defaultValue d)"] sint_greater_eq [of "c_defaultValue d"] sint_less [of "c_defaultValue d"]
    by (simp add: ColInt default_text_def)
  then show ?thesis
    using number_stored [of w "(=)" n d stoi "default_text c" _ db tb "E_int v" "e_cInt v"] assms unfolding ColInt
    by (intro column_ioI [where f = "\<lambda>x. x"])
      (auto simp: stored_ic_def ic_paths_def has_fragments_def ic_accessors WriteColumn_ic_def LoadColumn_ic_def LoadColumn_int32_def)
next
  case (ColLong d)
  have "mapR word_of_int (stol (default_text c)) = Inr (c_defaultValue d)"
    using stoll_show_int [of "c_defaultValue d"] by (simp add: ColLong default_text_def stol_def)
  then show ?thesis
    using number_stored [of w "(=)" n d "\<lambda>s. mapR word_of_int (stol s)" "default_text c" _ db tb "E_long v" "e_cLong v"] assms unfolding ColLong
    by (intro column_ioI [where f = "\<lambda>x. x"])
      (auto simp: stored_ic_def ic_paths_def has_fragments_def ic_accessors WriteColumn_ic_def LoadColumn_ic_def LoadColumn_int64_def)
next
  case (ColInt8 d)
  have "parse_bool stoi (default_text c) = Inr (c_defaultValue d)"
    using parse_bool_show [of "c_defaultValue d"] by (simp add: ColInt8 default_text_def)
  then show ?thesis
    using number_stored [of w "(=)" n d "parse_bool stoi" "default_text c" _ db tb "E_int8 v" "e_cInt8 v"] assms unfolding ColInt8
    by (intro column_ioI [where f = "\<lambda>x. x"])
      (auto simp: stored_ic_def ic_paths_def has_fragments_def ic_accessors WriteColumn_ic_def LoadColumn_ic_def LoadColumn_int8_def)
next
  case (ColFloat d)
  then show ?thesis
    using number_stored [of w "e_sameFloat v" n d "io_stof w" "default_text c" _ db tb "E_float v" "e_cFloat v"] assms unfolding ColFloat
    by (intro column_ioI [where f = "\<lambda>x. x"])
      (auto simp: stored_ic_def ic_paths_def has_fragments_def ic_accessors WriteColumn_ic_def LoadColumn_ic_def LoadColumn_float_def)
next
  case (ColDouble d)
  then show ?thesis
    using number_stored [of w "e_sameDouble v" n d "io_stod w" "default_text c" _ db tb "E_double v" "e_cDouble v"] assms unfolding ColDouble
    by (intro column_ioI [where f = UpdateSize])
      (auto simp: stored_ic_def ic_paths_def has_fragments_def ic_accessors WriteColumn_ic_def LoadColumn_ic_def LoadColumn_double_def
        same_col_UpdateSize mapR_mapR)
next
  case (ColPoint d)
  then show ?thesis
    using point_stored [of w "e_samePoint v" n d "default_text c" _ db tb] assms unfolding ColPoint
    by (intro column_ioI [where f = "\<lambda>x. x"])
      (auto simp: stored_ic_def ic_paths_def has_fragments_def ic_accessors WriteColumn_ic_def LoadColumn_ic_def)
next
  case (ColPolygon d)
  have T: "same_value (polygon_type s) = s" "of_text (polygon_type s) = FromWkt_polygon" "kind (text_elem (polygon_type s)) = GeoStats" for s
    by (simp_all add: polygon_type_def elem_Polygon_def)
  obtain p where "FromWkt_polygon (default_text c) = Inr p"
    using POLYGON_DEFAULT_VALUE_readable by (auto simp: ColPolygon default_text_def)
  then show ?thesis
    using text_stored [of w "polygon_type (e_samePolygon v)" n d "default_text c" p db tb enc] assms unfolding ColPolygon
    by (intro column_ioI [where f = "\<lambda>x. x"])
      (auto simp: T stored_ic_def ic_paths_def has_fragments_def ic_accessors WriteColumn_ic_def LoadColumn_ic_def WriteColumn_polygon_def LoadColumn_polygon_def)
next
  case (ColString d)
  have T: "same_value string_type = (=)" "of_text string_type = Inr" "kind (text_elem string_type) = StringStats"
    by (simp_all add: string_type_def elem_string_def)
  show ?thesis
    using text_stored [of w string_type n d "default_text c" _ db tb enc] assms unfolding ColString
    by (intro column_ioI [where f = "\<lambda>x. x"])
      (auto simp: T stored_ic_def ic_paths_def has_fragments_def ic_accessors WriteColumn_ic_def LoadColumn_ic_def WriteColumn_string_def LoadColumn_string_def)
qed

end
