(* ===== verification/Json_Values.thy ===== *)
theory Json_Values
  imports Database_Roundtrip
begin

text \<open>
  JSON values with a writer and a reader that satisfy \<open>json_laws\<close>: an instance of the library operations for
  concrete databases. A value built by successive assignments keeps them, the latest first, and the text is a prefix
  code, so that a value is read back by recursive descent.
\<close>

datatype json = JNull | JArray | JString string | JInt int | JBool bool | JItem json json | JMember json string json

primrec json_get :: "json \<Rightarrow> string \<Rightarrow> json" where
  "json_get JNull k = JNull"
| "json_get JArray k = JNull"
| "json_get (JString s) k = JNull"
| "json_get (JInt i) k = JNull"
| "json_get (JBool b) k = JNull"
| "json_get (JItem a x) k = JNull"
| "json_get (JMember a k' x) k = (if k = k' then x else json_get a k)"

primrec json_items :: "json \<Rightarrow> json list" where
  "json_items JNull = []"
| "json_items JArray = []"
| "json_items (JString s) = []"
| "json_items (JInt i) = []"
| "json_items (JBool b) = []"
| "json_items (JItem a x) = json_items a @ [x]"
| "json_items (JMember a k x) = json_items a @ [x]"

definition write_string :: "string \<Rightarrow> int8 list" where
  "write_string s = concat (map (\<lambda>c. [1, byte_of_char c]) s) @ [0]"

definition write_nat :: "nat \<Rightarrow> int8 list" where
  "write_nat n = replicate n 1 @ [0]"

primrec json_write :: "json \<Rightarrow> int8 list" where
  "json_write JNull = [0]"
| "json_write JArray = [1]"
| "json_write (JString s) = 2 # write_string s"
| "json_write (JInt i) = 3 # (if i < 0 then 1 else 0) # write_nat (nat \<bar>i\<bar>)"
| "json_write (JBool b) = [4, if b then 1 else 0]"
| "json_write (JItem a x) = 5 # json_write a @ json_write x"
| "json_write (JMember a k x) = 6 # write_string k @ json_write a @ json_write x"

fun read_string :: "int8 list \<Rightarrow> (string \<times> int8 list) option" where
  "read_string [] = None"
| "read_string [b] = (if b = 0 then Some ([], []) else None)"
| "read_string (t # b # r) =
    (if t = 0 then Some ([], b # r) else map_option (apfst (Cons (char_of_byte b))) (read_string r))"

fun read_nat :: "int8 list \<Rightarrow> (nat \<times> int8 list) option" where
  "read_nat [] = None"
| "read_nat (t # r) = (if t = 0 then Some (0, r) else map_option (apfst Suc) (read_nat r))"

fun read_json :: "nat \<Rightarrow> int8 list \<Rightarrow> (json \<times> int8 list) option" where
  "read_json (Suc n) (b # r) =
    (if b = 0 then Some (JNull, r)
     else if b = 1 then Some (JArray, r)
     else if b = 2 then map_option (apfst JString) (read_string r)
     else if b = 3 then map_option (apfst (\<lambda>n. JInt (if hd r = 1 then - int n else int n))) (read_nat (tl r))
     else if b = 4 then Some (JBool (hd r = 1), tl r)
     else if b = 5 then Option.bind (read_json n r) (\<lambda>(a, r'). map_option (apfst (JItem a)) (read_json n r'))
     else Option.bind (read_string r) (\<lambda>(k, r1). Option.bind (read_json n r1) (\<lambda>(a, r2). map_option (apfst (JMember a k)) (read_json n r2))))"
| "read_json _ _ = None"

definition json_parse :: "int8 list \<Rightarrow> json option" where
  "json_parse bs = map_option fst (read_json (length bs) bs)"

definition json_values_ops :: "json json_ops" where
  "json_values_ops =
    \<lparr>j_null = JNull, j_array = JArray, j_string = JString, j_int = JInt, j_bool = JBool, j_put = JMember, j_append = JItem,
     j_get = json_get, j_items = json_items,
     j_asString = case_json (Inl RuntimeError) (Inl RuntimeError) Inr (\<lambda>_. Inl RuntimeError) (\<lambda>_. Inl RuntimeError) (\<lambda>_ _. Inl RuntimeError) (\<lambda>_ _ _. Inl RuntimeError),
     j_asInt = case_json (Inl RuntimeError) (Inl RuntimeError) (\<lambda>_. Inl RuntimeError) Inr (\<lambda>_. Inl RuntimeError) (\<lambda>_ _. Inl RuntimeError) (\<lambda>_ _ _. Inl RuntimeError),
     j_asBool = case_json (Inl RuntimeError) (Inl RuntimeError) (\<lambda>_. Inl RuntimeError) (\<lambda>_. Inl RuntimeError) Inr (\<lambda>_ _. Inl RuntimeError) (\<lambda>_ _ _. Inl RuntimeError),
     j_write = json_write, j_parse = json_parse\<rparr>"

lemma read_string_end: "read_string (0 # r) = Some ([], r)"
  by (cases r) simp_all

lemma read_string_write: "read_string (write_string s @ r) = Some (s, r)"
  by (induction s) (simp_all add: write_string_def read_string_end)

lemma read_nat_write: "read_nat (write_nat n @ r) = Some (n, r)"
  by (induction n) (simp_all add: write_nat_def)

lemma read_json_write: "size j \<le> n \<Longrightarrow> read_json (Suc n) (json_write j @ r) = Some (j, r)"
proof (induction j arbitrary: n r)
  case (JItem a x)
  then obtain m where "n = Suc m" "size a \<le> m" "size x \<le> m" by (cases n) auto
  with JItem.IH show ?case by simp
next
  case (JMember a k x)
  then obtain m where "n = Suc m" "size a \<le> m" "size x \<le> m" by (cases n) auto
  with JMember.IH show ?case by (simp add: read_string_write)
qed (simp_all add: read_string_write read_nat_write)

lemma size_json_write: "size j < length (json_write j)"
  by (induction j) (simp_all add: write_string_def write_nat_def)

lemma json_parse_write: "json_parse (json_write j) = Some j"
proof -
  obtain n where "length (json_write j) = Suc n" "size j \<le> n" using size_json_write [of j] by (cases "length (json_write j)") auto
  then show ?thesis using read_json_write [of j n "[]"] by (simp add: json_parse_def)
qed

lemma json_write_ne: "json_write j \<noteq> []"
  by (cases j) simp_all

lemma json_get_fold: "k \<notin> fst ` set kvs \<Longrightarrow> json_get (fold (\<lambda>(k, x) ob. JMember ob k x) kvs a) k = json_get a k"
  by (induction kvs arbitrary: a) auto

lemma json_get_object:
  "distinct (map fst kvs) \<Longrightarrow> (k, x) \<in> set kvs \<Longrightarrow> json_get (fold (\<lambda>(k, x) ob. JMember ob k x) kvs a) k = x"
  by (induction kvs arbitrary: a) (auto simp: json_get_fold)

lemma json_items_list: "json_items (fold (\<lambda>x a. JItem a x) xs a) = json_items a @ xs"
  by (induction xs arbitrary: a) auto

lemma json_laws_values: "json_laws json_values_ops"
  unfolding json_laws_def
  by (auto simp: json_values_ops_def j_object_def j_list_def json_get_object json_items_list json_parse_write
      json_write_ne)

end
