(* ===== verification/Database_Tables.thy ===== *)
theory Database_Tables
  imports Json_Values "HOL-Library.Multiset"
begin

text \<open>
  The tables of a database through the JSON document: writing the columns of all tables and loading the
  document that names them, and the round trip of \<open>Persist\<close> and \<open>LoadDatabase\<close>.
\<close>

section \<open>The columns of a table\<close>

lemma agrees_append: "agrees fs (xs @ ys) \<longleftrightarrow> agrees fs xs \<and> agrees fs ys"
  by (auto simp: agrees_def)

lemma agrees_written: "distinct (map fst outs) \<Longrightarrow> agrees (fs ++ map_of outs) outs"
  by (auto simp: agrees_def map_add_def map_of_eq_Some_iff)

text \<open>The encoding that is read back for a column.\<close>

definition json_encoding :: "icolumn \<Rightarrow> string" where
  "json_encoding c = (if \<not> has_fragments (GetColumnType c) then [] else if ic_encoding c = [] then ''undefined'' else ic_encoding c)"

lemma column_json_members:
  assumes "json_laws J" and "fst col = ic_name (snd col)"
    and j_def: "j = column_json J (io_dir w) db tb col" and c_def: "c = snd col"
  shows "j_asString J (j_get J j ''column_name'') = Inr (ic_name c)"
    "j_asInt J (j_get J j ''column_type'') = Inr (DataType_value (GetColumnType c))"
    "j_asString J (j_get J j ''file_path_address_file'') = Inr (adrs_path w db tb c)"
    "j_asString J (j_get J j ''file_path_data_file'') = Inr (rows_path w db tb c)"
    "has_fragments (GetColumnType c) \<Longrightarrow> j_asString J (j_get J j ''file_path_string_data_file'') = Inr (frag_path w db tb c)"
    "has_fragments (GetColumnType c) \<Longrightarrow> j_asString J (j_get J j ''encoding'') = Inr (json_encoding c)"
    "j_asString J (j_get J j ''default_entry_value'') = Inr (default_text c)"
    "j_asBool J (j_get J j ''nullable'') = Inr (ic_isNullable c)"
    "j_asBool J (j_get J j ''unique'') = Inr (ic_isUnique c)"
    "j_asBool J (j_get J j ''hidden'') = Inr False"
proof -
  have t: "- (2 ^ 31) \<le> DataType_value (GetColumnType c)" "DataType_value (GetColumnType c) < 2 ^ 31"
    by (cases "GetColumnType c"; simp add: DataType_value_def DataType_enum_def)+
  note v = json_values [OF assms(1)] and g = j_get_member [OF assms(1)]
  show "j_asString J (j_get J j ''column_name'') = Inr (ic_name c)"
    unfolding j_def column_json_def Let_def by (subst g) (auto simp: v assms(2) c_def)
  show "j_asInt J (j_get J j ''column_type'') = Inr (DataType_value (GetColumnType c))"
    unfolding j_def column_json_def Let_def by (subst g) (auto simp: v(4) [OF t] c_def [symmetric])
  show "j_asString J (j_get J j ''file_path_address_file'') = Inr (adrs_path w db tb c)"
    unfolding j_def column_json_def Let_def by (subst g) (auto simp: v assms(2) c_def adrs_path_def)
  show "j_asString J (j_get J j ''file_path_data_file'') = Inr (rows_path w db tb c)"
    unfolding j_def column_json_def Let_def by (subst g) (auto simp: v assms(2) c_def rows_path_def)
  show "j_asString J (j_get J j ''file_path_string_data_file'') = Inr (frag_path w db tb c)" if "has_fragments (GetColumnType c)"
    using that unfolding j_def column_json_def Let_def by (subst g) (auto simp: v assms(2) c_def frag_path_def)
  show "j_asString J (j_get J j ''encoding'') = Inr (json_encoding c)" if "has_fragments (GetColumnType c)"
    using that unfolding j_def column_json_def Let_def by (subst g) (auto simp: v c_def json_encoding_def)
  show "j_asString J (j_get J j ''default_entry_value'') = Inr (default_text c)"
    unfolding j_def column_json_def Let_def by (subst g) (auto simp: v c_def)
  show "j_asBool J (j_get J j ''nullable'') = Inr (ic_isNullable c)"
    unfolding j_def column_json_def Let_def by (subst g) (auto simp: v c_def)
  show "j_asBool J (j_get J j ''unique'') = Inr (ic_isUnique c)"
    unfolding j_def column_json_def Let_def by (subst g) (auto simp: v c_def)
  show "j_asBool J (j_get J j ''hidden'') = Inr False"
    unfolding j_def column_json_def Let_def by (subst g) (auto simp: v c_def)
qed

lemma DataType_value_fragments:
  "(DataType_value t = DataType_value COLUMN_STRING \<or> DataType_value t = DataType_value COLUMN_POLYGON) = has_fragments t"
  by (cases t) (simp_all add: DataType_value_def DataType_enum_def has_fragments_def)

lemma load_column_written:
  assumes "json_laws J" and "fst col = ic_name (snd col)" and "column_io v w db tb n (json_encoding (snd col)) (snd col) outs c1 c'"
    and "agrees fs outs" and "CheckColumnsLimit (e_columns v) (int (length (t_columns t)) - 1) = Inr ()" and "t_blockSize t = n" and "fst col \<notin> fst ` set (t_columns t)"
  shows "load_column_json J v w fs (column_json J (io_dir w) db tb col) t
    = Inr (t\<lparr>t_columns := t_columns t @ [(fst col, c')]\<rparr>)"
proof -
  let ?c = "snd col"
  note m = column_json_members [OF assms(1,2) refl refl, of w db tb]
  have l: "LoadColumn_ic v w fs (adrs_path w db tb ?c) (rows_path w db tb ?c) (frag_path w db tb ?c) (json_encoding ?c)
      (DataType_value (GetColumnType ?c)) (ic_isNullable ?c) (ic_isUnique ?c) (default_text ?c) n (ic_name ?c) = Inr c'"
    using assms(3,4) by (simp add: column_io_def)
  have n: "\<not> ContainsColumn (ic_name ?c) t" using assms(2,7) by (simp add: ContainsColumn_def find_column_def map_of_eq_None_iff)
  have k: "DataType_value (GetColumnType ?c) \<in> DataType_value ` set loadable_types"
    by (cases ?c) (simp_all add: GetColumnType_def loadable_types_def)
  show ?thesis
  proof (cases "has_fragments (GetColumnType ?c)")
    case True
    then show ?thesis
      unfolding load_column_json_def m(1-4,7-10) bindR.simps Let_def DataType_value_fragments m(5) [OF True] m(6) [OF True]
      using l n k assms(2,5,6) by simp
  next
    case False
    then have "frag_path w db tb ?c = []" "json_encoding ?c = []" by (simp_all add: frag_path_def json_encoding_def)
    with False show ?thesis
      unfolding load_column_json_def m(1-4,7-10) bindR.simps Let_def DataType_value_fragments
      using l n k assms(2,5,6) by simp
  qed
qed

text \<open>
  The limits of the edition. The check for a new column counts one column less than the table has; index columns are
  checked with a count of zero.
\<close>

definition under_limit :: "int option \<Rightarrow> int \<Rightarrow> bool" where
  "under_limit limit n = (case limit of None \<Rightarrow> True | Some l \<Rightarrow> n \<le> l)"

lemma limit_columns: "under_limit limit n \<Longrightarrow> k < n \<Longrightarrow> CheckColumnsLimit limit k = Inr ()"
  by (auto simp: under_limit_def CheckColumnsLimit_def split: option.splits)

lemma limit_tables: "under_limit limit n \<Longrightarrow> k < n \<Longrightarrow> CheckTablesLimit limit k = Inr ()"
  by (auto simp: under_limit_def CheckTablesLimit_def split: option.splits)

text \<open>
  A list of columns is written to the files \<open>outs\<close>, and loading it from any files that have them adds to a table
  the same columns.
\<close>

definition columns_io ::
  "'j json_ops \<Rightarrow> env \<Rightarrow> io \<Rightarrow> string \<Rightarrow> string \<Rightarrow> nat \<Rightarrow> (string \<times> icolumn) list \<Rightarrow> (string \<times> int8 list) list
    \<Rightarrow> (string \<times> icolumn) list \<Rightarrow> (string \<times> icolumn) list \<Rightarrow> bool" where
  "columns_io J v w db tb n cs outs cs1 cs' \<longleftrightarrow>
    mset (map fst outs) = mset (concat (map (\<lambda>c. ic_paths w db tb (snd c)) cs)) \<and>
    map fst cs' = map fst cs \<and> list_all2 same_ic (map snd cs) (map snd cs') \<and>
    (\<forall>fs. write_columns v w db tb n cs fs = Inr (cs1, fs ++ map_of outs)) \<and>
    (\<forall>fs t. agrees fs outs \<and> t_blockSize t = n \<and> distinct (map fst (t_columns t @ cs)) \<and>
        under_limit (e_columns v) (int (length (t_columns t @ cs)) - 1) \<longrightarrow>
      foldR (load_column_json J v w fs) (map (column_json J (io_dir w) db tb) cs) t = Inr (t\<lparr>t_columns := t_columns t @ cs'\<rparr>))"

lemma columns_io_ex:
  assumes "json_laws J" and "io_ok w"
    and "\<forall>(k, c)\<in>set cs. k = ic_name c \<and> stored_ic v w n c \<and> distinct (ic_paths w db tb c) \<and> (\<forall>p\<in>set (ic_paths w db tb c). io_writable w p)"
  shows "\<exists>outs cs1 cs'. columns_io J v w db tb n cs outs cs1 cs'"
  using assms(3)
proof (induction cs)
  case Nil
  show ?case by (intro exI [of _ "[]"]) (simp add: columns_io_def)
next
  case (Cons col cs)
  obtain k c where col: "col = (k, c)" by (cases col)
  have k: "k = ic_name c" using Cons.prems col by simp
  obtain o1 c1 c' where c: "column_io v w db tb n (json_encoding c) c o1 c1 c'"
    using column_io_ex [OF assms(2), of v n c db tb "json_encoding c"] Cons.prems col by auto
  obtain o2 cs1 cs' where cs: "columns_io J v w db tb n cs o2 cs1 cs'" using Cons by auto
  have "foldR (load_column_json J v w fs) (map (column_json J (io_dir w) db tb) (col # cs)) t
      = Inr (t\<lparr>t_columns := t_columns t @ (k, c') # cs'\<rparr>)"
    if t: "agrees fs (o2 @ o1)" "t_blockSize t = n" "distinct (map fst (t_columns t @ col # cs))"
      "under_limit (e_columns v) (int (length (t_columns t @ col # cs)) - 1)" for fs t
  proof -
    have lim: "CheckColumnsLimit (e_columns v) (int (length (t_columns t)) - 1) = Inr ()"
      using t(4) by (rule limit_columns) simp
    have "load_column_json J v w fs (column_json J (io_dir w) db tb col) t = Inr (t\<lparr>t_columns := t_columns t @ [(k, c')]\<rparr>)"
      using load_column_written [OF assms(1) _ _ _ lim t(2), where col = col and db = db and tb = tb and w = w and outs = o1 and c' = c' and fs = fs] t c k
      by (simp add: col agrees_append)
    then show ?thesis using cs t by (simp add: columns_io_def agrees_append col)
  qed
  moreover have "write_columns v w db tb n (col # cs) fs = Inr ((k, c1) # cs1, fs ++ map_of (o2 @ o1))" for fs
    using c cs by (simp add: col column_io_def columns_io_def)
  moreover have "map fst o1 = ic_paths w db tb c" "same_ic c c'" using c by (simp_all add: column_io_def)
  ultimately have "columns_io J v w db tb n (col # cs) (o2 @ o1) ((k, c1) # cs1) ((k, c') # cs')"
    using cs by (simp add: columns_io_def col del: mset_map)
  then show ?case by blast
qed

section \<open>The tables of a database\<close>

definition same_table :: "table \<Rightarrow> table \<Rightarrow> bool" where
  "same_table t t' \<longleftrightarrow>
    t_name t' = t_name t \<and> t_blockSize t' = t_blockSize t \<and> t_sortingColumns t' = t_sortingColumns t \<and>
    t_saveInterval t' = t_saveInterval t \<and> t_constraints t' = [] \<and>
    map fst (t_columns t') = map fst (t_columns t) \<and> list_all2 same_ic (map snd (t_columns t)) (map snd (t_columns t'))"

definition table_paths :: "io \<Rightarrow> string \<Rightarrow> table \<Rightarrow> string list" where
  "table_paths w db t = concat (map (\<lambda>c. ic_paths w db (t_name t) (snd c)) (t_columns t))"

text \<open>A table that can be saved and loaded.\<close>

definition stored_table :: "env \<Rightarrow> io \<Rightarrow> table \<Rightarrow> bool" where
  "stored_table v w t \<longleftrightarrow>
    t_blockSize t < 2 ^ 31 \<and> - (2 ^ 31) \<le> t_saveInterval t \<and> t_saveInterval t < 2 ^ 31 \<and>
    distinct (map fst (t_columns t)) \<and> under_limit (e_columns v) (max 1 (int (length (t_columns t)) - 1)) \<and>
    (\<forall>c\<in>set (t_columns t). fst c = ic_name (snd c) \<and> stored_ic v w (t_blockSize t) (snd c))"

lemma table_json_members:
  assumes "json_laws J" and "stored_table v w t"
  shows "j_asString J (j_get J (table_json J dir db t) ''table_name'') = Inr (t_name t)"
    "j_asInt J (j_get J (table_json J dir db t) ''table_block_size'') = Inr (int (t_blockSize t))"
    "j_asInt J (j_get J (table_json J dir db t) ''save_interval_ms'') = Inr (t_saveInterval t)"
    "traverseR (load_index_json J v) (j_items J (j_get J (table_json J dir db t) ''index_columns'')) = Inr (t_sortingColumns t)"
    "j_items J (j_get J (table_json J dir db t) ''columns'') = map (column_json J dir db (t_name t)) (t_columns t)"
proof -
  note v = json_values [OF assms(1)] and g = j_get_member [OF assms(1)]
  have n: "- (2 ^ 31) \<le> int (t_blockSize t)" "int (t_blockSize t) < 2 ^ 31" "- (2 ^ 31) \<le> t_saveInterval t" "t_saveInterval t < 2 ^ 31"
    using assms(2) by (simp_all add: stored_table_def)
  have "CheckColumnsLimit (e_columns v) 0 = Inr ()"
    by (rule limit_columns [of _ "max 1 (int (length (t_columns t)) - 1)"]) (use assms(2) in \<open>simp_all add: stored_table_def\<close>)
  then have i: "load_index_json J v (j_object J [(''index_column_name'', j_string J s)]) = Inr s" for s
    by (simp add: load_index_json_def v g)
  show "j_asString J (j_get J (table_json J dir db t) ''table_name'') = Inr (t_name t)"
    unfolding table_json_def by (subst g) (auto simp: v)
  show "j_asInt J (j_get J (table_json J dir db t) ''table_block_size'') = Inr (int (t_blockSize t))"
    unfolding table_json_def by (subst g) (auto simp: v(4) [OF n(1,2)])
  show "j_asInt J (j_get J (table_json J dir db t) ''save_interval_ms'') = Inr (t_saveInterval t)"
    unfolding table_json_def by (subst g) (auto simp: v(4) [OF n(3,4)])
  show "traverseR (load_index_json J v) (j_items J (j_get J (table_json J dir db t) ''index_columns'')) = Inr (t_sortingColumns t)"
    unfolding table_json_def by (subst g) (auto simp: v intro!: traverse_map i)
  show "j_items J (j_get J (table_json J dir db t) ''columns'') = map (column_json J dir db (t_name t)) (t_columns t)"
    unfolding table_json_def by (subst g) (auto simp: v)
qed

lemma AList_update_new: "k \<notin> fst ` set al \<Longrightarrow> AList.update k x al = al @ [(k, x)]"
  by (induction al) auto

lemma load_table_written:
  assumes "json_laws J" and "stored_table v w t" and "columns_io J v w (db_name db) (t_name t) (t_blockSize t) (t_columns t) outs cs1 cs'"
    and "agrees fs outs" and "CheckTablesLimit (io_tables w) (int (length (db_tables db))) = Inr ()" and "t_name t \<notin> fst ` set (db_tables db)"
  shows "load_table_json J v w fs (table_json J (io_dir w) (db_name db) t) db
    = Inr (db\<lparr>db_tables := db_tables db @ [(t_name t, t\<lparr>t_columns := cs', t_constraints := []\<rparr>)]\<rparr>)"
proof -
  let ?t0 = "SetSaveInterval (t_saveInterval t) (SetSortingColumns (t_sortingColumns t)
    (Table_new (db_blockSize db) (io_saveInterval w) (t_name t) (int (t_blockSize t))))"
  note m = table_json_members [OF assms(1,2), where dir = "io_dir w" and db = "db_name db"]
  have t0: "t_blockSize ?t0 = t_blockSize t" "t_columns ?t0 = []"
    by (simp_all add: Table_new_def SetSaveInterval_def SetSortingColumns_def)
  have d: "distinct (map fst (t_columns ?t0 @ t_columns t))" "under_limit (e_columns v) (int (length (t_columns ?t0 @ t_columns t)) - 1)"
    using assms(2) by (auto simp: t0 stored_table_def under_limit_def split: option.splits)
  have "foldR (load_column_json J v w fs) (map (column_json J (io_dir w) (db_name db) (t_name t)) (t_columns t)) ?t0
      = Inr (?t0\<lparr>t_columns := t_columns ?t0 @ cs'\<rparr>)"
    using assms(3,4) t0(1) d unfolding columns_io_def by blast
  moreover have "?t0\<lparr>t_columns := t_columns ?t0 @ cs'\<rparr> = t\<lparr>t_columns := cs', t_constraints := []\<rparr>"
    by (simp add: Table_new_def SetSaveInterval_def SetSortingColumns_def)
  moreover have "map_of (db_tables db) (t_name t) = None" using assms(6) by (simp add: map_of_eq_None_iff)
  ultimately show ?thesis
    unfolding load_table_json_def m bindR.simps Let_def using AList_update_new [OF assms(6)] assms(5)
    by simp
qed

definition tables_io ::
  "'j json_ops \<Rightarrow> env \<Rightarrow> io \<Rightarrow> string \<Rightarrow> (string \<times> table) list \<Rightarrow> (string \<times> int8 list) list
    \<Rightarrow> (string \<times> table) list \<Rightarrow> (string \<times> table) list \<Rightarrow> bool" where
  "tables_io J v w db ts outs ts1 ts' \<longleftrightarrow>
    mset (map fst outs) = mset (concat (map (\<lambda>t. table_paths w db (snd t)) ts)) \<and>
    map fst ts' = map fst ts \<and> list_all2 same_table (map snd ts) (map snd ts') \<and>
    (\<forall>fs. write_tables v w db ts fs = Inr (ts1, fs ++ map_of outs)) \<and>
    (\<forall>fs d. agrees fs outs \<and> db_name d = db \<and> distinct (map fst (db_tables d @ ts)) \<and>
        under_limit (io_tables w) (int (length (db_tables d @ ts))) \<longrightarrow>
      foldR (load_table_json J v w fs) (map (\<lambda>t. table_json J (io_dir w) db (snd t)) ts) d = Inr (d\<lparr>db_tables := db_tables d @ ts'\<rparr>))"

lemma table_columns_io:
  assumes "json_laws J" and "io_ok w" and "stored_table v w t"
    and "distinct (table_paths w db t)" and "\<forall>p\<in>set (table_paths w db t). io_writable w p"
  shows "\<exists>outs cs1 cs'. columns_io J v w db (t_name t) (t_blockSize t) (t_columns t) outs cs1 cs'"
proof (rule columns_io_ex [OF assms(1,2)])
  have "distinct (ic_paths w db (t_name t) c)" "set (ic_paths w db (t_name t) c) \<subseteq> set (table_paths w db t)"
    if "(k, c) \<in> set (t_columns t)" for k c
    using assms(4) that by (force simp: table_paths_def distinct_concat_iff)+
  then show "\<forall>(k, c)\<in>set (t_columns t). k = ic_name c \<and> stored_ic v w (t_blockSize t) c
      \<and> distinct (ic_paths w db (t_name t) c) \<and> (\<forall>p\<in>set (ic_paths w db (t_name t) c). io_writable w p)"
    using assms(3,5) by (fastforce simp: stored_table_def)
qed

lemma tables_io_ex:
  assumes "json_laws J" and "io_ok w"
    and "\<forall>t\<in>set ts. fst t = t_name (snd t) \<and> stored_table v w (snd t) \<and> distinct (table_paths w db (snd t))
      \<and> (\<forall>p\<in>set (table_paths w db (snd t)). io_writable w p)"
  shows "\<exists>outs ts1 ts'. tables_io J v w db ts outs ts1 ts'"
  using assms(3)
proof (induction ts)
  case Nil
  show ?case by (intro exI [of _ "[]"]) (simp add: tables_io_def)
next
  case (Cons tab ts)
  obtain k t where tab: "tab = (k, t)" by (cases tab)
  have t: "k = t_name t" "stored_table v w t" using Cons.prems tab by simp_all
  obtain o1 cs1 cs' where c: "columns_io J v w db (t_name t) (t_blockSize t) (t_columns t) o1 cs1 cs'"
    using table_columns_io [OF assms(1,2) t(2), of db] Cons.prems tab by auto
  obtain o2 ts1 ts' where ts: "tables_io J v w db ts o2 ts1 ts'" using Cons by auto
  let ?t' = "t\<lparr>t_columns := cs', t_constraints := []\<rparr>"
  have L: "foldR (load_table_json J v w fs) (map (\<lambda>t. table_json J (io_dir w) db (snd t)) (tab # ts)) d
      = Inr (d\<lparr>db_tables := db_tables d @ (k, ?t') # ts'\<rparr>)"
    if d: "agrees fs (o2 @ o1)" "db_name d = db" "distinct (map fst (db_tables d @ tab # ts))"
      "under_limit (io_tables w) (int (length (db_tables d @ tab # ts)))" for fs d
  proof -
    have lim: "CheckTablesLimit (io_tables w) (int (length (db_tables d))) = Inr ()"
      using d(4) by (rule limit_tables) simp
    have "load_table_json J v w fs (table_json J (io_dir w) db t) d = Inr (d\<lparr>db_tables := db_tables d @ [(k, ?t')]\<rparr>)"
      using load_table_written [OF assms(1) t(2) _ _ lim, where outs = o1 and cs' = cs' and fs = fs] d c t(1)
      by (simp add: tab agrees_append)
    then show ?thesis using ts d by (simp add: tables_io_def agrees_append tab ac_simps)
  qed
  have W: "write_tables v w db (tab # ts) fs = Inr ((k, t\<lparr>t_columns := cs1\<rparr>) # ts1, fs ++ map_of (o2 @ o1))" for fs
    using c ts by (simp add: tab columns_io_def tables_io_def)
  have M: "mset (map fst o1) = mset (table_paths w db t)" "same_table t ?t'"
    using c by (simp_all add: columns_io_def table_paths_def same_table_def del: mset_map)
  have P: "mset (map fst (o2 @ o1)) = mset (concat (map (\<lambda>t. table_paths w db (snd t)) (tab # ts)))"
    "map fst ((k, ?t') # ts') = map fst (tab # ts)" "list_all2 same_table (map snd (tab # ts)) (map snd ((k, ?t') # ts'))"
    using ts M by (simp_all add: tables_io_def tab del: mset_map)
  have "tables_io J v w db (tab # ts) (o2 @ o1) ((k, t\<lparr>t_columns := cs1\<rparr>) # ts1) ((k, ?t') # ts')"
    unfolding tables_io_def using L W by (intro conjI allI impI P) blast+
  then show ?case by blast
qed

section \<open>The round trip\<close>

definition database_paths :: "io \<Rightarrow> database \<Rightarrow> string list" where
  "database_paths w db =
    db_path (io_dir w) (db_name db) # concat (map (\<lambda>t. table_paths w (db_name db) (snd t)) (db_tables db))"

text \<open>
  A database that can be saved and loaded: no two of its files have one path and all can be opened, its texts
  are ASCII, and its tables and columns are within the limits of the edition.
\<close>

definition ascii_table :: "io \<Rightarrow> string \<Rightarrow> table \<Rightarrow> bool" where
  "ascii_table w db t \<longleftrightarrow> ascii (t_name t) \<and> (\<forall>s\<in>set (t_sortingColumns t). ascii s) \<and>
    (\<forall>c\<in>set (t_columns t). ascii (fst c) \<and> (\<forall>p\<in>set (ic_paths w db (t_name t) (snd c)). ascii p) \<and>
      ascii (ic_encoding (snd c)) \<and> ascii (default_text (snd c)))"

definition stored_database :: "env \<Rightarrow> io \<Rightarrow> database \<Rightarrow> bool" where
  "stored_database v w db \<longleftrightarrow>
    db_blockSize db < 2 ^ 31 \<and> under_limit (io_tables w) (int (length (db_tables db))) \<and> distinct (map fst (db_tables db)) \<and>
    ascii (db_name db) \<and>
    (\<forall>t\<in>set (db_tables db). fst t = t_name (snd t) \<and> stored_table v w (snd t) \<and> ascii_table w (db_name db) (snd t)) \<and>
    distinct (database_paths w db) \<and> (\<forall>p\<in>set (database_paths w db). io_writable w p)"

lemma ascii_literal [simp]: "ascii []" "ascii (c # s) \<longleftrightarrow> (of_char c :: nat) < 128 \<and> ascii s"
  by (simp_all add: ascii_def)

lemma column_json_doc:
  assumes "ascii (fst col)" and "fst col = ic_name (snd col)" and "\<forall>p\<in>set (ic_paths w db tb (snd col)). ascii p"
    and "ascii (ic_encoding (snd col))" and "ascii (default_text (snd col))"
  shows "json_doc J (column_json J (io_dir w) db tb col)"
proof -
  have t: "- (2 ^ 31) \<le> DataType_value (GetColumnType (snd col))" "DataType_value (GetColumnType (snd col)) < 2 ^ 31"
    by (cases "GetColumnType (snd col)"; simp add: DataType_value_def DataType_enum_def)+
  have p: "ascii (column_path (io_dir w) db tb (fst col) (ic_fileAddressPath (snd col)) ''.adrs'')"
    "ascii (column_path (io_dir w) db tb (fst col) (ic_fileDataPath (snd col)) ''.data'')"
    "has_fragments (GetColumnType (snd col)) \<Longrightarrow> ascii (column_path (io_dir w) db tb (fst col) (ic_fileFragmentPath (snd col)) ''.fragdata'')"
    using assms(2,3) by (simp_all add: ic_paths_def adrs_path_def rows_path_def frag_path_def)
  show ?thesis
    unfolding column_json_def Let_def
    using p assms(1,4,5) by (intro json_object) (auto intro!: json_string json_bool json_int [OF t])
qed

lemma table_json_doc:
  assumes "stored_table v w t" and "ascii_table w db t"
  shows "json_doc J (table_json J (io_dir w) db t)"
proof -
  have n: "- (2 ^ 31) \<le> int (t_blockSize t)" "int (t_blockSize t) < 2 ^ 31" "- (2 ^ 31) \<le> t_saveInterval t" "t_saveInterval t < 2 ^ 31"
    using assms(1) by (simp_all add: stored_table_def)
  have c: "json_doc J (column_json J (io_dir w) db (t_name t) col)" if "col \<in> set (t_columns t)" for col
    using assms that by (intro column_json_doc) (auto simp: stored_table_def ascii_table_def)
  have i: "json_doc J (j_object J [(''index_column_name'', j_string J s)])" if "s \<in> set (t_sortingColumns t)" for s
    using assms(2) that by (intro json_object) (auto intro: json_string simp: ascii_table_def)
  show ?thesis
    unfolding table_json_def using assms(2) c i
    by (intro json_object) (auto intro!: json_string json_bool json_list json_int [OF n(1,2)] json_int [OF n(3,4)] simp: ascii_table_def)
qed

lemma database_json_doc:
  assumes "stored_database v w db"
  shows "json_doc J (database_json J (io_dir w) db)"
proof -
  have n: "- (2 ^ 31) \<le> int (db_blockSize db)" "int (db_blockSize db) < 2 ^ 31" "- (2 ^ 31) \<le> PERSISTENCE_FORMAT_VERSION" "PERSISTENCE_FORMAT_VERSION < 2 ^ 31"
    using assms by (simp_all add: stored_database_def PERSISTENCE_FORMAT_VERSION_def)
  have t: "json_doc J (table_json J (io_dir w) (db_name db) t)" if "(k, t) \<in> set (db_tables db)" for k t
    using assms that by (intro table_json_doc [of v]) (auto simp: stored_database_def)
  show ?thesis
    unfolding database_json_def using assms t
    by (intro json_object) (auto intro!: json_string json_list json_int [OF n(1,2)] json_int [OF n(3,4)] simp: stored_database_def)
qed

lemma database_json_members:
  assumes "json_laws J" and "db_blockSize db < 2 ^ 31"
  shows "j_asInt J (j_get J (database_json J dir db) ''persistence_format_version'') = Inr 1"
    "j_asString J (j_get J (database_json J dir db) ''database_name'') = Inr (db_name db)"
    "j_asInt J (j_get J (database_json J dir db) ''database_default_block_size'') = Inr (int (db_blockSize db))"
    "j_items J (j_get J (database_json J dir db) ''tables'') = map (\<lambda>t. table_json J dir (db_name db) (snd t)) (db_tables db)"
proof -
  note v = json_values [OF assms(1)] and g = j_get_member [OF assms(1)]
  have n: "- (2 ^ 31) \<le> int (db_blockSize db)" "int (db_blockSize db) < 2 ^ 31" "- (2 ^ 31) \<le> (1 :: int)" "(1 :: int) < 2 ^ 31"
    using assms(2) by simp_all
  show "j_asInt J (j_get J (database_json J dir db) ''persistence_format_version'') = Inr 1"
    unfolding database_json_def PERSISTENCE_FORMAT_VERSION_def by (subst g) (auto simp: v(4) [OF n(3,4)])
  show "j_asString J (j_get J (database_json J dir db) ''database_name'') = Inr (db_name db)"
    unfolding database_json_def by (subst g) (auto simp: v)
  show "j_asInt J (j_get J (database_json J dir db) ''database_default_block_size'') = Inr (int (db_blockSize db))"
    unfolding database_json_def by (subst g) (auto simp: v(4) [OF n(1,2)])
  show "j_items J (j_get J (database_json J dir db) ''tables'') = map (\<lambda>t. table_json J dir (db_name db) (snd t)) (db_tables db)"
    unfolding database_json_def by (subst g) (auto simp: v split: prod.splits)
qed

text \<open>
  C15. A database written by \<open>Persist\<close> is found again by \<open>LoadDatabase\<close>: its name, its block size and its tables with
  their names, block sizes, sorting columns, save intervals and columns of every type, each with the values and
  null masks of all its blocks. The constraints are not written and come back empty. This holds for databases with
  distinct file paths that can all be opened, with ASCII names, paths and default values, within the limits of the
  edition, whose strings and polygons can be read back from fragments (no last text of a block that starts a
  fragment, no text longer than a fragment or with a zero byte, polygons that are read back from their text), and
  whose default values can be parsed. Of the JSON library it is assumed that an ASCII document is parsed to what was written.
\<close>

theorem database_roundtrip:
  assumes "json_laws J" and "io_ok w" and "stored_database v w db"
  shows "\<exists>db1 fs' db'. Persist J v w db fs = Inr (db1, fs') \<and>
    LoadDatabase J v w (db_name db) (io_dir w) fs' = Inr (Some db') \<and>
    db_name db' = db_name db \<and> db_blockSize db' = db_blockSize db \<and>
    map fst (db_tables db') = map fst (db_tables db) \<and>
    list_all2 same_table (map snd (db_tables db)) (map snd (db_tables db'))"
proof -
  let ?p = "db_path (io_dir w) (db_name db)" and ?j = "database_json J (io_dir w) db" and ?d = "Database_new (db_name db) (db_blockSize db)"
  have s: "db_blockSize db < 2 ^ 31" "under_limit (io_tables w) (int (length (db_tables db)))" "distinct (map fst (db_tables db))"
    "\<forall>t\<in>set (db_tables db). fst t = t_name (snd t) \<and> stored_table v w (snd t)"
    "distinct (database_paths w db)" "\<forall>p\<in>set (database_paths w db). io_writable w p"
    using assms(3) by (simp_all add: stored_database_def)
  have "\<forall>t\<in>set (db_tables db). distinct (table_paths w (db_name db) (snd t)) \<and> (\<forall>p\<in>set (table_paths w (db_name db) (snd t)). io_writable w p)"
    using s(5,6) by (auto simp: database_paths_def distinct_concat_iff)
  then obtain outs ts1 ts' where t: "tables_io J v w (db_name db) (db_tables db) outs ts1 ts'"
    using tables_io_ex [OF assms(1,2), where ts = "db_tables db" and db = "db_name db" and v = v] s(4) by blast
  have m: "mset (map fst outs) = mset (concat (map (\<lambda>t. table_paths w (db_name db) (snd t)) (db_tables db)))"
    using t by (simp add: tables_io_def del: mset_map)
  have o: "distinct (map fst outs)" "?p \<notin> set (map fst outs)"
    using s(5) mset_eq_imp_distinct_iff [OF m] mset_eq_setD [OF m] by (auto simp: database_paths_def)
  define fs' where "fs' = fs(?p \<mapsto> j_write J ?j) ++ map_of outs"
  have P: "Persist J v w db fs = Inr (db\<lparr>db_tables := ts1\<rparr>, fs')"
    using t s(6) by (simp add: Persist_def PersistOnlyDbFile_def Let_def tables_io_def database_paths_def fs'_def)
  have a: "agrees fs' outs" unfolding fs'_def by (rule agrees_written [OF o(1)])
  have f: "fs' ?p = Some (j_write J ?j)"
    using o(2) by (simp add: fs'_def map_add_def map_of_eq_None_iff [THEN iffD2])
  have w: "j_write J ?j \<noteq> []" "j_parse J (j_write J ?j) = Some ?j"
    using assms(1) database_json_doc [OF assms(3), of J] unfolding json_laws_def by blast+
  have "foldR (load_table_json J v w fs') (map (\<lambda>t. table_json J (io_dir w) (db_name db) (snd t)) (db_tables db)) ?d = Inr (?d\<lparr>db_tables := ts'\<rparr>)"
    using t a s(2,3) by (simp add: tables_io_def Database_new_def)
  then have "LoadDatabase J v w (db_name db) (io_dir w) fs' = Inr (Some (?d\<lparr>db_tables := ts'\<rparr>))"
    unfolding LoadDatabase_def f by (simp add: w database_json_members [OF assms(1) s(1)])
  then show ?thesis using P t by (auto simp: Database_new_def tables_io_def)
qed

text \<open>A database with a table of two columns.\<close>

definition sample_env :: env where
  "sample_env =
    \<lparr>e_rows = None, e_columns = Some 8, e_uninit = 0, e_sameFloat = (\<lambda>_ _. False), e_sameDouble = (\<lambda>_ _. False),
     e_samePoint = (\<lambda>_ _. False), e_samePolygon = (\<lambda>_ _. False), e_cInt = (\<lambda>_ _ _ _. None), e_cLong = (\<lambda>_ _ _ _. None),
     e_cFloat = (\<lambda>_ _ _ _. None), e_cDouble = (\<lambda>_ _ _ _. None), e_cPoint = (\<lambda>_ _ _ _. None), e_cPolygon = (\<lambda>_ _ _ _. None),
     e_cString = (\<lambda>_ _ _ _. None), e_cInt8 = (\<lambda>_ _ _ _. None)\<rparr>"

definition sample_io :: io where
  "sample_io =
    \<lparr>io_dir = ''/db/'', io_writable = (\<lambda>_. True), io_stale = (\<lambda>_ _ _ n. replicate n 0), io_junk = (\<lambda>_. [255]), io_frag = 32,
     io_stof = (\<lambda>_. Inr 0), io_stod = (\<lambda>_. Inr 0), io_saveInterval = 5000, io_tables = Some 4\<rparr>"

definition sample_database :: database where
  "sample_database =
    \<lparr>db_name = ''d'', db_blockSize = 1024,
     db_tables = [(''t'', \<lparr>t_name = ''t'', t_blockSize = 4, t_columns = [(''colA'', ColInt saved_column), (''s'', ColString string_sample)],
       t_constraints = [], t_sortingColumns = [''colA''], t_saveInterval = 1000\<rparr>)]\<rparr>"

lemma stored_sample: "stored_database sample_env sample_io sample_database"
proof -
  have "packable string_type 32 string_sample_block"
    by (simp add: packable_def texts_of_def string_type_def string_sample_block entry_size_def stored_string_def)
  then have s: "stored_ic sample_env sample_io 4 (ColInt saved_column)" "stored_ic sample_env sample_io 4 (ColString string_sample)"
    by (simp_all add: stored_ic_def col_stored_def saved_column string_sample saved_block string_sample_block sample_io_def)
  have p: "ic_paths sample_io ''d'' ''t'' (ColInt saved_column) = [''/db/d@t@colA.adrs'', ''/db/d@t@colA.data'']"
    "ic_paths sample_io ''d'' ''t'' (ColString string_sample) = [''/db/d@t@s.adrs'', ''/db/d@t@s.data'', ''/db/d@t@s.fragdata'']"
    by (simp_all add: ic_paths_def has_fragments_def GetColumnType_def sample_io_def saved_column string_sample)
  have zero: "digit_char 0 = CHR ''0''" by code_simp
  have d: "default_text (ColInt saved_column) = ''0''" "default_text (ColString string_sample) = []" "ic_encoding (ColInt saved_column) = []"
    "ic_encoding (ColString string_sample) = []"
    by (simp_all add: default_text_def ic_encoding_def saved_column_def sample_column_def string_sample_def ColumnBase_new_def SetIsNullable_def
        SetIsUnique_def SetIsNullableInBlocks_def map_blocks_def show_int_def show_nat.simps zero elem_defs)
  have "ascii_table sample_io ''d'' (snd (hd (db_tables sample_database)))"
    using p d by (simp add: ascii_table_def sample_database_def)
  moreover have "stored_table sample_env sample_io (snd (hd (db_tables sample_database)))"
    using s by (simp add: stored_table_def under_limit_def sample_env_def sample_database_def ic_name_def saved_column string_sample)
  moreover have "database_paths sample_io sample_database =
      [''/db/d.db'', ''/db/d@t@colA.adrs'', ''/db/d@t@colA.data'', ''/db/d@t@s.adrs'', ''/db/d@t@s.data'', ''/db/d@t@s.fragdata'']"
    using p by (simp add: database_paths_def table_paths_def sample_database_def db_path_def sample_io_def)
  ultimately show ?thesis
    unfolding stored_database_def by (simp add: sample_database_def sample_env_def sample_io_def under_limit_def)
qed

theorem database_roundtrip_witness:
  "\<exists>db1 fs' db'. Persist json_values_ops sample_env sample_io sample_database (\<lambda>_. None) = Inr (db1, fs') \<and>
    LoadDatabase json_values_ops sample_env sample_io ''d'' ''/db/'' fs' = Inr (Some db') \<and>
    db_name db' = ''d'' \<and> db_blockSize db' = 1024 \<and> map fst (db_tables db') = [''t''] \<and>
    list_all2 same_table (map snd (db_tables sample_database)) (map snd (db_tables db'))"
proof -
  have "io_ok sample_io" by (simp add: io_ok_def sample_io_def)
  from database_roundtrip [OF json_laws_values this stored_sample, of "\<lambda>_. None"] show ?thesis
    by (simp add: sample_database_def sample_io_def)
qed

end
