(* ===== verification/Spec2Isabelle.thy ===== *)
theory Spec2Isabelle
  imports Block_Stats Table_Constraints Memory_Cache_Props Date_Correct Where_Sound Column_Persist Column_Resize Database_Tables
begin

text \<open>
  \<^bold>\<open>Verification of the core of qikkDB\<close>

  qikkDB is a column store whose queries run on the GPU. Its own logic on the host is modelled here:
  the storage of tables, the files of a column, the GPU memory that holds the blocks a query works
  on, the evaluation of WHERE clauses that decides which blocks a query may skip, and the calendar
  functions the kernels share with the host.

  \<^bold>\<open>The parts and how they interact.\<close> A \<open>Table\<close> has named columns; a column is a map from group numbers
  to lists of blocks; a block is an array of rows with a null mask and statistics. Insertion goes from
  the table (constraints, clustered index) to the columns and their blocks. \<open>Database\<close> writes the
  blocks of a column to files and reads them back. A query copies blocks to the GPU through
  \<open>GPUMemoryCache\<close>, which takes its memory from \<open>CudaMemAllocator\<close> and evicts the blocks that were
  used longest ago. Before that, the listener \<open>CpuWhereListener\<close> translates the WHERE clause to a
  program of \<open>CpuSqlDispatcher\<close>, whose functions read their operands from a \<open>MemoryStream\<close> and compute
  with the minimum and maximum of each block: a block on which the clause is surely false is skipped.

  \<^bold>\<open>Conventions.\<close> A class is a record with its fields; every operation is one definition that returns
  the new state. An operation that can throw returns \<open>err + 'a\<close> (\<open>Prelude\<close>); where the code changes the
  state before it throws, the error and the state are returned together. Reads and writes outside an
  array, null pointers, uninitialised values and signed overflow are the error \<open>UndefinedBehaviour\<close>, a
  loop that does not end is \<open>Diverges\<close>; a theorem with the result \<open>Inr\<close> excludes them. The one exception is
  the sum in the statistics of a block, an integer of the type of the column: where it overflows, the model
  keeps the two's complement value, and no result on rows, nulls, minimum or maximum depends on it. Integers are words
  of their width (\<open>int8\<close>, \<open>int32\<close>, \<open>int64\<close>, \<open>nullmask\<close>) or \<open>int\<close> and \<open>nat\<close> with the conversions \<open>to_int32\<close>
  and \<open>to_int64\<close> written out. Floating-point numbers are words with IEEE arithmetic (\<open>Floats\<close>). Loops
  are structural recursion or \<open>function\<close> with a measure, so no result depends on fuel; the loops of
  the cache (\<open>evict_loop\<close>, \<open>clear_loop\<close>) are \<open>partial_function\<close>, and that they return is proved.

  \<^bold>\<open>Theories, sources and results.\<close>

  \<^item> \<open>DataTypes\<close> (\<open>DataType.h/.cpp\<close>, \<open>ConstraintType.h/.cpp\<close>): the enumerations, names and sizes; which
    names read back as the type they were printed from.
  \<^item> \<open>NullMask\<close> (\<open>NullValues.cu\<close>): masks as lists of 64-bit words; writing a bit changes one row.
  \<^item> \<open>Elements\<close>, \<open>Floats\<close>, \<open>Conversions\<close>: what the templates need of an element type, as the record
    \<open>elem\<close>; the locale \<open>elem_order\<close> has the laws of the order, interpreted for the eight types of columns.
  \<^item> \<open>Block\<close>, \<open>Block_Correct\<close>, \<open>Block_Position\<close>, \<open>Block_Stats\<close> (\<open>BlockBase.h/.cpp\<close>): \<open>rows\<close> abstracts a
    block to the list of its optional values; appending and insertion at a position refine the list
    operations, over word boundaries of the mask, and the statistics bound the rows (locale \<open>block_elem\<close>).
  \<^item> \<open>Column\<close>, \<open>Column_Correct\<close>, \<open>Column_Mask\<close>, \<open>Column_Constraints\<close>, \<open>Column_Stats\<close>, \<open>Column_Copy\<close>,
    \<open>Column_Resize\<close> (\<open>ColumnBase.h/.cpp\<close>): insertion of fewer than \<open>2 ^ 31\<close> rows with and without null masks appends to a group across
    blocks; NOT NULL and UNIQUE; statistics of a column (locale \<open>weak_order\<close>); conversion to another type, of
    strings to numbers, and to another block size.
  \<^item> \<open>Tables\<close>, \<open>Table_Insert\<close>, \<open>Table_Index\<close>, \<open>Table_Constraints\<close> (\<open>Table.h/.cpp\<close>): columns of every type in
    one sum type, insertion, the binary search that keeps a table sorted by its index column (up to \<open>2 ^ 30\<close> rows,
    above which \<open>(left + right) / 2\<close> overflows), constraints with their rollback, ALTER TABLE, group numbers.
  \<^item> \<open>Column_Files\<close>, \<open>Column_Roundtrip\<close>, \<open>Column_Persist\<close> (\<open>Database.h/.cpp\<close>): \<open>WriteColumn\<close>,
    \<open>PersistOnlyModified\<close> and \<open>LoadColumn\<close> for columns of numbers, byte by byte. Writing and loading is a
    round trip; saving only what changed of a nullable column that was loaded gives the files of a full save
    as long as no record grows, and destroys the start of the next record when one does.
  \<^item> \<open>Geo_Text\<close>, \<open>Geo_Correct\<close> (\<open>PointFactory.cpp\<close>, \<open>ComplexPolygonFactory.cpp\<close>): well-known text with the
    number formats of streams and the regular expression of the parser, matched by derivatives; the arrays
    for the GPU. Text is read back when coordinates are plain decimals, and never when one has an exponent.
  \<^item> \<open>Column_Text\<close>, \<open>Column_Fragments\<close> (\<open>Database.h/.cpp\<close>): \<open>WriteColumn\<close> and \<open>LoadColumn\<close> for columns of
    strings and polygons, with the fragment and the address file. Writing and loading is a round trip unless
    the last text of a block starts a fragment, which is then lost. The size of a fragment is a parameter,
    so that the theorems hold for every size below \<open>2 ^ 31\<close>; the code has \<open>FRAGMENT_SIZE_BYTES\<close>.
  \<^item> \<open>Column_Points\<close> (\<open>Database.cpp\<close>): \<open>WriteColumn\<close> and \<open>LoadColumn\<close> for columns of points, a round trip.
  \<^item> \<open>Database_File\<close>, \<open>Database_Roundtrip\<close>, \<open>Database_Tables\<close> (\<open>Database.h/.cpp\<close>): the JSON file, \<open>Persist\<close> and
    \<open>LoadDatabase\<close> over the columns of every type. A saved database is loaded again with all its tables and
    columns; their constraints are lost. \<open>Json_Values\<close> has values and a text format with the laws assumed of
    the JSON library.
  \<^item> \<open>Allocator\<close>, \<open>Allocator_Correct\<close> (\<open>CudaMemAllocator.h/.cu\<close>): the chain of blocks, the multimap of free
    sizes and the pointer map, with their iterators as node names. The invariant holds in every state
    reachable by the step relation \<open>alloc_step\<close>; live allocations are disjoint; freed memory is merged.
  \<^item> \<open>Memory_Cache\<close>, \<open>Memory_Cache_Correct\<close>, \<open>Memory_Cache_Props\<close> (\<open>GPUMemoryCache.h/.cpp\<close>): the cache over
    any allocator with the laws of the locale \<open>device_alloc\<close>, which the model of \<open>CudaMemAllocator\<close> is
    shown to satisfy. Eviction ends, respects the locks it recognises and makes room.
  \<^item> \<open>Date_Operations\<close>, \<open>Date_Correct\<close> (\<open>DateOperations.h\<close>): the functors against the Gregorian calendar.
  \<^item> \<open>Memory_Stream\<close> (\<open>MemoryStream.h/.cpp\<close>): what is written is read back in order.
  \<^item> \<open>Cpu_Values\<close>, \<open>Cpu_Dispatcher\<close>, \<open>Cpu_Functions\<close> (\<open>GPUFilterConditions.cuh\<close>, \<open>ArithmeticOperations.h\<close>,
    \<open>CpuSqlDispatcher.h/.cpp\<close>, \<open>DispatcherCpu/\<close>): registers, the functions on the bounds of blocks, their
    tables, and the loop \<open>Execute\<close>.
  \<^item> \<open>Where_Listener\<close>, \<open>Where_Program\<close>, \<open>Where_Run\<close>, \<open>Where_Types\<close>, \<open>Where_Sound\<close> (\<open>CpuWhereListener.h/.cpp\<close>,
    the walk of \<open>GpuSqlCustomParser.cpp\<close>): the listener on parse trees. A typed clause is translated and
    evaluated without an error, and a block it skips has no row that satisfies the clause, for clauses of
    null tests, comparisons of integer columns with each other or with a literal on the right (not \<open>!=\<close>), \<open>AND\<close> and
    \<open>OR\<close>; with a literal on the left this fails.

  \<^bold>\<open>Parameters.\<close> The compression codec, the CUDA allocation calls, the row limit of the edition, the hash
  sets' equality, the values of uninitialised cells, the bytes of freed or uninitialised arrays that
  \<open>Database\<close> writes or fills in part (of freed ones anew for every record), the conversion of a stored default value, the set of files that
  can be opened and the operations of the library \<open>jsoncpp\<close> are arguments of the definitions. Of the latter
  \<open>json_laws\<close> assumes that members, items and values are found again and that a written document whose strings
  are ASCII is parsed to what was written.

  \<^bold>\<open>Bounds.\<close> Block sizes are below \<open>2 ^ 31\<close>, as \<open>int32_t\<close> has it; a column has fewer than \<open>2 ^ 32 - 1\<close> blocks
  in its files, since \<open>UINT32_MAX\<close> marks a block that was never saved; cache sizes are below \<open>2 ^ 62\<close>.

  \<^bold>\<open>Not modelled.\<close> The CUDA kernels and the GPU dispatcher (they run on the device), the ANTLR grammar and
  the protocol buffer messages (generated), the network server, configuration and CSV import (I/O and
  third-party parsers), threads and mutexes. Of \<open>Database\<close> the registry of
  databases, renaming and deleting, copying and the incremental saving of strings, points and polygons are left out; of the CPU dispatcher the date, string, geographic, cast and mathematical functions.
\<close>

end
